(* ===== verification/Prelude.thy ===== *)
theory Prelude
  imports Main "HOL-Library.Char_ord" "HOL-Library.List_Lexorder" "HOL-Library.Word"
begin

section \<open>Prelude: text, lists and numbers shared by the components\<close>

text \<open>
  The Rust standard-library operations on \<^verbatim>\<open>&str\<close>, \<^verbatim>\<open>char\<close> and \<^verbatim>\<open>Vec\<close> that the service
  uses, as executable functions on \<open>string\<close>, with the facts the component theories share.

  A \<^verbatim>\<open>String\<close> is a \<open>string\<close> holding ASCII text: one \<open>char\<close> is one character and one
  byte, \<open>to_lowercase\<close> and \<open>to_uppercase\<close> map the 26 ASCII letters and \<open>trim\<close> strips
  the six ASCII white-space characters (9 to 13 and 32). Unicode case folding and
  non-ASCII white space are outside the model.

  Time is an integer number of microseconds since the Unix epoch (the resolution of a
  PostgreSQL \<^verbatim>\<open>timestamptz\<close>), a UUID is the natural number its 128 bits denote.
\<close>

named_theorems text_simps "equations of the text operations"
named_theorems parse_simps "one-step equations of the parsers"
named_theorems io_simps "equations of the effect combinators"

type_synonym uuid = nat
type_synonym time = int

definition secs :: "int \<Rightarrow> time" where
  "secs n = n * 1000000"

definition minutes :: "int \<Rightarrow> time" where
  "minutes n = secs (60 * n)"

lemma secs_mono [simp]: "secs a \<le> secs b \<longleftrightarrow> a \<le> b" "secs a < secs b \<longleftrightarrow> a < b"
  by (auto simp: secs_def)

lemma secs_0 [simp]: "secs 0 = 0"
  by (simp add: secs_def)

lemma minutes_pos [simp]: "0 < minutes n \<longleftrightarrow> 0 < n"
  by (simp add: minutes_def secs_def)

subsection \<open>Characters\<close>

definition is_ascii_digit :: "char \<Rightarrow> bool" where
  "is_ascii_digit c \<longleftrightarrow> 48 \<le> (of_char c :: nat) \<and> (of_char c :: nat) \<le> 57"

definition is_ascii_lowercase :: "char \<Rightarrow> bool" where
  "is_ascii_lowercase c \<longleftrightarrow> 97 \<le> (of_char c :: nat) \<and> (of_char c :: nat) \<le> 122"

definition is_ascii_uppercase :: "char \<Rightarrow> bool" where
  "is_ascii_uppercase c \<longleftrightarrow> 65 \<le> (of_char c :: nat) \<and> (of_char c :: nat) \<le> 90"

definition is_alphanumeric :: "char \<Rightarrow> bool" where
  "is_alphanumeric c \<longleftrightarrow> is_ascii_digit c \<or> is_ascii_lowercase c \<or> is_ascii_uppercase c"

definition is_ascii_hexdigit :: "char \<Rightarrow> bool" where
  "is_ascii_hexdigit c \<longleftrightarrow> is_ascii_digit c
     \<or> (97 \<le> (of_char c :: nat) \<and> (of_char c :: nat) \<le> 102)
     \<or> (65 \<le> (of_char c :: nat) \<and> (of_char c :: nat) \<le> 70)"

definition is_whitespace :: "char \<Rightarrow> bool" where
  "is_whitespace c \<longleftrightarrow> (9 \<le> (of_char c :: nat) \<and> (of_char c :: nat) \<le> 13) \<or> (of_char c :: nat) = 32"

definition lower_char :: "char \<Rightarrow> char" where
  "lower_char c = (if is_ascii_uppercase c then char_of ((of_char c :: nat) + 32) else c)"

definition upper_char :: "char \<Rightarrow> char" where
  "upper_char c = (if is_ascii_lowercase c then char_of ((of_char c :: nat) - 32) else c)"

definition to_lowercase :: "string \<Rightarrow> string" where
  "to_lowercase s = map lower_char s"

lemmas char_class_defs =
  is_ascii_digit_def is_ascii_lowercase_def is_ascii_uppercase_def is_alphanumeric_def
  is_ascii_hexdigit_def is_whitespace_def

lemma of_char_lower_char:
  "(of_char (lower_char c) :: nat) =
     (if is_ascii_uppercase c then of_char c + 32 else of_char c)"
  by (auto simp: lower_char_def is_ascii_uppercase_def)

lemma lower_char_idem [simp]: "lower_char (lower_char c) = lower_char c"
proof -
  have "\<not> is_ascii_uppercase (lower_char c)"
    by (auto simp: is_ascii_uppercase_def of_char_lower_char)
  then show ?thesis by (simp add: lower_char_def)
qed

lemma lower_char_not_upper [simp]: "\<not> is_ascii_uppercase (lower_char c)"
  by (auto simp: is_ascii_uppercase_def of_char_lower_char)

lemma is_alphanumeric_lower_char [simp]: "is_alphanumeric (lower_char c) \<longleftrightarrow> is_alphanumeric c"
  by (auto simp: char_class_defs of_char_lower_char)

lemma is_whitespace_lower_char [simp]: "is_whitespace (lower_char c) \<longleftrightarrow> is_whitespace c"
  by (auto simp: char_class_defs of_char_lower_char)

lemma to_lowercase_idem [simp]: "to_lowercase (to_lowercase s) = to_lowercase s"
  by (simp add: to_lowercase_def)

lemma to_lowercase_simps [simp]:
  "to_lowercase [] = []" "to_lowercase (c # s) = lower_char c # to_lowercase s"
  "length (to_lowercase s) = length s" "to_lowercase s = [] \<longleftrightarrow> s = []"
  by (simp_all add: to_lowercase_def)

lemma to_lowercase_append [simp]: "to_lowercase (s @ t) = to_lowercase s @ to_lowercase t"
  by (simp add: to_lowercase_def)

subsection \<open>Trimming, splitting and joining\<close>

definition trim_start :: "string \<Rightarrow> string" where
  "trim_start s = dropWhile is_whitespace s"

definition trim_end :: "string \<Rightarrow> string" where
  "trim_end s = rev (dropWhile is_whitespace (rev s))"

definition trim :: "string \<Rightarrow> string" where
  "trim s = trim_end (trim_start s)"

definition trim_start_matches :: "char \<Rightarrow> string \<Rightarrow> string" where
  "trim_start_matches c s = dropWhile (\<lambda>d. d = c) s"

definition trim_end_matches :: "char \<Rightarrow> string \<Rightarrow> string" where
  "trim_end_matches c s = rev (dropWhile (\<lambda>d. d = c) (rev s))"

fun split_on :: "char \<Rightarrow> string \<Rightarrow> string list" where
  "split_on c [] = [[]]"
| "split_on c (d # s) = (if d = c then [] # split_on c s
     else (case split_on c s of [] \<Rightarrow> [[d]] | w # ws \<Rightarrow> (d # w) # ws))"

fun split_once :: "char \<Rightarrow> string \<Rightarrow> (string \<times> string) option" where
  "split_once c [] = None"
| "split_once c (d # s) = (if d = c then Some ([], s)
     else map_option (\<lambda>(a, b). (d # a, b)) (split_once c s))"

definition rsplit_once :: "char \<Rightarrow> string \<Rightarrow> (string \<times> string) option" where
  "rsplit_once c s = map_option (\<lambda>(a, b). (rev b, rev a)) (split_once c (rev s))"

fun strip_prefix :: "string \<Rightarrow> string \<Rightarrow> string option" where
  "strip_prefix [] s = Some s"
| "strip_prefix (p # ps) [] = None"
| "strip_prefix (p # ps) (c # s) = (if p = c then strip_prefix ps s else None)"

definition starts_with :: "string \<Rightarrow> string \<Rightarrow> bool" where
  "starts_with p s \<longleftrightarrow> take (length p) s = p"

fun join :: "string \<Rightarrow> string list \<Rightarrow> string" where
  "join sep [] = []"
| "join sep [s] = s"
| "join sep (s # t # ss) = s @ sep @ join sep (t # ss)"

lemma split_on_not_Nil [simp]: "split_on c s \<noteq> []"
  by (induction s) (auto split: list.splits)

lemma split_on_no_sep: "w \<in> set (split_on c s) \<Longrightarrow> c \<notin> set w"
  by (induction s arbitrary: w) (auto split: if_splits list.splits)

lemma join_split_on [simp]: "join [c] (split_on c s) = s"
proof (induction s)
  case Nil
  then show ?case by simp
next
  case (Cons d s)
  obtain w ws where w: "split_on c s = w # ws"
    by (cases "split_on c s") auto
  with Cons show ?case by (cases ws) auto
qed

lemma split_on_absent: "c \<notin> set s \<Longrightarrow> split_on c s = [s]"
  by (induction s) auto

lemma split_on_append_sep: "c \<notin> set s \<Longrightarrow> split_on c (s @ c # t) = s # split_on c t"
  by (induction s) auto

lemma split_on_join:
  "ws \<noteq> [] \<Longrightarrow> (\<And>w. w \<in> set ws \<Longrightarrow> c \<notin> set w) \<Longrightarrow> split_on c (join [c] ws) = ws"
proof (induction "[c]" ws rule: join.induct)
  case 1
  then show ?case by simp
next
  case (2 s)
  then show ?case by (simp add: split_on_absent)
next
  case (3 s t ss)
  then show ?case by (simp add: split_on_append_sep)
qed

lemma split_once_SomeD:
  "split_once c s = Some (a, b) \<Longrightarrow> s = a @ c # b \<and> c \<notin> set a"
  by (induction s arbitrary: a) (auto split: if_splits)

lemma split_once_append: "c \<notin> set a \<Longrightarrow> split_once c (a @ c # b) = Some (a, b)"
  by (induction a) auto

lemma split_once_Some_iff:
  "split_once c s = Some (a, b) \<longleftrightarrow> s = a @ c # b \<and> c \<notin> set a"
  using split_once_SomeD split_once_append by metis

lemma split_once_None_iff: "split_once c s = None \<longleftrightarrow> c \<notin> set s"
  by (induction s) auto

lemma rsplit_once_Some_iff:
  "rsplit_once c s = Some (a, b) \<longleftrightarrow> s = a @ c # b \<and> c \<notin> set b"
proof -
  have "rev s = rev b @ c # rev a \<longleftrightarrow> s = a @ c # b"
    by (metis append_assoc append_Cons append_Nil rev.simps(2) rev_append rev_rev_ident)
  then show ?thesis
    by (force simp: rsplit_once_def split_once_Some_iff)
qed

lemma strip_prefix_Some_iff: "strip_prefix p s = Some r \<longleftrightarrow> s = p @ r"
  by (induction p s rule: strip_prefix.induct) auto

lemma strip_prefix_append [simp]: "strip_prefix p (p @ r) = Some r"
  by (simp add: strip_prefix_Some_iff)

lemma starts_with_iff: "starts_with p s \<longleftrightarrow> (\<exists>r. s = p @ r)"
  by (metis append_eq_conv_conj append_take_drop_id starts_with_def)

lemma trim_no_ws: "(\<And>c. c \<in> set s \<Longrightarrow> \<not> is_whitespace c) \<Longrightarrow> trim s = s"
  by (simp add: trim_def trim_start_def trim_end_def dropWhile_eq_self_iff)
    (metis hd_in_set rev_is_Nil_conv set_rev dropWhile_eq_self_iff rev_rev_ident)

lemma set_trim: "set (trim s) \<subseteq> set s"
  by (auto simp: trim_def trim_start_def trim_end_def dest!: set_dropWhileD)

subsection \<open>Decimal numerals\<close>

text \<open>What \<^verbatim>\<open>{}\<close> prints for an unsigned integer.\<close>

fun nat_str :: "nat \<Rightarrow> string" where
  "nat_str n = (if n < 10 then [char_of (48 + n)] else nat_str (n div 10) @ [char_of (48 + n mod 10)])"

declare nat_str.simps [simp del]

fun str_nat_aux :: "nat \<Rightarrow> string \<Rightarrow> nat" where
  "str_nat_aux acc [] = acc"
| "str_nat_aux acc (c # s) = str_nat_aux (acc * 10 + (of_char c - 48)) s"

lemma str_nat_aux_append: "str_nat_aux acc (s @ t) = str_nat_aux (str_nat_aux acc s) t"
  by (induction s arbitrary: acc) auto

lemma str_nat_nat_str: "str_nat_aux 0 (nat_str n) = n"
proof (induction n rule: nat_str.induct)
  case (1 n)
  show ?case
  proof (cases "n < 10")
    case True
    then show ?thesis by (simp add: nat_str.simps [of n])
  next
    case False
    have "n mod 10 < 10" by simp
    then have "(48 + n mod 10) mod 256 = 48 + n mod 10" by simp
    with 1 False show ?thesis
      by (simp add: nat_str.simps [of n] str_nat_aux_append)
  qed
qed

lemma nat_str_inject [simp]: "nat_str m = nat_str n \<longleftrightarrow> m = n"
  by (metis str_nat_nat_str)

lemma nat_str_digits: "c \<in> set (nat_str n) \<Longrightarrow> is_ascii_digit c"
proof (induction n rule: nat_str.induct)
  case (1 n)
  have "n mod 10 < 10" by simp
  with 1 show ?case
    by (subst (asm) nat_str.simps) (auto simp: is_ascii_digit_def split: if_splits)
qed

lemma nat_str_not_Nil [simp]: "nat_str n \<noteq> []"
  by (subst nat_str.simps) simp

subsection \<open>Hexadecimal digits and UUIDs\<close>

definition hex_digit :: "nat \<Rightarrow> char" where
  "hex_digit n = (if n < 10 then char_of (48 + n) else char_of (87 + n))"

fun hex_digits :: "nat \<Rightarrow> nat \<Rightarrow> string" where
  "hex_digits 0 n = []"
| "hex_digits (Suc k) n = hex_digits k (n div 16) @ [hex_digit (n mod 16)]"

text \<open>The hyphenated form that \<^verbatim>\<open>Uuid\<close> displays.\<close>

definition uuid_str :: "uuid \<Rightarrow> string" where
  "uuid_str u = (let h = hex_digits 32 u in
     take 8 h @ ''-'' @ take 4 (drop 8 h) @ ''-'' @ take 4 (drop 12 h) @ ''-'' @ take 4 (drop 16 h) @ ''-'' @ drop 20 h)"

definition valid_uuid :: "uuid \<Rightarrow> bool" where
  "valid_uuid u \<longleftrightarrow> u < 2 ^ 128"

lemma hex_digit_inject: "m < 16 \<Longrightarrow> n < 16 \<Longrightarrow> hex_digit m = hex_digit n \<Longrightarrow> m = n"
  by (auto simp: hex_digit_def char_of_eq_iff take_bit_nat_eq_self split: if_splits)

lemma length_hex_digits [simp]: "length (hex_digits k n) = k"
  by (induction k arbitrary: n) auto

lemma hex_digits_inject: "m < 16 ^ k \<Longrightarrow> n < 16 ^ k \<Longrightarrow> hex_digits k m = hex_digits k n \<Longrightarrow> m = n"
proof (induction k arbitrary: m n)
  case (Suc k)
  have "m div 16 = n div 16"
    using Suc.prems by (intro Suc.IH) (auto simp: less_mult_imp_div_less mult.commute)
  moreover have "m mod 16 = n mod 16"
    using Suc.prems(3) by (auto intro: hex_digit_inject)
  ultimately show ?case by (metis div_mult_mod_eq)
qed simp

lemma length_uuid_str [simp]: "length (uuid_str u) = 36"
  by (simp add: uuid_str_def Let_def)

lemma uuid_str_inject: "valid_uuid u \<Longrightarrow> valid_uuid v \<Longrightarrow> uuid_str u = uuid_str v \<longleftrightarrow> u = v"
proof -
  assume v: "valid_uuid u" "valid_uuid v"
  have "hex_digits 32 u = hex_digits 32 v" if "uuid_str u = uuid_str v"
  proof -
    let ?a = "hex_digits 32 u" and ?b = "hex_digits 32 v"
    have "take 8 ?a = take 8 ?b" "take 4 (drop 8 ?a) = take 4 (drop 8 ?b)" "take 4 (drop 12 ?a) = take 4 (drop 12 ?b)"
      "take 4 (drop 16 ?a) = take 4 (drop 16 ?b)" "drop 20 ?a = drop 20 ?b"
      using that by (simp_all add: uuid_str_def Let_def)
    then have "take 8 ?a @ take 4 (drop 8 ?a) @ take 4 (drop 12 ?a) @ take 4 (drop 16 ?a) @ drop 20 ?a
       = take 8 ?b @ take 4 (drop 8 ?b) @ take 4 (drop 12 ?b) @ take 4 (drop 16 ?b) @ drop 20 ?b" by simp
    moreover have "take 8 h @ take 4 (drop 8 h) @ take 4 (drop 12 h) @ take 4 (drop 16 h) @ drop 20 h = h" for h :: string
    proof -
      have "take 4 (drop 16 h) @ drop 20 h = drop 16 h" using append_take_drop_id [of 4 "drop 16 h"] by (simp add: add.commute)
      moreover have "take 4 (drop 12 h) @ drop 16 h = drop 12 h" using append_take_drop_id [of 4 "drop 12 h"] by (simp add: add.commute)
      moreover have "take 4 (drop 8 h) @ drop 12 h = drop 8 h" using append_take_drop_id [of 4 "drop 8 h"] by (simp add: add.commute)
      ultimately show ?thesis by (metis append_take_drop_id)
    qed
    ultimately show ?thesis by metis
  qed
  then show ?thesis
    using v hex_digits_inject [of u 32 v] by (auto simp: valid_uuid_def)
qed

subsection \<open>Options and lists\<close>

text \<open>Rust's \<^verbatim>\<open>map(trim).filter(non-empty)\<close> idiom on optional strings.\<close>

definition non_empty_trim :: "string option \<Rightarrow> string option" where
  "non_empty_trim s = (case s of None \<Rightarrow> None
     | Some v \<Rightarrow> (if trim v = [] then None else Some (trim v)))"

lemma non_empty_trim_simps [simp]:
  "non_empty_trim None = None"
  "non_empty_trim (Some v) = (if trim v = [] then None else Some (trim v))"
  by (simp_all add: non_empty_trim_def)

lemma non_empty_trim_Some: "non_empty_trim s = Some v \<Longrightarrow> v \<noteq> []"
  by (auto simp: non_empty_trim_def split: option.splits if_splits)

text \<open>The first row of a result set: what \<^verbatim>\<open>fetch_optional\<close> returns.\<close>

definition find_first :: "('a \<Rightarrow> bool) \<Rightarrow> 'a list \<Rightarrow> 'a option" where
  "find_first P xs = List.find P xs"

lemma find_first_simps [simp]:
  "find_first P [] = None"
  "find_first P (x # xs) = (if P x then Some x else find_first P xs)"
  by (simp_all add: find_first_def)

lemma find_first_SomeD: "find_first P xs = Some x \<Longrightarrow> x \<in> set xs \<and> P x"
  by (induction xs) (auto split: if_splits)

lemma find_first_None_iff: "find_first P xs = None \<longleftrightarrow> (\<forall>x \<in> set xs. \<not> P x)"
  by (induction xs) auto

lemma find_first_append:
  "find_first P (xs @ ys) = (case find_first P xs of None \<Rightarrow> find_first P ys | Some x \<Rightarrow> Some x)"
  by (induction xs) auto

lemma find_first_unique:
  "x \<in> set xs \<Longrightarrow> P x \<Longrightarrow> (\<And>y. y \<in> set xs \<Longrightarrow> P y \<Longrightarrow> y = x) \<Longrightarrow> find_first P xs = Some x"
proof (induction xs)
  case (Cons a xs)
  then show ?case by (cases "P a") (metis find_first_simps(2) list.set_intros(1),
      metis find_first_simps(2) list.set_intros(2) set_ConsD)
qed simp

text \<open>
  Rows updated in place: \<^verbatim>\<open>UPDATE t SET .. WHERE P\<close>, with the number of rows it affects.
\<close>

definition update_rows :: "('a \<Rightarrow> bool) \<Rightarrow> ('a \<Rightarrow> 'a) \<Rightarrow> 'a list \<Rightarrow> 'a list" where
  "update_rows P f xs = map (\<lambda>x. if P x then f x else x) xs"

definition rows_affected :: "('a \<Rightarrow> bool) \<Rightarrow> 'a list \<Rightarrow> nat" where
  "rows_affected P xs = length (filter P xs)"

lemma update_rows_simps [simp]:
  "update_rows P f [] = []"
  "update_rows P f (x # xs) = (if P x then f x else x) # update_rows P f xs"
  "length (update_rows P f xs) = length xs"
  by (simp_all add: update_rows_def)

lemma set_update_rows: "set (update_rows P f xs) = (\<lambda>x. if P x then f x else x) ` set xs"
  by (simp add: update_rows_def)

lemma map_update_rows: "(\<And>x. P x \<Longrightarrow> g (f x) = g x) \<Longrightarrow> map g (update_rows P f xs) = map g xs"
  by (auto simp: update_rows_def)

lemma update_rows_none: "(\<And>x. x \<in> set xs \<Longrightarrow> \<not> P x) \<Longrightarrow> update_rows P f xs = xs"
  by (induction xs) auto

lemma find_first_update_rows:
  "(\<And>x. P x \<Longrightarrow> Q (f x) \<longleftrightarrow> Q x) \<Longrightarrow>
   find_first Q (update_rows P f xs) = map_option (\<lambda>x. if P x then f x else x) (find_first Q xs)"
  by (induction xs) auto

lemma rows_affected_0 [simp]: "rows_affected P xs = 0 \<longleftrightarrow> (\<forall>x \<in> set xs. \<not> P x)"
  by (auto simp: rows_affected_def filter_empty_conv)

text \<open>Chaining two vectors and keeping the first occurrence of every element.\<close>

fun dedup_seen :: "'a set \<Rightarrow> 'a list \<Rightarrow> 'a list" where
  "dedup_seen seen [] = []"
| "dedup_seen seen (x # xs) =
     (if x \<in> seen then dedup_seen seen xs else x # dedup_seen (insert x seen) xs)"

lemma set_dedup_seen: "set (dedup_seen seen xs) = set xs - seen"
  by (induction xs arbitrary: seen) auto

lemma distinct_dedup_seen: "distinct (dedup_seen seen xs)"
  by (induction xs arbitrary: seen) (auto simp: set_dedup_seen)

text \<open>\<^verbatim>\<open>Vec::dedup\<close> on adjacent equal elements.\<close>

fun dedup_adj :: "('a \<Rightarrow> 'a \<Rightarrow> bool) \<Rightarrow> 'a list \<Rightarrow> 'a list" where
  "dedup_adj eq [] = []"
| "dedup_adj eq [x] = [x]"
| "dedup_adj eq (x # y # xs) =
     (if eq y x then dedup_adj eq (x # xs) else x # dedup_adj eq (y # xs))"

lemma dedup_adj_hd: "\<exists>ys. dedup_adj eq (x # xs) = x # ys"
  by (induction xs arbitrary: x) auto

lemma set_dedup_adj_eq: "set (dedup_adj (\<lambda>a b. a = b) xs) = set xs"
  by (induction "\<lambda>(a::'a) b. a = b" xs rule: dedup_adj.induct) auto

lemma sorted_distinct_dedup_adj:
  fixes xs :: "'a::linorder list"
  shows "sorted xs \<Longrightarrow> sorted (dedup_adj (\<lambda>a b. a = b) xs) \<and> distinct (dedup_adj (\<lambda>a b. a = b) xs)"
proof (induction "\<lambda>(a::'a) b. a = b" xs rule: dedup_adj.induct)
  case (3 x y xs)
  then show ?case by (cases "x = y") (force simp: set_dedup_adj_eq)+
qed auto

end
