(* ===== verification/Errors.thy ===== *)
theory Errors
  imports Prelude
begin

section \<open>Application errors and effects\<close>

text \<open>
  \<^verbatim>\<open>src/error.rs\<close>: the error enum, its HTTP mapping and the conversion of database errors;
  and the effect type of every operation that reads or writes the service's state. An
  operation is a function from the state to a result (\<open>Inl\<close> an \<^verbatim>\<open>AppError\<close>, \<open>Inr\<close> a
  value) and the state it leaves: a statement already executed stays executed when a
  later one fails, as with the separate SQL statements of a handler.
\<close>

datatype app_error =
    BadRequest string
  | Unauthorized string
  | Forbidden string
  | NotFound string
  | Conflict string
  | Locked string
  | AccessExpired string
  | TooManyRequests string
  | Validation string
  | Internal string

fun display_error :: "app_error \<Rightarrow> string" where
  "display_error (BadRequest s) = ''Bad request: '' @ s"
| "display_error (Unauthorized s) = ''Unauthorized: '' @ s"
| "display_error (Forbidden s) = ''Forbidden: '' @ s"
| "display_error (NotFound s) = ''Not found: '' @ s"
| "display_error (Conflict s) = ''Conflict: '' @ s"
| "display_error (Locked s) = ''Account locked: '' @ s"
| "display_error (AccessExpired s) = ''Access expired: '' @ s"
| "display_error (TooManyRequests s) = ''Rate limit: '' @ s"
| "display_error (Validation s) = ''Validation error: '' @ s"
| "display_error (Internal s) = ''Internal error: '' @ s"

record error_body =
  eb_error :: string
  eb_message :: string

fun status_and_code :: "app_error \<Rightarrow> nat \<times> string" where
  "status_and_code (BadRequest _) = (400, ''bad_request'')"
| "status_and_code (Unauthorized _) = (401, ''unauthorized'')"
| "status_and_code (Forbidden _) = (403, ''forbidden'')"
| "status_and_code (NotFound _) = (404, ''not_found'')"
| "status_and_code (Conflict _) = (409, ''conflict'')"
| "status_and_code (Locked _) = (423, ''account_locked'')"
| "status_and_code (AccessExpired _) = (403, ''access_expired'')"
| "status_and_code (TooManyRequests _) = (429, ''rate_limited'')"
| "status_and_code (Validation _) = (422, ''invalid_filter'')"
| "status_and_code (Internal _) = (500, ''internal_error'')"

definition into_response :: "app_error \<Rightarrow> nat \<times> error_body" where
  "into_response e = (case status_and_code e of (status, code) \<Rightarrow>
     (status, \<lparr>eb_error = code, eb_message = display_error e\<rparr>))"

text \<open>The cases of \<^verbatim>\<open>sqlx::Error\<close> that \<^verbatim>\<open>From<sqlx::Error>\<close> distinguishes.\<close>

datatype sqlx_error = RowNotFound | UniqueViolation | OtherSqlError string

fun from_sqlx :: "sqlx_error \<Rightarrow> app_error" where
  "from_sqlx RowNotFound = NotFound ''Resource not found''"
| "from_sqlx UniqueViolation = Conflict ''Resource already exists''"
| "from_sqlx (OtherSqlError m) = Internal m"

subsection \<open>Results\<close>

type_synonym 'a result = "app_error + 'a"

definition bind_res :: "'e + 'a \<Rightarrow> ('a \<Rightarrow> 'e + 'b) \<Rightarrow> 'e + 'b" where
  "bind_res r k = (case r of Inl e \<Rightarrow> Inl e | Inr x \<Rightarrow> k x)"

lemma bind_res_simps [simp]:
  "bind_res (Inl e) k = Inl e" "bind_res (Inr x) k = k x"
  by (simp_all add: bind_res_def)

lemma bind_res_Inr_iff: "bind_res r k = Inr y \<longleftrightarrow> (\<exists>x. r = Inr x \<and> k x = Inr y)"
  by (cases r) auto

lemma bind_res_Inl_iff:
  "bind_res r k = Inl e \<longleftrightarrow> r = Inl e \<or> (\<exists>x. r = Inr x \<and> k x = Inl e)"
  by (cases r) auto

definition ensure :: "bool \<Rightarrow> 'e \<Rightarrow> 'e + unit" where
  "ensure b e = (if b then Inr () else Inl e)"

lemma ensure_simps [simp]:
  "ensure b e = Inr u \<longleftrightarrow> b" "ensure b e = Inl e' \<longleftrightarrow> \<not> b \<and> e' = e"
  "ensure True e = Inr ()" "ensure False e = Inl e"
  by (auto simp: ensure_def)

definition ok_or :: "'e \<Rightarrow> 'a option \<Rightarrow> 'e + 'a" where
  "ok_or e x = (case x of None \<Rightarrow> Inl e | Some v \<Rightarrow> Inr v)"

lemma ok_or_simps [simp]:
  "ok_or e None = Inl e" "ok_or e (Some v) = Inr v"
  "ok_or e x = Inr y \<longleftrightarrow> x = Some y"
  "ok_or e x = Inl e' \<longleftrightarrow> x = None \<and> e' = e"
  by (cases x; auto simp: ok_or_def)+

text \<open>Rust's \<^verbatim>\<open>map_err\<close>.\<close>

definition map_err :: "('f \<Rightarrow> 'e) \<Rightarrow> 'f + 'a \<Rightarrow> 'e + 'a" where
  "map_err f r = (case r of Inl e \<Rightarrow> Inl (f e) | Inr v \<Rightarrow> Inr v)"

lemma map_err_simps [simp]:
  "map_err f (Inl e) = Inl (f e)" "map_err f (Inr v) = Inr v"
  "map_err f r = Inr v \<longleftrightarrow> r = Inr v"
  "map_err f r = Inl e' \<longleftrightarrow> (\<exists>e. r = Inl e \<and> e' = f e)"
  by (cases r; auto simp: map_err_def)+

lemma case_map_err [simp]:
  "(case map_err f r of Inl e \<Rightarrow> a e | Inr v \<Rightarrow> b v) = (case r of Inl e \<Rightarrow> a (f e) | Inr v \<Rightarrow> b v)"
  by (cases r) simp_all

text \<open>Collecting the results of a mapped fallible function, left to right.\<close>

fun map_res :: "('a \<Rightarrow> 'e + 'b) \<Rightarrow> 'a list \<Rightarrow> 'e + 'b list" where
  "map_res f [] = Inr []"
| "map_res f (x # xs) = bind_res (f x) (\<lambda>y. bind_res (map_res f xs) (\<lambda>ys. Inr (y # ys)))"

lemma map_res_cong [fundef_cong]:
  "xs = ys \<Longrightarrow> (\<And>x. x \<in> set ys \<Longrightarrow> f x = g x) \<Longrightarrow> map_res f xs = map_res g ys"
  by (induction ys arbitrary: xs) auto

lemma map_res_length: "map_res f xs = Inr ys \<Longrightarrow> length ys = length xs"
  by (induction xs arbitrary: ys) (auto simp: bind_res_Inr_iff)

subsection \<open>Effects\<close>

type_synonym ('s, 'a) io = "'s \<Rightarrow> 'a result \<times> 's"

definition ret :: "'a \<Rightarrow> ('s, 'a) io" where
  "ret x = (\<lambda>s. (Inr x, s))"

definition throw :: "app_error \<Rightarrow> ('s, 'a) io" where
  "throw e = (\<lambda>s. (Inl e, s))"

definition lift :: "'a result \<Rightarrow> ('s, 'a) io" where
  "lift r = (\<lambda>s. (r, s))"

definition gets :: "('s \<Rightarrow> 'a) \<Rightarrow> ('s, 'a) io" where
  "gets f = (\<lambda>s. (Inr (f s), s))"

definition modify :: "('s \<Rightarrow> 's) \<Rightarrow> ('s, unit) io" where
  "modify f = (\<lambda>s. (Inr (), f s))"

definition bindE :: "('s, 'a) io \<Rightarrow> ('a \<Rightarrow> ('s, 'b) io) \<Rightarrow> ('s, 'b) io" where
  "bindE m k = (\<lambda>s. case m s of (Inl e, t) \<Rightarrow> (Inl e, t) | (Inr x, t) \<Rightarrow> k x t)"

definition unless :: "bool \<Rightarrow> app_error \<Rightarrow> ('s, unit) io" where
  "unless b e = (if b then ret () else throw e)"

definition get_or :: "app_error \<Rightarrow> ('s, 'a option) io \<Rightarrow> ('s, 'a) io" where
  "get_or e m = bindE m (\<lambda>x. case x of None \<Rightarrow> throw e | Some v \<Rightarrow> ret v)"

text \<open>\<^verbatim>\<open>let _ = .. .await;\<close> and \<^verbatim>\<open>unwrap_or_default\<close>: an error is dropped.\<close>

definition catch_default :: "'a \<Rightarrow> ('s, 'a) io \<Rightarrow> ('s, 'a) io" where
  "catch_default d m = (\<lambda>s. case m s of (Inl _, t) \<Rightarrow> (Inr d, t) | (Inr x, t) \<Rightarrow> (Inr x, t))"

lemma io_run [simp]:
  "ret x s = (Inr x, s)" "throw e s = (Inl e, s)" "lift r s = (r, s)"
  "gets f s = (Inr (f s), s)" "modify g s = (Inr (), g s)"
  "unless b e s = (if b then (Inr (), s) else (Inl e, s))"
  by (simp_all add: ret_def throw_def lift_def gets_def modify_def unless_def)

lemma bindE_ret [simp]: "bindE (ret x) k = k x"
  by (simp add: bindE_def ret_def)

lemma bindE_run: "bindE m k s = (case m s of (Inl e, t) \<Rightarrow> (Inl e, t) | (Inr x, t) \<Rightarrow> k x t)"
  by (simp add: bindE_def)

lemma bindE_step [simp]:
  "m s = (Inr x, t) \<Longrightarrow> bindE m k s = k x t"
  "m s = (Inl e, t) \<Longrightarrow> bindE m k s = (Inl e, t)"
  by (simp_all add: bindE_def)

lemma bindE_gets [simp]: "bindE (gets f) k s = k (f s) s"
  by (simp add: bindE_run)

lemma bindE_modify [simp]: "bindE (modify f) k s = k () (f s)"
  by (simp add: bindE_run)

lemma bindE_lift [simp]: "bindE (lift r) k s = (case r of Inl e \<Rightarrow> (Inl e, s) | Inr x \<Rightarrow> k x s)"
  by (simp add: bindE_run split: sum.split)

lemma bindE_unless [simp]: "bindE (unless b e) k s = (if b then k () s else (Inl e, s))"
  by (simp add: bindE_run)

lemma bindE_throw [simp]: "bindE (throw e) k s = (Inl e, s)"
  by (simp add: bindE_run)

lemma bindE_assoc: "bindE (bindE m k) l = bindE m (\<lambda>x. bindE (k x) l)"
  by (rule ext) (auto simp: bindE_run split: prod.splits sum.splits)

lemma bindE_Inr_iff:
  "bindE m k s = (Inr y, t) \<longleftrightarrow> (\<exists>x u. m s = (Inr x, u) \<and> k x u = (Inr y, t))"
  by (auto simp: bindE_run split: prod.splits sum.splits)

lemma bindE_Inl_iff:
  "bindE m k s = (Inl e, t) \<longleftrightarrow>
     m s = (Inl e, t) \<or> (\<exists>x u. m s = (Inr x, u) \<and> k x u = (Inl e, t))"
  by (auto simp: bindE_run split: prod.splits sum.splits)

lemma case_res_Inr_iff:
  "(case r of Inl e \<Rightarrow> (Inl e, s) | Inr x \<Rightarrow> f x) = (Inr y, t) \<longleftrightarrow> (\<exists>x. r = Inr x \<and> f x = (Inr y, t))"
  by (cases r) auto

lemma get_or_run [simp]:
  "get_or e m s = (case m s of (Inl e', t) \<Rightarrow> (Inl e', t)
     | (Inr None, t) \<Rightarrow> (Inl e, t) | (Inr (Some v), t) \<Rightarrow> (Inr v, t))"
  by (simp add: get_or_def bindE_run split: prod.splits sum.splits option.splits)

subsection \<open>State predicates that an operation keeps\<close>

text \<open>
  \<open>keeps P m\<close>: from a state with \<open>P\<close>, \<open>m\<close> ends in a state with \<open>P\<close>, whether it returns or
  fails. The rules below follow the combinators, so that an invariant of a handler is
  proved from the invariants of its statements.
\<close>

definition keeps :: "('s \<Rightarrow> bool) \<Rightarrow> ('s, 'a) io \<Rightarrow> bool" where
  "keeps P m \<longleftrightarrow> (\<forall>s. P s \<longrightarrow> P (snd (m s)))"

named_theorems keeps_rules "invariant preservation, one rule per combinator and operation"

lemma keepsI: "(\<And>s r t. P s \<Longrightarrow> m s = (r, t) \<Longrightarrow> P t) \<Longrightarrow> keeps P m"
  by (metis keeps_def prod.collapse)

lemma keepsD: "keeps P m \<Longrightarrow> P s \<Longrightarrow> m s = (r, t) \<Longrightarrow> P t"
  by (auto simp: keeps_def dest: spec [of _ s])

lemma keeps_pure [keeps_rules, simp, intro]:
  "keeps P (ret x)" "keeps P (throw e)" "keeps P (lift r)" "keeps P (gets f)" "keeps P (unless b e)"
  by (auto simp: keeps_def)

lemma keeps_modify [keeps_rules]: "(\<And>s. P s \<Longrightarrow> P (f s)) \<Longrightarrow> keeps P (modify f)"
  by (auto simp: keeps_def)

lemma keeps_bindE [keeps_rules, intro]:
  assumes "keeps P m" and "\<And>x. keeps P (k x)"
  shows "keeps P (bindE m k)"
proof (rule keepsI)
  fix s r t
  assume "P s" and "bindE m k s = (r, t)"
  then consider e where "m s = (Inl e, t)" | x u where "m s = (Inr x, u)" "k x u = (r, t)"
    by (cases "m s") (auto simp: bindE_run split: sum.splits)
  then show "P t"
    using \<open>P s\<close> by cases (blast dest: keepsD [OF assms(1)] keepsD [OF assms(2)])+
qed

lemma keeps_get_or [keeps_rules, intro]: "keeps P m \<Longrightarrow> keeps P (get_or e m)"
  unfolding get_or_def by (rule keeps_bindE) (auto split: option.splits)

lemma snd_catch_default [simp]: "snd (catch_default d m s) = snd (m s)"
  by (cases "m s") (simp add: catch_default_def split: sum.split)

lemma keeps_catch_default [keeps_rules, intro]: "keeps P m \<Longrightarrow> keeps P (catch_default d m)"
  by (simp add: keeps_def)

lemma keeps_if [keeps_rules, intro]: "keeps P m \<Longrightarrow> keeps P n \<Longrightarrow> keeps P (if b then m else n)"
  by simp

lemma keeps_option [keeps_rules, intro]:
  "keeps P m \<Longrightarrow> (\<And>x. keeps P (k x)) \<Longrightarrow> keeps P (case v of None \<Rightarrow> m | Some x \<Rightarrow> k x)"
  by (cases v) auto

lemma keeps_prod [keeps_rules, intro]: "(\<And>a b. keeps P (k a b)) \<Longrightarrow> keeps P (case v of (a, b) \<Rightarrow> k a b)"
  by (cases v) auto


subsection \<open>Operations that only read\<close>

definition readonly :: "('s, 'a) io \<Rightarrow> bool" where
  "readonly m \<longleftrightarrow> (\<forall>s. snd (m s) = s)"

named_theorems readonly_rules "operations that leave the state unchanged"

lemma readonlyD: "readonly m \<Longrightarrow> m s = (r, t) \<Longrightarrow> t = s"
  by (metis readonly_def snd_conv)

lemma readonly_run: "readonly m \<Longrightarrow> m s = (fst (m s), s)"
  by (metis prod.collapse readonly_def)

lemma bindE_readonly:
  "readonly m \<Longrightarrow> bindE m k s = (case fst (m s) of Inl e \<Rightarrow> (Inl e, s) | Inr x \<Rightarrow> k x s)"
  by (cases "m s") (auto simp: bindE_run readonly_def split: sum.splits dest: spec [of _ s])

lemma readonly_pure [readonly_rules, simp, intro]:
  "readonly (ret x)" "readonly (throw e)" "readonly (lift r)" "readonly (gets f)" "readonly (unless b e)"
  by (auto simp: readonly_def)

lemma readonly_bindE [readonly_rules, intro]:
  "readonly m \<Longrightarrow> (\<And>x. readonly (k x)) \<Longrightarrow> readonly (bindE m k)"
  by (auto simp: readonly_def bindE_readonly bindE_run split: prod.splits sum.splits) (metis snd_conv)+

lemma readonly_if [readonly_rules, intro]: "readonly m \<Longrightarrow> readonly n \<Longrightarrow> readonly (if b then m else n)"
  by simp

lemma readonly_option [readonly_rules, intro]:
  "readonly m \<Longrightarrow> (\<And>x. readonly (k x)) \<Longrightarrow> readonly (case v of None \<Rightarrow> m | Some x \<Rightarrow> k x)"
  by (cases v) auto

lemma readonly_get_or [readonly_rules, intro]: "readonly m \<Longrightarrow> readonly (get_or e m)"
  unfolding get_or_def by (rule readonly_bindE) (auto split: option.splits)

lemma readonly_keeps: "readonly m \<Longrightarrow> keeps P m"
  by (simp add: readonly_def keeps_def)


text \<open>The state an operation ends in from one given state, when earlier reads matter.\<close>

definition ends_in :: "('s \<Rightarrow> bool) \<Rightarrow> ('s, 'a) io \<Rightarrow> 's \<Rightarrow> bool" where
  "ends_in P m s \<longleftrightarrow> P (snd (m s))"

lemma keeps_ends: "(\<And>s. P s \<Longrightarrow> ends_in P m s) \<Longrightarrow> keeps P m"
  by (simp add: keeps_def ends_in_def)

lemma ends_keeps: "keeps P m \<Longrightarrow> P s \<Longrightarrow> ends_in P m s"
  by (simp add: keeps_def ends_in_def)

lemma ends_readonly: "readonly m \<Longrightarrow> P s \<Longrightarrow> ends_in P m s"
  by (simp add: readonly_def ends_in_def)

lemma ends_bind_read:
  assumes "readonly m" "P s" "\<And>x. m s = (Inr x, s) \<Longrightarrow> ends_in P (k x) s"
  shows "ends_in P (bindE m k) s"
  using assms readonly_run [OF assms(1), of s]
  by (cases "fst (m s)") (auto simp: ends_in_def bindE_readonly)

lemma ends_bind:
  assumes "keeps P m" "P s" "\<And>x t. m s = (Inr x, t) \<Longrightarrow> P t \<Longrightarrow> ends_in P (k x) t"
  shows "ends_in P (bindE m k) s"
proof (cases "m s")
  case (Pair r t)
  then have "P t" using assms(1,2) by (rule keepsD [rotated 2])
  with Pair assms(3) show ?thesis
    by (cases r) (auto simp: ends_in_def)
qed

subsection \<open>Transactions and loops\<close>

text \<open>\<^verbatim>\<open>pool.begin() .. tx.commit()\<close>: a failure undoes every statement of the block.\<close>

definition in_tx :: "('s, 'a) io \<Rightarrow> ('s, 'a) io" where
  "in_tx m = (\<lambda>s. case m s of (Inl e, _) \<Rightarrow> (Inl e, s) | (Inr x, t) \<Rightarrow> (Inr x, t))"

fun for_each :: "('x \<Rightarrow> ('s, unit) io) \<Rightarrow> 'x list \<Rightarrow> ('s, unit) io" where
  "for_each f [] = ret ()"
| "for_each f (x # xs) = bindE (f x) (\<lambda>_. for_each f xs)"

lemma in_tx_Inr_iff: "in_tx m s = (Inr x, t) \<longleftrightarrow> m s = (Inr x, t)"
  by (cases "m s") (auto simp: in_tx_def split: sum.splits)

lemma in_tx_Inl_iff: "in_tx m s = (Inl e, t) \<longleftrightarrow> t = s \<and> (\<exists>u. m s = (Inl e, u))"
  by (cases "m s") (auto simp: in_tx_def split: sum.splits)

lemma keeps_in_tx [keeps_rules, intro]: "keeps P m \<Longrightarrow> keeps P (in_tx m)"
  by (rule keepsI) (case_tac r; auto simp: in_tx_Inr_iff in_tx_Inl_iff dest: keepsD)

lemma keeps_for_each [keeps_rules, intro]: "(\<And>x. keeps P (f x)) \<Longrightarrow> keeps P (for_each f xs)"
  by (induction xs) auto

subsection \<open>The errors an operation can return\<close>

definition fails_only :: "(app_error \<Rightarrow> bool) \<Rightarrow> ('s, 'a) io \<Rightarrow> bool" where
  "fails_only P m \<longleftrightarrow> (\<forall>s. case fst (m s) of Inl e \<Rightarrow> P e | Inr _ \<Rightarrow> True)"

named_theorems fails_rules "error behaviour, one rule per combinator and operation"

lemma fails_onlyD: "fails_only P m \<Longrightarrow> m s = (Inl e, t) \<Longrightarrow> P e"
  by (auto simp: fails_only_def dest!: spec [of _ s])

lemma fails_onlyI: "(\<And>s e t. m s = (Inl e, t) \<Longrightarrow> P e) \<Longrightarrow> fails_only P m"
  unfolding fails_only_def by (metis prod.collapse sum.case_eq_if sum.collapse(1))

lemma fails_pure [fails_rules]:
  "fails_only P (ret x)" "fails_only P (gets f)" "fails_only P (modify g)"
  by (simp_all add: fails_only_def)

lemma fails_throw [fails_rules]: "P e \<Longrightarrow> fails_only P (throw e)"
  by (simp add: fails_only_def)

lemma fails_unless [fails_rules]: "P e \<Longrightarrow> fails_only P (unless b e)"
  by (simp add: fails_only_def)

lemma fails_lift [fails_rules]: "(\<And>e. r = Inl e \<Longrightarrow> P e) \<Longrightarrow> fails_only P (lift r)"
  by (simp add: fails_only_def split: sum.split)

lemma fails_bindE [fails_rules]:
  "fails_only P m \<Longrightarrow> (\<And>x. fails_only P (k x)) \<Longrightarrow> fails_only P (bindE m k)"
  by (rule fails_onlyI) (auto simp: bindE_Inl_iff dest: fails_onlyD)

lemma fails_get_or [fails_rules]: "P e \<Longrightarrow> fails_only P m \<Longrightarrow> fails_only P (get_or e m)"
  unfolding get_or_def by (rule fails_bindE) (auto split: option.split intro: fails_rules)

lemma fails_catch [fails_rules]: "fails_only P (catch_default d m)"
  by (auto simp: fails_only_def catch_default_def split: prod.splits sum.splits)

lemma fails_in_tx [fails_rules]: "fails_only P m \<Longrightarrow> fails_only P (in_tx m)"
  by (rule fails_onlyI) (auto simp: in_tx_Inl_iff dest: fails_onlyD)

lemma fails_for_each [fails_rules]: "(\<And>x. fails_only P (f x)) \<Longrightarrow> fails_only P (for_each f xs)"
  by (induction xs) (auto intro: fails_rules)

lemma fails_if [fails_rules]: "fails_only P m \<Longrightarrow> fails_only P n \<Longrightarrow> fails_only P (if b then m else n)"
  by simp

lemma fails_option [fails_rules]:
  "fails_only P m \<Longrightarrow> (\<And>x. fails_only P (k x)) \<Longrightarrow> fails_only P (case v of None \<Rightarrow> m | Some x \<Rightarrow> k x)"
  by (cases v) auto

lemma fails_prod [fails_rules]: "(\<And>a b. fails_only P (k a b)) \<Longrightarrow> fails_only P (case v of (a, b) \<Rightarrow> k a b)"
  by (cases v) auto

lemma fails_sum [fails_rules]:
  "(\<And>x. fails_only P (f x)) \<Longrightarrow> (\<And>x. fails_only P (k x)) \<Longrightarrow> fails_only P (case v of Inl x \<Rightarrow> f x | Inr x \<Rightarrow> k x)"
  by (cases v) auto

lemma fails_weaken: "fails_only P m \<Longrightarrow> (\<And>e. P e \<Longrightarrow> Q e) \<Longrightarrow> fails_only Q m"
  by (rule fails_onlyI) (blast dest: fails_onlyD)

text \<open>The errors a statement or a configuration read can return: none of them blames the caller.\<close>

fun store_error :: "app_error \<Rightarrow> bool" where
  "store_error (NotFound _) = True"
| "store_error (Conflict _) = True"
| "store_error (Internal _) = True"
| "store_error _ = False"

lemma store_error_from_sqlx [simp]: "store_error (from_sqlx e)"
  by (cases e) simp_all

end
