(* ===== verification/Rsql.thy ===== *)
theory Rsql
  imports Errors
begin

section \<open>The RSQL parser\<close>

text \<open>
  \<^verbatim>\<open>src/query/rsql.rs\<close>: the recursive-descent parser of list filters and the sort
  parser. The parser's state is the character vector \<open>cs\<close>, which never changes, and the
  position \<open>p\<close>; a parser function returns a message (\<open>Inl\<close>) or a value with the new
  position (\<open>Inr\<close>). The \<^verbatim>\<open>while\<close> loops are the functions \<open>or_loop\<close>, \<open>and_loop\<close>,
  \<open>args_loop\<close>, \<open>quoted_loop\<close> and \<open>scan_while\<close>.

  The theory shows that parsing terminates on every input (the mutual recursion is
  total), that every tree it returns is well formed, and that it inverts the printer
  \<open>print_node\<close> of the documented grammar on every well-formed tree.
\<close>

datatype rsql_op =
    OpEq | OpNeq | OpGt | OpGe | OpLt | OpLe | OpIn | OpOut | OpLike | OpIlike
  | OpContains | OpStarts | OpEnds | OpBetween
  | OpNull bool

fun display_op :: "rsql_op \<Rightarrow> string" where
  "display_op OpEq = ''==''"
| "display_op OpNeq = ''!=''"
| "display_op OpGt = ''=gt=''"
| "display_op OpGe = ''=ge=''"
| "display_op OpLt = ''=lt=''"
| "display_op OpLe = ''=le=''"
| "display_op OpIn = ''=in=''"
| "display_op OpOut = ''=out=''"
| "display_op OpLike = ''=like=''"
| "display_op OpIlike = ''=ilike=''"
| "display_op OpContains = ''=contains=''"
| "display_op OpStarts = ''=starts=''"
| "display_op OpEnds = ''=ends=''"
| "display_op OpBetween = ''=between=''"
| "display_op (OpNull _) = ''=null=''"

datatype filter_node =
    And "filter_node list"
  | Or "filter_node list"
  | Leaf string rsql_op "string list"

record sort_spec =
  sort_field :: string
  sort_desc :: bool

subsection \<open>Lexical level\<close>

definition peek :: "char list \<Rightarrow> nat \<Rightarrow> char option" where
  "peek cs p = (if p < length cs then Some (cs ! p) else None)"

definition at_end :: "char list \<Rightarrow> nat \<Rightarrow> bool" where
  "at_end cs p \<longleftrightarrow> length cs \<le> p"

definition slice :: "nat \<Rightarrow> nat \<Rightarrow> char list \<Rightarrow> string" where
  "slice a b cs = take (b - a) (drop a cs)"

function scan_while :: "(char \<Rightarrow> bool) \<Rightarrow> char list \<Rightarrow> nat \<Rightarrow> nat" where
  "scan_while P cs p = (case peek cs p of
       None \<Rightarrow> p
     | Some c \<Rightarrow> (if P c then scan_while P cs (p + 1) else p))"
  by pat_completeness auto
termination
  by (relation "measure (\<lambda>(P, cs, p). length cs - p)") (auto simp: peek_def split: if_splits)

declare scan_while.simps [simp del]

definition selector_char :: "char \<Rightarrow> bool" where
  "selector_char c \<longleftrightarrow> is_alphanumeric c \<or> c = CHR ''_''"

definition parse_selector :: "char list \<Rightarrow> nat \<Rightarrow> string + string \<times> nat" where
  "parse_selector cs p = (let e = scan_while selector_char cs p in
     if e = p then Inl (''expected field name at position '' @ nat_str p)
     else Inr (slice p e cs, e))"

fun named_op :: "string \<Rightarrow> rsql_op option" where
  "named_op name =
     (if name = ''gt'' then Some OpGt else if name = ''ge'' then Some OpGe
      else if name = ''lt'' then Some OpLt else if name = ''le'' then Some OpLe
      else if name = ''in'' then Some OpIn else if name = ''out'' then Some OpOut
      else if name = ''like'' then Some OpLike else if name = ''ilike'' then Some OpIlike
      else if name = ''contains'' then Some OpContains
      else if name = ''starts'' then Some OpStarts
      else if name = ''ends'' then Some OpEnds
      else if name = ''between'' then Some OpBetween
      else if name = ''null'' then Some (OpNull True) else None)"

definition parse_operator :: "char list \<Rightarrow> nat \<Rightarrow> string + (rsql_op \<times> string) \<times> nat" where
  "parse_operator cs p =
     (let two = (if p + 2 \<le> length cs then slice p (p + 2) cs else []) in
      if two = ''=='' then Inr ((OpEq, ''==''), p + 2)
      else if two = ''!='' then Inr ((OpNeq, ''!=''), p + 2)
      else if peek cs p = Some (CHR ''='') then
        (let start = p + 1; e = scan_while (\<lambda>c. c \<noteq> CHR ''='') cs start in
         if peek cs e \<noteq> Some (CHR ''='')
         then Inl (''unterminated operator at position '' @ nat_str e)
         else (let name = slice start e cs in
           case named_op name of
             None \<Rightarrow> Inl (''unknown operator '' @ [CHR 0x27] @ ''='' @ name @ ''='' @ [CHR 0x27]
                          @ '' at position '' @ nat_str (e + 1))
           | Some op \<Rightarrow> Inr ((op, name), e + 1)))
      else Inl (''expected operator at position '' @ nat_str p))"

function quoted_loop :: "char list \<Rightarrow> nat \<Rightarrow> string \<Rightarrow> string + string \<times> nat" where
  "quoted_loop cs p val = (case peek cs p of
       None \<Rightarrow> Inl (''unterminated quoted value at position '' @ nat_str p)
     | Some c \<Rightarrow> (if c = CHR 0x22 then Inr (val, p + 1) else quoted_loop cs (p + 1) (val @ [c])))"
  by pat_completeness auto
termination
  by (relation "measure (\<lambda>(cs, p, val). length cs - p)") (auto simp: peek_def split: if_splits)

declare quoted_loop.simps [simp del]

definition reserved_char :: "char \<Rightarrow> bool" where
  "reserved_char c \<longleftrightarrow> c \<in> set '',;()''"

definition parse_value :: "char list \<Rightarrow> nat \<Rightarrow> string + string \<times> nat" where
  "parse_value cs p =
     (if peek cs p = Some (CHR 0x22) then quoted_loop cs (p + 1) []
      else (let e = scan_while (\<lambda>c. \<not> reserved_char c) cs p in Inr (slice p e cs, e)))"

lemma scan_while_ge: "p \<le> scan_while P cs p"
proof (induction P cs p rule: scan_while.induct)
  case (1 P cs p)
  then show ?case
    by (subst scan_while.simps) (auto split: option.splits)
qed

lemma quoted_loop_ge: "quoted_loop cs p v = Inr (w, q) \<Longrightarrow> p < q"
proof (induction cs p v rule: quoted_loop.induct)
  case (1 cs p v)
  from "1.prems" show ?case
    by (subst (asm) quoted_loop.simps) (auto split: option.splits if_splits dest: "1.IH")
qed

lemma parse_value_ge: "parse_value cs p = Inr (v, q) \<Longrightarrow> p \<le> q"
  by (auto simp: parse_value_def Let_def scan_while_ge split: if_splits dest: quoted_loop_ge)

function args_loop :: "char list \<Rightarrow> nat \<Rightarrow> string list \<Rightarrow> string + string list \<times> nat" where
  "args_loop cs p vs = (case parse_value cs p of
       Inl e \<Rightarrow> Inl e
     | Inr (v, q) \<Rightarrow>
         (if peek cs q = Some (CHR '','') then args_loop cs (q + 1) (vs @ [v])
          else if peek cs q = Some (CHR '')'') then Inr (vs @ [v], q + 1)
          else Inl (''expected '' @ [CHR 0x27] @ '','' @ [CHR 0x27] @ '' or '' @ [CHR 0x27] @ '')''
                    @ [CHR 0x27] @ '' at position '' @ nat_str q)))"
  by pat_completeness auto
termination
  by (relation "measure (\<lambda>(cs, p, vs). length cs - p)")
    (auto simp: peek_def split: if_splits dest: parse_value_ge)

declare args_loop.simps [simp del]

fun is_list_op :: "rsql_op \<Rightarrow> bool" where
  "is_list_op OpIn = True"
| "is_list_op OpOut = True"
| "is_list_op OpBetween = True"
| "is_list_op _ = False"

definition parse_arguments :: "rsql_op \<Rightarrow> char list \<Rightarrow> nat \<Rightarrow> string + string list \<times> nat" where
  "parse_arguments op cs p =
     (if is_list_op op then
        (if peek cs p \<noteq> Some (CHR ''('')
         then Inl (''expected '' @ [CHR 0x27] @ ''('' @ [CHR 0x27] @ '' after operator at position '' @ nat_str p)
         else args_loop cs (p + 1) [])
      else bind_res (parse_value cs p) (\<lambda>(v, q). Inr ([v], q)))"

definition parse_leaf :: "char list \<Rightarrow> nat \<Rightarrow> string + filter_node \<times> nat" where
  "parse_leaf cs p =
     bind_res (parse_selector cs p) (\<lambda>(field, p1).
     bind_res (parse_operator cs p1) (\<lambda>((op_raw, op_name), p2).
       if op_name = ''null'' then
         bind_res (parse_value cs p2) (\<lambda>(raw, p3).
           if to_lowercase raw = ''true'' then Inr (Leaf field (OpNull True) [], p3)
           else if to_lowercase raw = ''false'' then Inr (Leaf field (OpNull False) [], p3)
           else Inl (''=null= expects true or false, got '' @ [CHR 0x27] @ to_lowercase raw @ [CHR 0x27]))
       else
         bind_res (parse_arguments op_raw cs p2) (\<lambda>(values, p3).
           Inr (Leaf field op_raw values, p3))))"

subsection \<open>Expressions\<close>

definition or_node :: "filter_node list \<Rightarrow> filter_node" where
  "or_node parts = (if length parts = 1 then hd parts else Or parts)"

definition and_node :: "filter_node list \<Rightarrow> filter_node" where
  "and_node parts = (if length parts = 1 then hd parts else And parts)"

function (domintros)
      parse_or :: "char list \<Rightarrow> nat \<Rightarrow> string + filter_node \<times> nat"
  and or_loop :: "char list \<Rightarrow> nat \<Rightarrow> filter_node list \<Rightarrow> string + filter_node \<times> nat"
  and parse_and :: "char list \<Rightarrow> nat \<Rightarrow> string + filter_node \<times> nat"
  and and_loop :: "char list \<Rightarrow> nat \<Rightarrow> filter_node list \<Rightarrow> string + filter_node \<times> nat"
  and parse_atom :: "char list \<Rightarrow> nat \<Rightarrow> string + filter_node \<times> nat"
where
  "parse_or cs p = (case parse_and cs p of Inl e \<Rightarrow> Inl e
     | Inr (n, q) \<Rightarrow> or_loop cs q [n])"
| "or_loop cs p parts =
     (if peek cs p = Some (CHR '','') then
        (case parse_and cs (p + 1) of Inl e \<Rightarrow> Inl e
         | Inr (n, q) \<Rightarrow> or_loop cs q (parts @ [n]))
      else Inr (or_node parts, p))"
| "parse_and cs p = (case parse_atom cs p of Inl e \<Rightarrow> Inl e
     | Inr (n, q) \<Rightarrow> and_loop cs q [n])"
| "and_loop cs p parts =
     (if peek cs p = Some (CHR '';'') then
        (case parse_atom cs (p + 1) of Inl e \<Rightarrow> Inl e
         | Inr (n, q) \<Rightarrow> and_loop cs q (parts @ [n]))
      else Inr (and_node parts, p))"
| "parse_atom cs p =
     (if peek cs p = Some (CHR ''('') then
        (case parse_or cs (p + 1) of Inl e \<Rightarrow> Inl e
         | Inr (n, q) \<Rightarrow>
             (if peek cs q \<noteq> Some (CHR '')'')
              then Inl (''expected '' @ [CHR 0x27] @ '')'' @ [CHR 0x27] @ '' at position '' @ nat_str q)
              else Inr (n, q + 1)))
      else parse_leaf cs p)"
  by pat_completeness auto


lemma parse_selector_gt: "parse_selector cs p = Inr (f, q) \<Longrightarrow> p < q"
  by (auto simp: parse_selector_def Let_def split: if_splits)
    (metis le_neq_implies_less scan_while_ge)

lemma parse_operator_gt: "parse_operator cs p = Inr (r, q) \<Longrightarrow> p < q"
proof -
  have "p < Suc (scan_while P cs (Suc p))" for P
    using scan_while_ge [of "Suc p" P cs] by simp
  then show "parse_operator cs p = Inr (r, q) \<Longrightarrow> p < q"
    by (auto simp: parse_operator_def Let_def simp del: named_op.simps split: if_splits option.splits)
qed

lemma args_loop_gt: "args_loop cs p vs = Inr (ws, q) \<Longrightarrow> p < q"
proof (induction cs p vs rule: args_loop.induct)
  case (1 cs p vs)
  from "1.prems" obtain v r where v: "parse_value cs p = Inr (v, r)"
    by (subst (asm) args_loop.simps) (auto split: sum.splits)
  have "p \<le> r" using v by (rule parse_value_ge)
  with "1.prems" show ?case
    by (subst (asm) args_loop.simps) (auto simp: v split: if_splits dest: "1.IH" [OF v refl])
qed

lemma parse_arguments_ge: "parse_arguments op cs p = Inr (vs, q) \<Longrightarrow> p \<le> q"
  by (auto simp: parse_arguments_def bind_res_Inr_iff split: if_splits
      dest: args_loop_gt parse_value_ge)

lemma parse_leaf_gt: "parse_leaf cs p = Inr (n, q) \<Longrightarrow> p < q"
  by (auto simp: parse_leaf_def bind_res_Inr_iff split: if_splits prod.splits
      dest!: parse_selector_gt parse_operator_gt parse_value_ge parse_arguments_ge)

text \<open>
  Every parser function consumes input, on every argument where it is defined; this is
  what makes the recursion well-founded, so it comes before the termination proof.
\<close>

lemma parse_progress:
  "parse_or_or_loop_parse_and_and_loop_parse_atom_dom (Inl (Inl (cs, p))) \<Longrightarrow>
     (\<forall>n q. parse_or cs p = Inr (n, q) \<longrightarrow> p < q)"
  "parse_or_or_loop_parse_and_and_loop_parse_atom_dom (Inl (Inr (cs, p, parts))) \<Longrightarrow>
     (\<forall>n q. or_loop cs p parts = Inr (n, q) \<longrightarrow> p \<le> q)"
  "parse_or_or_loop_parse_and_and_loop_parse_atom_dom (Inr (Inl (cs, p))) \<Longrightarrow>
     (\<forall>n q. parse_and cs p = Inr (n, q) \<longrightarrow> p < q)"
  "parse_or_or_loop_parse_and_and_loop_parse_atom_dom (Inr (Inr (Inl (cs, p, parts)))) \<Longrightarrow>
     (\<forall>n q. and_loop cs p parts = Inr (n, q) \<longrightarrow> p \<le> q)"
  "parse_or_or_loop_parse_and_and_loop_parse_atom_dom (Inr (Inr (Inr (cs, p)))) \<Longrightarrow>
     (\<forall>n q. parse_atom cs p = Inr (n, q) \<longrightarrow> p < q)"
proof (induction cs p and cs p parts and cs p and cs p parts and cs p
    rule: parse_or_or_loop_parse_and_and_loop_parse_atom.pinduct)
  case (1 cs p)
  then show ?case
    by (fastforce simp: parse_or.psimps split: sum.splits)
next
  case (2 cs p parts)
  then show ?case
    by (fastforce simp: or_loop.psimps split: sum.splits if_splits)
next
  case (3 cs p)
  then show ?case
    by (fastforce simp: parse_and.psimps split: sum.splits)
next
  case (4 cs p parts)
  then show ?case
    by (fastforce simp: and_loop.psimps split: sum.splits if_splits)
next
  case (5 cs p)
  then show ?case
    by (fastforce simp: parse_atom.psimps split: sum.splits if_splits dest: parse_leaf_gt)
qed

termination parse_or
  by (relation "measures [
        case_sum (case_sum (\<lambda>(cs, p). length cs - p) (\<lambda>(cs, p, parts). length cs - p))
          (case_sum (\<lambda>(cs, p). length cs - p)
             (case_sum (\<lambda>(cs, p, parts). length cs - p) (\<lambda>(cs, p). length cs - p))),
        case_sum (case_sum (\<lambda>_. 4) (\<lambda>_. 0)) (case_sum (\<lambda>_. 3) (case_sum (\<lambda>_. 0) (\<lambda>_. 2)))]")
    (auto simp: peek_def split: if_splits dest!: parse_progress [rule_format])

declare parse_or.simps [simp del] or_loop.simps [simp del] parse_and.simps [simp del]
  and_loop.simps [simp del] parse_atom.simps [simp del]

text \<open>\<^verbatim>\<open>parse_expression\<close> is \<^verbatim>\<open>parse_or\<close>.\<close>

definition parse_rsql :: "string \<Rightarrow> filter_node result" where
  "parse_rsql input =
     (let trimmed = trim input in
      if trimmed = [] then Inl (Validation ''empty RSQL expression'')
      else (case parse_or trimmed 0 of
          Inl e \<Rightarrow> Inl (Validation (''RSQL parse error: '' @ e))
        | Inr (node, pos) \<Rightarrow>
            (if at_end trimmed pos then Inr node
             else Inl (Validation (''RSQL parse error: unexpected token at position '' @ nat_str pos)))))"

definition sort_token :: "string \<Rightarrow> sort_spec option" where
  "sort_token part0 =
     (let part = trim part0 in
      if part = [] then None
      else (case strip_prefix ''-'' part of
          Some field \<Rightarrow> (if field = [] then None else Some \<lparr>sort_field = field, sort_desc = True\<rparr>)
        | None \<Rightarrow> Some \<lparr>sort_field = part, sort_desc = False\<rparr>))"

definition parse_sort :: "string \<Rightarrow> sort_spec list" where
  "parse_sort input = List.map_filter sort_token (split_on (CHR '','') input)"

subsection \<open>The language of filters\<close>

text \<open>
  The trees the grammar can express: connectives have at least two operands, a field is
  a non-empty word of selector characters, the number of values is the one the operator
  takes, and a value is one that can be written, quoted or bare.
\<close>

definition expressible :: "string \<Rightarrow> bool" where
  "expressible v \<longleftrightarrow> CHR 0x22 \<notin> set v
     \<or> (hd v \<noteq> CHR 0x22 \<and> list_all (\<lambda>c. \<not> reserved_char c) v)"

fun arity_ok :: "rsql_op \<Rightarrow> nat \<Rightarrow> bool" where
  "arity_ok (OpNull b) n \<longleftrightarrow> n = 0"
| "arity_ok op n \<longleftrightarrow> (if is_list_op op then 1 \<le> n else n = 1)"

fun wf_node :: "filter_node \<Rightarrow> bool" where
  "wf_node (And ts) \<longleftrightarrow> 2 \<le> length ts \<and> list_all wf_node ts"
| "wf_node (Or ts) \<longleftrightarrow> 2 \<le> length ts \<and> list_all wf_node ts"
| "wf_node (Leaf f op vs) \<longleftrightarrow> f \<noteq> [] \<and> list_all selector_char f \<and> arity_ok op (length vs)
     \<and> list_all expressible vs"

definition print_value :: "string \<Rightarrow> string" where
  "print_value v = (if CHR 0x22 \<notin> set v then CHR 0x22 # v @ [CHR 0x22] else v)"

fun print_leaf :: "string \<Rightarrow> rsql_op \<Rightarrow> string list \<Rightarrow> string" where
  "print_leaf f (OpNull b) vs = f @ ''=null='' @ (if b then ''true'' else ''false'')"
| "print_leaf f op vs = f @ display_op op @
     (if is_list_op op then ''('' @ join '','' (map print_value vs) @ '')''
      else concat (map print_value vs))"

fun print_atom :: "filter_node \<Rightarrow> string" where
  "print_atom (And ts) = ''('' @ join '';'' (map print_atom ts) @ '')''"
| "print_atom (Or ts) = ''('' @ join '','' (map print_atom ts) @ '')''"
| "print_atom (Leaf f op vs) = print_leaf f op vs"

definition print_node :: "filter_node \<Rightarrow> string" where
  "print_node t = ''('' @ print_atom t @ '')''"

subsection \<open>What the scanning loops compute\<close>

lemma peek_drop: "peek cs p = (case drop p cs of [] \<Rightarrow> None | c # r \<Rightarrow> Some c)"
proof (cases "p < length cs")
  case True
  then show ?thesis by (simp add: peek_def Cons_nth_drop_Suc [symmetric])
qed (simp add: peek_def)

lemma drop_Suc_Cons: "drop p cs = c # r \<Longrightarrow> drop (Suc p) cs = r"
  by (metis drop_Suc list.sel(3) tl_drop)

lemma drop_Cons_length: "drop p cs = c # r \<Longrightarrow> Suc (length cs - Suc p) = length cs - p"
  by (metis Suc_diff_Suc drop_all list.discI not_le)

lemma drop_append_skip: "drop p cs = s @ r \<Longrightarrow> drop (p + length s) cs = r"
  by (metis add.commute append_eq_conv_conj drop_drop)

lemma slice_drop: "slice p (p + n) cs = take n (drop p cs)"
  by (simp add: slice_def)

lemma scan_while_eq: "scan_while P cs p = p + length (takeWhile P (drop p cs))"
proof (induction P cs p rule: scan_while.induct)
  case (1 P cs p)
  then show ?case
    by (subst scan_while.simps)
      (auto simp: peek_drop dest: drop_Suc_Cons split: list.splits)
qed

lemma slice_scan_while: "slice p (scan_while P cs p) cs = takeWhile P (drop p cs)"
  by (simp add: scan_while_eq slice_drop takeWhile_eq_take [symmetric])

lemma quoted_loop_eq:
  "quoted_loop cs p v = (if CHR 0x22 \<in> set (drop p cs)
     then Inr (v @ takeWhile (\<lambda>c. c \<noteq> CHR 0x22) (drop p cs),
               p + length (takeWhile (\<lambda>c. c \<noteq> CHR 0x22) (drop p cs)) + 1)
     else Inl (''unterminated quoted value at position '' @ nat_str (p + length (drop p cs))))"
proof (induction cs p v rule: quoted_loop.induct)
  case (1 cs p v)
  then show ?case
    by (subst quoted_loop.simps)
      (auto simp: peek_drop dest: drop_Suc_Cons drop_Cons_length split: list.splits)
qed

subsection \<open>Parsed trees are well formed\<close>

lemma parse_value_expressible: "parse_value cs p = Inr (v, q) \<Longrightarrow> expressible v"
proof -
  have "expressible (takeWhile (\<lambda>c. c \<noteq> CHR 0x22) xs)" for xs
    by (auto simp: expressible_def dest: set_takeWhileD)
  moreover have "hd xs \<noteq> CHR 0x22 \<or> xs = [] \<Longrightarrow>
      expressible (takeWhile (\<lambda>c. \<not> reserved_char c) xs)" for xs
    by (cases xs) (auto simp: expressible_def list_all_iff dest: set_takeWhileD)
  moreover have "expressible []" by (simp add: expressible_def)
  moreover have "peek cs p \<noteq> Some (CHR 0x22) \<Longrightarrow> hd (drop p cs) \<noteq> CHR 0x22 \<or> drop p cs = []"
    by (auto simp: peek_drop split: list.splits)
  ultimately show "parse_value cs p = Inr (v, q) \<Longrightarrow> expressible v"
    by (auto simp: parse_value_def quoted_loop_eq slice_scan_while Let_def split: if_splits)
qed

lemma args_loop_wf:
  "args_loop cs p vs = Inr (ws, q) \<Longrightarrow> list_all expressible vs \<Longrightarrow> list_all expressible ws \<and> 1 \<le> length ws"
proof (induction cs p vs rule: args_loop.induct)
  case (1 cs p vs)
  from "1.prems" obtain v r where v: "parse_value cs p = Inr (v, r)"
    by (subst (asm) args_loop.simps) (auto split: sum.splits)
  have "expressible v" using v by (rule parse_value_expressible)
  with "1.prems" show ?case
    by (subst (asm) args_loop.simps) (auto simp: v split: if_splits dest: "1.IH" [OF v refl])
qed

lemma parse_operator_null:
  "parse_operator cs p = Inr ((op, name), q) \<Longrightarrow> name \<noteq> ''null'' \<Longrightarrow> (\<forall>b. op \<noteq> OpNull b)"
  by (auto simp: parse_operator_def Let_def split: if_splits option.splits)

lemma arity_ok_iff:
  "(\<forall>b. op \<noteq> OpNull b) \<Longrightarrow> arity_ok op n \<longleftrightarrow> (if is_list_op op then 1 \<le> n else n = 1)"
  by (cases op) auto

lemma parse_arguments_wf:
  "parse_arguments op cs p = Inr (vs, q) \<Longrightarrow> (\<forall>b. op \<noteq> OpNull b) \<Longrightarrow>
     arity_ok op (length vs) \<and> list_all expressible vs"
  by (auto simp: parse_arguments_def bind_res_Inr_iff arity_ok_iff split: if_splits
      dest: args_loop_wf parse_value_expressible)

lemma parse_selector_wf: "parse_selector cs p = Inr (f, q) \<Longrightarrow> f \<noteq> [] \<and> list_all selector_char f"
  using scan_while_eq [of selector_char cs p]
  by (auto simp: parse_selector_def slice_scan_while Let_def list_all_iff
      split: if_splits dest: set_takeWhileD)

lemma parse_leaf_wf: "parse_leaf cs p = Inr (t, q) \<Longrightarrow> wf_node t"
  by (auto simp: parse_leaf_def bind_res_Inr_iff split: if_splits prod.splits
      dest!: parse_selector_wf) (blast dest: parse_operator_null parse_arguments_wf)+

lemma or_node_wf: "parts \<noteq> [] \<Longrightarrow> list_all wf_node parts \<Longrightarrow> wf_node (or_node parts)"
  by (cases parts) (auto simp: or_node_def Suc_le_eq)

lemma and_node_wf: "parts \<noteq> [] \<Longrightarrow> list_all wf_node parts \<Longrightarrow> wf_node (and_node parts)"
  by (cases parts) (auto simp: and_node_def Suc_le_eq)

lemma parse_wf:
  "parse_or cs p = Inr (t, q) \<Longrightarrow> wf_node t"
  "or_loop cs p parts = Inr (t, q) \<Longrightarrow> parts \<noteq> [] \<Longrightarrow> list_all wf_node parts \<Longrightarrow> wf_node t"
  "parse_and cs p = Inr (t, q) \<Longrightarrow> wf_node t"
  "and_loop cs p parts = Inr (t, q) \<Longrightarrow> parts \<noteq> [] \<Longrightarrow> list_all wf_node parts \<Longrightarrow> wf_node t"
  "parse_atom cs p = Inr (t, q) \<Longrightarrow> wf_node t"
proof (induction cs p and cs p parts and cs p and cs p parts and cs p arbitrary: t q and t q and t q
    and t q and t q rule: parse_or_or_loop_parse_and_and_loop_parse_atom.induct)
  case (1 cs p)
  from "1.prems" obtain n r where n: "parse_and cs p = Inr (n, r)" "or_loop cs r [n] = Inr (t, q)"
    by (subst (asm) parse_or.simps) (auto split: sum.splits)
  then show ?case
    using "1.IH"(2) [OF n(1) refl n(2)] "1.IH"(1) [OF n(1)] by simp
next
  case (2 cs p parts)
  show ?case
  proof (cases "peek cs p = Some (CHR '','')")
    case True
    with "2.prems" obtain n r where n: "parse_and cs (p + 1) = Inr (n, r)"
        "or_loop cs r (parts @ [n]) = Inr (t, q)"
      by (subst (asm) or_loop.simps) (auto split: sum.splits)
    with True show ?thesis
      using "2.IH"(2) [OF True n(1) refl n(2)] "2.IH"(1) [OF True n(1)] "2.prems" by simp
  next
    case False
    with "2.prems" show ?thesis
      by (subst (asm) or_loop.simps) (auto intro: or_node_wf)
  qed
next
  case (3 cs p)
  from "3.prems" obtain n r where n: "parse_atom cs p = Inr (n, r)" "and_loop cs r [n] = Inr (t, q)"
    by (subst (asm) parse_and.simps) (auto split: sum.splits)
  then show ?case
    using "3.IH"(2) [OF n(1) refl n(2)] "3.IH"(1) [OF n(1)] by simp
next
  case (4 cs p parts)
  show ?case
  proof (cases "peek cs p = Some (CHR '';'')")
    case True
    with "4.prems" obtain n r where n: "parse_atom cs (p + 1) = Inr (n, r)"
        "and_loop cs r (parts @ [n]) = Inr (t, q)"
      by (subst (asm) and_loop.simps) (auto split: sum.splits)
    with True show ?thesis
      using "4.IH"(2) [OF True n(1) refl n(2)] "4.IH"(1) [OF True n(1)] "4.prems" by simp
  next
    case False
    with "4.prems" show ?thesis
      by (subst (asm) and_loop.simps) (auto intro: and_node_wf)
  qed
next
  case (5 cs p)
  from "5.prems" show ?case
    by (subst (asm) parse_atom.simps)
      (auto split: sum.splits if_splits intro: parse_leaf_wf "5.IH")
qed

lemma parse_rsql_wf: "parse_rsql s = Inr t \<Longrightarrow> wf_node t"
  by (auto simp: parse_rsql_def Let_def split: if_splits sum.splits dest: parse_wf(1))


subsection \<open>Parsing inverts printing\<close>

text \<open>The printed form is followed by nothing or by a character that ends a bare value.\<close>

definition delimited :: "string \<Rightarrow> bool" where
  "delimited r \<longleftrightarrow> r = [] \<or> reserved_char (hd r)"

lemma peek_at [parse_simps]: "drop p cs = c # r \<Longrightarrow> peek cs p = Some c"
  by (simp add: peek_drop)

lemma reserved_chars [simp]:
  "reserved_char (CHR '','')" "reserved_char (CHR '';'')" "reserved_char (CHR '')'')"
  "reserved_char (CHR ''('')" "\<not> reserved_char (CHR 0x22)"
  by (simp_all add: reserved_char_def)

lemma takeWhile_delimited:
  "list_all P v \<Longrightarrow> r = [] \<or> \<not> P (hd r) \<Longrightarrow> takeWhile P (v @ r) = v"
  by (induction v) (auto, cases r, auto)

lemma parse_value_bare:
  assumes "v \<noteq> []" "hd v \<noteq> CHR 0x22" "list_all (\<lambda>c. \<not> reserved_char c) v" "delimited r"
    and d: "drop p cs = v @ r"
  shows "parse_value cs p = Inr (v, p + length v)"
proof -
  have "peek cs p \<noteq> Some (CHR 0x22)"
    using assms(1,2) d by (cases v) (auto simp: peek_drop)
  moreover have "takeWhile (\<lambda>c. \<not> reserved_char c) (drop p cs) = v"
    unfolding d using assms(3,4) by (intro takeWhile_delimited) (auto simp: delimited_def)
  ultimately show ?thesis
    by (simp add: parse_value_def Let_def slice_scan_while) (simp add: scan_while_eq)
qed

lemma parse_value_print:
  assumes "expressible v" "delimited r" "drop p cs = print_value v @ r"
  shows "parse_value cs p = Inr (v, p + length (print_value v))"
proof (cases "CHR 0x22 \<in> set v")
  case False
  then have d: "drop p cs = CHR 0x22 # v @ CHR 0x22 # r"
    using assms(3) by (simp add: print_value_def)
  have "takeWhile (\<lambda>c. c \<noteq> CHR 0x22) (v @ CHR 0x22 # r) = v"
    using False by (intro takeWhile_delimited) (auto simp: list_all_iff)
  with False d show ?thesis
    by (simp add: parse_value_def peek_at quoted_loop_eq drop_Suc_Cons [OF d] print_value_def)
next
  case True
  then show ?thesis
    using assms parse_value_bare [of v r p cs]
    by (cases "v = []") (auto simp: expressible_def print_value_def)
qed

lemma args_loop_print:
  assumes "vs \<noteq> []" "list_all expressible vs"
    "drop p cs = join '','' (map print_value vs) @ CHR '')'' # r"
  shows "args_loop cs p ws = Inr (ws @ vs, p + length (join '','' (map print_value vs)) + 1)"
  using assms
proof (induction vs arbitrary: p ws rule: list_nonempty_induct)
  case (single v)
  then have "parse_value cs p = Inr (v, p + length (print_value v))"
    by (intro parse_value_print) (auto simp: delimited_def)
  moreover have "drop (p + length (print_value v)) cs = CHR '')'' # r"
    using single by (intro drop_append_skip) simp
  ultimately show ?case
    by (subst args_loop.simps) (simp add: peek_at)
next
  case (cons v vs)
  let ?rest = "join '','' (map print_value vs) @ CHR '')'' # r"
  have d: "drop p cs = print_value v @ CHR '','' # ?rest"
    using cons by (cases vs) auto
  then have v: "parse_value cs p = Inr (v, p + length (print_value v))"
    using cons by (intro parse_value_print) (auto simp: delimited_def)
  have q: "drop (p + length (print_value v)) cs = CHR '','' # ?rest"
    using d by (rule drop_append_skip)
  have "args_loop cs (p + length (print_value v) + 1) (ws @ [v]) =
      Inr ((ws @ [v]) @ vs, p + length (print_value v) + 1 + length (join '','' (map print_value vs)) + 1)"
    using cons drop_Suc_Cons [OF q] by (intro cons.IH) auto
  with v q cons(1) show ?case
    by (subst args_loop.simps) (cases vs, auto simp: peek_at)
qed

lemma parse_operator_sym:
  "drop p cs = ''=='' @ r \<Longrightarrow> parse_operator cs p = Inr ((OpEq, ''==''), p + 2)"
  "drop p cs = ''!='' @ r \<Longrightarrow> parse_operator cs p = Inr ((OpNeq, ''!=''), p + 2)"
proof -
  have "drop p cs = a # b # r \<Longrightarrow> p + 2 \<le> length cs \<and> slice p (p + 2) cs = [a, b]" for a b
  proof
    assume d: "drop p cs = a # b # r"
    then have "length cs - p = length r + 2" by (metis length_drop length_Cons add_2_eq_Suc')
    then show "p + 2 \<le> length cs" by simp
    show "slice p (p + 2) cs = [a, b]" using d by (simp add: slice_def)
  qed
  then show "drop p cs = ''=='' @ r \<Longrightarrow> parse_operator cs p = Inr ((OpEq, ''==''), p + 2)"
    "drop p cs = ''!='' @ r \<Longrightarrow> parse_operator cs p = Inr ((OpNeq, ''!=''), p + 2)"
    by (auto simp: parse_operator_def)
qed

lemma parse_operator_named:
  assumes "name \<noteq> []" "CHR ''='' \<notin> set name" "named_op name = Some op"
    and d: "drop p cs = CHR ''='' # name @ CHR ''='' # r"
  shows "parse_operator cs p = Inr ((op, name), p + length name + 2)"
proof -
  have two: "slice p (p + 2) cs \<noteq> ''==''" "slice p (p + 2) cs \<noteq> ''!=''"
  proof -
    have "take 2 (drop p cs) = [CHR ''='', hd name]" "hd name \<in> set name"
      using assms(1) by (auto simp: d neq_Nil_conv)
    then show "slice p (p + 2) cs \<noteq> ''==''" "slice p (p + 2) cs \<noteq> ''!=''"
      using assms(2) by (auto simp: slice_def)
  qed
  have d': "drop (p + 1) cs = name @ CHR ''='' # r"
    using drop_Suc_Cons [OF d] by simp
  have tw: "takeWhile (\<lambda>c. c \<noteq> CHR ''='') (name @ CHR ''='' # r) = name"
    using assms(2) by (intro takeWhile_delimited) (auto simp: list_all_iff)
  have e: "scan_while (\<lambda>c. c \<noteq> CHR ''='') cs (p + 1) = p + 1 + length name"
    by (simp only: scan_while_eq d' tw)
  have "slice (p + 1) (p + 1 + length name) cs = name"
    by (simp only: slice_drop d') simp
  moreover have "peek cs (p + 1 + length name) = Some (CHR ''='')"
    using drop_append_skip [OF d'] by (simp add: peek_at)
  ultimately show ?thesis
    using two d e assms(3)
    by (simp add: parse_operator_def Let_def peek_at del: named_op.simps)
qed

lemma parse_operator_print:
  assumes "drop p cs = display_op op @ r"
  shows "\<exists>name. parse_operator cs p =
           Inr ((case op of OpNull b \<Rightarrow> OpNull True | _ \<Rightarrow> op, name), p + length (display_op op))
         \<and> (name = ''null'' \<longleftrightarrow> (\<exists>b. op = OpNull b))"
proof -
  have named: "\<exists>n. parse_operator cs p = Inr ((op', n), p + length (display_op op)) \<and> (n = ''null'' \<longleftrightarrow> Q)"
    if "display_op op = CHR ''='' # name @ ''=''" "name \<noteq> []" "CHR ''='' \<notin> set name"
       "named_op name = Some op'" "name = ''null'' \<longleftrightarrow> Q" for name op' Q
  proof -
    have "drop p cs = CHR ''='' # name @ CHR ''='' # r" using assms that(1) by simp
    from parse_operator_named [OF that(2-4) this] that(1,5) show ?thesis by auto
  qed
  show ?thesis
  proof (cases op)
    case OpEq
    then show ?thesis using parse_operator_sym(1) [of p cs r] assms by auto
  next
    case OpNeq
    then show ?thesis using parse_operator_sym(2) [of p cs r] assms by auto
  qed (rule named [where name = "butlast (tl (display_op op))"]; simp)+
qed

lemma parse_selector_print:
  assumes "f \<noteq> []" "list_all selector_char f" "r = [] \<or> \<not> selector_char (hd r)" "drop p cs = f @ r"
  shows "parse_selector cs p = Inr (f, p + length f)"
proof -
  have "takeWhile selector_char (drop p cs) = f"
    using assms by (simp add: takeWhile_delimited)
  then have "scan_while selector_char cs p = p + length f" "slice p (p + length f) cs = f"
    using assms(4) by (simp_all add: scan_while_eq slice_drop)
  with assms(1) show ?thesis by (simp add: parse_selector_def Let_def)
qed

definition print_args :: "rsql_op \<Rightarrow> string list \<Rightarrow> string" where
  "print_args op vs = (case op of OpNull b \<Rightarrow> (if b then ''true'' else ''false'')
     | _ \<Rightarrow> if is_list_op op then ''('' @ join '','' (map print_value vs) @ '')''
            else concat (map print_value vs))"

lemma print_leaf_eq: "print_leaf f op vs = f @ display_op op @ print_args op vs"
  by (cases op) (simp_all add: print_args_def)

lemma parse_arguments_print:
  assumes "\<forall>b. op \<noteq> OpNull b" "arity_ok op (length vs)" "list_all expressible vs" "delimited r"
    "drop p cs = print_args op vs @ r"
  shows "parse_arguments op cs p = Inr (vs, p + length (print_args op vs))"
proof (cases "is_list_op op")
  case True
  then have d: "drop p cs = CHR ''('' # join '','' (map print_value vs) @ CHR '')'' # r"
    using assms(1,5) by (cases op) (auto simp: print_args_def)
  have "vs \<noteq> []" using assms(1,2) True by (auto simp: arity_ok_iff)
  from args_loop_print [OF this assms(3), of "p + 1" cs r "[]"] drop_Suc_Cons [OF d]
  have "args_loop cs (p + 1) [] = Inr (vs, p + 1 + length (join '','' (map print_value vs)) + 1)"
    by simp
  moreover have "length (print_args op vs) = length (join '','' (map print_value vs)) + 2"
    using True assms(1) by (cases op) (auto simp: print_args_def)
  ultimately show ?thesis
    using True d by (simp add: parse_arguments_def peek_at)
next
  case False
  then obtain v where v: "vs = [v]"
    using assms(1,2) by (auto simp: arity_ok_iff length_Suc_conv)
  have a: "print_args op vs = print_value v"
    using False assms(1) v by (cases op) (auto simp: print_args_def)
  have "parse_value cs p = Inr (v, p + length (print_value v))"
    using assms(3,4,5) v a by (intro parse_value_print) auto
  with False v a show ?thesis by (simp add: parse_arguments_def)
qed

lemma parse_leaf_print:
  assumes "wf_node (Leaf f op vs)" "delimited r" "drop p cs = print_leaf f op vs @ r"
  shows "parse_leaf cs p = Inr (Leaf f op vs, p + length (print_leaf f op vs))"
proof -
  let ?p1 = "p + length f" and ?p2 = "p + length f + length (display_op op)"
  have d: "drop p cs = f @ display_op op @ print_args op vs @ r"
    using assms(3) by (simp add: print_leaf_eq)
  have d1: "drop ?p1 cs = display_op op @ print_args op vs @ r"
    using d by (rule drop_append_skip)
  have d2: "drop ?p2 cs = print_args op vs @ r"
    using d1 by (rule drop_append_skip)
  have "\<not> selector_char (hd (display_op op @ print_args op vs @ r))"
    by (cases op) (auto simp: selector_char_def char_class_defs)
  then have sel: "parse_selector cs p = Inr (f, ?p1)"
    using assms(1) by (intro parse_selector_print [OF _ _ _ d]) auto
  obtain name where opr: "parse_operator cs ?p1 =
      Inr ((case op of OpNull b \<Rightarrow> OpNull True | _ \<Rightarrow> op, name), ?p2)"
      "name = ''null'' \<longleftrightarrow> (\<exists>b. op = OpNull b)"
    using parse_operator_print [OF d1] by auto
  show ?thesis
  proof (cases "\<exists>b. op = OpNull b")
    case True
    then obtain b where b: "op = OpNull b" by auto
    then have "parse_value cs ?p2 = Inr (print_args op vs, ?p2 + length (print_args op vs))"
      by (intro parse_value_bare [OF _ _ _ assms(2) d2]) (auto simp: print_args_def reserved_char_def)
    with sel opr b assms(1) show ?thesis
      by (auto simp: parse_leaf_def print_leaf_eq print_args_def lower_char_def is_ascii_uppercase_def)
  next
    case False
    then have "parse_arguments op cs ?p2 = Inr (vs, ?p2 + length (print_args op vs))"
      using assms(1,2) d2 by (intro parse_arguments_print) auto
    with sel opr False show ?thesis
      by (cases op) (auto simp: parse_leaf_def print_leaf_eq)
  qed
qed

text \<open>
  \<open>atom_inverse cs t\<close>: wherever the printed form of \<open>t\<close> stands in \<open>cs\<close>, followed by a
  delimiter, \<open>parse_atom\<close> reads exactly it and returns \<open>t\<close>.
\<close>

definition atom_inverse :: "char list \<Rightarrow> filter_node \<Rightarrow> bool" where
  "atom_inverse cs t \<longleftrightarrow> (\<forall>p r. delimited r \<longrightarrow> drop p cs = print_atom t @ r \<longrightarrow>
     parse_atom cs p = Inr (t, p + length (print_atom t)))"

lemma atom_inverseD:
  "atom_inverse cs t \<Longrightarrow> delimited r \<Longrightarrow> drop p cs = print_atom t @ r \<Longrightarrow>
     parse_atom cs p = Inr (t, p + length (print_atom t))"
  by (auto simp: atom_inverse_def)

lemma delimited_Cons [simp]: "delimited (c # r) \<longleftrightarrow> reserved_char c"
  by (simp add: delimited_def)

definition sep_print :: "char \<Rightarrow> filter_node list \<Rightarrow> string" where
  "sep_print c ts = concat (map (\<lambda>t. c # print_atom t) ts)"

lemma sep_print_simps [simp]:
  "sep_print c [] = []" "sep_print c (t # ts) = c # print_atom t @ sep_print c ts"
  by (simp_all add: sep_print_def)

lemma join_sep_print: "join [c] (map print_atom (t # ts)) = print_atom t @ sep_print c ts"
  by (induction ts arbitrary: t) auto

lemma sep_print_delimited:
  "reserved_char c \<Longrightarrow> reserved_char d \<Longrightarrow> delimited (sep_print c ts @ d # r)"
  by (cases ts) auto

lemma and_loop_print:
  assumes "list_all (atom_inverse cs) ts" "drop p cs = sep_print (CHR '';'') ts @ d # r"
    "d = CHR '')'' \<or> d = CHR '',''"
  shows "and_loop cs p parts = Inr (and_node (parts @ ts), p + length (sep_print (CHR '';'') ts))"
  using assms
proof (induction ts arbitrary: p parts)
  case Nil
  then show ?case by (subst and_loop.simps) (auto simp: peek_at)
next
  case (Cons t ts)
  let ?rest = "sep_print (CHR '';'') ts @ d # r"
  have d: "drop p cs = CHR '';'' # print_atom t @ ?rest"
    using Cons.prems(2) by simp
  have dl: "delimited ?rest"
    using Cons.prems(3) by (intro sep_print_delimited) auto
  have "parse_atom cs (p + 1) = Inr (t, p + 1 + length (print_atom t))"
    using Cons.prems(1) drop_Suc_Cons [OF d] dl by (intro atom_inverseD) auto
  moreover have "and_loop cs (p + 1 + length (print_atom t)) (parts @ [t]) =
      Inr (and_node ((parts @ [t]) @ ts),
           p + 1 + length (print_atom t) + length (sep_print (CHR '';'') ts))"
    using Cons.prems drop_append_skip [OF drop_Suc_Cons [OF d]] by (intro Cons.IH) auto
  ultimately show ?case
    using d by (subst and_loop.simps) (simp add: peek_at)
qed

lemma parse_and_print:
  assumes "atom_inverse cs t" "drop p cs = print_atom t @ d # r" "d = CHR '')'' \<or> d = CHR '',''"
  shows "parse_and cs p = Inr (t, p + length (print_atom t))"
proof -
  have "parse_atom cs p = Inr (t, p + length (print_atom t))"
    using assms by (intro atom_inverseD) auto
  moreover have "drop (p + length (print_atom t)) cs = d # r"
    using assms(2) by (rule drop_append_skip)
  ultimately show ?thesis
    using assms(3) by (subst parse_and.simps, simp, subst and_loop.simps)
      (auto simp: peek_at and_node_def)
qed

lemma or_loop_print:
  assumes "list_all (atom_inverse cs) ts" "drop p cs = sep_print (CHR '','') ts @ CHR '')'' # r"
  shows "or_loop cs p parts = Inr (or_node (parts @ ts), p + length (sep_print (CHR '','') ts))"
  using assms
proof (induction ts arbitrary: p parts)
  case Nil
  then show ?case by (subst or_loop.simps) (auto simp: peek_at)
next
  case (Cons t ts)
  let ?rest = "sep_print (CHR '','') ts @ CHR '')'' # r"
  have d: "drop p cs = CHR '','' # print_atom t @ ?rest"
    using Cons.prems(2) by simp
  obtain c r' where c: "?rest = c # r'" "c = CHR '')'' \<or> c = CHR '',''"
    by (cases ts) auto
  have "parse_and cs (p + 1) = Inr (t, p + 1 + length (print_atom t))"
    using Cons.prems(1) drop_Suc_Cons [OF d] c by (intro parse_and_print [of _ _ _ c r']) auto
  moreover have "or_loop cs (p + 1 + length (print_atom t)) (parts @ [t]) =
      Inr (or_node ((parts @ [t]) @ ts),
           p + 1 + length (print_atom t) + length (sep_print (CHR '','') ts))"
    using Cons.prems drop_append_skip [OF drop_Suc_Cons [OF d]] by (intro Cons.IH) auto
  ultimately show ?case
    using d by (subst or_loop.simps) (simp add: peek_at)
qed

lemma parse_paren:
  assumes "drop p cs = CHR ''('' # s @ CHR '')'' # r" "parse_or cs (p + 1) = Inr (t, p + 1 + length s)"
  shows "parse_atom cs p = Inr (t, p + length s + 2)"
proof -
  have "drop (p + 1 + length s) cs = CHR '')'' # r"
    using drop_Suc_Cons [OF assms(1)] by (intro drop_append_skip) simp
  with assms show ?thesis
    by (subst parse_atom.simps) (simp add: peek_at)
qed

lemma atom_inverse_And:
  assumes "2 \<le> length ts" "list_all (atom_inverse cs) ts"
  shows "atom_inverse cs (And ts)"
  unfolding atom_inverse_def
proof (intro allI impI)
  fix p r
  assume dl: "delimited r" and d: "drop p cs = print_atom (And ts) @ r"
  obtain t ts' where ts: "ts = t # ts'" using assms(1) by (cases ts) auto
  let ?s = "print_atom t @ sep_print (CHR '';'') ts'"
  have d0: "drop p cs = CHR ''('' # ?s @ CHR '')'' # r"
    using d ts join_sep_print [of "CHR '';''" t ts'] by simp
  have d1: "drop (p + 1) cs = print_atom t @ sep_print (CHR '';'') ts' @ CHR '')'' # r"
    using drop_Suc_Cons [OF d0] by simp
  have d2: "drop (p + 1 + length (print_atom t)) cs = sep_print (CHR '';'') ts' @ CHR '')'' # r"
    using d1 by (rule drop_append_skip)
  have "parse_atom cs (p + 1) = Inr (t, p + 1 + length (print_atom t))"
    using assms(2) ts d1 by (intro atom_inverseD [OF _ sep_print_delimited]) auto
  moreover have "and_loop cs (p + 1 + length (print_atom t)) [t] = Inr (And ts, p + 1 + length ?s)"
    using and_loop_print [OF _ d2, of "[t]"] assms ts by (auto simp: and_node_def)
  ultimately have "parse_and cs (p + 1) = Inr (And ts, p + 1 + length ?s)"
    by (subst parse_and.simps) simp
  moreover have "or_loop cs (p + 1 + length ?s) [And ts] = Inr (And ts, p + 1 + length ?s)"
    using or_loop_print [of cs "[]" "p + 1 + length ?s" r "[And ts]"] drop_append_skip [OF d2]
    by (simp add: or_node_def add.assoc)
  ultimately have "parse_or cs (p + 1) = Inr (And ts, p + 1 + length ?s)"
    by (subst parse_or.simps) simp
  with d0 have "parse_atom cs p = Inr (And ts, p + length ?s + 2)"
    by (rule parse_paren)
  then show "parse_atom cs p = Inr (And ts, p + length (print_atom (And ts)))"
    using ts join_sep_print [of "CHR '';''" t ts'] by simp
qed

lemma atom_inverse_Or:
  assumes "2 \<le> length ts" "list_all (atom_inverse cs) ts"
  shows "atom_inverse cs (Or ts)"
  unfolding atom_inverse_def
proof (intro allI impI)
  fix p r
  assume dl: "delimited r" and d: "drop p cs = print_atom (Or ts) @ r"
  obtain t t' ts' where ts: "ts = t # t' # ts'"
    using assms(1) by (cases ts; cases "tl ts") auto
  let ?s = "print_atom t @ sep_print (CHR '','') (t' # ts')"
  have d0: "drop p cs = CHR ''('' # ?s @ CHR '')'' # r"
    using d ts join_sep_print [of "CHR '',''" t "t' # ts'"] by simp
  have d1: "drop (p + 1) cs = print_atom t @ sep_print (CHR '','') (t' # ts') @ CHR '')'' # r"
    using drop_Suc_Cons [OF d0] by simp
  have d2: "drop (p + 1 + length (print_atom t)) cs = sep_print (CHR '','') (t' # ts') @ CHR '')'' # r"
    using d1 by (rule drop_append_skip)
  have "parse_and cs (p + 1) = Inr (t, p + 1 + length (print_atom t))"
    using assms(2) ts d1 by (intro parse_and_print) auto
  moreover have "or_loop cs (p + 1 + length (print_atom t)) [t] = Inr (Or ts, p + 1 + length ?s)"
    using or_loop_print [OF _ d2, of "[t]"] assms ts by (auto simp: or_node_def)
  ultimately have "parse_or cs (p + 1) = Inr (Or ts, p + 1 + length ?s)"
    by (subst parse_or.simps) simp
  with d0 have "parse_atom cs p = Inr (Or ts, p + length ?s + 2)"
    by (rule parse_paren)
  then show "parse_atom cs p = Inr (Or ts, p + length (print_atom (Or ts)))"
    using ts join_sep_print [of "CHR '',''" t "t' # ts'"] by simp
qed

lemma atom_inverse_wf: "wf_node t \<Longrightarrow> atom_inverse cs t"
proof (induction t)
  case (Leaf f op vs)
  then have hd: "hd (print_leaf f op vs @ r) \<noteq> CHR ''(''" for r
    by (cases f) (auto simp: print_leaf_eq selector_char_def char_class_defs)
  show ?case
    unfolding atom_inverse_def print_atom.simps
  proof (intro allI impI)
    fix p r
    assume dl: "delimited r" and d: "drop p cs = print_leaf f op vs @ r"
    have "peek cs p \<noteq> Some (CHR ''('')"
      using hd [of r] by (auto simp: peek_drop d split: list.splits)
    then show "parse_atom cs p = Inr (Leaf f op vs, p + length (print_leaf f op vs))"
      using parse_leaf_print [OF Leaf dl d] by (simp add: parse_atom.simps)
  qed
qed (auto simp: list_all_iff intro!: atom_inverse_And atom_inverse_Or)

lemma trim_bracketed: "\<not> is_whitespace a \<Longrightarrow> \<not> is_whitespace b \<Longrightarrow> trim (a # s @ [b]) = a # s @ [b]"
  by (simp add: trim_def trim_start_def trim_end_def)

lemma parse_rsql_print: "wf_node t \<Longrightarrow> parse_rsql (print_node t) = Inr t"
proof -
  assume "wf_node t"
  let ?cs = "print_node t"
  have trm: "trim ?cs = ?cs"
    using trim_bracketed [of "CHR ''(''" "CHR '')''" "print_atom t"]
    by (simp add: print_node_def is_whitespace_def)
  have d0: "drop 0 ?cs = CHR ''('' # print_atom t @ CHR '')'' # []"
    by (simp add: print_node_def)
  have d1: "drop 1 ?cs = print_atom t @ CHR '')'' # []"
    by (simp add: print_node_def)
  have d2: "drop (1 + length (print_atom t)) ?cs = CHR '')'' # []"
    using d1 by (rule drop_append_skip)
  have "parse_and ?cs 1 = Inr (t, 1 + length (print_atom t))"
    using parse_and_print [OF atom_inverse_wf [OF \<open>wf_node t\<close>] d1] by simp
  moreover have "or_loop ?cs (1 + length (print_atom t)) [t] = Inr (t, 1 + length (print_atom t))"
    using or_loop_print [of ?cs "[]", simplified, OF d2 [simplified], of "[t]"]
    by (simp add: or_node_def)
  ultimately have "parse_or ?cs (0 + 1) = Inr (t, 0 + 1 + length (print_atom t))"
    by (subst parse_or.simps) simp
  with d0 have a: "parse_atom ?cs 0 = Inr (t, 0 + length (print_atom t) + 2)"
    by (rule parse_paren)
  have "peek ?cs (length (print_atom t) + 2) = None" "length ?cs = length (print_atom t) + 2"
    by (simp_all add: peek_def print_node_def)
  with a have "parse_or ?cs 0 = Inr (t, length ?cs)"
    by (simp add: parse_or.simps [of ?cs 0] parse_and.simps [of ?cs 0] and_loop.simps or_loop.simps
        and_node_def or_node_def)
  with trm show ?thesis
    by (simp add: parse_rsql_def Let_def at_end_def) (simp add: print_node_def)
qed

subsection \<open>Properties\<close>

text \<open>
  C35. Parsing inverts printing: the documented concrete syntax of every well-formed
  filter tree is accepted by \<^verbatim>\<open>parse_rsql\<close> and gives back that tree, whatever the nesting of
  AND, OR and parentheses and whatever characters the quoted values hold (separators
  included).
\<close>

theorem rsql_roundtrip: "wf_node t \<Longrightarrow> parse_rsql (print_node t) = Inr t"
  by (rule parse_rsql_print)

theorem rsql_roundtrip_witness:
  "parse_rsql (print_node (And [Leaf ''status'' OpEq [''a;b''],
      Or [Leaf ''age'' OpIn [''1'', ''(2,3)''], Leaf ''x'' (OpNull False) []]])) =
   Inr (And [Leaf ''status'' OpEq [''a;b''],
      Or [Leaf ''age'' OpIn [''1'', ''(2,3)''], Leaf ''x'' (OpNull False) []]])"
  by (rule rsql_roundtrip) (simp add: selector_char_def char_class_defs expressible_def)

text \<open>
  The trees \<^verbatim>\<open>parse_rsql\<close> can return are exactly the well-formed ones: every connective
  has at least two operands, every field is a non-empty identifier, and every operator has
  the number of values it takes (none for \<^verbatim>\<open>=null=\<close>, at least one for the list operators,
  one otherwise), which is what the query builder relies on.
\<close>

theorem rsql_language: "(\<exists>s. parse_rsql s = Inr t) \<longleftrightarrow> wf_node t"
  using parse_rsql_wf parse_rsql_print by blast

text \<open>
  The parser is total: on every input it returns a tree or an error, and every error is
  a \<^verbatim>\<open>Validation\<close> error, reported as HTTP 422.
\<close>

theorem rsql_total:
  "(\<exists>t. parse_rsql s = Inr t) \<or>
   (\<exists>e. parse_rsql s = Inl e \<and> fst (into_response e) = 422)"
  by (auto simp: parse_rsql_def Let_def into_response_def split: sum.splits)

end
