(* ===== verification/Rsql_Filter.thy ===== *)
theory Rsql_Filter
  imports Rsql
begin

section \<open>List queries: from a filter tree to parameterised SQL\<close>

text \<open>
  \<^verbatim>\<open>src/query/filter.rs\<close> and \<^verbatim>\<open>src/query/mod.rs\<close>: the field allowlist, the builder that
  turns a parsed filter and sort list into \<^verbatim>\<open>WHERE\<close>/\<^verbatim>\<open>ORDER BY\<close> text with bound
  parameters, and the parsing of the list parameters of a request. The builder's mutable
  state (the parameters pushed so far and the number of the next placeholder) is passed
  explicitly.

  The theory shows exactly when a query is accepted, that the SQL text does not depend on
  the values of the request (they are only ever bound), that the placeholders of the text
  are numbered as the parameters are bound, and that no \<^verbatim>\<open>OR\<close> of a filter stands outside
  parentheses, so that a condition the caller puts in front of it cannot be bypassed.
\<close>

datatype field_type = TyText | TyInt | TyFloat | TyBool | TyUuid | TyDate | TyTimestamp | TyTime

fun field_type_debug :: "field_type \<Rightarrow> string" where
  "field_type_debug TyText = ''Text''"
| "field_type_debug TyInt = ''Int''"
| "field_type_debug TyFloat = ''Float''"
| "field_type_debug TyBool = ''Bool''"
| "field_type_debug TyUuid = ''Uuid''"
| "field_type_debug TyDate = ''Date''"
| "field_type_debug TyTimestamp = ''Timestamp''"
| "field_type_debug TyTime = ''Time''"

fun cast :: "field_type \<Rightarrow> string option" where
  "cast TyText = None"
| "cast TyInt = Some ''bigint''"
| "cast TyFloat = Some ''double precision''"
| "cast TyBool = Some ''boolean''"
| "cast TyUuid = Some ''uuid''"
| "cast TyDate = Some ''date''"
| "cast TyTimestamp = Some ''timestamptz''"
| "cast TyTime = Some ''time''"

record field_spec =
  api_name :: string
  column :: string
  ty :: field_type
  sensitive :: bool

type_synonym field_map = "field_spec list"

text \<open>Quotation marks in messages.\<close>

abbreviation quoted :: "string \<Rightarrow> string" where
  "quoted s \<equiv> [CHR 0x27] @ s @ [CHR 0x27]"

definition lookup_field :: "field_map \<Rightarrow> string \<Rightarrow> field_spec result" where
  "lookup_field fs name =
     (case find_first (\<lambda>f. api_name f = name) fs of
        None \<Rightarrow> Inl (Validation (''unknown filter field '' @ quoted name))
      | Some spec \<Rightarrow>
          (if sensitive spec then Inl (Validation (''field '' @ quoted name @ '' is not filterable''))
           else Inr spec))"

definition is_null_op :: "rsql_op \<Rightarrow> bool" where
  "is_null_op op \<longleftrightarrow> (case op of OpNull _ \<Rightarrow> True | _ \<Rightarrow> False)"

definition is_like_op :: "rsql_op \<Rightarrow> bool" where
  "is_like_op op \<longleftrightarrow> op \<in> {OpLike, OpIlike, OpContains, OpStarts, OpEnds}"

fun op_valid_for_type :: "rsql_op \<Rightarrow> field_type \<Rightarrow> bool" where
  "op_valid_for_type op TyText \<longleftrightarrow>
     op \<in> {OpEq, OpNeq, OpIn, OpOut, OpLike, OpIlike, OpContains, OpStarts, OpEnds} \<or> is_null_op op"
| "op_valid_for_type op TyBool \<longleftrightarrow> op \<in> {OpEq, OpNeq} \<or> is_null_op op"
| "op_valid_for_type op TyUuid \<longleftrightarrow> op \<in> {OpEq, OpNeq, OpIn, OpOut} \<or> is_null_op op"
| "op_valid_for_type op _ \<longleftrightarrow>
     op \<in> {OpEq, OpNeq, OpGt, OpGe, OpLt, OpLe, OpBetween, OpIn, OpOut} \<or> is_null_op op"

record built_query =
  where_sql :: string
  order_sql :: string
  params :: "string list"

record builder =
  b_params :: "string list"
  b_next :: nat

definition ph :: "string \<Rightarrow> string option \<Rightarrow> builder \<Rightarrow> string \<times> builder" where
  "ph value c b =
     ((case c of Some t \<Rightarrow> ''$'' @ nat_str (b_next b) @ ''::'' @ t | None \<Rightarrow> ''$'' @ nat_str (b_next b)),
      b\<lparr>b_next := b_next b + 1, b_params := b_params b @ [value]\<rparr>)"

fun phs :: "string list \<Rightarrow> string option \<Rightarrow> builder \<Rightarrow> string list \<times> builder" where
  "phs [] c b = ([], b)"
| "phs (v # vs) c b = (let (s, b1) = ph v c b; (ss, b2) = phs vs c b1 in (s # ss, b2))"

definition first_value :: "string list \<Rightarrow> string" where
  "first_value vs = (case vs of [] \<Rightarrow> [] | v # _ \<Rightarrow> v)"

fun cmp_text :: "rsql_op \<Rightarrow> string" where
  "cmp_text OpEq = ''=''"
| "cmp_text OpNeq = ''!=''"
| "cmp_text OpGt = ''>''"
| "cmp_text OpGe = ''>=''"
| "cmp_text OpLt = ''<''"
| "cmp_text _ = ''<=''"

text \<open>The text of a leaf whose operator binds one value, a list of values, or two.\<close>

definition one_ph :: "string \<Rightarrow> string \<Rightarrow> string \<Rightarrow> string option \<Rightarrow> builder \<Rightarrow> (string \<times> builder) result" where
  "one_ph col kw v c b = (let (p, b1) = ph v c b in Inr (col @ '' '' @ kw @ '' '' @ p, b1))"

definition many_ph ::
  "string \<Rightarrow> string \<Rightarrow> string list \<Rightarrow> string option \<Rightarrow> builder \<Rightarrow> (string \<times> builder) result" where
  "many_ph col kw vs c b = (let (ps, b1) = phs vs c b in
     Inr (col @ '' '' @ kw @ '' ('' @ join '', '' ps @ '')'', b1))"

definition two_ph ::
  "string \<Rightarrow> string \<Rightarrow> string \<Rightarrow> string option \<Rightarrow> builder \<Rightarrow> (string \<times> builder) result" where
  "two_ph col v w c b = (let (p1, b1) = ph v c b; (p2, b2) = ph w c b1 in
     Inr (col @ '' BETWEEN '' @ p1 @ '' AND '' @ p2, b2))"

definition build_leaf ::
  "field_map \<Rightarrow> string \<Rightarrow> rsql_op \<Rightarrow> string list \<Rightarrow> builder \<Rightarrow> (string \<times> builder) result" where
  "build_leaf fs field op vs b =
     bind_res (lookup_field fs field) (\<lambda>spec.
       if \<not> op_valid_for_type op (ty spec) then
         Inl (Validation (''operator '' @ display_op op @ '' is not valid for ''
              @ field_type_debug (ty spec) @ '' field '' @ quoted field))
       else
         (let col = column spec;
              c = (if is_like_op op then None else cast (ty spec));
              v = first_value vs in
          case op of
            OpNull is_null \<Rightarrow> Inr (if is_null then col @ '' IS NULL'' else col @ '' IS NOT NULL'', b)
          | OpLike \<Rightarrow> one_ph col ''LIKE'' v None b
          | OpIlike \<Rightarrow> one_ph col ''ILIKE'' v None b
          | OpContains \<Rightarrow> one_ph col ''ILIKE'' (''%'' @ v @ ''%'') None b
          | OpStarts \<Rightarrow> one_ph col ''ILIKE'' (v @ ''%'') None b
          | OpEnds \<Rightarrow> one_ph col ''ILIKE'' (''%'' @ v) None b
          | OpIn \<Rightarrow>
              (if vs = [] then Inl (Validation (display_op op
                   @ '' requires at least one value for field '' @ quoted field))
               else many_ph col ''IN'' vs c b)
          | OpOut \<Rightarrow>
              (if vs = [] then Inl (Validation (display_op op
                   @ '' requires at least one value for field '' @ quoted field))
               else many_ph col ''NOT IN'' vs c b)
          | OpBetween \<Rightarrow>
              (if length vs \<noteq> 2 then Inl (Validation (''=between= requires exactly 2 values for field ''
                   @ quoted field @ '', got '' @ nat_str (length vs)))
               else two_ph col (vs ! 0) (vs ! 1) c b)
          | _ \<Rightarrow> one_ph col (cmp_text op) v c b))"

fun build_node :: "field_map \<Rightarrow> filter_node \<Rightarrow> builder \<Rightarrow> (string \<times> builder) result"
  and build_nodes :: "field_map \<Rightarrow> filter_node list \<Rightarrow> builder \<Rightarrow> (string list \<times> builder) result"
where
  "build_node fs (And children) b =
     bind_res (build_nodes fs children b) (\<lambda>(parts, b1).
       Inr (''('' @ join '' AND '' parts @ '')'', b1))"
| "build_node fs (Or children) b =
     bind_res (build_nodes fs children b) (\<lambda>(parts, b1).
       Inr (''('' @ join '' OR '' parts @ '')'', b1))"
| "build_node fs (Leaf field op vs) b = build_leaf fs field op vs b"
| "build_nodes fs [] b = Inr ([], b)"
| "build_nodes fs (c # cs) b =
     bind_res (build_node fs c b) (\<lambda>(s, b1).
     bind_res (build_nodes fs cs b1) (\<lambda>(ss, b2). Inr (s # ss, b2)))"

definition order_part :: "field_map \<Rightarrow> sort_spec \<Rightarrow> string result" where
  "order_part fs s =
     (case find_first (\<lambda>f. api_name f = sort_field s) fs of
        None \<Rightarrow> Inl (Validation (''sort field '' @ quoted (sort_field s) @ '' does not exist''))
      | Some spec \<Rightarrow>
          (if sensitive spec
           then Inl (Validation (''field '' @ quoted (sort_field s) @ '' is not sortable''))
           else Inr (column spec @ '' '' @ (if sort_desc s then ''DESC'' else ''ASC''))))"

definition build ::
  "filter_node option \<Rightarrow> sort_spec list \<Rightarrow> field_map \<Rightarrow> nat \<Rightarrow> built_query result" where
  "build filt sorts fs start_index =
     bind_res (case filt of
         Some node \<Rightarrow> build_node fs node \<lparr>b_params = [], b_next = start_index\<rparr>
       | None \<Rightarrow> Inr ([], \<lparr>b_params = [], b_next = start_index\<rparr>)) (\<lambda>(w, b).
     bind_res (map_res (order_part fs) sorts) (\<lambda>parts.
       Inr \<lparr>where_sql = w,
            order_sql = (if parts = [] then [] else '' ORDER BY '' @ join '', '' parts),
            params = b_params b\<rparr>))"

subsection \<open>List parameters\<close>

definition parse_list_params ::
  "string option \<Rightarrow> string option \<Rightarrow> (filter_node option \<times> sort_spec list) result" where
  "parse_list_params q srt =
     bind_res (case q of
         Some s \<Rightarrow> (if trim s \<noteq> [] then bind_res (parse_rsql s) (\<lambda>n. Inr (Some n)) else Inr None)
       | None \<Rightarrow> Inr None) (\<lambda>filt.
       Inr (filt, case srt of None \<Rightarrow> [] | Some s \<Rightarrow> parse_sort s))"

definition clamp_pagination :: "32 word option \<Rightarrow> 32 word option \<Rightarrow> 32 word \<Rightarrow> 32 word \<times> 32 word" where
  "clamp_pagination limit offset dflt =
     (min (case limit of None \<Rightarrow> dflt | Some l \<Rightarrow> l) 1000, case offset of None \<Rightarrow> 0 | Some n \<Rightarrow> n)"


subsection \<open>The endpoints' allowlists\<close>

abbreviation FieldSpec :: "string \<Rightarrow> string \<Rightarrow> field_type \<Rightarrow> bool \<Rightarrow> field_spec" where
  "FieldSpec name col t s \<equiv> \<lparr>api_name = name, column = col, ty = t, sensitive = s\<rparr>"

definition user_filter_fields :: field_map where
  "user_filter_fields = [
     FieldSpec ''id'' ''u.id'' TyUuid False,
     FieldSpec ''identityId'' ''u.identity_id'' TyUuid False,
     FieldSpec ''firstName'' ''i.first_name'' TyText False,
     FieldSpec ''lastName'' ''i.last_name'' TyText False,
     FieldSpec ''email'' ''i.email'' TyText False,
     FieldSpec ''username'' ''u.username'' TyText False,
     FieldSpec ''mobile'' ''i.mobile'' TyText False,
     FieldSpec ''countryCode'' ''i.country_code'' TyText False,
     FieldSpec ''status'' ''u.status'' TyText False,
     FieldSpec ''mfaEnabled'' ''i.mfa_enabled'' TyBool False,
     FieldSpec ''accessValidUntil'' ''u.access_valid_until'' TyTimestamp False,
     FieldSpec ''createdAt'' ''u.created_at'' TyTimestamp False,
     FieldSpec ''updatedAt'' ''u.updated_at'' TyTimestamp False,
     FieldSpec ''passwordHash'' ''i.password_hash'' TyText True,
     FieldSpec ''mfaSecret'' ''i.mfa_secret'' TyText True]"

definition role_filter_fields :: field_map where
  "role_filter_fields = [
     FieldSpec ''id'' ''id'' TyUuid False,
     FieldSpec ''name'' ''name'' TyText False,
     FieldSpec ''uid'' ''uid'' TyText False,
     FieldSpec ''parentRoleId'' ''parent_role_id'' TyUuid False]"

definition group_filter_fields :: field_map where
  "group_filter_fields = [
     FieldSpec ''id'' ''id'' TyUuid False,
     FieldSpec ''name'' ''name'' TyText False,
     FieldSpec ''uid'' ''uid'' TyText False,
     FieldSpec ''description'' ''description'' TyText False]"

definition permission_filter_fields :: field_map where
  "permission_filter_fields = [
     FieldSpec ''id'' ''id'' TyUuid False,
     FieldSpec ''name'' ''name'' TyText False,
     FieldSpec ''description'' ''description'' TyText False]"

subsection \<open>The SQL text does not depend on the values\<close>

text \<open>The filter with every value replaced by the empty string, their number kept.\<close>

fun erase_values :: "filter_node \<Rightarrow> filter_node" where
  "erase_values (And ts) = And (map erase_values ts)"
| "erase_values (Or ts) = Or (map erase_values ts)"
| "erase_values (Leaf f op vs) = Leaf f op (replicate (length vs) [])"

definition builder_sim :: "builder \<Rightarrow> builder \<Rightarrow> bool" where
  "builder_sim b b' \<longleftrightarrow> b_next b = b_next b' \<and> length (b_params b) = length (b_params b')"

definition text_sim :: "('a \<times> builder) result \<Rightarrow> ('a \<times> builder) result \<Rightarrow> bool" where
  "text_sim = rel_sum (=) (\<lambda>(s, b) (s', b'). s = s' \<and> builder_sim b b')"

lemma text_simI [intro]:
  "e = e' \<Longrightarrow> text_sim (Inl e) (Inl e')"
  "s = s' \<Longrightarrow> builder_sim b b' \<Longrightarrow> text_sim (Inr (s, b)) (Inr (s', b'))"
  by (auto simp: text_sim_def)

lemma text_sim_bind:
  assumes "text_sim r r'" "\<And>s b b'. builder_sim b b' \<Longrightarrow> text_sim (k (s, b)) (k' (s, b'))"
  shows "text_sim (bind_res r k) (bind_res r' k')"
  using assms unfolding text_sim_def by (cases r; cases r') auto

lemma ph_sim:
  "builder_sim b b' \<Longrightarrow> fst (ph v c b) = fst (ph v' c b') \<and> builder_sim (snd (ph v c b)) (snd (ph v' c b'))"
  by (auto simp: builder_sim_def ph_def split: option.splits)

lemma one_ph_sim: "builder_sim b b' \<Longrightarrow> text_sim (one_ph col kw v c b) (one_ph col kw v' c b')"
  using ph_sim [of b b' v c v'] by (auto simp: one_ph_def split: prod.splits)

lemma phs_sim:
  "builder_sim b b' \<Longrightarrow> length vs = length vs' \<Longrightarrow>
     fst (phs vs c b) = fst (phs vs' c b') \<and> builder_sim (snd (phs vs c b)) (snd (phs vs' c b'))"
proof (induction vs arbitrary: vs' b b')
  case (Cons v vs)
  then obtain v' ws where vs': "vs' = v' # ws" by (cases vs') auto
  from ph_sim [OF Cons.prems(1), of v c v'] have
    "fst (ph v c b) = fst (ph v' c b')" "builder_sim (snd (ph v c b)) (snd (ph v' c b'))" by auto
  with Cons.IH [of "snd (ph v c b)" "snd (ph v' c b')" ws] Cons.prems(2) vs' show ?case
    by (auto simp: split_beta)
qed auto

lemma many_ph_sim:
  "builder_sim b b' \<Longrightarrow> length vs = length vs' \<Longrightarrow> text_sim (many_ph col kw vs c b) (many_ph col kw vs' c b')"
  using phs_sim [of b b' vs vs' c] by (auto simp: many_ph_def split: prod.splits)

lemma two_ph_sim: "builder_sim b b' \<Longrightarrow> text_sim (two_ph col v w c b) (two_ph col v' w' c b')"
  using ph_sim [of b b' v c v'] ph_sim [of "snd (ph v c b)" "snd (ph v' c b')" w c w']
  by (auto simp: two_ph_def split: prod.splits)

lemma build_leaf_sim:
  assumes "builder_sim b b'" "length vs = length vs'"
  shows "text_sim (build_leaf fs f op vs b) (build_leaf fs f op vs' b')"
proof (cases "lookup_field fs f")
  case (Inl e)
  then show ?thesis by (auto simp: build_leaf_def)
next
  case (Inr spec)
  have em: "vs = [] \<longleftrightarrow> vs' = []" using assms(2) by auto
  show ?thesis
    by (cases op) (auto simp: build_leaf_def Inr Let_def em assms
        intro!: one_ph_sim two_ph_sim many_ph_sim)
qed

lemma build_node_erase:
  "builder_sim b b' \<Longrightarrow> text_sim (build_node fs t b) (build_node fs (erase_values t) b')"
  "builder_sim b b' \<Longrightarrow> text_sim (build_nodes fs ts b) (build_nodes fs (map erase_values ts) b')"
proof (induction fs t b and fs ts b arbitrary: b' and b' rule: build_node_build_nodes.induct)
  case (3 fs field op vs b)
  then show ?case by (simp add: build_leaf_sim)
next
  case (5 fs c cs b)
  then show ?case by (auto intro!: text_sim_bind)
qed (auto intro!: text_sim_bind)

lemma text_sim_trans: "text_sim a b \<Longrightarrow> text_sim c b \<Longrightarrow> text_sim a c"
  unfolding text_sim_def builder_sim_def by (cases a; cases b; cases c) auto

lemma build_node_same_shape:
  "erase_values t = erase_values u \<Longrightarrow> text_sim (build_node fs t b) (build_node fs u b)"
  using build_node_erase(1) [of b b fs t] build_node_erase(1) [of b b fs u]
  by (metis builder_sim_def text_sim_trans)


subsection \<open>Placeholders are numbered as the parameters are bound\<close>

text \<open>The placeholder numbers of a piece of SQL, in the order of the text.\<close>

fun placeholders :: "string \<Rightarrow> nat list" where
  "placeholders [] = []"
| "placeholders (c # s) =
     (if c = CHR ''$'' then str_nat_aux 0 (takeWhile is_ascii_digit s) # placeholders s
      else placeholders s)"

lemma placeholders_plain [simp]: "CHR ''$'' \<notin> set s \<Longrightarrow> placeholders (s @ t) = placeholders t"
  by (induction s) auto

lemma placeholders_plain0 [simp]: "CHR ''$'' \<notin> set s \<Longrightarrow> placeholders s = []"
  using placeholders_plain [of s "[]"] by simp

definition ends_number :: "string \<Rightarrow> bool" where
  "ends_number t \<longleftrightarrow> t = [] \<or> \<not> is_ascii_digit (hd t)"

lemma takeWhile_ends_number: "ends_number t \<Longrightarrow> takeWhile P (s @ t) = takeWhile P s @ (if list_all P s then takeWhile P t else [])"
  by (induction s) auto

lemma placeholders_append:
  "ends_number t \<Longrightarrow> placeholders (s @ t) = placeholders s @ placeholders t"
proof (induction s)
  case (Cons c s)
  have "takeWhile is_ascii_digit t = []"
    using Cons.prems by (cases t) (auto simp: ends_number_def)
  with Cons show ?case by (simp add: takeWhile_ends_number)
qed simp

lemma placeholder_number:
  "ends_number t \<Longrightarrow> placeholders (CHR ''$'' # nat_str n @ t) = n # placeholders t"
proof -
  assume t: "ends_number t"
  have "takeWhile is_ascii_digit (nat_str n @ t) = nat_str n"
    using t nat_str_digits [of _ n] by (intro takeWhile_delimited) (auto simp: ends_number_def list_all_iff)
  moreover have "CHR ''$'' \<notin> set (nat_str n)"
    using nat_str_digits [of "CHR ''$''" n] by (auto simp: is_ascii_digit_def)
  ultimately show ?thesis by (simp add: str_nat_nat_str)
qed

lemma ends_number_chars [simp]:
  "ends_number []" "\<not> is_ascii_digit c \<Longrightarrow> ends_number (c # s)"
  by (simp_all add: ends_number_def)

definition plain_cast :: "string option \<Rightarrow> bool" where
  "plain_cast c \<longleftrightarrow> (case c of None \<Rightarrow> True | Some d \<Rightarrow> CHR ''$'' \<notin> set d)"

lemma plain_cast_simps [simp]: "plain_cast None" "plain_cast (cast k)"
  by (cases k; simp add: plain_cast_def)+

lemma ph_placeholders:
  assumes "ends_number t" "plain_cast c"
  shows "placeholders (fst (ph v c b) @ t) = b_next b # placeholders t"
proof (cases c)
  case None
  then show ?thesis using placeholder_number [OF assms(1), of "b_next b"] by (simp add: ph_def)
next
  case (Some d)
  have "placeholders (CHR ''$'' # nat_str (b_next b) @ (''::'' @ d @ t)) = b_next b # placeholders (''::'' @ d @ t)"
    by (rule placeholder_number) (simp add: is_ascii_digit_def)
  with Some assms show ?thesis by (simp add: ph_def plain_cast_def)
qed

text \<open>
  \<open>numbered b s b'\<close>: the text \<open>s\<close> holds the placeholders from \<open>b\<close>'s next number up to
  \<open>b'\<close>'s, in order, and as many parameters were bound.
\<close>

definition numbered :: "builder \<Rightarrow> string \<Rightarrow> builder \<Rightarrow> bool" where
  "numbered b s b' \<longleftrightarrow> b_next b \<le> b_next b' \<and> placeholders s = [b_next b..<b_next b']
     \<and> length (b_params b') = length (b_params b) + (b_next b' - b_next b)"

definition plain_columns :: "field_map \<Rightarrow> bool" where
  "plain_columns fs \<longleftrightarrow> list_all (\<lambda>f. CHR ''$'' \<notin> set (column f)) fs"

lemma ph_builder [simp]:
  "b_next (snd (ph v c b)) = b_next b + 1" "b_params (snd (ph v c b)) = b_params b @ [v]"
  by (simp_all add: ph_def)

lemma phs_numbered:
  assumes "plain_cast c" "ends_number t"
  shows "placeholders (join '', '' (fst (phs vs c b)) @ t) = [b_next b..<b_next b + length vs] @ placeholders t
    \<and> b_next (snd (phs vs c b)) = b_next b + length vs
    \<and> length (b_params (snd (phs vs c b))) = length (b_params b) + length vs"
proof (induction vs arbitrary: b)
  case (Cons v vs)
  note IH = Cons.IH
  show ?case
  proof (cases vs)
    case Nil
    have "placeholders (fst (ph v c b) @ t) = b_next b # placeholders t"
      using assms by (intro ph_placeholders) auto
    with Nil show ?thesis by (simp add: split_beta)
  next
    case (Cons w ws)
    let ?b1 = "snd (ph v c b)"
    have j: "join '', '' (fst (phs (v # vs) c b)) =
        fst (ph v c b) @ '', '' @ join '', '' (fst (phs vs c ?b1))"
      using Cons by (simp add: split_beta)
    have "placeholders (fst (ph v c b) @ ('', '' @ join '', '' (fst (phs vs c ?b1)) @ t)) =
        b_next b # placeholders ('', '' @ join '', '' (fst (phs vs c ?b1)) @ t)"
      using assms(1) by (intro ph_placeholders) (auto simp: is_ascii_digit_def)
    moreover have "snd (phs (v # vs) c b) = snd (phs vs c ?b1)" by (simp add: split_beta)
    ultimately show ?thesis
      using j IH [of ?b1] by (simp add: upt_conv_Cons [of "b_next b"] del: phs.simps upt_Suc)
  qed
qed simp


lemma one_ph_numbered:
  assumes "one_ph col kw v c b = Inr (s, b')" "CHR ''$'' \<notin> set col" "CHR ''$'' \<notin> set kw"
    "plain_cast c"
  shows "numbered b s b'"
  using assms ph_placeholders [of "[]" c v b]
  by (auto simp: one_ph_def numbered_def split_beta)

lemma many_ph_numbered:
  assumes "many_ph col kw vs c b = Inr (s, b')" "CHR ''$'' \<notin> set col" "CHR ''$'' \<notin> set kw"
    "plain_cast c"
  shows "numbered b s b'"
  using assms phs_numbered [of c "'')''" vs b]
  by (auto simp: many_ph_def numbered_def split_beta is_ascii_digit_def)

lemma two_ph_numbered:
  assumes "two_ph col v w c b = Inr (s, b')" "CHR ''$'' \<notin> set col"
    "plain_cast c"
  shows "numbered b s b'"
proof -
  let ?b1 = "snd (ph v c b)"
  have "placeholders (fst (ph v c b) @ ('' AND '' @ fst (ph w c ?b1))) =
      b_next b # placeholders ('' AND '' @ fst (ph w c ?b1))"
    using assms(3) by (intro ph_placeholders) (auto simp: is_ascii_digit_def)
  moreover have "placeholders (fst (ph w c ?b1) @ []) = b_next ?b1 # placeholders []"
    using assms(3) by (intro ph_placeholders) auto
  ultimately show ?thesis
    using assms(1,2) upt_conv_Cons [of "b_next b" "b_next b + 2"]
    by (auto simp: two_ph_def numbered_def split_beta)
qed

lemma numbered_refl: "CHR ''$'' \<notin> set s \<Longrightarrow> numbered b s b"
  by (simp add: numbered_def)

lemma lookup_field_column:
  "lookup_field fs f = Inr spec \<Longrightarrow> spec \<in> set fs \<and> api_name spec = f \<and> \<not> sensitive spec"
  by (auto simp: lookup_field_def split: option.splits if_splits dest: find_first_SomeD)

lemma build_leaf_numbered:
  assumes "plain_columns fs" "build_leaf fs f op vs b = Inr (s, b')"
  shows "numbered b s b'"
proof -
  obtain spec where spec: "lookup_field fs f = Inr spec"
    using assms(2) by (auto simp: build_leaf_def bind_res_Inr_iff)
  then have col: "CHR ''$'' \<notin> set (column spec)"
    using assms(1) lookup_field_column [OF spec] by (auto simp: plain_columns_def list_all_iff)
  then show ?thesis
    using assms(2)
    by (cases op) (auto simp: build_leaf_def spec Let_def numbered_refl is_like_op_def
        split: if_splits dest!: one_ph_numbered many_ph_numbered two_ph_numbered)
qed


lemma numbered_trans:
  "numbered b s b1 \<Longrightarrow> numbered b1 t b2 \<Longrightarrow> placeholders u = placeholders s @ placeholders t \<Longrightarrow> numbered b u b2"
  by (auto simp: numbered_def) (metis le_add_diff_inverse le_trans upt_add_eq_append)

lemma numbered_wrap:
  "numbered b s b' \<Longrightarrow> placeholders u = placeholders s \<Longrightarrow> numbered b u b'"
  by (simp add: numbered_def)

lemma placeholders_join_Cons:
  assumes "CHR ''$'' \<notin> set sep" "\<not> is_ascii_digit (hd sep)" "sep \<noteq> []"
  shows "placeholders (join sep (s # ss)) = placeholders s @ placeholders (join sep ss)"
proof (cases ss)
  case (Cons t ts)
  have "ends_number (sep @ join sep (t # ts))"
    using assms(2,3) by (cases sep) (auto simp: ends_number_def)
  with assms(1) Cons show ?thesis by (simp add: placeholders_append)
qed simp

lemma build_node_numbered:
  "plain_columns fs \<Longrightarrow> build_node fs t b = Inr (s, b') \<Longrightarrow> numbered b s b'"
  "plain_columns fs \<Longrightarrow> build_nodes fs ts b = Inr (ss, b') \<Longrightarrow>
     numbered b (join '' AND '' ss) b' \<and> numbered b (join '' OR '' ss) b'"
proof (induction fs t b and fs ts b arbitrary: s b' and ss b' rule: build_node_build_nodes.induct)
  case (1 fs children b)
  then obtain ss where ss: "build_nodes fs children b = Inr (ss, b')" "s = ''('' @ join '' AND '' ss @ '')''"
    by (auto simp: bind_res_Inr_iff)
  then have "numbered b (join '' AND '' ss) b'" using "1.IH" "1.prems"(1) by blast
  with ss(2) show ?case
    by (auto simp: placeholders_append is_ascii_digit_def elim!: numbered_wrap)
next
  case (2 fs children b)
  then obtain ss where ss: "build_nodes fs children b = Inr (ss, b')" "s = ''('' @ join '' OR '' ss @ '')''"
    by (auto simp: bind_res_Inr_iff)
  then have "numbered b (join '' OR '' ss) b'" using "2.IH" "2.prems"(1) by blast
  with ss(2) show ?case
    by (auto simp: placeholders_append is_ascii_digit_def elim!: numbered_wrap)
next
  case (3 fs field op vs b)
  then show ?case by (simp add: build_leaf_numbered)
next
  case (4 fs b)
  then show ?case by (simp add: numbered_def)
next
  case (5 fs c cs b)
  from "5.prems" obtain s1 b1 ss2 where r: "build_node fs c b = Inr (s1, b1)"
      "build_nodes fs cs b1 = Inr (ss2, b')" "ss = s1 # ss2"
    by (auto simp: bind_res_Inr_iff)
  have n1: "numbered b s1 b1" using "5.IH"(1) "5.prems"(1) r(1) by blast
  have n2: "numbered b1 (join '' AND '' ss2) b'" "numbered b1 (join '' OR '' ss2) b'"
    using "5.IH"(2) "5.prems"(1) r(2) by blast+
  show ?case
    using numbered_trans [OF n1 n2(1)] numbered_trans [OF n1 n2(2)] r(3)
    by (simp add: placeholders_join_Cons is_ascii_digit_def)
qed

subsection \<open>When a query is accepted\<close>

definition filterable :: "field_map \<Rightarrow> string \<Rightarrow> field_spec \<Rightarrow> bool" where
  "filterable fs f spec \<longleftrightarrow> find_first (\<lambda>x. api_name x = f) fs = Some spec \<and> \<not> sensitive spec"

fun leaf_accepted :: "field_map \<Rightarrow> string \<Rightarrow> rsql_op \<Rightarrow> string list \<Rightarrow> bool" where
  "leaf_accepted fs f op vs \<longleftrightarrow>
     (case find_first (\<lambda>x. api_name x = f) fs of
        None \<Rightarrow> False
      | Some spec \<Rightarrow> \<not> sensitive spec \<and> op_valid_for_type op (ty spec)
          \<and> (op \<in> {OpIn, OpOut} \<longrightarrow> vs \<noteq> []) \<and> (op = OpBetween \<longrightarrow> length vs = 2))"

fun node_accepted :: "field_map \<Rightarrow> filter_node \<Rightarrow> bool" where
  "node_accepted fs (And ts) \<longleftrightarrow> list_all (node_accepted fs) ts"
| "node_accepted fs (Or ts) \<longleftrightarrow> list_all (node_accepted fs) ts"
| "node_accepted fs (Leaf f op vs) \<longleftrightarrow> leaf_accepted fs f op vs"

definition sort_accepted :: "field_map \<Rightarrow> sort_spec \<Rightarrow> bool" where
  "sort_accepted fs s \<longleftrightarrow> (case find_first (\<lambda>x. api_name x = sort_field s) fs of
     None \<Rightarrow> False | Some spec \<Rightarrow> \<not> sensitive spec)"

definition succeeds :: "'e + 'a \<Rightarrow> bool" where
  "succeeds r \<longleftrightarrow> (case r of Inl _ \<Rightarrow> False | Inr _ \<Rightarrow> True)"

lemma succeeds_simps [simp]: "succeeds (Inr x)" "\<not> succeeds (Inl e)"
  by (simp_all add: succeeds_def)

lemma succeeds_iff: "succeeds r \<longleftrightarrow> (\<exists>x. r = Inr x)"
  by (cases r) auto

lemma succeeds_bind: "succeeds (bind_res r k) \<longleftrightarrow> (\<exists>x. r = Inr x \<and> succeeds (k x))"
  by (cases r) auto

lemma ph_succeeds [simp]:
  "succeeds (one_ph col kw v c b)" "succeeds (many_ph col kw vs c b)" "succeeds (two_ph col v w c b)"
  by (simp_all add: one_ph_def many_ph_def two_ph_def split_beta)

lemma build_leaf_succeeds: "succeeds (build_leaf fs f op vs b) \<longleftrightarrow> leaf_accepted fs f op vs"
proof (cases "lookup_field fs f")
  case (Inl e)
  then show ?thesis
    by (auto simp: build_leaf_def lookup_field_def split: option.splits if_splits)
next
  case (Inr spec)
  then have "find_first (\<lambda>x. api_name x = f) fs = Some spec" "\<not> sensitive spec"
    by (auto simp: lookup_field_def split: option.splits if_splits)
  with Inr show ?thesis
    by (cases op) (simp_all add: build_leaf_def Let_def)
qed

lemma build_node_succeeds:
  "succeeds (build_node fs t b) \<longleftrightarrow> node_accepted fs t"
  "succeeds (build_nodes fs ts b) \<longleftrightarrow> list_all (node_accepted fs) ts"
proof (induction fs t b and fs ts b rule: build_node_build_nodes.induct)
  case (5 fs c cs b)
  have "succeeds (build_nodes fs (c # cs) b) \<longleftrightarrow>
      succeeds (build_node fs c b) \<and>
      (\<forall>s b1. build_node fs c b = Inr (s, b1) \<longrightarrow> succeeds (build_nodes fs cs b1))"
    by (cases "build_node fs c b") (auto simp: succeeds_bind split_beta succeeds_iff bind_res_Inr_iff)
  with 5 show ?case by (auto simp: succeeds_iff)
next
  case (3 fs field op vs b)
  then show ?case by (simp only: build_node.simps node_accepted.simps build_leaf_succeeds)
qed (auto simp: split_beta succeeds_iff bind_res_Inr_iff)

lemma map_res_succeeds: "succeeds (map_res f xs) \<longleftrightarrow> list_all (\<lambda>x. succeeds (f x)) xs"
  by (induction xs) (auto simp: succeeds_iff bind_res_Inr_iff)

lemma order_part_succeeds: "succeeds (order_part fs s) \<longleftrightarrow> sort_accepted fs s"
  by (simp add: order_part_def sort_accepted_def split: option.split)

subsection \<open>Disjunctions stay inside parentheses\<close>

text \<open>The characters of a piece of SQL that stand outside every parenthesis.\<close>

fun top_level :: "nat \<Rightarrow> string \<Rightarrow> string" where
  "top_level d [] = []"
| "top_level d (c # s) =
     (if c = CHR ''('' then top_level (d + 1) s
      else if c = CHR '')'' then top_level (d - 1) s
      else if d = 0 then c # top_level d s else top_level d s)"

definition balanced :: "string \<Rightarrow> bool" where
  "balanced s \<longleftrightarrow> (\<forall>d t. top_level d (s @ t) = (if d = 0 then top_level 0 s else []) @ top_level d t)"

definition paren_free :: "string \<Rightarrow> bool" where
  "paren_free s \<longleftrightarrow> CHR ''('' \<notin> set s \<and> CHR '')'' \<notin> set s"

lemma paren_free_simps [simp]:
  "paren_free []" "paren_free (c # s) \<longleftrightarrow> c \<noteq> CHR ''('' \<and> c \<noteq> CHR '')'' \<and> paren_free s"
  "paren_free (s @ t) \<longleftrightarrow> paren_free s \<and> paren_free t"
  by (auto simp: paren_free_def)

lemma top_level_paren_free: "paren_free s \<Longrightarrow> top_level d (s @ t) = (if d = 0 then s else []) @ top_level d t"
  by (induction s) auto

lemma top_level_plain [simp]: "paren_free s \<Longrightarrow> top_level 0 s = s"
  using top_level_paren_free [of s 0 "[]"] by simp

lemma balanced_paren_free: "paren_free s \<Longrightarrow> balanced s"
  by (simp add: balanced_def top_level_paren_free)

lemma balanced_append:
  assumes "balanced s" "balanced t"
  shows "balanced (s @ t)" "top_level 0 (s @ t) = top_level 0 s @ top_level 0 t"
proof -
  show *: "top_level 0 (s @ t) = top_level 0 s @ top_level 0 t"
    using assms(1) unfolding balanced_def by simp
  show "balanced (s @ t)"
    unfolding balanced_def
  proof (intro allI)
    fix d u
    have "top_level d (s @ (t @ u)) = (if d = 0 then top_level 0 s else []) @ top_level d (t @ u)"
      using assms(1) unfolding balanced_def by blast
    then show "top_level d ((s @ t) @ u) = (if d = 0 then top_level 0 (s @ t) else []) @ top_level d u"
      using assms(2) * unfolding balanced_def by simp
  qed
qed

lemma balanced_paren:
  assumes "balanced s"
  shows "balanced (''('' @ s @ '')'')" "top_level 0 (''('' @ s @ '')'') = []"
proof -
  have 1: "top_level (Suc d) (s @ CHR '')'' # t) = top_level d t" for d t
    using assms unfolding balanced_def by simp
  show 2: "top_level 0 (''('' @ s @ '')'') = []" using 1 [of 0 "[]"] by simp
  show "balanced (''('' @ s @ '')'')"
    using 2 by (simp add: balanced_def 1)
qed

lemma balanced_join: "balanced sep \<Longrightarrow> list_all balanced ss \<Longrightarrow> balanced (join sep ss)"
  by (induction sep ss rule: join.induct)
    (auto intro!: balanced_append(1) simp: balanced_def [of "[]"])

text \<open>
  Column expressions without parentheses and without the capital \<^verbatim>\<open>R\<close>, a letter that among
  the builder's own keywords only \<^verbatim>\<open>OR\<close> has.
\<close>

definition safe_columns :: "field_map \<Rightarrow> bool" where
  "safe_columns fs \<longleftrightarrow> list_all (\<lambda>f. paren_free (column f) \<and> CHR ''R'' \<notin> set (column f)) fs"

definition no_top_or :: "string \<Rightarrow> bool" where
  "no_top_or s \<longleftrightarrow> balanced s \<and> CHR ''R'' \<notin> set (top_level 0 s)"

lemma no_top_or_plain: "paren_free s \<Longrightarrow> CHR ''R'' \<notin> set s \<Longrightarrow> no_top_or s"
  by (simp add: no_top_or_def balanced_paren_free)

lemma no_top_or_append: "no_top_or s \<Longrightarrow> no_top_or t \<Longrightarrow> no_top_or (s @ t)"
  by (simp add: no_top_or_def balanced_append)

lemma no_top_or_paren: "balanced s \<Longrightarrow> no_top_or (''('' @ s @ '')'')"
  unfolding no_top_or_def using balanced_paren by fastforce

lemma nat_str_plain [simp]: "paren_free (nat_str n)" "CHR ''R'' \<notin> set (nat_str n)"
  using nat_str_digits [of _ n] by (force simp: paren_free_def is_ascii_digit_def)+

definition plain_text :: "string \<Rightarrow> bool" where
  "plain_text s \<longleftrightarrow> paren_free s \<and> CHR ''R'' \<notin> set s"

lemma plain_text_simps [simp]:
  "plain_text []" "plain_text (s @ t) \<longleftrightarrow> plain_text s \<and> plain_text t" "plain_text (nat_str n)"
  "plain_text (c # s) \<longleftrightarrow> c \<notin> set ''()R'' \<and> plain_text s"
  by (auto simp: plain_text_def)

lemma no_top_or_plain_text: "plain_text s \<Longrightarrow> no_top_or s"
  by (simp add: plain_text_def no_top_or_plain)

definition known_cast :: "string option \<Rightarrow> bool" where
  "known_cast c \<longleftrightarrow> (case c of None \<Rightarrow> True | Some t \<Rightarrow> plain_text t)"

lemma known_cast_simps [simp]: "known_cast None" "known_cast (cast k)"
  by (cases k; simp add: known_cast_def)+

lemma ph_plain: "known_cast c \<Longrightarrow> plain_text (fst (ph v c b))"
  by (auto simp: ph_def known_cast_def split: option.splits)

lemma phs_plain: "known_cast c \<Longrightarrow> list_all plain_text (fst (phs vs c b))"
  by (induction vs arbitrary: b) (auto simp: split_beta ph_plain)

lemma one_ph_no_top_or:
  "one_ph col kw v c b = Inr (s, b') \<Longrightarrow> plain_text col \<Longrightarrow> plain_text kw \<Longrightarrow> known_cast c \<Longrightarrow> no_top_or s"
  by (auto simp: one_ph_def split_beta ph_plain intro!: no_top_or_plain_text)

lemma two_ph_no_top_or:
  "two_ph col v w c b = Inr (s, b') \<Longrightarrow> plain_text col \<Longrightarrow> known_cast c \<Longrightarrow> no_top_or s"
  by (auto simp: two_ph_def split_beta ph_plain intro!: no_top_or_plain_text)

lemma many_ph_no_top_or:
  assumes "many_ph col kw vs c b = Inr (s, b')" "plain_text col" "plain_text kw" "known_cast c"
  shows "no_top_or s"
proof -
  have "balanced (join '', '' (fst (phs vs c b)))"
    using phs_plain [OF assms(4), of vs b]
    by (intro balanced_join) (auto simp: list_all_iff plain_text_def intro!: balanced_paren_free)
  moreover have "plain_text (col @ '' '' @ kw @ '' '')"
    using assms(2,3) by simp
  ultimately have "no_top_or ((col @ '' '' @ kw @ '' '') @ (''('' @ join '', '' (fst (phs vs c b)) @ '')''))"
    by (blast intro: no_top_or_append no_top_or_plain_text no_top_or_paren)
  with assms(1) show ?thesis by (auto simp: many_ph_def split_beta)
qed

lemma build_leaf_no_top_or:
  assumes "safe_columns fs" "build_leaf fs f op vs b = Inr (s, b')"
  shows "no_top_or s"
proof -
  obtain spec where spec: "lookup_field fs f = Inr spec"
    using assms(2) by (auto simp: build_leaf_def bind_res_Inr_iff)
  then have "plain_text (column spec)"
    using assms(1) lookup_field_column [OF spec]
    by (auto simp: safe_columns_def list_all_iff plain_text_def)
  then show ?thesis
    using assms(2)
    by (cases op) (auto simp: build_leaf_def spec Let_def is_like_op_def split: if_splits
        intro: no_top_or_plain_text
        dest!: one_ph_no_top_or many_ph_no_top_or two_ph_no_top_or)
qed

lemma build_node_no_top_or:
  "safe_columns fs \<Longrightarrow> build_node fs t b = Inr (s, b') \<Longrightarrow> no_top_or s"
  "safe_columns fs \<Longrightarrow> build_nodes fs ts b = Inr (ss, b') \<Longrightarrow> list_all balanced ss"
proof (induction fs t b and fs ts b arbitrary: s b' and ss b' rule: build_node_build_nodes.induct)
  case (1 fs children b)
  then obtain ss where ss: "build_nodes fs children b = Inr (ss, b')" "s = ''('' @ join '' AND '' ss @ '')''"
    by (auto simp: bind_res_Inr_iff)
  with 1 show ?case
    by (auto simp del: append_Cons append_Nil
        intro!: no_top_or_paren balanced_join intro: balanced_paren_free)
next
  case (2 fs children b)
  then obtain ss where ss: "build_nodes fs children b = Inr (ss, b')" "s = ''('' @ join '' OR '' ss @ '')''"
    by (auto simp: bind_res_Inr_iff)
  with 2 show ?case
    by (auto simp del: append_Cons append_Nil
        intro!: no_top_or_paren balanced_join intro: balanced_paren_free)
next
  case (3 fs field op vs b)
  then show ?case by (auto intro: build_leaf_no_top_or)
next
  case (4 fs b)
  then show ?case by simp
next
  case (5 fs c cs b)
  then show ?case by (fastforce simp: bind_res_Inr_iff no_top_or_def)
qed

lemma plain_top_no_or: "no_top_or s \<Longrightarrow> top_level 0 s \<noteq> u @ '' OR '' @ v"
  by (auto simp: no_top_or_def)

lemma allowlists_safe:
  "safe_columns user_filter_fields" "safe_columns role_filter_fields"
  "safe_columns group_filter_fields" "safe_columns permission_filter_fields"
  by (simp_all add: safe_columns_def user_filter_fields_def role_filter_fields_def
      group_filter_fields_def permission_filter_fields_def)

lemma allowlists_plain:
  "plain_columns user_filter_fields" "plain_columns role_filter_fields"
  "plain_columns group_filter_fields" "plain_columns permission_filter_fields"
  by (simp_all add: plain_columns_def user_filter_fields_def role_filter_fields_def
      group_filter_fields_def permission_filter_fields_def)

subsection \<open>Properties\<close>

text \<open>
  C30. The SQL text of a list query is independent of the request's values: two filters with
  the same fields, operators and numbers of values yield the same \<^verbatim>\<open>WHERE\<close> text, the same
  \<^verbatim>\<open>ORDER BY\<close> text and equally many parameters, or the same error. Request values only ever
  reach the database as bound parameters.
\<close>

theorem sql_independent_of_values:
  "erase_values t = erase_values u \<Longrightarrow>
   map_sum id (\<lambda>q. (where_sql q, order_sql q, length (params q))) (build (Some t) srt fs n) =
   map_sum id (\<lambda>q. (where_sql q, order_sql q, length (params q))) (build (Some u) srt fs n)"
proof -
  assume "erase_values t = erase_values u"
  then have "text_sim (build_node fs t \<lparr>b_params = [], b_next = n\<rparr>) (build_node fs u \<lparr>b_params = [], b_next = n\<rparr>)"
    by (rule build_node_same_shape)
  then show ?thesis
    unfolding text_sim_def build_def
    by (cases rule: rel_sum.cases; cases "map_res (order_part fs) srt") (auto simp: builder_sim_def)
qed

theorem sql_independent_of_values_witness:
  "map_sum id (\<lambda>q. (where_sql q, order_sql q, length (params q)))
     (build (Some (Leaf ''status'' OpEq [''active''])) [] user_filter_fields 2) =
   map_sum id (\<lambda>q. (where_sql q, order_sql q, length (params q)))
     (build (Some (Leaf ''status'' OpEq [[CHR 0x27] @ '' OR 1=1 --''])) [] user_filter_fields 2)"
  by (rule sql_independent_of_values) simp

text \<open>
  A list query is accepted exactly when every field it filters or sorts on is in the
  endpoint's allowlist and not sensitive, every operator fits the type of its field and has
  the values it needs; otherwise it is refused.
\<close>

theorem build_accepts_iff:
  "(\<exists>q. build (Some t) srt fs n = Inr q) \<longleftrightarrow> node_accepted fs t \<and> list_all (sort_accepted fs) srt"
proof -
  let ?b = "\<lparr>b_params = [], b_next = n\<rparr>"
  have "(\<exists>q. build (Some t) srt fs n = Inr q) \<longleftrightarrow>
      succeeds (build_node fs t ?b) \<and> succeeds (map_res (order_part fs) srt)"
    unfolding build_def succeeds_iff by (fastforce simp: bind_res_Inr_iff)
  then show ?thesis
    by (simp only: build_node_succeeds map_res_succeeds order_part_succeeds)
qed

text \<open>
  The placeholders of an accepted query, read off its \<^verbatim>\<open>WHERE\<close> text from left to right,
  are exactly \<^verbatim>\<open>$n, $n+1, ..\<close>, one for each bound parameter and in the order in which the
  parameters are bound, where \<^verbatim>\<open>n\<close> is the caller's start index.
\<close>

theorem build_placeholders:
  "plain_columns fs \<Longrightarrow> build (Some t) srt fs n = Inr q \<Longrightarrow>
     placeholders (where_sql q) = [n..<n + length (params q)]"
  by (auto simp: build_def bind_res_Inr_iff numbered_def dest!: build_node_numbered(1))

theorem build_placeholders_witness:
  "placeholders (where_sql (the (case build (Some (And [Leaf ''status'' OpIn [''a'', ''b''],
      Leaf ''createdAt'' OpGt [''2024'']])) [] user_filter_fields 2 of Inr q \<Rightarrow> Some q | Inl _ \<Rightarrow> None))) = [2, 3, 4]"
proof -
  obtain q where q: "build (Some (And [Leaf ''status'' OpIn [''a'', ''b''],
      Leaf ''createdAt'' OpGt [''2024'']])) [] user_filter_fields 2 = Inr q" and l: "length (params q) = 3"
    by (simp add: build_def build_leaf_def lookup_field_def user_filter_fields_def is_null_op_def is_like_op_def
        many_ph_def one_ph_def ph_def first_value_def)
  have "plain_columns user_filter_fields" by (simp add: plain_columns_def user_filter_fields_def)
  from build_placeholders [OF this q] l q show ?thesis by (simp add: upt_rec)
qed

text \<open>
  C31. Tenant scoping cannot be bypassed through a filter: outside parentheses the built
  \<^verbatim>\<open>WHERE\<close> text contains no \<^verbatim>\<open>OR\<close>, and its parentheses are balanced, so the text
  \<^verbatim>\<open>tenant_id = $1 AND <filter>\<close> that the repositories compose is a conjunction whose first
  conjunct always applies.
\<close>

theorem build_no_top_level_or:
  "safe_columns fs \<Longrightarrow> build (Some t) srt fs n = Inr q \<Longrightarrow>
     balanced (where_sql q) \<and> (\<forall>u v. top_level 0 (where_sql q) \<noteq> u @ '' OR '' @ v)"
  by (auto simp: build_def bind_res_Inr_iff dest!: build_node_no_top_or(1))
    (auto simp: no_top_or_def)

theorem build_no_top_level_or_witness:
  "balanced ''(u.status = $2 OR u.status = $3)'' \<and>
   (\<forall>u v. top_level 0 ''(u.status = $2 OR u.status = $3)'' \<noteq> u @ '' OR '' @ v)"
proof -
  have "safe_columns user_filter_fields" by (simp add: safe_columns_def user_filter_fields_def)
  moreover have "nat_str 2 = ''2''" "nat_str 3 = ''3''" by code_simp+
  then have "build (Some (Or [Leaf ''status'' OpEq [''a''], Leaf ''status'' OpEq [''b'']])) [] user_filter_fields 2
      = Inr \<lparr>where_sql = ''(u.status = $2 OR u.status = $3)'', order_sql = [], params = [''a'', ''b'']\<rparr>"
    by (simp add: build_def build_leaf_def lookup_field_def user_filter_fields_def is_null_op_def is_like_op_def
        one_ph_def ph_def first_value_def)
  ultimately show ?thesis using build_no_top_level_or by fastforce
qed

end
