(* ===== verification/Domain.thy ===== *)
theory Domain
  imports Errors
begin

section \<open>Domain types, tables and SQL statements\<close>

text \<open>
  \<^verbatim>\<open>src/domain/*.rs\<close> and the tables of the migrations. The service keeps its state in
  PostgreSQL, in a per-process cache of tenant configuration and, when configured, in
  Redis; \<open>world\<close> is the record of all three. A table is the list of its rows, in
  insertion order; a row is a record.

  The SQL statements the repositories execute are the five primitives below (\<open>sql_fetch\<close>,
  \<open>sql_select\<close>, \<open>sql_insert\<close>, \<open>sql_update\<close>, \<open>sql_delete\<close>) applied to a predicate on rows.
  An insert first evaluates the table's constraints (\<^verbatim>\<open>CHECK\<close>, then \<^verbatim>\<open>UNIQUE\<close>, then foreign
  keys, the order of PostgreSQL) and fails with the corresponding \<^verbatim>\<open>sqlx::Error\<close>; the text
  of a \<^verbatim>\<open>CHECK\<close> or foreign-key error is represented by the name of the constraint. Loss of
  the database connection is not modelled.

  Code outside the repository (Argon2, SHA-256, AES-GCM, Base64, Base32, TOTP, serde) is
  the record \<open>ext\<close> of functions, a parameter of every definition that uses it; the
  configuration constants read from the environment are its last fields.
\<close>

subsection \<open>JSON\<close>

text \<open>\<^verbatim>\<open>serde_json::Value\<close>; a non-integer number is kept as its text.\<close>

datatype json =
    JNull
  | JBool bool
  | JInt int
  | JFloat string
  | JStr string
  | JArr "json list"
  | JObj "(string \<times> json) list"

fun json_field :: "string \<Rightarrow> json \<Rightarrow> json option" where
  "json_field k (JObj kvs) = map_of kvs k"
| "json_field k _ = None"

fun as_str :: "json \<Rightarrow> string option" where
  "as_str (JStr s) = Some s"
| "as_str _ = None"

subsection \<open>Rows\<close>

record tenant =
  tn_id :: string
  tn_name :: string
  tn_status :: string
  tn_created_at :: time

record kv_row =
  kv_tenant_id :: string
  kv_group_key :: string
  kv_key :: string
  kv_value :: string
  kv_sensitive :: bool

text \<open>The row of \<^verbatim>\<open>identities\<close>; \<^verbatim>\<open>Identity\<close> is all of it but the last column.\<close>

record identity =
  i_id :: uuid
  i_email :: "string option"
  i_mobile :: "string option"
  i_country_code :: "string option"
  i_first_name :: "string option"
  i_last_name :: "string option"
  i_password_hash :: "string option"
  i_mfa_enabled :: bool
  i_mfa_secret :: "string option"
  i_force_password_change :: bool
  i_failed_attempts :: int
  i_locked_until :: "time option"
  i_status :: string
  i_created_at :: time
  i_updated_at :: time
  i_mfa_last_used_step :: "int option"

text \<open>The row of \<^verbatim>\<open>users\<close>, a membership of an identity in a tenant.\<close>

record membership =
  m_id :: uuid
  m_tenant_id :: string
  m_identity_id :: uuid
  m_username :: "string option"
  m_status :: string
  m_access_valid_until :: "time option"
  m_created_at :: time
  m_updated_at :: time

text \<open>\<^verbatim>\<open>domain::user::User\<close>: a membership joined with the display columns of its identity.\<close>

record user =
  u_id :: uuid
  u_tenant_id :: string
  u_identity_id :: uuid
  u_first_name :: "string option"
  u_last_name :: "string option"
  u_email :: "string option"
  u_username :: "string option"
  u_mobile :: "string option"
  u_country_code :: "string option"
  u_status :: string
  u_mfa_enabled :: bool
  u_access_valid_until :: "time option"
  u_created_at :: time
  u_updated_at :: time

record role =
  r_id :: uuid
  r_tenant_id :: string
  r_name :: string
  r_uid :: string
  r_parent_role_id :: "uuid option"

record permission =
  p_id :: uuid
  p_tenant_id :: string
  p_name :: string
  p_description :: "string option"
  p_document :: "json option"

record group =
  g_id :: uuid
  g_tenant_id :: string
  g_name :: string
  g_uid :: string
  g_description :: "string option"

text \<open>\<^verbatim>\<open>domain::session::SessionPayload\<close> and the row of \<^verbatim>\<open>sessions\<close>.\<close>

record session_payload =
  sp_tenant_id :: string
  sp_user_id :: uuid
  sp_identity_id :: uuid
  sp_roles :: "string list"
  sp_role_ids :: "uuid list"
  sp_permissions :: "string list"
  sp_groups :: "string list"
  sp_group_ids :: "uuid list"
  sp_ip :: "string option"
  sp_user_agent :: "string option"
  sp_expires_at :: time

record session_row =
  s_tenant_id :: string
  s_user_id :: uuid
  s_session_token :: string
  s_ip_address :: "string option"
  s_user_agent :: "string option"
  s_expires_at :: time
  s_revoked :: bool
  s_payload :: "string option"

text \<open>Token tables: a subject (an identity, or a user of a tenant), a token and its expiry.\<close>

record reset_token_row =
  rt_identity_id :: uuid
  rt_token :: string
  rt_expires_at :: time

record identity_token_row =
  it_identity_id :: uuid
  it_token :: string
  it_expires_at :: time

record change_token_row =
  ct_tenant_id :: string
  ct_user_id :: uuid
  ct_token :: string
  ct_expires_at :: time

record invite_row =
  iv_identity_id :: uuid
  iv_tenant_id :: string
  iv_first_name :: "string option"
  iv_last_name :: "string option"
  iv_username :: "string option"
  iv_token :: string
  iv_expires_at :: time

record otp_row =
  o_id :: uuid
  o_tenant_id :: string
  o_identifier :: string
  o_channel :: string
  o_code :: string
  o_purpose :: string
  o_expires_at :: time
  o_attempt_count :: int
  o_created_at :: time

record oauth_state_row =
  os_state :: string
  os_tenant_id :: string
  os_provider :: string
  os_pkce_verifier :: string
  os_nonce :: string
  os_expires_at :: time

record oauth_account_row =
  oa_identity_id :: uuid
  oa_provider :: string
  oa_provider_user_id :: string
  oa_email :: "string option"

record backup_code_row =
  bc_id :: uuid
  bc_identity_id :: uuid
  bc_code_hash :: string
  bc_consumed_at :: "time option"

record mfa_challenge_row =
  ch_token :: string
  ch_tenant_id :: string
  ch_user_id :: uuid
  ch_attempt_count :: int
  ch_expires_at :: time

subsection \<open>Identity rules\<close>

definition non_empty :: "string option \<Rightarrow> bool" where
  "non_empty s \<longleftrightarrow> (case s of None \<Rightarrow> False | Some v \<Rightarrow> v \<noteq> [])"

definition has_global_handle :: "string option \<Rightarrow> string option \<Rightarrow> string option \<Rightarrow> bool" where
  "has_global_handle email mobile country_code \<longleftrightarrow>
     non_empty email \<or> (non_empty mobile \<and> non_empty country_code)"

definition has_valid_identity ::
  "string option \<Rightarrow> string option \<Rightarrow> string option \<Rightarrow> string option \<Rightarrow> bool" where
  "has_valid_identity email mobile country_code username \<longleftrightarrow>
     non_empty email \<or> (non_empty mobile \<and> non_empty country_code) \<or> non_empty username"

subsection \<open>The state of the service\<close>

text \<open>An entry of the in-process tenant-configuration cache: the value and its expiry.\<close>

record cache_entry =
  ce_value :: json
  ce_expires_at :: time

text \<open>Redis: string keys with an expiry, and sets of strings with an expiry.\<close>

record redis_state =
  rd_strings :: "string \<Rightarrow> (string \<times> time) option"
  rd_sets :: "string \<Rightarrow> (string list \<times> time) option"

record world =
  t_tenants :: "tenant list"
  t_kv :: "kv_row list"
  t_identities :: "identity list"
  t_users :: "membership list"
  t_roles :: "role list"
  t_permissions :: "permission list"
  t_role_permissions :: "(uuid \<times> uuid) list"
  t_user_roles :: "(uuid \<times> uuid) list"
  t_groups :: "group list"
  t_user_groups :: "(uuid \<times> uuid) list"
  t_group_roles :: "(uuid \<times> uuid) list"
  t_otp :: "otp_row list"
  t_sessions :: "session_row list"
  t_reset_tokens :: "reset_token_row list"
  t_change_tokens :: "change_token_row list"
  t_identity_tokens :: "identity_token_row list"
  t_invites :: "invite_row list"
  t_oauth_states :: "oauth_state_row list"
  t_oauth_accounts :: "oauth_account_row list"
  t_backup_codes :: "backup_code_row list"
  t_challenges :: "mfa_challenge_row list"
  t_packages :: "(string \<times> string) list"
  t_package_actions :: "(string \<times> string) list"
  cfg_cache :: "string \<Rightarrow> cache_entry option"
  redis :: redis_state

type_synonym 'a op = "(world, 'a) io"

subsection \<open>External functions and configuration\<close>

record ext =
  x_argon2_verify :: "string \<Rightarrow> string \<Rightarrow> string + bool"
  x_argon2_hash :: "string \<Rightarrow> string \<Rightarrow> string + string"
  x_sha256 :: "string \<Rightarrow> string"
  x_b64_decode :: "string \<Rightarrow> string option"
  x_b64_encode :: "string \<Rightarrow> string"
  x_aead_seal :: "string \<Rightarrow> string \<Rightarrow> string \<Rightarrow> string + string"
  x_aead_open :: "string \<Rightarrow> string \<Rightarrow> string \<Rightarrow> string option"
  x_from_utf8 :: "string \<Rightarrow> string + string"
  x_base32_encode :: "string \<Rightarrow> string"
  x_base32_decode :: "string \<Rightarrow> string + string"
  x_totp_generate :: "string \<Rightarrow> nat \<Rightarrow> string"
  x_totp_url :: "string \<Rightarrow> string \<Rightarrow> string \<Rightarrow> string + string"
  x_json_parse :: "string \<Rightarrow> string + json"
  x_json_print :: "json \<Rightarrow> string"
  x_payload_ser :: "session_payload \<Rightarrow> string"
  x_payload_de :: "string \<Rightarrow> string + session_payload"
  x_jsonb_text :: "string \<Rightarrow> string"
  c_kv_encryption_key :: "string option"
  c_uses_redis :: bool
  c_default_session_ttl_secs :: "64 word"
  c_mfa_issuer :: string

subsection \<open>SQL primitives\<close>

definition sql_fetch :: "('s \<Rightarrow> 'r list) \<Rightarrow> ('r \<Rightarrow> bool) \<Rightarrow> ('s, 'r option) io" where
  "sql_fetch tab P = gets (\<lambda>w. find_first P (tab w))"

definition sql_select :: "('s \<Rightarrow> 'r list) \<Rightarrow> ('r \<Rightarrow> bool) \<Rightarrow> ('s, 'r list) io" where
  "sql_select tab P = gets (\<lambda>w. filter P (tab w))"

definition sql_exists :: "('s \<Rightarrow> 'r list) \<Rightarrow> ('r \<Rightarrow> bool) \<Rightarrow> ('s, bool) io" where
  "sql_exists tab P = gets (\<lambda>w. list_ex P (tab w))"

text \<open>\<^verbatim>\<open>upd\<close> is the update function of the table's field, \<open>viol\<close> the violated constraint if any.\<close>

definition sql_insert ::
  "(('r list \<Rightarrow> 'r list) \<Rightarrow> 's \<Rightarrow> 's) \<Rightarrow> ('s \<Rightarrow> sqlx_error option) \<Rightarrow> 'r \<Rightarrow> ('s, unit) io" where
  "sql_insert upd viol row = bindE (gets viol) (\<lambda>v. case v of
       Some e \<Rightarrow> throw (from_sqlx e)
     | None \<Rightarrow> modify (upd (\<lambda>rows. rows @ [row])))"

definition sql_update ::
  "(('r list \<Rightarrow> 'r list) \<Rightarrow> 's \<Rightarrow> 's) \<Rightarrow> ('r \<Rightarrow> bool) \<Rightarrow> ('r \<Rightarrow> 'r) \<Rightarrow> ('s, unit) io" where
  "sql_update upd P f = modify (upd (update_rows P f))"

definition sql_delete :: "(('r list \<Rightarrow> 'r list) \<Rightarrow> 's \<Rightarrow> 's) \<Rightarrow> ('r \<Rightarrow> bool) \<Rightarrow> ('s, unit) io" where
  "sql_delete upd P = modify (upd (filter (\<lambda>r. \<not> P r)))"

text \<open>A statement with the number of rows that satisfied its \<^verbatim>\<open>WHERE\<close> clause.\<close>

definition counting :: "('s \<Rightarrow> 'r list) \<Rightarrow> ('r \<Rightarrow> bool) \<Rightarrow> ('s, unit) io \<Rightarrow> ('s, nat) io" where
  "counting tab P stmt =
     bindE (gets (\<lambda>w. rows_affected P (tab w))) (\<lambda>n. bindE stmt (\<lambda>_. ret n))"

subsection \<open>Uniqueness constraints\<close>

text \<open>
  A unique index is a key function on rows: \<open>None\<close> for a row the index does not constrain
  (a \<^verbatim>\<open>NULL\<close> in the key, or a partial index's condition not met).
\<close>

definition keyed :: "('r \<Rightarrow> 'k option) \<Rightarrow> 'r list \<Rightarrow> 'k list" where
  "keyed f rows = List.map_filter f rows"

definition unique_on :: "('r \<Rightarrow> 'k option) \<Rightarrow> 'r list \<Rightarrow> bool" where
  "unique_on f rows \<longleftrightarrow> distinct (keyed f rows)"

definition dup_key :: "('r \<Rightarrow> 'k option) \<Rightarrow> 'r \<Rightarrow> 'r list \<Rightarrow> bool" where
  "dup_key f row rows \<longleftrightarrow> (case f row of None \<Rightarrow> False | Some k \<Rightarrow> k \<in> set (keyed f rows))"

lemma keyed_simps [simp]:
  "keyed f [] = []"
  "keyed f (x # xs) = (case f x of None \<Rightarrow> keyed f xs | Some k \<Rightarrow> k # keyed f xs)"
  "keyed f (xs @ ys) = keyed f xs @ keyed f ys"
  by (simp_all add: keyed_def map_filter_simps List.map_filter_def split: option.split)

lemma set_keyed: "k \<in> set (keyed f xs) \<longleftrightarrow> (\<exists>x \<in> set xs. f x = Some k)"
  by (induction xs) (auto split: option.splits)

lemma unique_on_append:
  "unique_on f (xs @ [x]) \<longleftrightarrow> unique_on f xs \<and> \<not> dup_key f x xs"
  by (auto simp: unique_on_def dup_key_def split: option.splits)

lemma unique_on_Nil [simp]: "unique_on f []"
  by (simp add: unique_on_def)

lemma keyed_update_rows: "(\<And>x. P x \<Longrightarrow> f (g x) = f x) \<Longrightarrow> keyed f (update_rows P g xs) = keyed f xs"
  by (induction xs) (auto split: option.splits)

lemma unique_on_update_rows:
  "unique_on f xs \<Longrightarrow> (\<And>x. P x \<Longrightarrow> f (g x) = f x) \<Longrightarrow> unique_on f (update_rows P g xs)"
  by (simp add: unique_on_def keyed_update_rows)

lemma set_keyed_filter: "set (keyed f (filter P xs)) \<subseteq> set (keyed f xs)"
  by (auto simp: set_keyed)

lemma unique_on_filter: "unique_on f xs \<Longrightarrow> unique_on f (filter P xs)"
proof (induction xs)
  case (Cons x xs)
  then show ?case
    using set_keyed_filter [of f P xs] by (auto simp: unique_on_def split: option.splits)
qed simp

lemma unique_onD:
  "unique_on f xs \<Longrightarrow> x \<in> set xs \<Longrightarrow> y \<in> set xs \<Longrightarrow> f x = Some k \<Longrightarrow> f y = Some k \<Longrightarrow> x = y"
  by (induction xs) (auto simp: unique_on_def set_keyed split: option.splits)

lemma find_first_unique_on:
  "unique_on f xs \<Longrightarrow> x \<in> set xs \<Longrightarrow> f x = Some k \<Longrightarrow> (\<And>y. P y \<longleftrightarrow> f y = Some k) \<Longrightarrow> find_first P xs = Some x"
  by (rule find_first_unique) (auto intro: unique_onD)

lemma sql_run [simp]:
  "sql_fetch tab P s = (Inr (find_first P (tab s)), s)"
  "sql_select tab P s = (Inr (filter P (tab s)), s)"
  "sql_exists tab P s = (Inr (list_ex P (tab s)), s)"
  "sql_update upd P f s = (Inr (), upd (update_rows P f) s)"
  "sql_delete upd P s = (Inr (), upd (filter (\<lambda>r. \<not> P r)) s)"
  by (simp_all add: sql_fetch_def sql_select_def sql_exists_def sql_update_def sql_delete_def)

lemma sql_insert_run [simp]:
  "sql_insert upd viol row s = (case viol s of
       Some e \<Rightarrow> (Inl (from_sqlx e), s) | None \<Rightarrow> (Inr (), upd (\<lambda>rows. rows @ [row]) s))"
  by (simp add: sql_insert_def split: option.split)

lemma counting_run [simp]:
  "counting tab P (sql_update upd Q f) s = (Inr (rows_affected P (tab s)), upd (update_rows Q f) s)"
  "counting tab P (sql_delete upd Q) s = (Inr (rows_affected P (tab s)), upd (filter (\<lambda>r. \<not> Q r)) s)"
  by (simp_all add: counting_def)

lemma keeps_select [keeps_rules, simp, intro]:
  "keeps I (sql_fetch tab P)" "keeps I (sql_select tab P)" "keeps I (sql_exists tab P)"
  by (simp_all add: keeps_def)

lemma readonly_select [readonly_rules, simp, intro]:
  "readonly (sql_fetch tab P)" "readonly (sql_select tab P)" "readonly (sql_exists tab P)"
  by (simp_all add: readonly_def)

lemma keeps_insert [keeps_rules]:
  "(\<And>s. I s \<Longrightarrow> viol s = None \<Longrightarrow> I (upd (\<lambda>rows. rows @ [row]) s)) \<Longrightarrow> keeps I (sql_insert upd viol row)"
  by (simp add: keeps_def split: option.split)

lemma keeps_update [keeps_rules]:
  "(\<And>s. I s \<Longrightarrow> I (upd (update_rows P f) s)) \<Longrightarrow> keeps I (sql_update upd P f)"
  by (simp add: keeps_def)

lemma keeps_delete [keeps_rules]:
  "(\<And>s. I s \<Longrightarrow> I (upd (filter (\<lambda>r. \<not> P r)) s)) \<Longrightarrow> keeps I (sql_delete upd P)"
  by (simp add: keeps_def)

lemma keeps_counting [keeps_rules, intro]: "keeps I stmt \<Longrightarrow> keeps I (counting tab P stmt)"
  unfolding counting_def by (rule keeps_bindE) auto

text \<open>
  An operation that leaves a part of the state alone: what \<open>f\<close> reads is the same before and
  after, whether the operation returns or fails.
\<close>

definition leaves :: "('s \<Rightarrow> 'b) \<Rightarrow> ('s, 'a) io \<Rightarrow> bool" where
  "leaves f m \<longleftrightarrow> (\<forall>v. keeps (\<lambda>s. f s = v) m)"

lemma leavesD: "leaves f m \<Longrightarrow> m s = (r, t) \<Longrightarrow> f t = f s"
  unfolding leaves_def by (blast dest: keepsD [where P = "\<lambda>s'. f s' = f s"])

lemma leavesI: "(\<And>s r t. m s = (r, t) \<Longrightarrow> f t = f s) \<Longrightarrow> leaves f m"
  unfolding leaves_def by (auto intro!: keepsI)

named_theorems leaves_rules "operations that leave a part of the state alone"

lemma leaves_readonly: "readonly m \<Longrightarrow> leaves f m"
  by (rule leavesI) (auto dest: readonlyD)

lemma leaves_pure [leaves_rules]:
  "leaves f (ret x)" "leaves f (throw e)" "leaves f (lift r)" "leaves f (gets g)" "leaves f (unless b e)"
  "leaves f (sql_fetch tab P)" "leaves f (sql_select tab P)" "leaves f (sql_exists tab P)"
  by (auto intro: leaves_readonly)

lemma leaves_bindE [leaves_rules, intro]: "leaves f m \<Longrightarrow> (\<And>x. leaves f (k x)) \<Longrightarrow> leaves f (bindE m k)"
  unfolding leaves_def by blast

lemma leaves_get_or [leaves_rules]: "leaves f m \<Longrightarrow> leaves f (get_or e m)"
  unfolding leaves_def by blast

lemma leaves_catch [leaves_rules]: "leaves f m \<Longrightarrow> leaves f (catch_default d m)"
  unfolding leaves_def by blast

lemma leaves_in_tx [leaves_rules]: "leaves f m \<Longrightarrow> leaves f (in_tx m)"
  unfolding leaves_def by blast

lemma leaves_for_each [leaves_rules]: "(\<And>x. leaves f (g x)) \<Longrightarrow> leaves f (for_each g xs)"
  unfolding leaves_def by blast

lemma leaves_counting [leaves_rules]: "leaves f m \<Longrightarrow> leaves f (counting tab P m)"
  unfolding leaves_def by blast

lemma leaves_option [leaves_rules]:
  "leaves f m \<Longrightarrow> (\<And>x. leaves f (k x)) \<Longrightarrow> leaves f (case v of None \<Rightarrow> m | Some x \<Rightarrow> k x)"
  by (cases v) auto

lemma leaves_if [leaves_rules]: "leaves f m \<Longrightarrow> leaves f n \<Longrightarrow> leaves f (if b then m else n)"
  by simp

lemma leaves_prod [leaves_rules]: "(\<And>a b. leaves f (k a b)) \<Longrightarrow> leaves f (case v of (a, b) \<Rightarrow> k a b)"
  by (cases v) auto

lemma leaves_sum [leaves_rules]:
  "(\<And>x. leaves f (g x)) \<Longrightarrow> (\<And>x. leaves f (k x)) \<Longrightarrow> leaves f (case v of Inl x \<Rightarrow> g x | Inr x \<Rightarrow> k x)"
  by (cases v) auto

lemma leaves_modify: "(\<And>s. f (g s) = f s) \<Longrightarrow> leaves f (modify g)"
  by (rule leavesI) auto

lemma leaves_update: "(\<And>h s. f (upd h s) = f s) \<Longrightarrow> leaves f (sql_update upd P g)"
  by (rule leavesI) auto

lemma leaves_delete: "(\<And>h s. f (upd h s) = f s) \<Longrightarrow> leaves f (sql_delete upd P)"
  by (rule leavesI) auto

lemma leaves_insert: "(\<And>h s. f (upd h s) = f s) \<Longrightarrow> leaves f (sql_insert upd viol row)"
  by (rule leavesI) (auto split: option.splits)

lemma leaves_keeps: "leaves f m \<Longrightarrow> keeps (\<lambda>s. P (f s)) m"
  by (rule keepsI) (metis leavesD)

lemma fails_sql [fails_rules]:
  "fails_only P (sql_fetch tab R)" "fails_only P (sql_select tab R)" "fails_only P (sql_exists tab R)"
  "fails_only P (sql_update upd R f)" "fails_only P (sql_delete upd R)"
  by (simp_all add: fails_only_def)

lemma fails_insert [fails_rules]: "(\<And>e. P (from_sqlx e)) \<Longrightarrow> fails_only P (sql_insert upd viol row)"
  by (simp add: fails_only_def split: option.split)

lemma fails_counting [fails_rules]: "fails_only P m \<Longrightarrow> fails_only P (counting tab R m)"
  unfolding counting_def by (intro fails_rules)

subsection \<open>A small database\<close>

text \<open>One active tenant and no other rows: the start of the concrete examples.\<close>

definition world0 :: world where
  "world0 = \<lparr>t_tenants = [\<lparr>tn_id = ''acme'', tn_name = ''Acme'', tn_status = ''active'', tn_created_at = 0\<rparr>],
     t_kv = [], t_identities = [], t_users = [], t_roles = [], t_permissions = [], t_role_permissions = [],
     t_user_roles = [], t_groups = [], t_user_groups = [], t_group_roles = [], t_otp = [], t_sessions = [],
     t_reset_tokens = [], t_change_tokens = [], t_identity_tokens = [], t_invites = [], t_oauth_states = [],
     t_oauth_accounts = [], t_backup_codes = [], t_challenges = [], t_packages = [], t_package_actions = [],
     cfg_cache = (\<lambda>_. None), redis = \<lparr>rd_strings = (\<lambda>_. None), rd_sets = (\<lambda>_. None)\<rparr>\<rparr>"

end
