(* ===== verification/Crypto.thy ===== *)
theory Crypto
  imports Domain
begin

section \<open>Encryption at rest\<close>

text \<open>
  \<^verbatim>\<open>src/crypto.rs\<close>: the AES-256-GCM cipher used for sensitive configuration values and TOTP
  secrets. Base64, the AEAD and UTF-8 validation are fields of \<open>ext\<close>; the twelve random nonce
  bytes are an argument of \<open>cipher_encrypt\<close>. A \<^verbatim>\<open>SecretCipher\<close> is its optional 32-byte key.
\<close>

type_synonym secret_cipher = "string option"

definition cipher_new :: "ext \<Rightarrow> string option \<Rightarrow> secret_cipher" where
  "cipher_new x key_base64 =
     Option.bind (non_empty_trim key_base64) (\<lambda>s.
     Option.bind (x_b64_decode x s) (\<lambda>k. if length k = 32 then Some k else None))"

definition cipher_cipher :: "secret_cipher \<Rightarrow> string result" where
  "cipher_cipher c = ok_or
     (Internal ''KV_STORE_ENCRYPTION_KEY not set or invalid (need 32-byte base64)'') c"

definition cipher_encrypt :: "ext \<Rightarrow> secret_cipher \<Rightarrow> string \<Rightarrow> string \<Rightarrow> string result" where
  "cipher_encrypt x c nonce plain =
     bind_res (cipher_cipher c) (\<lambda>key.
     bind_res (map_err Internal (x_aead_seal x key nonce plain)) (\<lambda>ciphertext.
       Inr (x_b64_encode x (nonce @ ciphertext))))"

definition cipher_decrypt :: "ext \<Rightarrow> secret_cipher \<Rightarrow> string \<Rightarrow> string result" where
  "cipher_decrypt x c encrypted_b64 =
     bind_res (cipher_cipher c) (\<lambda>key.
     bind_res (ok_or (Internal ''Invalid base64 in encrypted value'') (x_b64_decode x encrypted_b64)) (\<lambda>bytes.
       if length bytes < 12 then Inl (Internal ''Encrypted value too short'')
       else bind_res (ok_or (Internal ''Decryption failed (wrong key or corrupted data)'')
                        (x_aead_open x key (take 12 bytes) (drop 12 bytes))) (\<lambda>plain.
              map_err Internal (x_from_utf8 x plain))))"

text \<open>The documented behaviour of the libraries that the round trip rests on.\<close>

definition b64_correct :: "ext \<Rightarrow> bool" where
  "b64_correct x \<longleftrightarrow> (\<forall>s. x_b64_decode x (x_b64_encode x s) = Some s)"

definition aead_correct :: "ext \<Rightarrow> bool" where
  "aead_correct x \<longleftrightarrow> (\<forall>key nonce plain ct.
     x_aead_seal x key nonce plain = Inr ct \<longrightarrow> x_aead_open x key nonce ct = Some plain)"

definition utf8_correct :: "ext \<Rightarrow> bool" where
  "utf8_correct x \<longleftrightarrow> (\<forall>s. x_from_utf8 x s = Inr s)"

text \<open>
  A concrete instance of the external functions, for the examples: Base64 and Base32 are
  the identity, sealing prepends the key, hashing and signing are simple injective maps.
\<close>

definition payload0 :: "string \<Rightarrow> session_payload" where
  "payload0 tid = \<lparr>sp_tenant_id = tid, sp_user_id = 5, sp_identity_id = 7, sp_roles = [''admin''], sp_role_ids = [1],
     sp_permissions = [], sp_groups = [], sp_group_ids = [], sp_ip = None, sp_user_agent = None, sp_expires_at = secs 100\<rparr>"

definition ext0 :: ext where
  "ext0 = \<lparr>x_argon2_verify = (\<lambda>h p. Inr (h = CHR ''$'' # p)),
     x_argon2_hash = (\<lambda>salt p. Inr (CHR ''$'' # p)),
     x_sha256 = (\<lambda>s. rev s), x_b64_decode = Some, x_b64_encode = (\<lambda>s. s),
     x_aead_seal = (\<lambda>key nonce plain. Inr (key @ plain)),
     x_aead_open = (\<lambda>key nonce ct. strip_prefix key ct),
     x_from_utf8 = Inr, x_base32_encode = (\<lambda>s. s), x_base32_decode = Inr,
     x_totp_generate = (\<lambda>secret t. if t mod 60 = 0 then ''000002'' else ''000001''),
     x_totp_url = (\<lambda>s a b. Inr (a @ b)),
     x_json_parse = (\<lambda>s. Inr (JStr s)), x_json_print = (\<lambda>j. case j of JStr s \<Rightarrow> s | _ \<Rightarrow> []),
     x_payload_ser = sp_tenant_id, x_payload_de = (\<lambda>s. Inr (payload0 s)), x_jsonb_text = (\<lambda>s. s),
     c_kv_encryption_key = Some (replicate 32 (CHR ''k'')), c_uses_redis = False,
     c_default_session_ttl_secs = 86400, c_mfa_issuer = ''AuthRS''\<rparr>"

subsection \<open>Properties\<close>

lemma cipher_roundtrip:
  assumes "b64_correct x" "aead_correct x" "utf8_correct x" "length nonce = 12"
    and "cipher_encrypt x c nonce plain = Inr enc"
  shows "cipher_decrypt x c enc = Inr plain"
proof -
  obtain key where c: "c = Some key"
    using assms(5) by (auto simp: cipher_encrypt_def cipher_cipher_def bind_res_Inr_iff)
  then obtain ct where "x_aead_seal x key nonce plain = Inr ct" "enc = x_b64_encode x (nonce @ ct)"
    using assms(5)
    by (cases "x_aead_seal x key nonce plain") (auto simp: cipher_encrypt_def cipher_cipher_def)
  then show ?thesis
    using c assms(1-4) by (simp add: cipher_decrypt_def cipher_cipher_def b64_correct_def aead_correct_def utf8_correct_def)
qed

lemma ext0_correct [simp]: "b64_correct ext0" "aead_correct ext0" "utf8_correct ext0"
  by (auto simp: b64_correct_def aead_correct_def utf8_correct_def ext0_def)

lemma cipher_facts:
  assumes "b64_correct x" "aead_correct x" "utf8_correct x" "length nonce = 12"
  shows "cipher_encrypt x c nonce plain = Inr enc \<Longrightarrow> cipher_decrypt x c enc = Inr plain"
    and "(\<And>s k. kb = Some s \<Longrightarrow> x_b64_decode x (trim s) = Some k \<Longrightarrow> length k \<noteq> 32) \<Longrightarrow>
      isl (cipher_encrypt x (cipher_new x kb) nonce plain) \<and> isl (cipher_decrypt x (cipher_new x kb) plain)"
  using cipher_roundtrip [OF assms]
  by (auto simp: cipher_new_def non_empty_trim_def cipher_encrypt_def cipher_decrypt_def cipher_cipher_def
      split: option.splits bind_splits)

text \<open>
  Encryption at rest round-trips: whatever \<open>encrypt\<close> returns under a key is decrypted by
  the same cipher to the plaintext, whenever Base64, the AEAD and UTF-8 conversion behave as
  documented; and a cipher built from anything but a Base64 string of 32 bytes fails on every
  call, so that nothing is ever stored in the clear for want of a key.
\<close>

theorem cipher_correct:
  assumes "b64_correct x" "aead_correct x" "utf8_correct x" "length nonce = 12"
  shows "(\<forall>c enc. cipher_encrypt x c nonce plain = Inr enc \<longrightarrow> cipher_decrypt x c enc = Inr plain) \<and>
    ((\<forall>s k. kb = Some s \<longrightarrow> x_b64_decode x (trim s) = Some k \<longrightarrow> length k \<noteq> 32) \<longrightarrow>
      isl (cipher_encrypt x (cipher_new x kb) nonce plain) \<and> isl (cipher_decrypt x (cipher_new x kb) plain))"
  using cipher_facts [OF assms] by blast

theorem cipher_correct_witness:
  "cipher_decrypt ext0 (Some ''key'') ''0123456789abkeysecret'' = Inr ''secret'' \<and>
   isl (cipher_encrypt ext0 (cipher_new ext0 (Some ''short'')) ''0123456789ab'' ''secret'')"
proof
  have "cipher_encrypt ext0 (Some ''key'') ''0123456789ab'' ''secret'' = Inr ''0123456789abkeysecret''"
    by (simp add: cipher_encrypt_def cipher_cipher_def ext0_def)
  then show "cipher_decrypt ext0 (Some ''key'') ''0123456789abkeysecret'' = Inr ''secret''"
    using cipher_correct [OF ext0_correct, of "''0123456789ab''" "''secret''"] by simp
  have "length k \<noteq> 32" if "Some ''short'' = Some s" "x_b64_decode ext0 (trim s) = Some k" for s k
    using that by (auto simp: ext0_def trim_def trim_start_def trim_end_def is_whitespace_def)
  then show "isl (cipher_encrypt ext0 (cipher_new ext0 (Some ''short'')) ''0123456789ab'' ''secret'')"
    using cipher_correct [OF ext0_correct, of "''0123456789ab''" "''secret''" "Some ''short''"] by simp
qed

end
