(* ===== verification/Identities_Repo.thy ===== *)
theory Identities_Repo
  imports Domain
begin

section \<open>Identities\<close>

text \<open>
  \<^verbatim>\<open>src/repo/identities.rs\<close>: lookups by global handle and the mutations of the shared
  credential. The instant \<open>now\<close> of a statement and the generated primary key are
  arguments. The table's constraints (migration 15) are \<open>identities_violation\<close>; \<open>identities_ok\<close>
  is what they make true of the table, and every operation keeps it.
\<close>

definition email_key :: "identity \<Rightarrow> string option" where
  "email_key i = map_option to_lowercase (i_email i)"

definition mobile_key :: "identity \<Rightarrow> (string option \<times> string) option" where
  "mobile_key i = map_option (\<lambda>m. (i_country_code i, m)) (i_mobile i)"

definition id_key :: "identity \<Rightarrow> uuid option" where
  "id_key i = Some (i_id i)"

definition mobile_pair :: "identity \<Rightarrow> bool" where
  "mobile_pair i \<longleftrightarrow> (i_mobile i = None) = (i_country_code i = None)"

definition identities_violation :: "identity \<Rightarrow> world \<Rightarrow> sqlx_error option" where
  "identities_violation i w =
     (if \<not> mobile_pair i then Some (OtherSqlError ''identities_mobile_pair'')
      else if dup_key id_key i (t_identities w) \<or> dup_key email_key i (t_identities w)
           \<or> dup_key mobile_key i (t_identities w) then Some UniqueViolation
      else None)"

subsection \<open>Operations\<close>

definition identities_get_by_id :: "uuid \<Rightarrow> identity option op" where
  "identities_get_by_id iid = sql_fetch t_identities (\<lambda>i. i_id i = iid)"

definition identities_get_by_email :: "string \<Rightarrow> identity option op" where
  "identities_get_by_email email =
     sql_fetch t_identities (\<lambda>i. email_key i = Some (to_lowercase email))"

definition identities_get_by_mobile :: "string \<Rightarrow> string \<Rightarrow> identity option op" where
  "identities_get_by_mobile country_code mobile =
     sql_fetch t_identities (\<lambda>i. i_country_code i = Some country_code \<and> i_mobile i = Some mobile)"

definition new_identity ::
  "time \<Rightarrow> uuid \<Rightarrow> string option \<Rightarrow> string option \<Rightarrow> string option \<Rightarrow> string option \<Rightarrow> string option
   \<Rightarrow> string option \<Rightarrow> identity" where
  "new_identity now iid email mobile country_code first_name last_name password_hash =
     \<lparr>i_id = iid, i_email = email, i_mobile = mobile, i_country_code = country_code,
      i_first_name = first_name, i_last_name = last_name, i_password_hash = password_hash,
      i_mfa_enabled = False, i_mfa_secret = None, i_force_password_change = False,
      i_failed_attempts = 0, i_locked_until = None, i_status = ''active'',
      i_created_at = now, i_updated_at = now, i_mfa_last_used_step = None\<rparr>"

definition identities_create ::
  "time \<Rightarrow> uuid \<Rightarrow> string option \<Rightarrow> string option \<Rightarrow> string option \<Rightarrow> string option \<Rightarrow> string option
   \<Rightarrow> string option \<Rightarrow> identity op" where
  "identities_create now iid email mobile country_code first_name last_name password_hash =
     (let row = new_identity now iid email mobile country_code first_name last_name password_hash in
      bindE (sql_insert t_identities_update (identities_violation row) row) (\<lambda>_. ret row))"

definition identities_update_password :: "time \<Rightarrow> uuid \<Rightarrow> string \<Rightarrow> unit op" where
  "identities_update_password now iid password_hash =
     sql_update t_identities_update (\<lambda>i. i_id i = iid)
       (\<lambda>i. i\<lparr>i_password_hash := Some password_hash, i_force_password_change := False, i_updated_at := now\<rparr>)"

definition identities_set_force_password_change :: "time \<Rightarrow> uuid \<Rightarrow> bool \<Rightarrow> unit op" where
  "identities_set_force_password_change now iid value =
     sql_update t_identities_update (\<lambda>i. i_id i = iid)
       (\<lambda>i. i\<lparr>i_force_password_change := value, i_updated_at := now\<rparr>)"

definition identities_increment_failed_attempts :: "time \<Rightarrow> uuid \<Rightarrow> time option \<Rightarrow> unit op" where
  "identities_increment_failed_attempts now iid lock_until = (case lock_until of
       Some until \<Rightarrow> sql_update t_identities_update (\<lambda>i. i_id i = iid)
         (\<lambda>i. i\<lparr>i_failed_attempts := i_failed_attempts i + 1, i_locked_until := Some until, i_updated_at := now\<rparr>)
     | None \<Rightarrow> sql_update t_identities_update (\<lambda>i. i_id i = iid)
         (\<lambda>i. i\<lparr>i_failed_attempts := i_failed_attempts i + 1, i_updated_at := now\<rparr>))"

definition identities_clear_failed_attempts :: "time \<Rightarrow> uuid \<Rightarrow> unit op" where
  "identities_clear_failed_attempts now iid =
     sql_update t_identities_update (\<lambda>i. i_id i = iid)
       (\<lambda>i. i\<lparr>i_failed_attempts := 0, i_locked_until := None, i_updated_at := now\<rparr>)"

definition identities_set_status :: "time \<Rightarrow> uuid \<Rightarrow> string \<Rightarrow> unit op" where
  "identities_set_status now iid status =
     sql_update t_identities_update (\<lambda>i. i_id i = iid)
       (\<lambda>i. i\<lparr>i_status := status, i_updated_at := now\<rparr>)"

definition identities_exists_by_email :: "string \<Rightarrow> bool op" where
  "identities_exists_by_email email =
     sql_exists t_identities (\<lambda>i. email_key i = Some (to_lowercase email))"

definition identities_exists_by_mobile :: "string \<Rightarrow> string \<Rightarrow> bool op" where
  "identities_exists_by_mobile country_code mobile =
     sql_exists t_identities (\<lambda>i. i_country_code i = Some country_code \<and> i_mobile i = Some mobile)"

lemmas identities_ops =
  identities_get_by_id_def identities_get_by_email_def identities_get_by_mobile_def
  identities_create_def identities_update_password_def identities_set_force_password_change_def
  identities_increment_failed_attempts_def identities_clear_failed_attempts_def
  identities_set_status_def identities_exists_by_email_def identities_exists_by_mobile_def

subsection \<open>The table's invariant\<close>

definition identity_table_ok :: "identity list \<Rightarrow> bool" where
  "identity_table_ok rows \<longleftrightarrow> unique_on id_key rows \<and> unique_on email_key rows
     \<and> unique_on mobile_key rows \<and> list_all mobile_pair rows"

abbreviation identities_ok :: "world \<Rightarrow> bool" where
  "identities_ok w \<equiv> identity_table_ok (t_identities w)"

text \<open>A change of an identity's row that leaves its keys alone.\<close>

definition same_handles :: "(identity \<Rightarrow> identity) \<Rightarrow> bool" where
  "same_handles f \<longleftrightarrow> (\<forall>i. i_id (f i) = i_id i \<and> i_email (f i) = i_email i
     \<and> i_mobile (f i) = i_mobile i \<and> i_country_code (f i) = i_country_code i)"

lemma same_handles_keys:
  "same_handles f \<Longrightarrow> id_key (f i) = id_key i" "same_handles f \<Longrightarrow> email_key (f i) = email_key i"
  "same_handles f \<Longrightarrow> mobile_key (f i) = mobile_key i" "same_handles f \<Longrightarrow> mobile_pair (f i) = mobile_pair i"
  by (simp_all add: same_handles_def id_key_def email_key_def mobile_key_def mobile_pair_def)

lemma identity_table_ok_update:
  "identity_table_ok rows \<Longrightarrow> same_handles f \<Longrightarrow> identity_table_ok (update_rows P f rows)"
  by (auto simp: identity_table_ok_def list_all_iff set_update_rows same_handles_keys
      intro!: unique_on_update_rows)

lemma identity_table_ok_insert:
  "identity_table_ok (t_identities w) \<Longrightarrow> identities_violation i w = None \<Longrightarrow>
     identity_table_ok (t_identities w @ [i])"
  by (auto simp: identity_table_ok_def identities_violation_def unique_on_append split: if_splits)

lemma identities_keep_ok [keeps_rules]:
  "keeps identities_ok (identities_get_by_id iid)"
  "keeps identities_ok (identities_get_by_email e)"
  "keeps identities_ok (identities_get_by_mobile c m)"
  "keeps identities_ok (identities_create now iid email mobile cc fn ln pwh)"
  "keeps identities_ok (identities_update_password now iid h)"
  "keeps identities_ok (identities_set_force_password_change now iid b)"
  "keeps identities_ok (identities_increment_failed_attempts now iid lu)"
  "keeps identities_ok (identities_clear_failed_attempts now iid)"
  "keeps identities_ok (identities_set_status now iid st)"
  "keeps identities_ok (identities_exists_by_email e)"
  "keeps identities_ok (identities_exists_by_mobile c m)"
  by (auto simp: identities_ops Let_def same_handles_def split: option.split
      intro!: keeps_update keeps_insert identity_table_ok_update identity_table_ok_insert)

text \<open>What the lookups return in a consistent table.\<close>

lemma identity_found_by_id:
  "identities_ok w \<Longrightarrow> i \<in> set (t_identities w) \<Longrightarrow>
     find_first (\<lambda>j. i_id j = i_id i) (t_identities w) = Some i"
  by (rule find_first_unique_on [where f = id_key and k = "i_id i"])
    (auto simp: identity_table_ok_def id_key_def)

lemma identity_found_by_email:
  "identities_ok w \<Longrightarrow> i \<in> set (t_identities w) \<Longrightarrow> i_email i = Some e \<Longrightarrow>
     find_first (\<lambda>j. email_key j = Some (to_lowercase e)) (t_identities w) = Some i"
  by (rule find_first_unique_on [where f = email_key and k = "to_lowercase e"])
    (auto simp: identity_table_ok_def email_key_def)

lemma find_identity_update:
  "same_handles f \<Longrightarrow> find_first (\<lambda>i. i_id i = iid) (update_rows P f rows) =
     map_option (\<lambda>i. if P i then f i else i) (find_first (\<lambda>i. i_id i = iid) rows)"
  by (rule find_first_update_rows) (simp add: same_handles_def)

end
