(* ===== verification/Users_Repo.thy ===== *)
theory Users_Repo
  imports Identities_Repo Rsql_Filter
begin

section \<open>Memberships and tenants\<close>

text \<open>
  \<^verbatim>\<open>src/repo/users.rs\<close> and \<^verbatim>\<open>src/repo/tenants.rs\<close>. A \<^verbatim>\<open>users\<close> row is a membership of an
  identity in a tenant; every read joins it with its identity. \<open>users_list\<close> and
  \<open>users_list_by_group\<close> compose SQL text from a request's filter and hand it to the
  database, the parameter \<open>pg\<close>: what is modelled of them is the text and the bound values.
  \<open>users_ok\<close> is what the constraints of migrations 3 and 17 make true.
\<close>

definition row_to_user :: "membership \<Rightarrow> identity \<Rightarrow> user" where
  "row_to_user m i =
     \<lparr>u_id = m_id m, u_tenant_id = m_tenant_id m, u_identity_id = m_identity_id m,
      u_first_name = i_first_name i, u_last_name = i_last_name i, u_email = i_email i,
      u_username = m_username m, u_mobile = i_mobile i, u_country_code = i_country_code i,
      u_status = m_status m, u_mfa_enabled = i_mfa_enabled i,
      u_access_valid_until = m_access_valid_until m,
      u_created_at = m_created_at m, u_updated_at = m_updated_at m\<rparr>"

text \<open>\<^verbatim>\<open>FROM users u JOIN identities i ON i.id = u.identity_id\<close>: the joined pairs.\<close>

definition from_join :: "world \<Rightarrow> (membership \<times> identity) list" where
  "from_join w = concat (map (\<lambda>m. map (Pair m)
     (filter (\<lambda>i. i_id i = m_identity_id m) (t_identities w))) (t_users w))"

definition fetch_user :: "(membership \<Rightarrow> identity \<Rightarrow> bool) \<Rightarrow> user option op" where
  "fetch_user P = gets (\<lambda>w. map_option (\<lambda>(m, i). row_to_user m i)
     (find_first (\<lambda>(m, i). P m i) (from_join w)))"

definition membership_key :: "membership \<Rightarrow> (string \<times> uuid) option" where
  "membership_key m = Some (m_tenant_id m, m_identity_id m)"

definition username_key :: "membership \<Rightarrow> (string \<times> string) option" where
  "username_key m = map_option (Pair (m_tenant_id m)) (m_username m)"

definition user_id_key :: "membership \<Rightarrow> uuid option" where
  "user_id_key m = Some (m_id m)"

definition users_violation :: "membership \<Rightarrow> world \<Rightarrow> sqlx_error option" where
  "users_violation m w =
     (if dup_key user_id_key m (t_users w) \<or> dup_key membership_key m (t_users w)
         \<or> dup_key username_key m (t_users w) then Some UniqueViolation
      else if \<not> list_ex (\<lambda>t. tn_id t = m_tenant_id m) (t_tenants w)
        then Some (OtherSqlError ''users_tenant_id_fkey'')
      else if \<not> list_ex (\<lambda>i. i_id i = m_identity_id m) (t_identities w)
        then Some (OtherSqlError ''users_identity_fk'')
      else None)"

subsection \<open>Operations\<close>

definition new_membership :: "time \<Rightarrow> uuid \<Rightarrow> identity \<Rightarrow> string \<Rightarrow> string option \<Rightarrow> membership" where
  "new_membership now uid i tenant_id username =
     \<lparr>m_id = uid, m_tenant_id = tenant_id, m_identity_id = i_id i, m_username = username,
      m_status = ''active'', m_access_valid_until = None, m_created_at = now, m_updated_at = now\<rparr>"

definition users_create :: "time \<Rightarrow> uuid \<Rightarrow> identity \<Rightarrow> string \<Rightarrow> string option \<Rightarrow> user op" where
  "users_create now uid i tenant_id username =
     (let row = new_membership now uid i tenant_id username in
      bindE (sql_insert t_users_update (users_violation row) row) (\<lambda>_. ret (row_to_user row i)))"

definition select_cols :: string where
  "select_cols = ''u.id, u.tenant_id, u.identity_id, i.first_name, i.last_name, '' @
     ''i.email, u.username, i.mobile, i.country_code, u.status, '' @
     ''i.mfa_enabled, u.access_valid_until, u.created_at, u.updated_at''"

definition from_join_sql :: string where
  "from_join_sql = ''FROM users u JOIN identities i ON i.id = u.identity_id''"

definition and_filter :: "string \<Rightarrow> built_query \<Rightarrow> string" where
  "and_filter w built = w @ (if where_sql built = [] then [] else '' AND '' @ where_sql built)"

definition order_or :: "string \<Rightarrow> built_query \<Rightarrow> string" where
  "order_or dflt built = (if order_sql built = [] then dflt else order_sql built)"

definition limit_offset :: "32 word \<Rightarrow> 32 word \<Rightarrow> string" where
  "limit_offset limit offset = '' LIMIT '' @ nat_str (unat limit) @ '' OFFSET '' @ nat_str (unat offset)"

definition users_list_query ::
  "string \<Rightarrow> bool \<Rightarrow> filter_node option \<Rightarrow> sort_spec list \<Rightarrow> 32 word \<Rightarrow> 32 word \<Rightarrow> (string \<times> string list) result" where
  "users_list_query tenant_id include_archived filt sorts limit offset =
     bind_res (build filt sorts user_filter_fields 2) (\<lambda>built.
       let w0 = ''u.tenant_id = $1'' @
                (if include_archived then []
                 else '' AND u.status != '' @ [CHR 0x27] @ ''archived'' @ [CHR 0x27]) in
       Inr (''SELECT '' @ select_cols @ '' '' @ from_join_sql @ '' WHERE '' @ and_filter w0 built
              @ order_or '' ORDER BY u.created_at DESC'' built @ limit_offset limit offset,
            tenant_id # params built))"

definition users_list ::
  "(string \<Rightarrow> string list \<Rightarrow> user list op) \<Rightarrow> string \<Rightarrow> bool \<Rightarrow> filter_node option \<Rightarrow> sort_spec list
   \<Rightarrow> 32 word \<Rightarrow> 32 word \<Rightarrow> user list op" where
  "users_list pg tenant_id include_archived filt sorts limit offset =
     bindE (lift (users_list_query tenant_id include_archived filt sorts limit offset))
       (\<lambda>(sql, binds). pg sql binds)"

definition users_list_by_group_query ::
  "string \<Rightarrow> string \<Rightarrow> filter_node option \<Rightarrow> sort_spec list \<Rightarrow> 32 word \<Rightarrow> 32 word \<Rightarrow> (string \<times> string list) result" where
  "users_list_by_group_query tenant_id group_id filt sorts limit offset =
     bind_res (build filt sorts user_filter_fields 3) (\<lambda>built.
       Inr (''SELECT '' @ select_cols @ '' '' @ from_join_sql @ '' JOIN user_groups ug ON ug.user_id = u.id WHERE ''
              @ and_filter ''u.tenant_id = $1 AND ug.group_id = $2'' built
              @ order_or '' ORDER BY ug.created_at ASC'' built @ limit_offset limit offset,
            tenant_id # group_id # params built))"

definition users_list_by_group ::
  "(string \<Rightarrow> string list \<Rightarrow> user list op) \<Rightarrow> string \<Rightarrow> string \<Rightarrow> filter_node option \<Rightarrow> sort_spec list
   \<Rightarrow> 32 word \<Rightarrow> 32 word \<Rightarrow> user list op" where
  "users_list_by_group pg tenant_id group_id filt sorts limit offset =
     bindE (lift (users_list_by_group_query tenant_id group_id filt sorts limit offset))
       (\<lambda>(sql, binds). pg sql binds)"

definition users_archive :: "time \<Rightarrow> string \<Rightarrow> uuid \<Rightarrow> bool op" where
  "users_archive now tenant_id user_id =
     (let P = (\<lambda>m. m_tenant_id m = tenant_id \<and> m_id m = user_id \<and> m_status m \<noteq> ''archived'') in
      bindE (counting t_users P (sql_update t_users_update P
               (\<lambda>m. m\<lparr>m_status := ''archived'', m_updated_at := now\<rparr>)))
        (\<lambda>n. ret (0 < n)))"

definition users_get_by_id :: "string \<Rightarrow> uuid \<Rightarrow> user option op" where
  "users_get_by_id tenant_id user_id =
     fetch_user (\<lambda>m i. m_tenant_id m = tenant_id \<and> m_id m = user_id)"

definition users_get_membership :: "uuid \<Rightarrow> string \<Rightarrow> user option op" where
  "users_get_membership identity_id tenant_id =
     fetch_user (\<lambda>m i. m_identity_id m = identity_id \<and> m_tenant_id m = tenant_id)"

definition users_get_memberships_for_identity :: "uuid \<Rightarrow> user list op" where
  "users_get_memberships_for_identity identity_id = gets (\<lambda>w.
     sort_key u_created_at (map (\<lambda>(m, i). row_to_user m i)
       (filter (\<lambda>(m, i). m_identity_id m = identity_id \<and> m_status m \<noteq> ''archived'') (from_join w))))"

definition users_get_by_email :: "string \<Rightarrow> string \<Rightarrow> user option op" where
  "users_get_by_email tenant_id email =
     fetch_user (\<lambda>m i. m_tenant_id m = tenant_id \<and> i_email i = Some email)"

definition users_get_by_email_insensitive :: "string \<Rightarrow> string \<Rightarrow> user option op" where
  "users_get_by_email_insensitive tenant_id email =
     fetch_user (\<lambda>m i. m_tenant_id m = tenant_id \<and> email_key i = Some (to_lowercase email))"

definition users_get_by_username :: "string \<Rightarrow> string \<Rightarrow> user option op" where
  "users_get_by_username tenant_id username =
     fetch_user (\<lambda>m i. m_tenant_id m = tenant_id \<and> m_username m = Some username)"

definition users_set_access_valid_until :: "time \<Rightarrow> string \<Rightarrow> uuid \<Rightarrow> time option \<Rightarrow> unit op" where
  "users_set_access_valid_until now tenant_id user_id access_valid_until =
     sql_update t_users_update (\<lambda>m. m_tenant_id m = tenant_id \<and> m_id m = user_id)
       (\<lambda>m. m\<lparr>m_access_valid_until := access_valid_until, m_updated_at := now\<rparr>)"

definition users_exists_by_username :: "string \<Rightarrow> string \<Rightarrow> bool op" where
  "users_exists_by_username tenant_id username =
     sql_exists t_users (\<lambda>m. m_tenant_id m = tenant_id \<and> m_username m = Some username)"

definition tenants_get_by_id :: "string \<Rightarrow> tenant option op" where
  "tenants_get_by_id tid = sql_fetch t_tenants (\<lambda>t. tn_id t = tid)"

definition tenants_list_all :: "tenant list op" where
  "tenants_list_all = gets (\<lambda>w. sort_key tn_name (t_tenants w))"

lemmas users_reads =
  users_get_by_id_def users_get_membership_def users_get_memberships_for_identity_def
  users_get_by_email_def users_get_by_email_insensitive_def users_get_by_username_def
  users_exists_by_username_def tenants_get_by_id_def tenants_list_all_def fetch_user_def

subsection \<open>The table's invariant\<close>

definition users_table_ok :: "identity list \<Rightarrow> membership list \<Rightarrow> bool" where
  "users_table_ok ids rows \<longleftrightarrow> unique_on user_id_key rows \<and> unique_on membership_key rows
     \<and> unique_on username_key rows
     \<and> list_all (\<lambda>m. m_identity_id m \<in> i_id ` set ids) rows"

definition accounts_ok :: "world \<Rightarrow> bool" where
  "accounts_ok w \<longleftrightarrow> identities_ok w \<and> users_table_ok (t_identities w) (t_users w)"

lemma accounts_ok_identities: "accounts_ok w \<Longrightarrow> identities_ok w"
  by (simp add: accounts_ok_def)

definition same_membership :: "(membership \<Rightarrow> membership) \<Rightarrow> bool" where
  "same_membership f \<longleftrightarrow> (\<forall>m. m_id (f m) = m_id m \<and> m_tenant_id (f m) = m_tenant_id m
     \<and> m_identity_id (f m) = m_identity_id m \<and> m_username (f m) = m_username m)"

lemma users_table_ok_update:
  "users_table_ok ids rows \<Longrightarrow> same_membership f \<Longrightarrow> users_table_ok ids (update_rows P f rows)"
  by (auto simp: users_table_ok_def same_membership_def list_all_iff set_update_rows
      user_id_key_def membership_key_def username_key_def intro!: unique_on_update_rows)

lemma users_table_ok_insert:
  "users_table_ok (t_identities w) (t_users w) \<Longrightarrow> users_violation m w = None \<Longrightarrow>
     users_table_ok (t_identities w) (t_users w @ [m])"
  by (auto simp: users_table_ok_def users_violation_def unique_on_append list_ex_iff
      split: if_splits) (metis image_eqI)

lemma users_table_ok_mono:
  "users_table_ok ids rows \<Longrightarrow> i_id ` set ids \<subseteq> i_id ` set ids' \<Longrightarrow> users_table_ok ids' rows"
  by (auto simp: users_table_ok_def list_all_iff)

lemma users_keep_ok [keeps_rules]:
  "keeps accounts_ok (users_create now uid i t un)"
  "keeps accounts_ok (users_archive now t u)"
  "keeps accounts_ok (users_get_by_id t u)"
  "keeps accounts_ok (users_get_membership ii t)"
  "keeps accounts_ok (users_get_memberships_for_identity ii)"
  "keeps accounts_ok (users_get_by_email t e)"
  "keeps accounts_ok (users_get_by_email_insensitive t e)"
  "keeps accounts_ok (users_get_by_username t n)"
  "keeps accounts_ok (users_set_access_valid_until now t u v)"
  "keeps accounts_ok (users_exists_by_username t n)"
  "keeps accounts_ok (tenants_get_by_id tid)"
  by (auto simp: users_create_def users_archive_def users_set_access_valid_until_def users_reads Let_def
      accounts_ok_def same_membership_def
      intro!: keeps_bindE keeps_insert keeps_update keeps_counting users_table_ok_update users_table_ok_insert)

lemma i_id_update_rows: "same_handles f \<Longrightarrow> i_id ` set (update_rows P f rows) = i_id ` set rows"
proof -
  assume "same_handles f"
  then have "map i_id (update_rows P f rows) = map i_id rows"
    by (intro map_update_rows) (simp add: same_handles_def)
  then show ?thesis by (metis list.set_map)
qed

lemma accounts_ok_identity_update:
  "accounts_ok w \<Longrightarrow> same_handles f \<Longrightarrow> accounts_ok (t_identities_update (update_rows P f) w)"
  by (auto simp: accounts_ok_def i_id_update_rows intro!: identity_table_ok_update
      elim!: users_table_ok_mono)

lemma accounts_ok_identity_insert:
  "accounts_ok w \<Longrightarrow> identities_violation i w = None \<Longrightarrow>
     accounts_ok (t_identities_update (\<lambda>rows. rows @ [i]) w)"
  by (auto simp: accounts_ok_def intro: identity_table_ok_insert elim!: users_table_ok_mono)

lemma identities_keep_accounts [keeps_rules]:
  "keeps accounts_ok (identities_get_by_id iid)"
  "keeps accounts_ok (identities_get_by_email e)"
  "keeps accounts_ok (identities_get_by_mobile c m)"
  "keeps accounts_ok (identities_create now iid email mobile cc fn ln pwh)"
  "keeps accounts_ok (identities_update_password now iid h)"
  "keeps accounts_ok (identities_set_force_password_change now iid b)"
  "keeps accounts_ok (identities_increment_failed_attempts now iid lu)"
  "keeps accounts_ok (identities_clear_failed_attempts now iid)"
  "keeps accounts_ok (identities_set_status now iid st)"
  "keeps accounts_ok (identities_exists_by_email e)"
  "keeps accounts_ok (identities_exists_by_mobile c m)"
  by (auto simp: identities_ops Let_def same_handles_def split: option.split
      intro!: keeps_bindE keeps_update keeps_insert accounts_ok_identity_update accounts_ok_identity_insert)

end
