(* ===== verification/Token_Repos.thy ===== *)
theory Token_Repos
  imports Users_Repo
begin

section \<open>Tokens, one-time codes and OAuth states\<close>

text \<open>
  \<^verbatim>\<open>src/repo/password_reset_tokens.rs\<close>, \<^verbatim>\<open>identity_tokens.rs\<close>, \<^verbatim>\<open>force_change_tokens.rs\<close>,
  \<^verbatim>\<open>membership_invites.rs\<close>, \<^verbatim>\<open>otp.rs\<close> and \<^verbatim>\<open>oauth.rs\<close>. The first four offer the same
  interface (create, look up while valid, delete), stated once as the locale
  \<open>token_repo\<close> with its laws and interpreted on each of them.
\<close>

subsection \<open>Password reset tokens\<close>

definition identity_exists :: "uuid \<Rightarrow> world \<Rightarrow> bool" where
  "identity_exists iid w \<longleftrightarrow> list_ex (\<lambda>i. i_id i = iid) (t_identities w)"

definition tenant_exists :: "string \<Rightarrow> world \<Rightarrow> bool" where
  "tenant_exists tid w \<longleftrightarrow> list_ex (\<lambda>t. tn_id t = tid) (t_tenants w)"

definition user_exists :: "uuid \<Rightarrow> world \<Rightarrow> bool" where
  "user_exists uid w \<longleftrightarrow> list_ex (\<lambda>m. m_id m = uid) (t_users w)"

definition token_violation :: "bool \<Rightarrow> (string \<times> bool) list \<Rightarrow> sqlx_error option" where
  "token_violation dup fks =
     (if dup then Some UniqueViolation
      else map_option (\<lambda>(n, _). OtherSqlError n) (find_first (\<lambda>(_, ok). \<not> ok) fks))"

definition reset_tokens_create :: "uuid \<Rightarrow> string \<Rightarrow> time \<Rightarrow> unit op" where
  "reset_tokens_create identity_id token expires_at =
     sql_insert t_reset_tokens_update
       (\<lambda>w. token_violation (token \<in> rt_token ` set (t_reset_tokens w))
              [(''password_reset_tokens_identity_fk'', identity_exists identity_id w)])
       \<lparr>rt_identity_id = identity_id, rt_token = token, rt_expires_at = expires_at\<rparr>"

definition reset_tokens_get_valid :: "time \<Rightarrow> string \<Rightarrow> uuid option op" where
  "reset_tokens_get_valid now token = gets (\<lambda>w. map_option rt_identity_id
     (find_first (\<lambda>r. rt_token r = token \<and> now < rt_expires_at r) (t_reset_tokens w)))"

definition reset_tokens_delete_by_token :: "string \<Rightarrow> unit op" where
  "reset_tokens_delete_by_token token = sql_delete t_reset_tokens_update (\<lambda>r. rt_token r = token)"

definition reset_tokens_delete_for_identity :: "uuid \<Rightarrow> unit op" where
  "reset_tokens_delete_for_identity identity_id =
     sql_delete t_reset_tokens_update (\<lambda>r. rt_identity_id r = identity_id)"

subsection \<open>Identity tokens\<close>

definition identity_tokens_create :: "uuid \<Rightarrow> string \<Rightarrow> time \<Rightarrow> unit op" where
  "identity_tokens_create identity_id token expires_at =
     sql_insert t_identity_tokens_update
       (\<lambda>w. token_violation (token \<in> it_token ` set (t_identity_tokens w))
              [(''identity_tokens_identity_id_fkey'', identity_exists identity_id w)])
       \<lparr>it_identity_id = identity_id, it_token = token, it_expires_at = expires_at\<rparr>"

definition identity_tokens_get_valid :: "time \<Rightarrow> string \<Rightarrow> uuid option op" where
  "identity_tokens_get_valid now token = gets (\<lambda>w. map_option it_identity_id
     (find_first (\<lambda>r. it_token r = token \<and> now < it_expires_at r) (t_identity_tokens w)))"

definition identity_tokens_delete_by_token :: "string \<Rightarrow> unit op" where
  "identity_tokens_delete_by_token token = sql_delete t_identity_tokens_update (\<lambda>r. it_token r = token)"

subsection \<open>Force-change tokens\<close>

definition change_tokens_create :: "string \<times> uuid \<Rightarrow> string \<Rightarrow> time \<Rightarrow> unit op" where
  "change_tokens_create subject token expires_at = (case subject of (tenant_id, user_id) \<Rightarrow>
     bindE (sql_delete t_change_tokens_update (\<lambda>r. ct_tenant_id r = tenant_id \<and> ct_user_id r = user_id)) (\<lambda>_.
       sql_insert t_change_tokens_update
         (\<lambda>w. token_violation (token \<in> ct_token ` set (t_change_tokens w))
                [(''force_change_tokens_tenant_id_fkey'', tenant_exists tenant_id w),
                 (''force_change_tokens_user_id_fkey'', user_exists user_id w)])
         \<lparr>ct_tenant_id = tenant_id, ct_user_id = user_id, ct_token = token, ct_expires_at = expires_at\<rparr>))"

definition change_tokens_get_valid :: "time \<Rightarrow> string \<Rightarrow> (string \<times> uuid) option op" where
  "change_tokens_get_valid now token = gets (\<lambda>w. map_option (\<lambda>r. (ct_tenant_id r, ct_user_id r))
     (find_first (\<lambda>r. ct_token r = token \<and> now < ct_expires_at r) (t_change_tokens w)))"

definition change_tokens_delete_by_token :: "string \<Rightarrow> unit op" where
  "change_tokens_delete_by_token token = sql_delete t_change_tokens_update (\<lambda>r. ct_token r = token)"

subsection \<open>Membership invites\<close>

record membership_invite =
  mi_identity_id :: uuid
  mi_tenant_id :: string
  mi_first_name :: "string option"
  mi_last_name :: "string option"
  mi_username :: "string option"

definition invite_of :: "invite_row \<Rightarrow> membership_invite" where
  "invite_of r = \<lparr>mi_identity_id = iv_identity_id r, mi_tenant_id = iv_tenant_id r,
     mi_first_name = iv_first_name r, mi_last_name = iv_last_name r, mi_username = iv_username r\<rparr>"

definition invites_create :: "membership_invite \<Rightarrow> string \<Rightarrow> time \<Rightarrow> unit op" where
  "invites_create mi token expires_at =
     bindE (sql_delete t_invites_update
              (\<lambda>r. iv_identity_id r = mi_identity_id mi \<and> iv_tenant_id r = mi_tenant_id mi)) (\<lambda>_.
       sql_insert t_invites_update
         (\<lambda>w. token_violation (token \<in> iv_token ` set (t_invites w))
                [(''membership_invites_identity_id_fkey'', identity_exists (mi_identity_id mi) w),
                 (''membership_invites_tenant_id_fkey'', tenant_exists (mi_tenant_id mi) w)])
         \<lparr>iv_identity_id = mi_identity_id mi, iv_tenant_id = mi_tenant_id mi,
          iv_first_name = mi_first_name mi, iv_last_name = mi_last_name mi, iv_username = mi_username mi,
          iv_token = token, iv_expires_at = expires_at\<rparr>)"

definition invites_get_valid :: "time \<Rightarrow> string \<Rightarrow> membership_invite option op" where
  "invites_get_valid now token = gets (\<lambda>w. map_option invite_of
     (find_first (\<lambda>r. iv_token r = token \<and> now < iv_expires_at r) (t_invites w)))"

definition invites_delete_by_token :: "string \<Rightarrow> unit op" where
  "invites_delete_by_token token = sql_delete t_invites_update (\<lambda>r. iv_token r = token)"

subsection \<open>The interface of a token repository\<close>

locale token_repo =
  fixes create :: "'subject \<Rightarrow> string \<Rightarrow> time \<Rightarrow> unit op"
    and get_valid :: "time \<Rightarrow> string \<Rightarrow> 'subject option op"
    and delete_by_token :: "string \<Rightarrow> unit op"
    and tokens_ok :: "world \<Rightarrow> bool"
  assumes get_readonly: "readonly (get_valid now token)"
    and get_returns: "\<exists>r. get_valid now token w = (Inr r, w)"
    and create_ok: "tokens_ok w \<Longrightarrow> create sub token ex w = (r, w') \<Longrightarrow> tokens_ok w'"
    and delete_ok: "tokens_ok w \<Longrightarrow> delete_by_token token w = (r, w') \<Longrightarrow> tokens_ok w'"
    and created: "tokens_ok w \<Longrightarrow> create sub token ex w = (Inr (), w') \<Longrightarrow>
      get_valid now token w' = (Inr (if now < ex then Some sub else None), w')"
    and create_no_other: "tokens_ok w \<Longrightarrow> token' \<noteq> token \<Longrightarrow> create sub token ex w = (r, w') \<Longrightarrow>
      get_valid now token' w' = (Inr (Some sub'), w') \<Longrightarrow> get_valid now token' w = (Inr (Some sub'), w)"
    and delete_returns: "\<exists>w'. delete_by_token token w = (Inr (), w')"
    and deleted: "delete_by_token token w = (r, w') \<Longrightarrow> get_valid now token w' = (Inr None, w')"
    and delete_other: "token' \<noteq> token \<Longrightarrow> delete_by_token token w = (r, w') \<Longrightarrow>
      fst (get_valid now token' w') = fst (get_valid now token' w)"
    and expiry: "now \<le> now' \<Longrightarrow> tokens_ok w \<Longrightarrow> get_valid now' token w = (Inr (Some sub), w) \<Longrightarrow>
      get_valid now token w = (Inr (Some sub), w)"
begin

text \<open>A token is redeemed by looking it up and deleting it.\<close>

definition redeem :: "time \<Rightarrow> string \<Rightarrow> 'subject option op" where
  "redeem now token = bindE (get_valid now token) (\<lambda>r. case r of
     None \<Rightarrow> ret None | Some sub \<Rightarrow> bindE (delete_by_token token) (\<lambda>_. ret (Some sub)))"

lemma redeem_returns: "\<exists>r w'. redeem now token w = (Inr r, w')"
proof -
  obtain r where "get_valid now token w = (Inr r, w)" using get_returns by blast
  then show ?thesis
    using delete_returns [of token w] by (cases r) (auto simp: redeem_def)
qed

lemma redeem_once:
  assumes "redeem now token w = (Inr (Some sub), w')"
  shows "redeem now' token w' = (Inr None, w')"
proof -
  obtain r where r: "get_valid now token w = (Inr r, w)" using get_returns by blast
  then obtain u where "delete_by_token token w = (Inr u, w')"
    using assms by (cases r) (auto simp: redeem_def bindE_Inr_iff)
  then have "get_valid now' token w' = (Inr None, w')" by (rule deleted)
  then show ?thesis by (simp add: redeem_def)
qed

lemma redeem_after_create:
  assumes "tokens_ok w" "create sub token ex w = (Inr (), w')"
  shows "fst (redeem now token w') = Inr (if now < ex then Some sub else None)"
  using created [OF assms, of now] delete_returns [of token w']
  by (auto simp: redeem_def)

lemma redeem_other:
  assumes "token' \<noteq> token" "redeem now token w = (r, w')"
  shows "fst (get_valid now' token' w') = fst (get_valid now' token' w)"
proof -
  obtain g where g: "get_valid now token w = (Inr g, w)" using get_returns by blast
  obtain v where v: "delete_by_token token w = (Inr (), v)" using delete_returns by blast
  show ?thesis
    using assms(2) g v delete_other [OF assms(1) v] by (cases g) (auto simp: redeem_def)
qed

end

lemma find_token_append:
  "x \<notin> tok ` set rows \<Longrightarrow>
   find_first (\<lambda>r. tok r = x \<and> P r) (rows @ [row]) = (if tok row = x \<and> P row then Some row else None)"
  by (induction rows) auto

lemma find_token_append_other:
  "tok row \<noteq> x \<Longrightarrow> find_first (\<lambda>r. tok r = x \<and> P r) (rows @ [row]) = find_first (\<lambda>r. tok r = x \<and> P r) rows"
  by (induction rows) auto

lemma find_token_deleted: "find_first (\<lambda>r. tok r = x \<and> P r) (filter (\<lambda>r. tok r \<noteq> x) rows) = None"
  by (induction rows) auto

lemma find_token_delete_other:
  "y \<noteq> x \<Longrightarrow> find_first (\<lambda>r. tok r = y \<and> P r) (filter (\<lambda>r. tok r \<noteq> x) rows) = find_first (\<lambda>r. tok r = y \<and> P r) rows"
  by (induction rows) auto

lemma unique_find_filter:
  "unique_on (\<lambda>r. Some (tok r)) rows \<Longrightarrow>
   find_first (\<lambda>r. tok r = x \<and> P r) (filter Q rows) = Some r \<Longrightarrow> find_first (\<lambda>r. tok r = x \<and> P r) rows = Some r"
  by (rule find_first_unique) (auto dest!: find_first_SomeD intro: unique_onD)

lemma find_token_later:
  "now \<le> now' \<Longrightarrow> unique_on (\<lambda>r. Some (tok r)) rows \<Longrightarrow>
   find_first (\<lambda>r. tok r = x \<and> now' < (ex r :: time)) rows = Some r \<Longrightarrow>
   find_first (\<lambda>r. tok r = x \<and> now < ex r) rows = Some r"
  by (rule find_first_unique) (auto dest!: find_first_SomeD intro: unique_onD)

lemma token_violation_None: "token_violation dup fks = None \<longleftrightarrow> \<not> dup \<and> list_all snd fks"
  by (auto simp: token_violation_def find_first_None_iff list_all_iff)

definition reset_tokens_ok :: "world \<Rightarrow> bool" where
  "reset_tokens_ok w \<longleftrightarrow> unique_on (\<lambda>r. Some (rt_token r)) (t_reset_tokens w)"

definition identity_tokens_ok :: "world \<Rightarrow> bool" where
  "identity_tokens_ok w \<longleftrightarrow> unique_on (\<lambda>r. Some (it_token r)) (t_identity_tokens w)"

definition change_tokens_ok :: "world \<Rightarrow> bool" where
  "change_tokens_ok w \<longleftrightarrow> unique_on (\<lambda>r. Some (ct_token r)) (t_change_tokens w)"

definition invites_ok :: "world \<Rightarrow> bool" where
  "invites_ok w \<longleftrightarrow> unique_on (\<lambda>r. Some (iv_token r)) (t_invites w)"

lemma unique_token_append:
  "unique_on (\<lambda>r. Some (tok r)) rows \<Longrightarrow> tok row \<notin> tok ` set rows \<Longrightarrow> unique_on (\<lambda>r. Some (tok r)) (rows @ [row])"
  by (auto simp: unique_on_append dup_key_def set_keyed) (metis image_eqI)

lemmas token_finds = find_token_append find_token_append_other find_token_deleted find_token_delete_other

interpretation rt: token_repo reset_tokens_create reset_tokens_get_valid reset_tokens_delete_by_token reset_tokens_ok
  by unfold_locales
    (auto simp: reset_tokens_create_def reset_tokens_get_valid_def reset_tokens_delete_by_token_def
      reset_tokens_ok_def token_violation_None token_finds readonly_def
      split: option.splits if_splits prod.splits
      intro!: unique_token_append unique_on_filter
      dest: find_token_later unique_find_filter)

interpretation it: token_repo identity_tokens_create identity_tokens_get_valid identity_tokens_delete_by_token identity_tokens_ok
  by unfold_locales
    (auto simp: identity_tokens_create_def identity_tokens_get_valid_def identity_tokens_delete_by_token_def
      identity_tokens_ok_def token_violation_None token_finds readonly_def
      split: option.splits if_splits prod.splits
      intro!: unique_token_append unique_on_filter
      dest: find_token_later unique_find_filter)

interpretation ct: token_repo change_tokens_create change_tokens_get_valid change_tokens_delete_by_token change_tokens_ok
  by unfold_locales
    (auto simp: change_tokens_create_def change_tokens_get_valid_def change_tokens_delete_by_token_def
      change_tokens_ok_def token_violation_None token_finds readonly_def
      split: option.splits if_splits prod.splits
      intro!: unique_token_append unique_on_filter
      dest: find_token_later unique_find_filter)

interpretation iv: token_repo invites_create invites_get_valid invites_delete_by_token invites_ok
  by unfold_locales
    (auto simp: invites_create_def invites_get_valid_def invites_delete_by_token_def
      invites_ok_def token_violation_None token_finds invite_of_def readonly_def
      split: option.splits if_splits prod.splits
      intro!: unique_token_append unique_on_filter
      dest: find_token_later unique_find_filter)

subsection \<open>One-time passcodes\<close>

definition otp_violation :: "otp_row \<Rightarrow> world \<Rightarrow> sqlx_error option" where
  "otp_violation row w =
     (if o_channel row \<notin> {''email'', ''sms'', ''whatsapp''} then Some (OtherSqlError ''otp_codes_channel_check'')
      else token_violation (o_id row \<in> o_id ` set (t_otp w))
             [(''otp_codes_tenant_id_fkey'', tenant_exists (o_tenant_id row) w)])"

definition otp_create :: "time \<Rightarrow> uuid \<Rightarrow> string \<Rightarrow> string \<Rightarrow> string \<Rightarrow> string \<Rightarrow> string \<Rightarrow> time \<Rightarrow> uuid op" where
  "otp_create now fresh tenant_id identifier channel code purpose expires_at =
     (let row = \<lparr>o_id = fresh, o_tenant_id = tenant_id, o_identifier = identifier, o_channel = channel,
                 o_code = code, o_purpose = purpose, o_expires_at = expires_at,
                 o_attempt_count = 0, o_created_at = now\<rparr> in
      bindE (sql_insert t_otp_update (otp_violation row) row) (\<lambda>_. ret fresh))"

text \<open>\<^verbatim>\<open>ORDER BY created_at DESC LIMIT 1\<close>; of equally recent rows the one inserted last.\<close>

fun latest_row :: "('r \<Rightarrow> time) \<Rightarrow> 'r list \<Rightarrow> 'r option" where
  "latest_row f [] = None"
| "latest_row f (x # xs) = (case latest_row f xs of
     None \<Rightarrow> Some x | Some y \<Rightarrow> if f x \<le> f y then Some y else Some x)"

lemma latest_row_None [simp]: "latest_row f xs = None \<longleftrightarrow> xs = []"
  by (cases xs) (auto split: option.splits)

lemma latest_row_SomeD:
  "latest_row f xs = Some y \<Longrightarrow> y \<in> set xs \<and> (\<forall>x \<in> set xs. f x \<le> f y)"
  by (induction xs arbitrary: y) (fastforce split: option.splits if_splits)+

definition otp_matches :: "time \<Rightarrow> string \<Rightarrow> string \<Rightarrow> string \<Rightarrow> string \<Rightarrow> otp_row \<Rightarrow> bool" where
  "otp_matches now tenant_id identifier channel purpose r \<longleftrightarrow>
     o_tenant_id r = tenant_id \<and>
     (if channel = ''email'' then to_lowercase (o_identifier r) = to_lowercase identifier
      else o_identifier r = identifier) \<and>
     o_channel r = channel \<and> o_purpose r = purpose \<and> now < o_expires_at r"

definition otp_get_latest :: "time \<Rightarrow> string \<Rightarrow> string \<Rightarrow> string \<Rightarrow> string \<Rightarrow> otp_row option op" where
  "otp_get_latest now tenant_id identifier channel purpose = gets (\<lambda>w.
     latest_row o_created_at (filter (otp_matches now tenant_id identifier channel purpose) (t_otp w)))"

definition otp_increment_attempts :: "uuid \<Rightarrow> unit op" where
  "otp_increment_attempts oid = sql_update t_otp_update (\<lambda>r. o_id r = oid)
     (\<lambda>r. r\<lparr>o_attempt_count := o_attempt_count r + 1\<rparr>)"

definition otp_delete :: "uuid \<Rightarrow> unit op" where
  "otp_delete oid = sql_delete t_otp_update (\<lambda>r. o_id r = oid)"

subsection \<open>OAuth states and linked accounts\<close>

record oauth_state =
  st_tenant_id :: string
  st_provider :: string
  st_pkce_verifier :: string
  st_nonce :: string

definition oauth_create_state ::
  "time \<Rightarrow> string \<Rightarrow> string \<Rightarrow> string \<Rightarrow> string \<Rightarrow> string \<Rightarrow> time \<Rightarrow> unit op" where
  "oauth_create_state now state tenant_id provider pkce_verifier nonce expires_at =
     bindE (sql_delete t_oauth_states_update (\<lambda>r. os_expires_at r \<le> now)) (\<lambda>_.
       sql_insert t_oauth_states_update
         (\<lambda>w. token_violation (state \<in> os_state ` set (t_oauth_states w)) [])
         \<lparr>os_state = state, os_tenant_id = tenant_id, os_provider = provider,
          os_pkce_verifier = pkce_verifier, os_nonce = nonce, os_expires_at = expires_at\<rparr>)"

definition oauth_take_state :: "time \<Rightarrow> string \<Rightarrow> oauth_state option op" where
  "oauth_take_state now state =
     (let P = (\<lambda>r. os_state r = state \<and> now < os_expires_at r) in
      bindE (sql_fetch t_oauth_states P) (\<lambda>r.
      bindE (sql_delete t_oauth_states_update P) (\<lambda>_.
        ret (map_option (\<lambda>r. \<lparr>st_tenant_id = os_tenant_id r, st_provider = os_provider r,
                               st_pkce_verifier = os_pkce_verifier r, st_nonce = os_nonce r\<rparr>) r))))"

definition oauth_get_linked_identity :: "string \<Rightarrow> string \<Rightarrow> uuid option op" where
  "oauth_get_linked_identity provider provider_user_id = gets (\<lambda>w. map_option oa_identity_id
     (find_first (\<lambda>r. oa_provider r = provider \<and> oa_provider_user_id r = provider_user_id) (t_oauth_accounts w)))"

definition oauth_link :: "uuid \<Rightarrow> string \<Rightarrow> string \<Rightarrow> string option \<Rightarrow> unit op" where
  "oauth_link identity_id provider provider_user_id email =
     sql_insert t_oauth_accounts_update
       (\<lambda>w. token_violation ((provider, provider_user_id) \<in>
                (\<lambda>r. (oa_provider r, oa_provider_user_id r)) ` set (t_oauth_accounts w))
              [(''identity_oauth_accounts_identity_id_fkey'', identity_exists identity_id w)])
       \<lparr>oa_identity_id = identity_id, oa_provider = provider,
        oa_provider_user_id = provider_user_id, oa_email = email\<rparr>"

text \<open>A state can be taken once: the second attempt finds nothing, whenever it is made.\<close>

lemma oauth_state_single_use:
  assumes "oauth_take_state now st w = (Inr (Some s), w')" "now \<le> now'"
  shows "oauth_take_state now' st w' = (Inr None, w')"
proof -
  have w': "w' = t_oauth_states_update (filter (\<lambda>r. \<not> (os_state r = st \<and> now < os_expires_at r))) w"
    using assms(1) by (auto simp: oauth_take_state_def Let_def bindE_Inr_iff)
  have none: "\<not> (os_state r = st \<and> now' < os_expires_at r)" if "r \<in> set (t_oauth_states w')" for r
    using that assms(2) by (auto simp: w')
  then have "filter (\<lambda>r. \<not> (os_state r = st \<and> now' < os_expires_at r)) (t_oauth_states w') = t_oauth_states w'"
    by (simp add: filter_id_conv)
  moreover have "find_first (\<lambda>r. os_state r = st \<and> now' < os_expires_at r) (t_oauth_states w') = None"
    using none by (simp add: find_first_None_iff)
  ultimately show ?thesis
    by (simp add: oauth_take_state_def Let_def)
qed

subsection \<open>Properties\<close>

lemma reset_token_facts:
  assumes "reset_tokens_ok w" and "reset_tokens_create iid tok ex w = (Inr (), w1)"
    and "reset_tokens_delete_by_token tok w1 = (Inr (), w2)"
  shows "reset_tokens_get_valid now tok w1 = (Inr (if now < ex then Some iid else None), w1)"
    and "reset_tokens_get_valid now tok w2 = (Inr None, w2)"
    and "tok' \<noteq> tok \<Longrightarrow> fst (reset_tokens_get_valid now tok' w2) = fst (reset_tokens_get_valid now tok' w1)"
    and "reset_tokens_ok w2"
  using rt.created [OF assms(1,2)] rt.deleted [OF assms(3)] rt.delete_other [OF _ assms(3)]
    rt.delete_ok [OF rt.create_ok [OF assms(1,2)] assms(3)] by blast+

definition token_world :: world where
  "token_world = world0\<lparr>t_identities := [\<lparr>i_id = 1, i_email = Some ''a@b.c'', i_mobile = None,
     i_country_code = None, i_first_name = None, i_last_name = None, i_password_hash = None,
     i_mfa_enabled = False, i_mfa_secret = None, i_force_password_change = False,
     i_failed_attempts = 0, i_locked_until = None, i_status = ''active'', i_created_at = 0,
     i_updated_at = 0, i_mfa_last_used_step = None\<rparr>],
     t_reset_tokens := [\<lparr>rt_identity_id = 1, rt_token = ''old'', rt_expires_at = 50\<rparr>]\<rparr>"

text \<open>
  Life cycle of a password-reset token: once created it is returned, with the identity
  it was issued for, at exactly the times before its expiry; once deleted it is never returned
  again, and the deletion does not affect the validity of any other token.
\<close>

theorem reset_token_lifecycle:
  assumes "reset_tokens_ok w" and "reset_tokens_create iid tok ex w = (Inr (), w1)"
    and "reset_tokens_delete_by_token tok w1 = (Inr (), w2)"
  shows "reset_tokens_get_valid now tok w1 = (Inr (if now < ex then Some iid else None), w1) \<and>
    reset_tokens_get_valid now tok w2 = (Inr None, w2) \<and>
    (\<forall>tok'. tok' \<noteq> tok \<longrightarrow> fst (reset_tokens_get_valid now tok' w2) = fst (reset_tokens_get_valid now tok' w1)) \<and>
    reset_tokens_ok w2"
  using reset_token_facts [OF assms] by blast



theorem reset_token_lifecycle_witness:
  "let w1 = snd (reset_tokens_create 1 ''tok'' 100 token_world);
       w2 = snd (reset_tokens_delete_by_token ''tok'' w1)
   in reset_tokens_get_valid 99 ''tok'' w1 = (Inr (Some 1), w1) \<and>
      reset_tokens_get_valid 100 ''tok'' w1 = (Inr None, w1) \<and>
      fst (reset_tokens_get_valid 7 ''old'' w2) = fst (reset_tokens_get_valid 7 ''old'' w1)"
proof -
  define w1 where "w1 = snd (reset_tokens_create 1 ''tok'' 100 token_world)"
  define w2 where "w2 = snd (reset_tokens_delete_by_token ''tok'' w1)"
  have a: "reset_tokens_ok token_world"
    by (simp add: reset_tokens_ok_def token_world_def unique_on_def)
  have b: "reset_tokens_create 1 ''tok'' 100 token_world = (Inr (), w1)"
    by (simp add: w1_def reset_tokens_create_def token_violation_def token_world_def identity_exists_def)
  have c: "reset_tokens_delete_by_token ''tok'' w1 = (Inr (), w2)"
    by (simp add: w2_def reset_tokens_delete_by_token_def)
  show ?thesis
    using reset_token_lifecycle [OF a b c, of 99] reset_token_lifecycle [OF a b c, of 100]
      reset_token_lifecycle [OF a b c, of 7]
    unfolding Let_def w1_def [symmetric] w2_def [symmetric] by simp
qed

end
