(* ===== verification/Session_Store.thy ===== *)
theory Session_Store
  imports Crypto Token_Repos
begin

section \<open>Session stores\<close>

text \<open>
  \<^verbatim>\<open>src/services/session.rs\<close> (the \<^verbatim>\<open>SessionStore\<close> trait), \<^verbatim>\<open>src/repo/sessions.rs\<close> (the PostgreSQL
  store, which is also the audit log) and \<^verbatim>\<open>src/repo/sessions_redis.rs\<close> (the Redis store). The
  trait is the locale \<open>session_store\<close>: its laws say that a store behaves as a map from tokens
  to payloads in which entries disappear at their expiry, and the two implementations are its
  interpretations. A TTL is the \<^verbatim>\<open>u64\<close> of the code. Redis commands act on \<open>redis\<close>: a string key
  and a set key exist until their expiry; \<^verbatim>\<open>SETEX\<close> rejects a zero or unrepresentable expiry,
  \<^verbatim>\<open>EXPIRE\<close> replaces the expiry of an existing key, \<^verbatim>\<open>DEL\<close> of a missing key does nothing.
\<close>

subsection \<open>PostgreSQL\<close>

definition create_audit ::
  "ext \<Rightarrow> string \<Rightarrow> string \<Rightarrow> uuid \<Rightarrow> string option \<Rightarrow> string option \<Rightarrow> time \<Rightarrow> string option \<Rightarrow> unit op" where
  "create_audit x session_token tenant_id user_id ip_address user_agent expires_at payload_json =
     sql_insert t_sessions_update
       (\<lambda>w. token_violation (session_token \<in> s_session_token ` set (t_sessions w))
              [(''sessions_tenant_id_fkey'', tenant_exists tenant_id w),
               (''sessions_user_id_fkey'', user_exists user_id w)])
       \<lparr>s_tenant_id = tenant_id, s_user_id = user_id, s_session_token = session_token,
        s_ip_address = ip_address, s_user_agent = user_agent, s_expires_at = expires_at,
        s_revoked = False, s_payload = map_option (x_jsonb_text x) payload_json\<rparr>"

definition revoke_by_session_token :: "string \<Rightarrow> bool op" where
  "revoke_by_session_token session_token =
     bindE (counting t_sessions (\<lambda>r. s_session_token r = session_token)
              (sql_update t_sessions_update (\<lambda>r. s_session_token r = session_token) (\<lambda>r. r\<lparr>s_revoked := True\<rparr>)))
       (\<lambda>n. ret (0 < n))"

definition revoke_all_for_user :: "string \<Rightarrow> uuid \<Rightarrow> nat op" where
  "revoke_all_for_user tenant_id user_id =
     counting t_sessions (\<lambda>r. s_tenant_id r = tenant_id \<and> s_user_id r = user_id)
       (sql_update t_sessions_update (\<lambda>r. s_tenant_id r = tenant_id \<and> s_user_id r = user_id)
         (\<lambda>r. r\<lparr>s_revoked := True\<rparr>))"

definition pg_get :: "ext \<Rightarrow> time \<Rightarrow> string \<Rightarrow> session_payload option op" where
  "pg_get x now session_token =
     bindE (sql_fetch t_sessions (\<lambda>r. s_session_token r = session_token \<and> \<not> s_revoked r \<and> now < s_expires_at r)) (\<lambda>row.
       case Option.bind row s_payload of
         None \<Rightarrow> ret None
       | Some txt \<Rightarrow>
           bindE (lift (map_err (\<lambda>e. Internal (''Invalid session payload: '' @ e)) (x_payload_de x txt))) (\<lambda>p.
             ret (Some p)))"

definition pg_set :: "ext \<Rightarrow> string \<Rightarrow> session_payload \<Rightarrow> 64 word \<Rightarrow> unit op" where
  "pg_set x session_token p ttl_secs =
     create_audit x session_token (sp_tenant_id p) (sp_user_id p) (sp_ip p) (sp_user_agent p) (sp_expires_at p)
       (Some (x_payload_ser x p))"

definition pg_delete :: "string \<Rightarrow> bool op" where
  "pg_delete session_token = revoke_by_session_token session_token"

definition pg_delete_all_for_user :: "string \<Rightarrow> uuid \<Rightarrow> nat op" where
  "pg_delete_all_for_user tenant_id user_id = revoke_all_for_user tenant_id user_id"

subsection \<open>Redis\<close>

definition live :: "time \<Rightarrow> ('a \<times> time) option \<Rightarrow> 'a option" where
  "live now e = (case e of None \<Rightarrow> None | Some (v, ex) \<Rightarrow> if now < ex then Some v else None)"

definition rd_get :: "time \<Rightarrow> string \<Rightarrow> string option op" where
  "rd_get now key = gets (\<lambda>w. live now (rd_strings (redis w) key))"

definition rd_put :: "string \<Rightarrow> (string \<times> time) option \<Rightarrow> unit op" where
  "rd_put key e = modify (redis_update (rd_strings_update (\<lambda>m. m(key := e))))"

definition rd_put_set :: "string \<Rightarrow> (string list \<times> time) option \<Rightarrow> unit op" where
  "rd_put_set key e = modify (redis_update (rd_sets_update (\<lambda>m. m(key := e))))"

definition rd_setex :: "time \<Rightarrow> string \<Rightarrow> string \<Rightarrow> nat \<Rightarrow> unit op" where
  "rd_setex now key v ttl =
     (if 0 < ttl \<and> int ttl * 1000 + now div 1000 < 2 ^ 63 then rd_put key (Some (v, now + secs (int ttl)))
      else throw (Internal ''invalid expire time in setex command''))"

definition rd_del :: "time \<Rightarrow> string \<Rightarrow> nat op" where
  "rd_del now key = bindE (rd_get now key) (\<lambda>v. bindE (rd_put key None) (\<lambda>_. ret (if v = None then 0 else 1)))"

definition rd_smembers :: "time \<Rightarrow> string \<Rightarrow> string list op" where
  "rd_smembers now key = gets (\<lambda>w. case live now (rd_sets (redis w) key) of None \<Rightarrow> [] | Some ms \<Rightarrow> ms)"

text \<open>\<^verbatim>\<open>SADD\<close> followed by \<^verbatim>\<open>EXPIRE\<close> on the same key.\<close>

definition rd_sadd_expire :: "time \<Rightarrow> string \<Rightarrow> string \<Rightarrow> int \<Rightarrow> unit op" where
  "rd_sadd_expire now key member ttl =
     bindE (rd_smembers now key) (\<lambda>ms.
       rd_put_set key (Some (if member \<in> set ms then ms else ms @ [member], now + secs ttl)))"

definition SESSION_KEY_PREFIX :: string where "SESSION_KEY_PREFIX = ''session:''"
definition USER_SESSIONS_PREFIX :: string where "USER_SESSIONS_PREFIX = ''user_sessions:''"

definition redis_key :: "string \<Rightarrow> string" where
  "redis_key session_token = SESSION_KEY_PREFIX @ session_token"

definition user_set_key :: "string \<Rightarrow> uuid \<Rightarrow> string" where
  "user_set_key tenant_id user_id = USER_SESSIONS_PREFIX @ tenant_id @ '':'' @ uuid_str user_id"

definition redis_get :: "ext \<Rightarrow> time \<Rightarrow> string \<Rightarrow> session_payload option op" where
  "redis_get x now session_token =
     bindE (rd_get now (redis_key session_token)) (\<lambda>raw.
       ret (Option.bind raw (\<lambda>s. case x_payload_de x s of Inl _ \<Rightarrow> None | Inr p \<Rightarrow> Some p)))"

definition redis_set :: "ext \<Rightarrow> time \<Rightarrow> string \<Rightarrow> session_payload \<Rightarrow> 64 word \<Rightarrow> unit op" where
  "redis_set x now session_token p ttl_secs =
     bindE (rd_setex now (redis_key session_token) (x_payload_ser x p) (unat ttl_secs)) (\<lambda>_.
       rd_sadd_expire now (user_set_key (sp_tenant_id p) (sp_user_id p)) session_token (sint (ttl_secs + 86400)))"

definition redis_delete :: "time \<Rightarrow> string \<Rightarrow> bool op" where
  "redis_delete now session_token = bindE (rd_del now (redis_key session_token)) (\<lambda>n. ret (0 < n))"

definition rd_del_session :: "time \<Rightarrow> string \<Rightarrow> unit op" where
  "rd_del_session now session_token = bindE (rd_del now (redis_key session_token)) (\<lambda>_. ret ())"

definition redis_delete_all_for_user :: "time \<Rightarrow> string \<Rightarrow> uuid \<Rightarrow> nat op" where
  "redis_delete_all_for_user now tenant_id user_id =
     bindE (rd_smembers now (user_set_key tenant_id user_id)) (\<lambda>tokens.
     bindE (for_each (rd_del_session now) tokens) (\<lambda>_.
     bindE (rd_put_set (user_set_key tenant_id user_id) None) (\<lambda>_. ret (length tokens))))"

subsection \<open>The store in use\<close>

definition store_get :: "ext \<Rightarrow> time \<Rightarrow> string \<Rightarrow> session_payload option op" where
  "store_get x now tok = (if c_uses_redis x then redis_get x now tok else pg_get x now tok)"

definition store_set :: "ext \<Rightarrow> time \<Rightarrow> string \<Rightarrow> session_payload \<Rightarrow> 64 word \<Rightarrow> unit op" where
  "store_set x now tok p ttl = (if c_uses_redis x then redis_set x now tok p ttl else pg_set x tok p ttl)"

definition store_delete :: "ext \<Rightarrow> time \<Rightarrow> string \<Rightarrow> bool op" where
  "store_delete x now tok = (if c_uses_redis x then redis_delete now tok else pg_delete tok)"

definition store_delete_all_for_user :: "ext \<Rightarrow> time \<Rightarrow> string \<Rightarrow> uuid \<Rightarrow> nat op" where
  "store_delete_all_for_user x now t u =
     (if c_uses_redis x then redis_delete_all_for_user now t u else pg_delete_all_for_user t u)"

definition writes_audit_row :: "ext \<Rightarrow> bool" where
  "writes_audit_row x \<longleftrightarrow> \<not> c_uses_redis x"

subsection \<open>The interface\<close>

text \<open>
  \<open>T\<close> is the TTL in seconds of the session that is stored, \<open>storable\<close> what its payload must satisfy to
  survive serialisation, and \<open>fits\<close> what the store must satisfy to take it: a token of its own, and with
  Redis a lifetime that does not cut short the set of the user's other sessions.
\<close>

locale session_store =
  fixes get :: "time \<Rightarrow> string \<Rightarrow> session_payload option op"
    and set_session :: "time \<Rightarrow> string \<Rightarrow> session_payload \<Rightarrow> unit op"
    and del :: "time \<Rightarrow> string \<Rightarrow> bool op"
    and del_all :: "time \<Rightarrow> string \<Rightarrow> uuid \<Rightarrow> nat op"
    and ok :: "time \<Rightarrow> world \<Rightarrow> bool"
    and storable :: "session_payload \<Rightarrow> bool"
    and fits :: "time \<Rightarrow> session_payload \<Rightarrow> string \<Rightarrow> world \<Rightarrow> bool"
    and T :: int
  assumes get_total: "ok t w \<Longrightarrow> \<exists>v. get now tok w = (Inr v, w)"
    and ok_mono: "ok t w \<Longrightarrow> t \<le> t' \<Longrightarrow> ok t' w"
    and set_ok: "ok now w \<Longrightarrow> storable p \<Longrightarrow> sp_expires_at p = now + secs T \<Longrightarrow> fits now p tok w \<Longrightarrow>
      set_session now tok p w = (Inr (), w') \<Longrightarrow> ok now w'"
    and set_get: "ok now w \<Longrightarrow> storable p \<Longrightarrow> sp_expires_at p = now + secs T \<Longrightarrow> fits now p tok w \<Longrightarrow>
      set_session now tok p w = (Inr (), w') \<Longrightarrow>
      get t tok' w' = (Inr (if tok' = tok then (if t < sp_expires_at p then Some p else None)
                            else projr (fst (get t tok' w))), w')"
    and del_ok: "ok now w \<Longrightarrow> del now tok w = (r, w') \<Longrightarrow> ok now w'"
    and del_get: "ok now w \<Longrightarrow> del now tok w = (r, w') \<Longrightarrow>
      get t tok' w' = (Inr (if tok' = tok then None else projr (fst (get t tok' w))), w')"
    and del_all_ok: "ok now w \<Longrightarrow> valid_uuid u \<Longrightarrow> del_all now tid u w = (n, w') \<Longrightarrow> ok now w'"
    and del_all_get: "ok now w \<Longrightarrow> valid_uuid u \<Longrightarrow> now \<le> t \<Longrightarrow> del_all now tid u w = (n, w') \<Longrightarrow>
      get t tok w' = (Inr (case projr (fst (get t tok w)) of
          Some p \<Rightarrow> if sp_tenant_id p = tid \<and> sp_user_id p = u then None else Some p
        | None \<Rightarrow> None), w')"
begin

text \<open>The sessions that are valid at an instant, and the refinement of the map operations.\<close>

definition sessions :: "time \<Rightarrow> world \<Rightarrow> string \<Rightarrow> session_payload option" where
  "sessions t w = (\<lambda>tok. projr (fst (get t tok w)))"

lemma get_sessions: "ok t0 w \<Longrightarrow> get t tok w = (Inr (sessions t w tok), w)"
  using get_total [of t0 w t tok] by (auto simp: sessions_def)

lemma sessions_set:
  "ok now w \<Longrightarrow> storable p \<Longrightarrow> sp_expires_at p = now + secs T \<Longrightarrow> fits now p tok w \<Longrightarrow>
   set_session now tok p w = (Inr (), w') \<Longrightarrow>
   sessions t w' = (sessions t w)(tok := if t < sp_expires_at p then Some p else None)"
  by (rule ext) (auto simp: sessions_def set_get)

lemma sessions_del:
  "ok now w \<Longrightarrow> del now tok w = (r, w') \<Longrightarrow> sessions t w' = (sessions t w)(tok := None)"
  by (rule ext) (auto simp: sessions_def del_get)

lemma sessions_del_all:
  "ok now w \<Longrightarrow> valid_uuid u \<Longrightarrow> now \<le> t \<Longrightarrow> del_all now tid u w = (n, w') \<Longrightarrow>
   sessions t w' = (\<lambda>tok. case sessions t w tok of
       Some p \<Rightarrow> if sp_tenant_id p = tid \<and> sp_user_id p = u then None else Some p | None \<Rightarrow> None)"
  by (rule ext) (simp add: sessions_def del_all_get)

text \<open>After the sessions of a user are revoked none of them is valid, at any later time.\<close>

lemma revoked_all:
  "ok now w \<Longrightarrow> valid_uuid u \<Longrightarrow> now \<le> t \<Longrightarrow> del_all now tid u w = (n, w') \<Longrightarrow>
   get t tok w' = (Inr (Some p), w') \<Longrightarrow> (sp_tenant_id p, sp_user_id p) \<noteq> (tid, u)"
  by (auto simp: del_all_get split: option.splits if_splits)

end

subsection \<open>PostgreSQL implements the interface\<close>

definition payload_storable :: "ext \<Rightarrow> session_payload \<Rightarrow> bool" where
  "payload_storable x p \<longleftrightarrow> x_payload_de x (x_jsonb_text x (x_payload_ser x p)) = Inr p
     \<and> x_payload_de x (x_payload_ser x p) = Inr p \<and> valid_uuid (sp_user_id p)"

definition row_payload_ok :: "ext \<Rightarrow> session_row \<Rightarrow> bool" where
  "row_payload_ok x r \<longleftrightarrow> (case s_payload r of None \<Rightarrow> True
     | Some txt \<Rightarrow> (case x_payload_de x txt of Inl _ \<Rightarrow> False
         | Inr p \<Rightarrow> sp_tenant_id p = s_tenant_id r \<and> sp_user_id p = s_user_id r))"

definition pg_ok :: "ext \<Rightarrow> time \<Rightarrow> world \<Rightarrow> bool" where
  "pg_ok x t w \<longleftrightarrow> unique_on (\<lambda>r. Some (s_session_token r)) (t_sessions w) \<and> list_all (row_payload_ok x) (t_sessions w)"

definition row_for :: "string \<Rightarrow> world \<Rightarrow> session_row option" where
  "row_for tok w = find_first (\<lambda>r. s_session_token r = tok) (t_sessions w)"

definition row_session :: "ext \<Rightarrow> time \<Rightarrow> session_row option \<Rightarrow> session_payload option" where
  "row_session x now row = Option.bind row (\<lambda>r. if s_revoked r \<or> s_expires_at r \<le> now then None
     else map_option (\<lambda>txt. projr (x_payload_de x txt)) (s_payload r))"

lemma unique_find_and:
  "unique_on (\<lambda>r. Some (tok r)) rows \<Longrightarrow>
   find_first (\<lambda>r. tok r = k \<and> P r) rows =
     Option.bind (find_first (\<lambda>r. tok r = k) rows) (\<lambda>r. if P r then Some r else None)"
proof (induction rows)
  case (Cons a rows)
  then have u: "unique_on (\<lambda>r. Some (tok r)) rows" by (simp add: unique_on_def)
  show ?case
  proof (cases "tok a = k")
    case True
    then have "tok r \<noteq> k" if "r \<in> set rows" for r
      using Cons.prems that by (auto simp: unique_on_def set_keyed)
    then have "find_first (\<lambda>r. tok r = k \<and> P r) rows = None" by (simp add: find_first_None_iff)
    with True show ?thesis by simp
  qed (simp add: Cons.IH [OF u])
qed simp

lemma row_for_ok: "pg_ok x t w \<Longrightarrow> row_for tok w = Some r \<Longrightarrow> row_payload_ok x r"
  by (auto simp: pg_ok_def row_for_def list_all_iff dest!: find_first_SomeD)

lemma pg_get_row:
  assumes "pg_ok x t0 w"
  shows "pg_get x now tok w = (Inr (row_session x now (row_for tok w)), w)"
proof -
  have f: "find_first (\<lambda>r. s_session_token r = tok \<and> \<not> s_revoked r \<and> now < s_expires_at r) (t_sessions w) =
      Option.bind (row_for tok w) (\<lambda>r. if \<not> s_revoked r \<and> now < s_expires_at r then Some r else None)"
    using assms by (simp add: pg_ok_def row_for_def unique_find_and)
  show ?thesis
  proof (cases "row_for tok w")
    case None
    then show ?thesis by (simp add: pg_get_def f row_session_def)
  next
    case (Some r)
    then show ?thesis
      using row_for_ok [OF assms Some]
      by (auto simp: pg_get_def f row_session_def row_payload_ok_def split: option.splits sum.splits)
  qed
qed

lemma pg_revoke_row:
  "row_for tok (t_sessions_update (update_rows P (\<lambda>r. r\<lparr>s_revoked := True\<rparr>)) w) =
     map_option (\<lambda>r. if P r then r\<lparr>s_revoked := True\<rparr> else r) (row_for tok w)"
  unfolding row_for_def by (simp add: find_first_update_rows)

lemma row_payload_ok_revoke: "row_payload_ok x (r\<lparr>s_revoked := True\<rparr>) = row_payload_ok x r"
  by (simp add: row_payload_ok_def split: option.splits sum.splits)

lemma pg_revoke_ok:
  "pg_ok x t w \<Longrightarrow> pg_ok x t' (t_sessions_update (update_rows P (\<lambda>r. r\<lparr>s_revoked := True\<rparr>)) w)"
  by (auto simp: pg_ok_def list_all_iff set_update_rows row_payload_ok_revoke intro!: unique_on_update_rows)

lemma pg_set_run:
  assumes "pg_set x tok p ttl w = (Inr (), w')" "payload_storable x p" "pg_ok x t0 w"
  shows "pg_ok x t w'" "row_for tok' w' = (if tok' = tok then Some
      \<lparr>s_tenant_id = sp_tenant_id p, s_user_id = sp_user_id p, s_session_token = tok, s_ip_address = sp_ip p,
       s_user_agent = sp_user_agent p, s_expires_at = sp_expires_at p, s_revoked = False,
       s_payload = Some (x_jsonb_text x (x_payload_ser x p))\<rparr> else row_for tok' w)"
proof -
  let ?row = "\<lparr>s_tenant_id = sp_tenant_id p, s_user_id = sp_user_id p, s_session_token = tok, s_ip_address = sp_ip p,
       s_user_agent = sp_user_agent p, s_expires_at = sp_expires_at p, s_revoked = False,
       s_payload = Some (x_jsonb_text x (x_payload_ser x p))\<rparr>"
  have new: "tok \<notin> s_session_token ` set (t_sessions w)" and w': "w' = t_sessions_update (\<lambda>rows. rows @ [?row]) w"
    using assms(1) by (auto simp: pg_set_def create_audit_def token_violation_None split: option.splits)
  have "row_payload_ok x ?row" using assms(2) by (simp add: row_payload_ok_def payload_storable_def)
  with assms(3) new show "pg_ok x t w'"
    by (auto simp: pg_ok_def w' intro!: unique_token_append)
  have "find_first (\<lambda>r. s_session_token r = tok) (t_sessions w) = None"
    using new by (auto simp: find_first_None_iff)
  then show "row_for tok' w' = (if tok' = tok then Some ?row else row_for tok' w)"
    by (auto simp: row_for_def w' find_first_append split: option.splits)
qed

interpretation pg: session_store "pg_get x" "\<lambda>now tok p. pg_set x tok p ttl" "\<lambda>now. pg_delete"
  "\<lambda>now. pg_delete_all_for_user" "pg_ok x" "payload_storable x" "\<lambda>_ _ _ _. True" "uint ttl"
  for x :: ext and ttl :: "64 word"
proof unfold_locales
  show "\<exists>v. pg_get x now tok w = (Inr v, w)" if "pg_ok x t w" for t w now tok
    using pg_get_row [OF that] by blast
  show "pg_ok x t' w" if "pg_ok x t w" for t t' w
    using that by (simp add: pg_ok_def)
  fix now w p tok w' t tok'
  assume ok: "pg_ok x now w" and st: "payload_storable x p" and set: "pg_set x tok p ttl w = (Inr (), w')"
  show ok': "pg_ok x now w'" by (rule pg_set_run(1) [OF set st ok])
  have de: "projr (x_payload_de x (x_jsonb_text x (x_payload_ser x p))) = p"
    using st by (simp add: payload_storable_def)
  show "pg_get x t tok' w' = (Inr (if tok' = tok then if t < sp_expires_at p then Some p else None
         else projr (fst (pg_get x t tok' w))), w')"
    unfolding pg_get_row [OF ok'] pg_get_row [OF ok] pg_set_run(2) [OF set st ok]
    by (auto simp: row_session_def de)
next
  fix now w tok r w' t tok'
  assume ok: "pg_ok x now w" and del: "pg_delete tok w = (r, w')"
  then have w': "w' = t_sessions_update (update_rows (\<lambda>r. s_session_token r = tok) (\<lambda>r. r\<lparr>s_revoked := True\<rparr>)) w"
    by (simp add: pg_delete_def revoke_by_session_token_def)
  show ok': "pg_ok x now w'" unfolding w' by (rule pg_revoke_ok [OF ok])
  have "s_session_token q = tok'" if "row_for tok' w = Some q" for q
    using that by (auto simp: row_for_def dest: find_first_SomeD)
  then show "pg_get x t tok' w' = (Inr (if tok' = tok then None else projr (fst (pg_get x t tok' w))), w')"
    unfolding pg_get_row [OF ok'] pg_get_row [OF ok]
    by (cases "row_for tok' w") (auto simp: w' pg_revoke_row row_session_def)
next
  fix now w u tid n w' t tok
  assume ok: "pg_ok x now w" and del: "pg_delete_all_for_user tid u w = (n, w')"
  then have w': "w' = t_sessions_update (update_rows (\<lambda>r. s_tenant_id r = tid \<and> s_user_id r = u) (\<lambda>r. r\<lparr>s_revoked := True\<rparr>)) w"
    by (simp add: pg_delete_all_for_user_def revoke_all_for_user_def)
  show ok': "pg_ok x now w'" unfolding w' by (rule pg_revoke_ok [OF ok])
  have rw: "row_for tok w' = map_option (\<lambda>r. if s_tenant_id r = tid \<and> s_user_id r = u then r\<lparr>s_revoked := True\<rparr> else r) (row_for tok w)"
    unfolding w' by (rule pg_revoke_row)
  show "pg_get x t tok w' = (Inr (case projr (fst (pg_get x t tok w)) of
          Some p \<Rightarrow> if sp_tenant_id p = tid \<and> sp_user_id p = u then None else Some p | None \<Rightarrow> None), w')"
    unfolding pg_get_row [OF ok'] pg_get_row [OF ok] rw
    using row_for_ok [OF ok, of tok]
    by (cases "row_for tok w")
      (auto simp: row_session_def row_payload_ok_def split: option.splits sum.splits)
qed

subsection \<open>Redis implements the interface\<close>

definition entry :: "string \<Rightarrow> world \<Rightarrow> (string \<times> time) option" where
  "entry tok w = rd_strings (redis w) (redis_key tok)"

definition members :: "string \<Rightarrow> uuid \<Rightarrow> world \<Rightarrow> (string list \<times> time) option" where
  "members tid u w = rd_sets (redis w) (user_set_key tid u)"

text \<open>Every live session is listed in its user's set, which outlives it.\<close>

definition listed :: "ext \<Rightarrow> time \<Rightarrow> world \<Rightarrow> bool" where
  "listed x t w \<longleftrightarrow> (\<forall>tok v e. entry tok w = Some (v, e) \<longrightarrow> t < e \<longrightarrow>
     (\<exists>p ms e'. x_payload_de x v = Inr p \<and> valid_uuid (sp_user_id p) \<and>
        members (sp_tenant_id p) (sp_user_id p) w = Some (ms, e') \<and> tok \<in> set ms \<and> e \<le> e'))"

text \<open>A user's set lists no live session of another user.\<close>

definition own_only :: "ext \<Rightarrow> time \<Rightarrow> world \<Rightarrow> bool" where
  "own_only x t w \<longleftrightarrow> (\<forall>tid u ms e' tok v e p. valid_uuid u \<longrightarrow> members tid u w = Some (ms, e') \<longrightarrow> tok \<in> set ms \<longrightarrow>
     entry tok w = Some (v, e) \<longrightarrow> t < e \<longrightarrow> x_payload_de x v = Inr p \<longrightarrow> sp_tenant_id p = tid \<and> sp_user_id p = u)"

definition redis_ok :: "ext \<Rightarrow> time \<Rightarrow> world \<Rightarrow> bool" where
  "redis_ok x t w \<longleftrightarrow> listed x t w \<and> own_only x t w"

definition redis_unused :: "string \<Rightarrow> world \<Rightarrow> bool" where
  "redis_unused tok w \<longleftrightarrow> entry tok w = None \<and> (\<forall>k ms e. rd_sets (redis w) k = Some (ms, e) \<longrightarrow> tok \<notin> set ms)"

definition redis_ttl_ok :: "64 word \<Rightarrow> bool" where
  "redis_ttl_ok ttl \<longleftrightarrow> uint ttl + 86400 < 2 ^ 63"

text \<open>The set's new expiry, a day after that of the session, is after those of the user's live sessions.\<close>

definition set_covers :: "ext \<Rightarrow> 64 word \<Rightarrow> time \<Rightarrow> session_payload \<Rightarrow> world \<Rightarrow> bool" where
  "set_covers x ttl now p w \<longleftrightarrow> (\<forall>tok v e q. entry tok w = Some (v, e) \<longrightarrow> now < e \<longrightarrow> x_payload_de x v = Inr q \<longrightarrow>
     sp_tenant_id q = sp_tenant_id p \<longrightarrow> sp_user_id q = sp_user_id p \<longrightarrow> e \<le> now + secs (uint ttl + 86400))"

definition redis_fits :: "ext \<Rightarrow> 64 word \<Rightarrow> time \<Rightarrow> session_payload \<Rightarrow> string \<Rightarrow> world \<Rightarrow> bool" where
  "redis_fits x ttl now p tok w \<longleftrightarrow> redis_ttl_ok ttl \<and> redis_unused tok w \<and> set_covers x ttl now p w"

definition entry_session :: "ext \<Rightarrow> time \<Rightarrow> (string \<times> time) option \<Rightarrow> session_payload option" where
  "entry_session x now e = Option.bind (live now e) (\<lambda>s. case x_payload_de x s of Inl _ \<Rightarrow> None | Inr p \<Rightarrow> Some p)"

lemma redis_key_inject [simp]: "redis_key a = redis_key b \<longleftrightarrow> a = b"
  by (simp add: redis_key_def)

lemma user_set_key_inject:
  "valid_uuid u \<Longrightarrow> valid_uuid v \<Longrightarrow> user_set_key a u = user_set_key b v \<longleftrightarrow> a = b \<and> u = v"
proof -
  assume v: "valid_uuid u" "valid_uuid v"
  have "user_set_key a u = user_set_key b v \<longleftrightarrow> (a @ '':'') @ uuid_str u = (b @ '':'') @ uuid_str v"
    by (simp add: user_set_key_def)
  also have "\<dots> \<longleftrightarrow> a @ '':'' = b @ '':'' \<and> uuid_str u = uuid_str v"
    by (rule append_eq_append_conv) simp
  finally show ?thesis using v by (simp add: uuid_str_inject)
qed

lemma redis_get_entry: "redis_get x now tok w = (Inr (entry_session x now (entry tok w)), w)"
  by (simp add: redis_get_def rd_get_def entry_session_def entry_def)

lemma entry_session_Some:
  "entry_session x t e = Some p \<longleftrightarrow> (\<exists>v ex. e = Some (v, ex) \<and> t < ex \<and> x_payload_de x v = Inr p)"
proof (cases e)
  case (Some a)
  then show ?thesis
    by (cases a; cases "x_payload_de x (fst a)"; cases "t < snd a") (auto simp: entry_session_def live_def)
qed (simp add: entry_session_def live_def)

lemma listedD:
  "listed x t w \<Longrightarrow> entry tok w = Some (v, e) \<Longrightarrow> t < e \<Longrightarrow>
     (\<exists>p ms e'. x_payload_de x v = Inr p \<and> valid_uuid (sp_user_id p) \<and>
        members (sp_tenant_id p) (sp_user_id p) w = Some (ms, e') \<and> tok \<in> set ms \<and> e \<le> e')"
  unfolding listed_def by blast

lemma redis_ok_mono: "redis_ok x t w \<Longrightarrow> t \<le> t' \<Longrightarrow> redis_ok x t' w"
  unfolding redis_ok_def
proof
  assume ok: "listed x t w \<and> own_only x t w" and t: "t \<le> t'"
  show "listed x t' w"
    unfolding listed_def
  proof (intro allI impI)
    fix tok v e assume "entry tok w = Some (v, e)" "t' < e"
    then show "(\<exists>p ms e'. x_payload_de x v = Inr p \<and> valid_uuid (sp_user_id p) \<and>
        members (sp_tenant_id p) (sp_user_id p) w = Some (ms, e') \<and> tok \<in> set ms \<and> e \<le> e')"
      using ok t listedD [of x t w tok v e] by auto
  qed
  show "own_only x t' w" using ok t unfolding own_only_def by (meson le_less_trans)
qed

lemma redis_set_run:
  assumes "redis_set x now tok p ttl w = (Inr (), w')" "redis_ttl_ok ttl" "valid_uuid (sp_user_id p)"
  shows "entry tok' w' = (if tok' = tok then Some (x_payload_ser x p, now + secs (uint ttl)) else entry tok' w)"
    and "valid_uuid u \<Longrightarrow> members tid u w' =
      (if tid = sp_tenant_id p \<and> u = sp_user_id p then
         (let ms = (case live now (members tid u w) of None \<Rightarrow> [] | Some ms \<Rightarrow> ms) in
          Some (if tok \<in> set ms then ms else ms @ [tok], now + secs (uint ttl + 86400)))
       else members tid u w)"
proof -
  have "uint (ttl + 86400) = uint ttl + 86400"
    using assms(2) by (simp add: redis_ttl_ok_def uint_word_ariths)
  then have s: "sint (ttl + 86400) = uint ttl + 86400"
    using assms(2) by (simp add: sint_uint signed_take_bit_int_eq_self redis_ttl_ok_def)
  show "entry tok' w' = (if tok' = tok then Some (x_payload_ser x p, now + secs (uint ttl)) else entry tok' w)"
    using assms(1)
    by (auto simp: redis_set_def rd_setex_def rd_put_def rd_sadd_expire_def rd_smembers_def rd_put_set_def entry_def
        split: if_splits)
  show "valid_uuid u \<Longrightarrow> members tid u w' =
      (if tid = sp_tenant_id p \<and> u = sp_user_id p then
         (let ms = (case live now (members tid u w) of None \<Rightarrow> [] | Some ms \<Rightarrow> ms) in
          Some (if tok \<in> set ms then ms else ms @ [tok], now + secs (uint ttl + 86400)))
       else members tid u w)"
    using assms(1) user_set_key_inject [OF _ assms(3), of u tid "sp_tenant_id p"]
    by (auto simp: redis_set_def rd_setex_def rd_put_def rd_sadd_expire_def rd_smembers_def rd_put_set_def members_def
        s Let_def split: if_splits)
qed

lemma redis_set_ok:
  assumes ok: "redis_ok x now w" and st: "payload_storable x p" and fits: "redis_fits x ttl now p tok w"
    and set: "redis_set x now tok p ttl w = (Inr (), w')"
  shows "redis_ok x now w'"
proof -
  have v: "valid_uuid (sp_user_id p)" and de: "x_payload_de x (x_payload_ser x p) = Inr p"
    using st by (simp_all add: payload_storable_def)
  have ttl: "redis_ttl_ok ttl" and un: "redis_unused tok w" and cover: "set_covers x ttl now p w"
    using fits by (simp_all add: redis_fits_def)
  note run = redis_set_run [OF set ttl v]
  have fresh: "tok \<notin> set ms" if "members tid u w = Some (ms, e)" for tid u ms e
    using un that by (auto simp: redis_unused_def members_def)
  have "listed x now w'"
    unfolding listed_def
  proof (intro allI impI)
    fix tok' v' e assume e: "entry tok' w' = Some (v', e)" "now < e"
    show "(\<exists>p ms e'. x_payload_de x v' = Inr p \<and> valid_uuid (sp_user_id p) \<and>
        members (sp_tenant_id p) (sp_user_id p) w' = Some (ms, e') \<and> tok' \<in> set ms \<and> e \<le> e')"
    proof (cases "tok' = tok")
      case True
      with e show ?thesis
        using de v by (auto simp: run Let_def secs_def split: option.split)
    next
      case False
      then obtain q ms e' where q: "x_payload_de x v' = Inr q" "valid_uuid (sp_user_id q)"
        "members (sp_tenant_id q) (sp_user_id q) w = Some (ms, e')" "tok' \<in> set ms" "e \<le> e'"
        using ok listedD [of x now w tok' v' e] e unfolding redis_ok_def run by auto
      have "live now (members (sp_tenant_id q) (sp_user_id q) w) = Some ms"
        using q(3,5) e(2) by (simp add: live_def)
      moreover have "e \<le> now + secs (uint ttl + 86400)" if "sp_tenant_id q = sp_tenant_id p" "sp_user_id q = sp_user_id p"
        using cover e False q(1) that unfolding set_covers_def run(1) by auto
      ultimately show ?thesis
        using q by (auto simp: run(2) Let_def)
    qed
  qed
  moreover have "own_only x now w'"
    unfolding own_only_def
  proof (intro allI impI)
    fix tid u ms e' tok' v' e q
    assume a: "valid_uuid u" "members tid u w' = Some (ms, e')" "tok' \<in> set ms" "entry tok' w' = Some (v', e)"
      "now < e" "x_payload_de x v' = Inr q"
    show "sp_tenant_id q = tid \<and> sp_user_id q = u"
    proof (cases "tok' = tok")
      case True
      with a have "q = p" using de by (auto simp: run(1))
      moreover have "tid = sp_tenant_id p \<and> u = sp_user_id p"
        using a(2,3) True fresh by (auto simp: run(2) [OF a(1)] split: if_splits)
      ultimately show ?thesis by simp
    next
      case False
      then have "\<exists>ms e'. members tid u w = Some (ms, e') \<and> tok' \<in> set ms"
        using a(2,3) by (auto simp: run(2) [OF a(1)] Let_def live_def split: if_splits option.splits)
      moreover have "entry tok' w = Some (v', e)" using a(4) False by (simp add: run(1))
      ultimately show ?thesis
        using ok a(1,5,6) unfolding redis_ok_def own_only_def by blast
    qed
  qed
  ultimately show ?thesis by (simp add: redis_ok_def)
qed

lemma redis_ok_delete:
  assumes "redis_ok x t w" "redis_delete now tok w = (r, w')"
  shows "redis_ok x t w'" "entry tok' w' = (if tok' = tok then None else entry tok' w)"
proof -
  have w': "w' = redis_update (rd_strings_update (\<lambda>m. m(redis_key tok := None))) w"
    using assms(2) by (auto simp: redis_delete_def rd_del_def rd_get_def rd_put_def split: if_splits)
  show e: "entry tok' w' = (if tok' = tok then None else entry tok' w)" for tok'
    by (simp add: w' entry_def)
  have m: "members tid u w' = members tid u w" for tid u by (simp add: w' members_def)
  show "redis_ok x t w'"
    using assms(1) by (auto simp: redis_ok_def listed_def own_only_def e m split: if_splits)
qed

lemma for_each_del:
  "for_each (rd_del_session now) toks w =
     (Inr (), redis_update (rd_strings_update (\<lambda>m k. if k \<in> redis_key ` set toks then None else m k)) w)"
proof (induction toks arbitrary: w)
  case (Cons a toks)
  have "rd_del_session now a w = (Inr (), redis_update (rd_strings_update (\<lambda>m. m(redis_key a := None))) w)"
    by (simp add: rd_del_session_def rd_del_def rd_get_def rd_put_def)
  then have "for_each (rd_del_session now) (a # toks) w =
     (Inr (), redis_update (rd_strings_update (\<lambda>m k. if k \<in> redis_key ` set toks then None else m k))
       (redis_update (rd_strings_update (\<lambda>m. m(redis_key a := None))) w))"
    unfolding for_each.simps by (simp only: bindE_step Cons.IH)
  moreover have "(\<lambda>m. \<lambda>k. if k \<in> redis_key ` set toks then None else (m(redis_key a := None)) k) =
      (\<lambda>m k. if k \<in> redis_key ` set (a # toks) then None else (m k :: (string \<times> time) option))"
    by (auto simp: fun_eq_iff)
  ultimately show ?case by (simp add: comp_def)
qed simp

lemma redis_delete_all_run:
  assumes "redis_delete_all_for_user now tid u w = (n, w')" "valid_uuid u"
  shows "entry tok w' = (if \<exists>ms. live now (members tid u w) = Some ms \<and> tok \<in> set ms then None else entry tok w)"
    and "valid_uuid u' \<Longrightarrow> members tid' u' w' = (if tid' = tid \<and> u' = u then None else members tid' u' w)"
proof -
  let ?toks = "case live now (members tid u w) of None \<Rightarrow> [] | Some ms \<Rightarrow> ms"
  have w': "w' = redis_update (rd_sets_update (\<lambda>m. m(user_set_key tid u := None)))
      (redis_update (rd_strings_update (\<lambda>m k. if k \<in> redis_key ` set ?toks then None else m k)) w)"
    using assms(1)
    by (simp add: redis_delete_all_for_user_def rd_smembers_def for_each_del rd_put_set_def members_def)
  have mem: "redis_key tok \<in> redis_key ` set ?toks \<longleftrightarrow> tok \<in> set ?toks"
    by auto
  show "entry tok w' = (if \<exists>ms. live now (members tid u w) = Some ms \<and> tok \<in> set ms then None else entry tok w)"
    by (cases "live now (members tid u w)") (auto simp: w' entry_def)
  show "valid_uuid u' \<Longrightarrow> members tid' u' w' = (if tid' = tid \<and> u' = u then None else members tid' u' w)"
    using user_set_key_inject [OF _ assms(2), of u' tid' tid] by (simp add: w' members_def)
qed

lemma redis_delete_all_ok:
  assumes ok: "redis_ok x now w" and del: "redis_delete_all_for_user now tid u w = (n, w')" and u: "valid_uuid u"
  shows "redis_ok x now w'"
proof -
  note run = redis_delete_all_run [OF del u]
  have "listed x now w'"
    unfolding listed_def
  proof (intro allI impI)
    fix tok v e assume e: "entry tok w' = Some (v, e)" "now < e"
    then have ew: "entry tok w = Some (v, e)" and notin: "\<not> (\<exists>ms. live now (members tid u w) = Some ms \<and> tok \<in> set ms)"
      by (auto simp: run(1) split: if_splits)
    obtain q ms e' where q: "x_payload_de x v = Inr q" "valid_uuid (sp_user_id q)"
        "members (sp_tenant_id q) (sp_user_id q) w = Some (ms, e')" "tok \<in> set ms" "e \<le> e'"
      using ok listedD [OF _ ew e(2)] unfolding redis_ok_def by blast
    have "\<not> (sp_tenant_id q = tid \<and> sp_user_id q = u)"
    proof
      assume "sp_tenant_id q = tid \<and> sp_user_id q = u"
      then have "live now (members tid u w) = Some ms" using q(3,5) e(2) by (auto simp: live_def)
      with notin q(4) show False by blast
    qed
    then show "(\<exists>p ms e'. x_payload_de x v = Inr p \<and> valid_uuid (sp_user_id p) \<and>
        members (sp_tenant_id p) (sp_user_id p) w' = Some (ms, e') \<and> tok \<in> set ms \<and> e \<le> e')"
      using q by (auto simp: run(2))
  qed
  moreover have "own_only x now w'"
    using ok unfolding redis_ok_def own_only_def by (auto simp: run split: if_splits)
  ultimately show ?thesis by (simp add: redis_ok_def)
qed

lemma redis_delete_all_get:
  assumes ok: "redis_ok x now w" and del: "redis_delete_all_for_user now tid u w = (n, w')" and u: "valid_uuid u"
    and t: "now \<le> t"
  shows "entry_session x t (entry tok w') = (case entry_session x t (entry tok w) of
      Some p \<Rightarrow> if sp_tenant_id p = tid \<and> sp_user_id p = u then None else Some p | None \<Rightarrow> None)"
proof (cases "entry_session x t (entry tok w)")
  case None
  then show ?thesis by (auto simp: redis_delete_all_run(1) [OF del u] entry_session_def live_def)
next
  case (Some p)
  then obtain v e where e: "entry tok w = Some (v, e)" "t < e" "x_payload_de x v = Inr p"
    unfolding entry_session_Some by blast
  then have "now < e" using t by simp
  have "(\<exists>ms. live now (members tid u w) = Some ms \<and> tok \<in> set ms) \<longleftrightarrow> sp_tenant_id p = tid \<and> sp_user_id p = u"
  proof
    assume "\<exists>ms. live now (members tid u w) = Some ms \<and> tok \<in> set ms"
    then obtain ms e' where "members tid u w = Some (ms, e')" "tok \<in> set ms"
      by (auto simp: live_def split: option.splits if_splits)
    then show "sp_tenant_id p = tid \<and> sp_user_id p = u"
      using ok u e(1,3) \<open>now < e\<close> unfolding redis_ok_def own_only_def by blast
  next
    assume "sp_tenant_id p = tid \<and> sp_user_id p = u"
    then obtain ms e' where "members tid u w = Some (ms, e')" "tok \<in> set ms" "e \<le> e'"
      using ok listedD [of x now w tok v e] e(1,3) \<open>now < e\<close> unfolding redis_ok_def by auto
    then show "\<exists>ms. live now (members tid u w) = Some ms \<and> tok \<in> set ms"
      using \<open>now < e\<close> by (simp add: live_def)
  qed
  then show ?thesis
    using Some by (auto simp: redis_delete_all_run(1) [OF del u] entry_session_def live_def)
qed

interpretation rds: session_store "redis_get x" "\<lambda>now tok p. redis_set x now tok p ttl" redis_delete
  redis_delete_all_for_user "redis_ok x" "payload_storable x" "redis_fits x ttl" "uint ttl"
  for x :: ext and ttl :: "64 word"
proof unfold_locales
  show "\<exists>v. redis_get x now tok w = (Inr v, w)" for now tok w
    by (simp add: redis_get_entry)
  show "redis_ok x t' w" if "redis_ok x t w" "t \<le> t'" for t t' w
    using that redis_ok_mono by blast
  fix now w p tok w' t tok'
  assume ok: "redis_ok x now w" and st: "payload_storable x p"
    and ex: "sp_expires_at p = now + secs (uint ttl)" and fits: "redis_fits x ttl now p tok w"
    and set: "redis_set x now tok p ttl w = (Inr (), w')"
  show "redis_ok x now w'"
    by (rule redis_set_ok [OF ok st fits set])
  have v: "valid_uuid (sp_user_id p)" and de: "x_payload_de x (x_payload_ser x p) = Inr p"
    using st by (simp_all add: payload_storable_def)
  have "entry tok' w' = (if tok' = tok then Some (x_payload_ser x p, now + secs (uint ttl)) else entry tok' w)"
    using redis_set_run(1) [OF set _ v] fits by (simp add: redis_fits_def)
  then show "redis_get x t tok' w' = (Inr (if tok' = tok then if t < sp_expires_at p then Some p else None
         else projr (fst (redis_get x t tok' w))), w')"
    using de ex by (simp add: redis_get_entry entry_session_def live_def)
next
  fix now w tok r w' t tok'
  assume ok: "redis_ok x now w" and del: "redis_delete now tok w = (r, w')"
  show "redis_ok x now w'" using redis_ok_delete(1) del ok by blast
  have "entry tok' w' = (if tok' = tok then None else entry tok' w)" using redis_ok_delete(2) del ok by blast
  then show "redis_get x t tok' w' = (Inr (if tok' = tok then None else projr (fst (redis_get x t tok' w))), w')"
    by (simp add: redis_get_entry entry_session_def live_def)
next
  fix now w u tid n w' t tok
  assume ok: "redis_ok x now w" and u: "valid_uuid u"
    and del: "redis_delete_all_for_user now tid u w = (n, w')"
  show "redis_ok x now w'" using redis_delete_all_ok del u ok by blast
  assume "now \<le> t"
  with redis_delete_all_get [OF ok del u]
  show "redis_get x t tok w' = (Inr (case projr (fst (redis_get x t tok w)) of
          Some p \<Rightarrow> if sp_tenant_id p = tid \<and> sp_user_id p = u then None else Some p | None \<Rightarrow> None), w')"
    by (simp add: redis_get_entry)
qed

subsection \<open>The configured store\<close>

definition store_ok :: "ext \<Rightarrow> time \<Rightarrow> world \<Rightarrow> bool" where
  "store_ok x t w \<longleftrightarrow>
     (if c_uses_redis x then redis_ok x t w else pg_ok x t w)"

text \<open>
  What a new session must satisfy: nothing with PostgreSQL; with Redis a new token, a lifetime that fits the
  integers of the command, and no live session of the same user that ends more than a day later.
\<close>

definition store_fits :: "ext \<Rightarrow> 64 word \<Rightarrow> time \<Rightarrow> session_payload \<Rightarrow> string \<Rightarrow> world \<Rightarrow> bool" where
  "store_fits x ttl now p tok w \<longleftrightarrow> (c_uses_redis x \<longrightarrow> redis_fits x ttl now p tok w)"

interpretation st: session_store "store_get x" "\<lambda>now tok p. store_set x now tok p ttl" "store_delete x"
  "store_delete_all_for_user x" "store_ok x" "payload_storable x" "store_fits x ttl" "uint ttl"
  for x :: ext and ttl :: "64 word"
proof (cases "c_uses_redis x")
  case True
  then have "store_get x = redis_get x" "store_set x = redis_set x" "store_delete x = redis_delete"
    "store_delete_all_for_user x = redis_delete_all_for_user" "store_fits x ttl = redis_fits x ttl"
    "store_ok x = redis_ok x"
    by (simp_all add: fun_eq_iff store_get_def store_set_def store_delete_def store_delete_all_for_user_def
        store_fits_def store_ok_def)
  then show "session_store (store_get x) (\<lambda>now tok p. store_set x now tok p ttl) (store_delete x)
      (store_delete_all_for_user x) (store_ok x) (payload_storable x) (store_fits x ttl) (uint ttl)"
    using rds.session_store_axioms by simp
next
  case False
  then have "store_get x = pg_get x" "store_set x = (\<lambda>now. pg_set x)" "store_delete x = (\<lambda>now. pg_delete)"
    "store_delete_all_for_user x = (\<lambda>now. pg_delete_all_for_user)" "store_fits x ttl = (\<lambda>_ _ _ _. True)"
    "store_ok x = pg_ok x"
    by (simp_all add: fun_eq_iff store_get_def store_set_def store_delete_def store_delete_all_for_user_def
        store_fits_def store_ok_def)
  then show "session_store (store_get x) (\<lambda>now tok p. store_set x now tok p ttl) (store_delete x)
      (store_delete_all_for_user x) (store_ok x) (payload_storable x) (store_fits x ttl) (uint ttl)"
    using pg.session_store_axioms by simp
qed

text \<open>The abstract store: which payload a token denotes at an instant.\<close>

definition valid_sessions :: "ext \<Rightarrow> time \<Rightarrow> world \<Rightarrow> string \<Rightarrow> session_payload option" where
  "valid_sessions x t w tok = projr (fst (store_get x t tok w))"

lemma valid_sessions_eq: "valid_sessions x t w = st.sessions x t w"
  by (simp add: fun_eq_iff valid_sessions_def st.sessions_def)

subsection \<open>Properties\<close>

lemma store_refines:
  assumes "store_ok x now w"
  shows "store_get x t tok w = (Inr (valid_sessions x t w tok), w)"
    and "payload_storable x p \<Longrightarrow> sp_expires_at p = now + secs (uint ttl) \<Longrightarrow> store_fits x ttl now p tok w \<Longrightarrow>
      store_set x now tok p ttl w = (Inr (), w1) \<Longrightarrow> store_ok x now w1 \<and>
      valid_sessions x t w1 = (valid_sessions x t w)(tok := if t < sp_expires_at p then Some p else None)"
    and "store_delete x now tok w = (r, w2) \<Longrightarrow> store_ok x now w2 \<and>
      valid_sessions x t w2 = (valid_sessions x t w)(tok := None)"
    and "valid_uuid u \<Longrightarrow> now \<le> t \<Longrightarrow> store_delete_all_for_user x now tid u w = (n, w3) \<Longrightarrow>
      store_ok x now w3 \<and> valid_sessions x t w3 = (\<lambda>tok. case valid_sessions x t w tok of
        Some p \<Rightarrow> if sp_tenant_id p = tid \<and> sp_user_id p = u then None else Some p | None \<Rightarrow> None)"
proof -
  note eq = valid_sessions_eq
  show "store_get x t tok w = (Inr (valid_sessions x t w tok), w)"
    unfolding eq by (rule st.get_sessions [OF assms])
  show "payload_storable x p \<Longrightarrow> sp_expires_at p = now + secs (uint ttl) \<Longrightarrow> store_fits x ttl now p tok w \<Longrightarrow>
      store_set x now tok p ttl w = (Inr (), w1) \<Longrightarrow> store_ok x now w1 \<and>
      valid_sessions x t w1 = (valid_sessions x t w)(tok := if t < sp_expires_at p then Some p else None)"
    unfolding eq using st.set_ok [OF assms] st.sessions_set [OF assms] by blast
  show "store_delete x now tok w = (r, w2) \<Longrightarrow> store_ok x now w2 \<and>
      valid_sessions x t w2 = (valid_sessions x t w)(tok := None)"
    unfolding eq using st.del_ok [OF assms] st.sessions_del [OF assms] by blast
  show "valid_uuid u \<Longrightarrow> now \<le> t \<Longrightarrow> store_delete_all_for_user x now tid u w = (n, w3) \<Longrightarrow>
      store_ok x now w3 \<and> valid_sessions x t w3 = (\<lambda>tok. case valid_sessions x t w tok of
        Some p \<Rightarrow> if sp_tenant_id p = tid \<and> sp_user_id p = u then None else Some p | None \<Rightarrow> None)"
    unfolding eq using st.del_all_ok [OF assms] st.sessions_del_all [OF assms] by blast
qed

definition session_world :: world where
  "session_world = world0\<lparr>t_users := [\<lparr>m_id = 5, m_tenant_id = ''acme'', m_identity_id = 7, m_username = None,
     m_status = ''active'', m_access_valid_until = None, m_created_at = 0, m_updated_at = 0\<rparr>]\<rparr>"

lemma ext0_payload: "payload_storable ext0 (payload0 tid)"
  by (simp add: payload_storable_def ext0_def payload0_def valid_uuid_def)

lemma pg_created:
  "store_set ext0 0 ''tok'' (payload0 ''acme'') 100 session_world =
     (Inr (), snd (store_set ext0 0 ''tok'' (payload0 ''acme'') 100 session_world))"
proof -
  have "fst (store_set ext0 0 ''tok'' (payload0 ''acme'') 100 session_world) = Inr ()" by code_simp
  then show ?thesis by (metis prod.collapse)
qed

text \<open>
  C12. Both session stores implement the same abstract map from tokens to payloads. Creating a
  session adds its token until the payload's expiry, deleting one removes exactly that token,
  and deleting a user's sessions removes exactly the tokens of that user and tenant; a read
  returns the map's entry and never fails. Lifetimes may differ from session to session. With Redis a new session must
  have a new token, and no live session of the same user may end more than a day after it
  (\<open>store_fits\<close>): the code cuts the set of the user's tokens short otherwise, as the lemma at the end shows.
\<close>

theorem session_store_refinement:
  assumes "store_ok x now w"
  shows "store_get x t tok w = (Inr (valid_sessions x t w tok), w) \<and>
    (\<forall>p ttl w1. payload_storable x p \<longrightarrow> sp_expires_at p = now + secs (uint ttl) \<longrightarrow> store_fits x ttl now p tok w \<longrightarrow>
      store_set x now tok p ttl w = (Inr (), w1) \<longrightarrow> store_ok x now w1 \<and>
      valid_sessions x t w1 = (valid_sessions x t w)(tok := if t < sp_expires_at p then Some p else None)) \<and>
    (\<forall>r w2. store_delete x now tok w = (r, w2) \<longrightarrow> store_ok x now w2 \<and>
      valid_sessions x t w2 = (valid_sessions x t w)(tok := None)) \<and>
    (\<forall>u tid n w3. valid_uuid u \<longrightarrow> now \<le> t \<longrightarrow> store_delete_all_for_user x now tid u w = (n, w3) \<longrightarrow>
      store_ok x now w3 \<and> valid_sessions x t w3 = (\<lambda>tok. case valid_sessions x t w tok of
        Some p \<Rightarrow> if sp_tenant_id p = tid \<and> sp_user_id p = u then None else Some p | None \<Rightarrow> None))"
  using store_refines [OF assms] by blast

definition redis_ext0 :: ext where
  "redis_ext0 = ext0\<lparr>c_uses_redis := True\<rparr>"

lemma redis_ext0_simps [simp]:
  "c_uses_redis redis_ext0" "x_payload_de redis_ext0 = x_payload_de ext0" "x_payload_ser redis_ext0 = x_payload_ser ext0"
  "payload_storable redis_ext0 = payload_storable ext0"
  by (simp_all add: redis_ext0_def payload_storable_def fun_eq_iff)

lemma session_world_ok: "store_ok ext0 t session_world" "store_ok redis_ext0 t session_world"
  by (simp_all add: store_ok_def ext0_def pg_ok_def session_world_def world0_def unique_on_def redis_ok_def listed_def own_only_def
      entry_def)

lemma session_world_fits: "store_fits ext0 100 0 p tok session_world" "store_fits redis_ext0 100 0 p tok session_world"
  by (simp_all add: store_fits_def ext0_def redis_fits_def redis_ttl_ok_def redis_unused_def set_covers_def entry_def session_world_def
      world0_def)

theorem session_store_refinement_witness:
  "valid_sessions ext0 (secs 99) (snd (store_set ext0 0 ''tok'' (payload0 ''acme'') 100 session_world))
     = (valid_sessions ext0 (secs 99) session_world)(''tok'' \<mapsto> payload0 ''acme'') \<and>
   valid_sessions ext0 (secs 100) (snd (store_set ext0 0 ''tok'' (payload0 ''acme'') 100 session_world)) ''tok'' = None \<and>
   valid_sessions redis_ext0 (secs 99) (snd (store_set redis_ext0 0 ''tok'' (payload0 ''acme'') 100 session_world))
     = (valid_sessions redis_ext0 (secs 99) session_world)(''tok'' \<mapsto> payload0 ''acme'') \<and>
   valid_sessions redis_ext0 (secs 100) (snd (store_set redis_ext0 0 ''tok'' (payload0 ''acme'') 100 session_world)) ''tok'' = None"
proof -
  have exp: "sp_expires_at (payload0 ''acme'') = 0 + secs (uint (100 :: 64 word))"
    by (simp add: payload0_def)
  have "fst (store_set redis_ext0 0 ''tok'' (payload0 ''acme'') 100 session_world) = Inr ()" by code_simp
  then have redis: "store_set redis_ext0 0 ''tok'' (payload0 ''acme'') 100 session_world =
      (Inr (), snd (store_set redis_ext0 0 ''tok'' (payload0 ''acme'') 100 session_world))" by (metis prod.collapse)
  note pg = session_store_refinement [OF session_world_ok(1) [of 0], THEN conjunct2, THEN conjunct1, rule_format,
      OF ext0_payload exp session_world_fits(1) pg_created]
  have "payload_storable redis_ext0 (payload0 ''acme'')" by (simp add: ext0_payload)
  note rds = session_store_refinement [OF session_world_ok(2) [of 0], THEN conjunct2, THEN conjunct1, rule_format,
      OF this exp session_world_fits(2) redis]
  have "sp_expires_at (payload0 ''acme'') = secs 100" "secs 99 < secs 100" by (simp_all add: payload0_def secs_def)
  then show ?thesis
    using pg [of "secs 99"] pg [of "secs 100"] rds [of "secs 99"] rds [of "secs 100"] by simp
qed

text \<open>
  The Redis store keeps every session of a user in one set whose expiry each new session
  resets. A session created later with a shorter TTL therefore shortens the life of the set,
  and a longer session of the same user is then not found by \<open>delete_all_for_user\<close>: it stays
  valid after all sessions of the user were deleted. This is what \<open>set_covers\<close> excludes above.
\<close>

lemma redis_set_succeeds:
  "0 < unat ttl \<Longrightarrow> int (unat ttl) * 1000 + now div 1000 < 2 ^ 63 \<Longrightarrow>
   redis_set x now tok p ttl w = (Inr (), snd (redis_set x now tok p ttl w))"
  by (simp add: redis_set_def rd_setex_def rd_put_def rd_sadd_expire_def rd_smembers_def rd_put_set_def)

lemma redis_shorter_ttl_survives_revocation:
  defines "p \<equiv> payload0 ''acme''"
  defines "w1 \<equiv> snd (redis_set ext0 0 ''long'' p 864000 session_world)"
  defines "w2 \<equiv> snd (redis_set ext0 0 ''short'' p 3600 w1)"
  defines "w3 \<equiv> snd (redis_delete_all_for_user (secs 172800) ''acme'' 5 w2)"
  shows "redis_get ext0 (secs 172801) ''long'' w3 = (Inr (Some p), w3)"
proof -
  have u: "valid_uuid (sp_user_id p)" "valid_uuid 5" and p: "sp_tenant_id p = ''acme''" "sp_user_id p = 5"
    by (simp_all add: p_def payload0_def valid_uuid_def)
  have ttl: "redis_ttl_ok 864000" "redis_ttl_ok 3600" by (simp_all add: redis_ttl_ok_def)
  have "redis_set ext0 0 ''long'' p 864000 session_world = (Inr (), w1)"
    unfolding w1_def by (rule redis_set_succeeds) simp_all
  note r1 = redis_set_run [OF this ttl(1) u(1)]
  have "redis_set ext0 0 ''short'' p 3600 w1 = (Inr (), w2)"
    unfolding w2_def by (rule redis_set_succeeds) simp_all
  note r2 = redis_set_run [OF this ttl(2) u(1)]
  have "members ''acme'' 5 session_world = None"
    by (simp add: members_def session_world_def world0_def)
  then have dead: "live (secs 172800) (members ''acme'' 5 w2) = None"
    using p u(2) by (simp add: r2(2) r1(2) Let_def live_def)
  obtain n where "redis_delete_all_for_user (secs 172800) ''acme'' 5 w2 = (n, w3)"
    unfolding w3_def by (metis prod.collapse)
  then have "entry ''long'' w3 = entry ''long'' w2"
    by (simp add: redis_delete_all_run(1) [OF _ u(2)] dead)
  then have "entry ''long'' w3 = Some (x_payload_ser ext0 p, secs 864000)"
    by (simp add: r2(1) r1(1))
  moreover have "x_payload_de ext0 (x_payload_ser ext0 p) = Inr p"
    using ext0_payload [of "''acme''"] by (simp add: p_def payload_storable_def)
  ultimately show ?thesis
    by (simp add: redis_get_entry entry_session_def live_def)
qed

end
