(* ===== verification/Rate_Limit.thy ===== *)
theory Rate_Limit
  imports Session_Store
begin

section \<open>Rate limiting\<close>

text \<open>
  \<^verbatim>\<open>src/services/rate_limit.rs\<close> (the \<^verbatim>\<open>RateLimitStore\<close> trait) and \<^verbatim>\<open>src/middleware/rate_limit.rs\<close>
  (its in-memory and Redis implementations). Both count requests in fixed windows that start
  at the first request: the locale \<open>rate_limiter\<close> states that, and the exact outcome of a
  burst of requests is proved once in it. The in-memory counter is a \<^verbatim>\<open>u32\<close> and wraps; Redis
  counts with \<^verbatim>\<open>INCR\<close> on a key that \<^verbatim>\<open>EXPIRE\<close> ends with the window.
\<close>

record window =
  wd_count :: "32 word"
  wd_window_end :: time

type_synonym rate_windows = "string \<Rightarrow> window option"

definition memory_check ::
  "time \<Rightarrow> string \<Rightarrow> 32 word \<Rightarrow> 64 word \<Rightarrow> (rate_windows, bool) io" where
  "memory_check now key limit window_secs =
     (let window_duration = secs (uint window_secs) in
      bindE (gets (\<lambda>g. g key)) (\<lambda>entry. case entry of
          Some w \<Rightarrow>
            (if wd_window_end w \<le> now
             then bindE (modify (\<lambda>g. g(key \<mapsto> \<lparr>wd_count = 1, wd_window_end = now + window_duration\<rparr>))) (\<lambda>_. ret True)
             else bindE (modify (\<lambda>g. g(key \<mapsto> w\<lparr>wd_count := wd_count w + 1\<rparr>))) (\<lambda>_. ret (wd_count w + 1 \<le> limit)))
        | None \<Rightarrow> bindE (modify (\<lambda>g. g(key \<mapsto> \<lparr>wd_count = 1, wd_window_end = now + window_duration\<rparr>))) (\<lambda>_. ret True)))"

definition rate_key :: "string \<Rightarrow> string" where
  "rate_key key = ''ratelimit:'' @ key"

text \<open>\<^verbatim>\<open>INCR\<close> keeps the expiry of an existing key; a new key gets its expiry from \<^verbatim>\<open>EXPIRE\<close>.\<close>

definition rd_check :: "time \<Rightarrow> string \<Rightarrow> 32 word \<Rightarrow> 64 word \<Rightarrow> bool op" where
  "rd_check now key limit window_secs =
     bindE (gets (\<lambda>w. rd_strings (redis w) (rate_key key))) (\<lambda>e. case (live now e, e) of
         (Some v, Some (_, ex)) \<Rightarrow>
           (if v = [] \<or> \<not> list_all is_ascii_digit v then throw (Internal ''value is not an integer or out of range'')
            else let count = Suc (str_nat_aux 0 v) in
              bindE (rd_put (rate_key key) (Some (nat_str count,
                       if count = 1 then now + secs (sint window_secs) else ex))) (\<lambda>_.
              if 2 ^ 32 \<le> count then throw (Internal ''Response was of incompatible type'') else ret (count \<le> unat limit)))
       | _ \<Rightarrow> bindE (rd_put (rate_key key) (Some (nat_str 1, now + secs (sint window_secs)))) (\<lambda>_. ret (1 \<le> unat limit)))"

subsection \<open>The interface\<close>

text \<open>
  \<open>cnt now key s\<close> counts the requests of the current window (zero when there is none) and
  \<open>fin\<close> is the instant the window ends.
\<close>

locale rate_limiter =
  fixes check :: "time \<Rightarrow> string \<Rightarrow> 32 word \<Rightarrow> 64 word \<Rightarrow> ('s, bool) io"
    and cnt :: "time \<Rightarrow> string \<Rightarrow> 's \<Rightarrow> nat"
    and fin :: "string \<Rightarrow> 's \<Rightarrow> time"
    and ok :: "string \<Rightarrow> 's \<Rightarrow> bool"
  assumes first: "ok key s \<Longrightarrow> cnt now key s = 0 \<Longrightarrow> 1 \<le> unat limit \<Longrightarrow> 0 < uint win \<Longrightarrow> uint win < 2 ^ 63 \<Longrightarrow>
      \<exists>s'. check now key limit win s = (Inr True, s') \<and> ok key s' \<and> fin key s' = now + secs (uint win) \<and>
        (\<forall>t. cnt t key s' = (if t < fin key s' then 1 else 0))"
    and next_in_window: "ok key s \<Longrightarrow> 0 < cnt now key s \<Longrightarrow> Suc (cnt now key s) < 2 ^ 32 \<Longrightarrow>
      \<exists>s'. check now key limit win s = (Inr (Suc (cnt now key s) \<le> unat limit), s') \<and> ok key s' \<and> fin key s' = fin key s \<and>
        (\<forall>t. cnt t key s' = (if t < fin key s then Suc (cnt now key s) else 0))"
    and other_key: "key' \<noteq> key \<Longrightarrow> check now key limit win s = (r, s') \<Longrightarrow> cnt t key' s' = cnt t key' s"
begin

text \<open>The outcomes of a burst of checks of one key, at the given instants.\<close>

fun burst :: "string \<Rightarrow> 32 word \<Rightarrow> 64 word \<Rightarrow> time list \<Rightarrow> 's \<Rightarrow> bool result list" where
  "burst key limit win [] s = []"
| "burst key limit win (t # ts) s = (case check t key limit win s of (r, s') \<Rightarrow> r # burst key limit win ts s')"

lemma burst_in_window:
  assumes "ok key s" "\<forall>t. cnt t key s = (if t < fin key s then c else 0)" "0 < c" "c + length ts < 2 ^ 32"
    and "\<forall>t \<in> set ts. t < fin key s"
  shows "burst key limit win ts s = map (\<lambda>i. Inr (c + i < unat limit)) [0 ..< length ts]"
  using assms
proof (induction ts arbitrary: s c)
  case (Cons t ts)
  then have t: "cnt t key s = c" by simp
  with Cons.prems obtain s' where s': "check t key limit win s = (Inr (Suc c \<le> unat limit), s')" "ok key s'"
    "fin key s' = fin key s" "\<forall>t. cnt t key s' = (if t < fin key s then Suc c else 0)"
    using next_in_window [of key s t limit win] by auto
  have "burst key limit win ts s' = map (\<lambda>i. Inr (Suc c + i < unat limit)) [0 ..< length ts]"
    using Cons.prems s' by (intro Cons.IH) auto
  then show ?case
    using s'(1) by (simp add: map_upt_Suc Suc_le_eq del: upt_Suc)
qed simp

lemma burst_from_idle:
  assumes "ok key s" "cnt t key s = 0" "1 \<le> unat limit" "0 < uint win" "uint win < 2 ^ 63" "Suc (length ts) < 2 ^ 32"
    and "\<forall>t' \<in> set ts. t' < t + secs (uint win)"
  shows "burst key limit win (t # ts) s = map (\<lambda>i. Inr (i < unat limit)) [0 ..< Suc (length ts)]"
proof -
  obtain s' where s': "check t key limit win s = (Inr True, s')" "ok key s'" "fin key s' = t + secs (uint win)"
    "\<forall>t. cnt t key s' = (if t < fin key s' then 1 else 0)"
    using first [OF assms(1-5)] by blast
  have "burst key limit win ts s' = map (\<lambda>i. Inr (1 + i < unat limit)) [0 ..< length ts]"
    using assms s' by (intro burst_in_window) auto
  then show ?thesis
    using s'(1) assms(3) by (simp add: map_upt_Suc del: upt_Suc)
qed

end

subsection \<open>Both implementations\<close>

definition memory_cnt :: "time \<Rightarrow> string \<Rightarrow> rate_windows \<Rightarrow> nat" where
  "memory_cnt now key g = (case g key of None \<Rightarrow> 0 | Some w \<Rightarrow> if now < wd_window_end w then unat (wd_count w) else 0)"

definition memory_fin :: "string \<Rightarrow> rate_windows \<Rightarrow> time" where
  "memory_fin key g = (case g key of None \<Rightarrow> 0 | Some w \<Rightarrow> wd_window_end w)"

definition memory_ok :: "string \<Rightarrow> rate_windows \<Rightarrow> bool" where
  "memory_ok key g \<longleftrightarrow> (case g key of None \<Rightarrow> True | Some w \<Rightarrow> wd_count w \<noteq> 0)"

lemma word_count_up: "Suc (unat c) < 2 ^ 32 \<Longrightarrow> unat (c + 1 :: 32 word) = Suc (unat c)"
  by (simp add: unat_word_ariths)

interpretation mem: rate_limiter memory_check memory_cnt memory_fin memory_ok
proof unfold_locales
  show "\<exists>s'. memory_check now key limit win s = (Inr True, s') \<and> memory_ok key s' \<and>
      memory_fin key s' = now + secs (uint win) \<and> (\<forall>t. memory_cnt t key s' = (if t < memory_fin key s' then 1 else 0))"
    if "memory_ok key s" "memory_cnt now key s = 0" for key s now limit win
    using that
    by (cases "s key") (auto simp: memory_check_def memory_cnt_def memory_fin_def memory_ok_def Let_def unat_eq_0 split: if_splits)
  show "\<exists>s'. memory_check now key limit win s = (Inr (Suc (memory_cnt now key s) \<le> unat limit), s') \<and> memory_ok key s' \<and>
      memory_fin key s' = memory_fin key s \<and> (\<forall>t. memory_cnt t key s' = (if t < memory_fin key s then Suc (memory_cnt now key s) else 0))"
    if "memory_ok key s" and pos: "0 < memory_cnt now key s" and small: "Suc (memory_cnt now key s) < 2 ^ 32" for key s now limit win
  proof -
    obtain w where w: "s key = Some w" "now < wd_window_end w" "memory_cnt now key s = unat (wd_count w)"
      using pos by (auto simp: memory_cnt_def split: option.splits if_splits)
    have "unat (wd_count w + 1) = Suc (unat (wd_count w))"
      using small w(3) by (simp add: word_count_up)
    moreover from this have "wd_count w + 1 \<noteq> 0" by (metis nat.distinct(1) unat_0)
    ultimately show ?thesis
      using w by (simp add: memory_check_def memory_fin_def memory_ok_def memory_cnt_def word_le_nat_alt Let_def)
  qed
  show "memory_cnt t key' s' = memory_cnt t key' s" if "key' \<noteq> key" "memory_check now key limit win s = (r, s')"
    for key' key now limit win s r s' t
    using that by (auto simp: memory_check_def memory_cnt_def Let_def split: option.splits if_splits)
qed

definition rd_cnt :: "time \<Rightarrow> string \<Rightarrow> world \<Rightarrow> nat" where
  "rd_cnt now key w = (case live now (rd_strings (redis w) (rate_key key)) of None \<Rightarrow> 0 | Some v \<Rightarrow> str_nat_aux 0 v)"

definition rd_fin :: "string \<Rightarrow> world \<Rightarrow> time" where
  "rd_fin key w = (case rd_strings (redis w) (rate_key key) of None \<Rightarrow> 0 | Some (_, ex) \<Rightarrow> ex)"

definition rd_ok :: "string \<Rightarrow> world \<Rightarrow> bool" where
  "rd_ok key w \<longleftrightarrow> (case rd_strings (redis w) (rate_key key) of None \<Rightarrow> True
     | Some (v, _) \<Rightarrow> v \<noteq> [] \<and> list_all is_ascii_digit v \<and> str_nat_aux 0 v \<noteq> 0)"

lemma nat_str_all_digits: "list_all is_ascii_digit (nat_str n)"
  by (simp add: list_all_iff nat_str_digits)

lemma sint_small: "uint (win :: 64 word) < 2 ^ 63 \<Longrightarrow> sint win = uint win"
  by (simp add: sint_uint, rule signed_take_bit_int_eq_self) (use order_trans [OF _ uint_ge_0 [of win], of "- (2 ^ 63)"] in simp_all)

interpretation rdl: rate_limiter rd_check rd_cnt rd_fin rd_ok
proof unfold_locales
  show "\<exists>s'. rd_check now key limit win s = (Inr True, s') \<and> rd_ok key s' \<and>
      rd_fin key s' = now + secs (uint win) \<and> (\<forall>t. rd_cnt t key s' = (if t < rd_fin key s' then 1 else 0))"
    if "rd_ok key s" "rd_cnt now key s = 0" "1 \<le> unat limit" "0 < uint win" "uint win < 2 ^ 63" for key s now limit win
  proof -
    have "live now (rd_strings (redis s) (rate_key key)) = None"
      using that(1,2) by (auto simp: rd_ok_def rd_cnt_def live_def split: option.splits if_splits)
    then show ?thesis
      using that(3) sint_small [OF that(5)]
      by (auto simp: rd_check_def rd_put_def rd_ok_def rd_fin_def rd_cnt_def live_def nat_str_all_digits str_nat_nat_str
          split: option.splits)
  qed
  show "\<exists>s'. rd_check now key limit win s = (Inr (Suc (rd_cnt now key s) \<le> unat limit), s') \<and> rd_ok key s' \<and>
      rd_fin key s' = rd_fin key s \<and> (\<forall>t. rd_cnt t key s' = (if t < rd_fin key s then Suc (rd_cnt now key s) else 0))"
    if num: "rd_ok key s" and pos: "0 < rd_cnt now key s" and small: "Suc (rd_cnt now key s) < 2 ^ 32" for key s now limit win
  proof -
    obtain v ex where e: "rd_strings (redis s) (rate_key key) = Some (v, ex)" "now < ex"
      using pos by (auto simp: rd_cnt_def live_def split: option.splits if_splits)
    then have "v \<noteq> []" "list_all is_ascii_digit v" "str_nat_aux 0 v \<noteq> 0"
      using num by (simp_all add: rd_ok_def)
    with e small show ?thesis
      by (simp add: rd_check_def rd_put_def rd_ok_def rd_fin_def rd_cnt_def live_def nat_str_all_digits str_nat_nat_str Let_def)
  qed
  show "rd_cnt t key' s' = rd_cnt t key' s" if "key' \<noteq> key" "rd_check now key limit win s = (r, s')"
    for key' key now limit win s r s' t
    using that
    by (auto simp: rd_check_def rd_put_def rd_cnt_def rate_key_def Let_def split: option.splits if_splits prod.splits)
qed

subsection \<open>Properties\<close>

text \<open>The outcomes of a burst of requests with each of the stores.\<close>

fun memory_burst :: "string \<Rightarrow> 32 word \<Rightarrow> 64 word \<Rightarrow> time list \<Rightarrow> rate_windows \<Rightarrow> bool result list" where
  "memory_burst key limit win [] s = []"
| "memory_burst key limit win (t # ts) s = (case memory_check t key limit win s of (r, s') \<Rightarrow> r # memory_burst key limit win ts s')"

fun redis_burst :: "string \<Rightarrow> 32 word \<Rightarrow> 64 word \<Rightarrow> time list \<Rightarrow> world \<Rightarrow> bool result list" where
  "redis_burst key limit win [] s = []"
| "redis_burst key limit win (t # ts) s = (case rd_check t key limit win s of (r, s') \<Rightarrow> r # redis_burst key limit win ts s')"

lemma memory_burst_eq: "memory_burst key limit win ts s = mem.burst key limit win ts s"
  by (induction ts arbitrary: s) (auto split: prod.splits)

lemma redis_burst_eq: "redis_burst key limit win ts s = rdl.burst key limit win ts s"
  by (induction ts arbitrary: s) (auto split: prod.splits)

lemma burst_facts:
  assumes "1 \<le> unat limit" "0 < uint win" "uint win < 2 ^ 63" "Suc (length ts) < 2 ^ 32"
    and "\<forall>t' \<in> set ts. t' < t + secs (uint win)"
  shows "memory_ok key g \<Longrightarrow> memory_cnt t key g = 0 \<Longrightarrow>
      memory_burst key limit win (t # ts) g = map (\<lambda>i. Inr (i < unat limit)) [0 ..< Suc (length ts)]"
    and "rd_ok key w \<Longrightarrow> rd_cnt t key w = 0 \<Longrightarrow>
      redis_burst key limit win (t # ts) w = map (\<lambda>i. Inr (i < unat limit)) [0 ..< Suc (length ts)]"
  unfolding memory_burst_eq redis_burst_eq
  by (intro mem.burst_from_idle rdl.burst_from_idle assms; assumption)+

text \<open>
  A burst is admitted exactly up to the limit: of the requests for a key that fall within one
  window, counted from the first, precisely the first \<open>limit\<close> are allowed and every later one is
  refused, with the in-memory and with the Redis store alike (fewer than 2^32 requests, a
  positive limit and a positive window that fits \<^verbatim>\<open>i64\<close>).
\<close>

theorem rate_limit_burst:
  assumes "1 \<le> unat limit" "0 < uint win" "uint win < 2 ^ 63" "Suc (length ts) < 2 ^ 32"
    and "\<forall>t' \<in> set ts. t' < t + secs (uint win)"
  shows "(\<forall>g. memory_ok key g \<longrightarrow> memory_cnt t key g = 0 \<longrightarrow>
      memory_burst key limit win (t # ts) g = map (\<lambda>i. Inr (i < unat limit)) [0 ..< Suc (length ts)]) \<and>
    (\<forall>w. rd_ok key w \<longrightarrow> rd_cnt t key w = 0 \<longrightarrow>
      redis_burst key limit win (t # ts) w = map (\<lambda>i. Inr (i < unat limit)) [0 ..< Suc (length ts)])"
  using burst_facts [OF assms] by blast

theorem rate_limit_burst_witness:
  "memory_burst ''login:1.2.3.4'' 2 60 [0, secs 1, secs 59] (\<lambda>_. None) = [Inr True, Inr True, Inr False] \<and>
   redis_burst ''login:1.2.3.4'' 2 60 [0, secs 1, secs 59] world0 = [Inr True, Inr True, Inr False]"
proof -
  have "memory_ok ''login:1.2.3.4'' (\<lambda>_. None)" "memory_cnt 0 ''login:1.2.3.4'' (\<lambda>_. None) = 0"
    "rd_ok ''login:1.2.3.4'' world0" "rd_cnt 0 ''login:1.2.3.4'' world0 = 0"
    by (simp_all add: memory_ok_def memory_cnt_def rd_ok_def rd_cnt_def world0_def live_def)
  moreover have "map (\<lambda>i. Inr (i < unat (2 :: 32 word))) [0 ..< Suc (length [secs 1, secs 59])] = [Inr True, Inr True, Inr False :: bool result]"
    by (simp add: upt_rec)
  ultimately show ?thesis
    using rate_limit_burst [of 2 60 "[secs 1, secs 59]" 0 "''login:1.2.3.4''"]
    by simp
qed

text \<open>
  With a limit of zero the stores differ: the in-memory store still admits the first request of a
  window, Redis admits none.
\<close>

lemma zero_limit_differs:
  "fst (memory_check now key 0 win (\<lambda>_. None)) = Inr True"
  "fst (rd_check now key 0 win world0) = Inr False"
  by (simp_all add: memory_check_def Let_def rd_check_def rd_put_def world0_def live_def)

end
