(* ===== verification/Mfa.thy ===== *)
theory Mfa
  imports Crypto Token_Repos
begin

section \<open>Multi-factor authentication\<close>

text \<open>
  \<^verbatim>\<open>src/repo/mfa.rs\<close> and \<^verbatim>\<open>src/services/mfa.rs\<close>: TOTP enrolment and verification with a replay
  marker, single-use backup codes, and login challenges. Random choices (the secret's bytes,
  the nonce, the characters of the backup codes, the primary keys of their rows) are arguments.
  Seconds and steps are \<open>nat\<close>: a time is at most \<^verbatim>\<open>i64::MAX\<close> seconds, so no \<^verbatim>\<open>u64\<close> operation
  of \<open>matching_step\<close> overflows and the cast to \<^verbatim>\<open>i64\<close> is exact.
\<close>

subsection \<open>Repository\<close>

definition mfa_set_pending_secret :: "time \<Rightarrow> uuid \<Rightarrow> string \<Rightarrow> unit op" where
  "mfa_set_pending_secret now identity_id encrypted_secret =
     sql_update t_identities_update (\<lambda>i. i_id i = identity_id)
       (\<lambda>i. i\<lparr>i_mfa_secret := Some encrypted_secret, i_mfa_enabled := False,
              i_mfa_last_used_step := None, i_updated_at := now\<rparr>)"

definition replace_backup_codes_tx :: "(nat \<Rightarrow> uuid) \<Rightarrow> uuid \<Rightarrow> string list \<Rightarrow> unit op" where
  "replace_backup_codes_tx ids identity_id hashes =
     bindE (sql_delete t_backup_codes_update (\<lambda>r. bc_identity_id r = identity_id)) (\<lambda>_.
       for_each (\<lambda>(n, h). sql_insert t_backup_codes_update
         (\<lambda>w. token_violation (ids n \<in> bc_id ` set (t_backup_codes w))
                [(''identity_backup_codes_identity_id_fkey'', identity_exists identity_id w)])
         \<lparr>bc_id = ids n, bc_identity_id = identity_id, bc_code_hash = h, bc_consumed_at = None\<rparr>)
       (enumerate 0 hashes))"

definition mfa_enable :: "time \<Rightarrow> (nat \<Rightarrow> uuid) \<Rightarrow> uuid \<Rightarrow> string list \<Rightarrow> unit op" where
  "mfa_enable now ids identity_id backup_code_hashes = in_tx (
     bindE (sql_update t_identities_update (\<lambda>i. i_id i = identity_id)
              (\<lambda>i. i\<lparr>i_mfa_enabled := True, i_updated_at := now\<rparr>)) (\<lambda>_.
       replace_backup_codes_tx ids identity_id backup_code_hashes))"

definition mfa_repo_disable :: "time \<Rightarrow> uuid \<Rightarrow> unit op" where
  "mfa_repo_disable now identity_id = in_tx (
     bindE (sql_update t_identities_update (\<lambda>i. i_id i = identity_id)
              (\<lambda>i. i\<lparr>i_mfa_enabled := False, i_mfa_secret := None, i_mfa_last_used_step := None,
                     i_updated_at := now\<rparr>)) (\<lambda>_.
       sql_delete t_backup_codes_update (\<lambda>r. bc_identity_id r = identity_id)))"

definition mark_step_used :: "uuid \<Rightarrow> int \<Rightarrow> bool op" where
  "mark_step_used identity_id step =
     (let P = (\<lambda>i. i_id i = identity_id \<and>
                   (case i_mfa_last_used_step i of None \<Rightarrow> True | Some l \<Rightarrow> l < step)) in
      bindE (counting t_identities P (sql_update t_identities_update P
               (\<lambda>i. i\<lparr>i_mfa_last_used_step := Some step\<rparr>)))
        (\<lambda>n. ret (n = 1)))"

definition replace_backup_codes :: "(nat \<Rightarrow> uuid) \<Rightarrow> uuid \<Rightarrow> string list \<Rightarrow> unit op" where
  "replace_backup_codes ids identity_id hashes = in_tx (replace_backup_codes_tx ids identity_id hashes)"

definition unused_code :: "uuid \<Rightarrow> backup_code_row \<Rightarrow> bool" where
  "unused_code identity_id r \<longleftrightarrow> bc_identity_id r = identity_id \<and> bc_consumed_at r = None"

definition consume_backup_code :: "time \<Rightarrow> uuid \<Rightarrow> string \<Rightarrow> bool op" where
  "consume_backup_code now identity_id code_hash =
     bindE (sql_fetch t_backup_codes (\<lambda>r. unused_code identity_id r \<and> bc_code_hash r = code_hash)) (\<lambda>sub.
       let P = (\<lambda>r. case sub of None \<Rightarrow> False | Some q \<Rightarrow> bc_id r = bc_id q) in
       bindE (counting t_backup_codes P (sql_update t_backup_codes_update P
                (\<lambda>r. r\<lparr>bc_consumed_at := Some now\<rparr>)))
         (\<lambda>n. ret (n = 1)))"

definition count_unused_backup_codes :: "uuid \<Rightarrow> nat op" where
  "count_unused_backup_codes identity_id =
     gets (\<lambda>w. length (filter (unused_code identity_id) (t_backup_codes w)))"

record mfa_challenge =
  mc_tenant_id :: string
  mc_user_id :: uuid
  mc_attempt_count :: int

definition create_challenge :: "time \<Rightarrow> string \<Rightarrow> string \<Rightarrow> uuid \<Rightarrow> time \<Rightarrow> unit op" where
  "create_challenge now token tenant_id user_id expires_at =
     bindE (sql_delete t_challenges_update (\<lambda>r. ch_expires_at r \<le> now)) (\<lambda>_.
       sql_insert t_challenges_update
         (\<lambda>w. token_violation (token \<in> ch_token ` set (t_challenges w))
                [(''mfa_challenges_user_id_fkey'', user_exists user_id w)])
         \<lparr>ch_token = token, ch_tenant_id = tenant_id, ch_user_id = user_id,
          ch_attempt_count = 0, ch_expires_at = expires_at\<rparr>)"

definition get_challenge :: "time \<Rightarrow> string \<Rightarrow> mfa_challenge option op" where
  "get_challenge now token = gets (\<lambda>w. map_option
     (\<lambda>r. \<lparr>mc_tenant_id = ch_tenant_id r, mc_user_id = ch_user_id r, mc_attempt_count = ch_attempt_count r\<rparr>)
     (find_first (\<lambda>r. ch_token r = token \<and> now < ch_expires_at r) (t_challenges w)))"

definition increment_challenge_attempts :: "string \<Rightarrow> unit op" where
  "increment_challenge_attempts token =
     sql_update t_challenges_update (\<lambda>r. ch_token r = token)
       (\<lambda>r. r\<lparr>ch_attempt_count := ch_attempt_count r + 1\<rparr>)"

definition delete_challenge :: "string \<Rightarrow> bool op" where
  "delete_challenge token =
     bindE (counting t_challenges (\<lambda>r. ch_token r = token)
              (sql_delete t_challenges_update (\<lambda>r. ch_token r = token)))
       (\<lambda>n. ret (n = 1))"

subsection \<open>Codes\<close>

definition TOTP_DIGITS :: nat where "TOTP_DIGITS = 6"
definition TOTP_STEP_SECS :: nat where "TOTP_STEP_SECS = 30"
definition TOTP_SKEW_STEPS :: nat where "TOTP_SKEW_STEPS = 1"
definition BACKUP_CODE_COUNT :: nat where "BACKUP_CODE_COUNT = 10"
definition BACKUP_CODE_LEN :: nat where "BACKUP_CODE_LEN = 10"
definition BACKUP_CODE_ALPHABET :: string where
  "BACKUP_CODE_ALPHABET = ''0123456789abcdefghjkmnpqrstvwxyz''"

definition normalize_code :: "string \<Rightarrow> string" where
  "normalize_code code = to_lowercase (filter (\<lambda>c. \<not> is_whitespace c \<and> c \<noteq> CHR ''-'') code)"

definition is_totp_code :: "string \<Rightarrow> bool" where
  "is_totp_code code \<longleftrightarrow> length code = TOTP_DIGITS \<and> list_all is_ascii_digit code"

definition hex_byte :: "char \<Rightarrow> string" where
  "hex_byte b = [hex_digit (of_char b div 16), hex_digit (of_char b mod 16)]"

definition hash_backup_code :: "ext \<Rightarrow> string \<Rightarrow> string" where
  "hash_backup_code x normalized = concat (map hex_byte (x_sha256 x normalized))"

text \<open>The bytes of a string, and the comparison that looks at every one of them.\<close>

definition as_bytes :: "string \<Rightarrow> 8 word list" where
  "as_bytes s = map (\<lambda>c. of_nat (of_char c)) s"

definition constant_time_eq :: "8 word list \<Rightarrow> 8 word list \<Rightarrow> bool" where
  "constant_time_eq a b \<longleftrightarrow>
     length a = length b \<and> fold (\<lambda>(u, v) acc. or acc (xor u v)) (zip a b) 0 = 0"

definition matching_step :: "ext \<Rightarrow> string \<Rightarrow> string \<Rightarrow> nat \<Rightarrow> nat option" where
  "matching_step x secret code now_secs =
     (let current = now_secs div TOTP_STEP_SECS in
      find_first (\<lambda>step. constant_time_eq (as_bytes (x_totp_generate x secret (step * TOTP_STEP_SECS)))
                                          (as_bytes code))
        [current - TOTP_SKEW_STEPS ..< Suc (current + TOTP_SKEW_STEPS)])"

text \<open>\<open>rnd n k\<close> is the generator's draw for character \<open>k\<close> of code \<open>n\<close>.\<close>

definition generate_backup_codes :: "(nat \<Rightarrow> nat \<Rightarrow> nat) \<Rightarrow> string list" where
  "generate_backup_codes rnd = map (\<lambda>n.
     let raw = map (\<lambda>k. BACKUP_CODE_ALPHABET ! (rnd n k mod length BACKUP_CODE_ALPHABET)) [0 ..< BACKUP_CODE_LEN] in
     take (BACKUP_CODE_LEN div 2) raw @ ''-'' @ drop (BACKUP_CODE_LEN div 2) raw) [0 ..< BACKUP_CODE_COUNT]"

subsection \<open>Service\<close>

definition now_secs :: "time \<Rightarrow> nat" where
  "now_secs now = nat (now div secs 1)"

definition mfa_cipher :: "ext \<Rightarrow> secret_cipher" where
  "mfa_cipher x = cipher_new x (c_kv_encryption_key x)"

definition remove_colons :: "string \<Rightarrow> string" where
  "remove_colons s = filter (\<lambda>c. c \<noteq> CHR '':'') s"

definition decrypt_secret :: "ext \<Rightarrow> identity \<Rightarrow> string option result" where
  "decrypt_secret x i = (case i_mfa_secret i of
       None \<Rightarrow> Inr None
     | Some enc \<Rightarrow> bind_res (cipher_decrypt x (mfa_cipher x) enc) (\<lambda>encoded.
         bind_res (map_err (\<lambda>e. Internal (''Stored MFA secret is invalid: '' @ e)) (x_base32_decode x encoded)) (\<lambda>bytes.
           Inr (Some bytes))))"

record mfa_enrollment =
  me_secret :: string
  me_otpauth_url :: string

definition begin_enrollment ::
  "ext \<Rightarrow> time \<Rightarrow> string \<Rightarrow> string \<Rightarrow> identity \<Rightarrow> string \<Rightarrow> mfa_enrollment op" where
  "begin_enrollment x now bytes nonce i account_label =
     (if i_mfa_enabled i then throw (Conflict ''MFA is already enabled'')
      else let encoded = x_base32_encode x bytes in
        bindE (lift (cipher_encrypt x (mfa_cipher x) nonce encoded)) (\<lambda>enc.
        bindE (mfa_set_pending_secret now (i_id i) enc) (\<lambda>_.
        bindE (lift (map_err (\<lambda>e. Internal (''TOTP init: '' @ e))
            (x_totp_url x bytes (remove_colons (c_mfa_issuer x)) (remove_colons account_label)))) (\<lambda>url.
          ret \<lparr>me_secret = encoded, me_otpauth_url = url\<rparr>))))"

definition fresh_codes :: "ext \<Rightarrow> (nat \<Rightarrow> nat \<Rightarrow> nat) \<Rightarrow> string list \<times> string list" where
  "fresh_codes x rnd = (let codes = generate_backup_codes rnd in
     (codes, map (\<lambda>c. hash_backup_code x (normalize_code c)) codes))"

definition confirm_enrollment ::
  "ext \<Rightarrow> time \<Rightarrow> (nat \<Rightarrow> nat \<Rightarrow> nat) \<Rightarrow> (nat \<Rightarrow> uuid) \<Rightarrow> identity \<Rightarrow> string \<Rightarrow> string list op" where
  "confirm_enrollment x now rnd ids i code =
     (if i_mfa_enabled i then throw (Conflict ''MFA is already enabled'')
      else bindE (lift (decrypt_secret x i)) (\<lambda>s.
      bindE (lift (ok_or (BadRequest ''Start MFA enrollment first'') s)) (\<lambda>secret.
      let code' = normalize_code code in
      bindE (lift (ok_or (Unauthorized ''Invalid MFA code'')
               (if is_totp_code code' then matching_step x secret code' (now_secs now) else None))) (\<lambda>step.
      bindE (mark_step_used (i_id i) (int step)) (\<lambda>_.
      case fresh_codes x rnd of (codes, hashes) \<Rightarrow>
      bindE (mfa_enable now ids (i_id i) hashes) (\<lambda>_. ret codes))))))"

definition mfa_verify :: "ext \<Rightarrow> time \<Rightarrow> identity \<Rightarrow> string \<Rightarrow> bool op" where
  "mfa_verify x now i code =
     (if \<not> i_mfa_enabled i then ret False
      else let code' = normalize_code code in
        if is_totp_code code' then
          bindE (lift (decrypt_secret x i)) (\<lambda>s. case s of
              None \<Rightarrow> ret False
            | Some secret \<Rightarrow> (case matching_step x secret code' (now_secs now) of
                Some step \<Rightarrow> mark_step_used (i_id i) (int step)
              | None \<Rightarrow> ret False))
        else if length code' \<noteq> BACKUP_CODE_LEN then ret False
        else consume_backup_code now (i_id i) (hash_backup_code x code'))"

definition require_valid_code :: "ext \<Rightarrow> time \<Rightarrow> identity \<Rightarrow> string \<Rightarrow> unit op" where
  "require_valid_code x now i code =
     (if \<not> i_mfa_enabled i then throw (BadRequest ''MFA is not enabled'')
      else bindE (mfa_verify x now i code) (\<lambda>ok. unless ok (Unauthorized ''Invalid MFA code'')))"

definition mfa_disable :: "ext \<Rightarrow> time \<Rightarrow> identity \<Rightarrow> string \<Rightarrow> unit op" where
  "mfa_disable x now i code =
     bindE (require_valid_code x now i code) (\<lambda>_. mfa_repo_disable now (i_id i))"

definition regenerate_backup_codes ::
  "ext \<Rightarrow> time \<Rightarrow> (nat \<Rightarrow> nat \<Rightarrow> nat) \<Rightarrow> (nat \<Rightarrow> uuid) \<Rightarrow> identity \<Rightarrow> string \<Rightarrow> string list op" where
  "regenerate_backup_codes x now rnd ids i code =
     bindE (require_valid_code x now i code) (\<lambda>_.
       case fresh_codes x rnd of (codes, hashes) \<Rightarrow>
       bindE (replace_backup_codes ids (i_id i) hashes) (\<lambda>_. ret codes))"

definition backup_codes_remaining :: "identity \<Rightarrow> nat op" where
  "backup_codes_remaining i =
     (if \<not> i_mfa_enabled i then ret 0 else count_unused_backup_codes (i_id i))"

subsection \<open>Comparison and the time window\<close>

lemma fold_or_zero:
  fixes acc :: "8 word"
  shows "fold (\<lambda>(u, v) acc. or acc (xor u v)) ps acc = 0 \<longleftrightarrow> acc = 0 \<and> (\<forall>(u, v) \<in> set ps. u = v)"
proof (induction ps arbitrary: acc)
  case (Cons p ps)
  have xor_eq: "xor u v = 0 \<longleftrightarrow> u = v" for u v :: "8 word"
    by (auto simp: bit_eq_iff bit_simps)
  have or_eq: "or u v = 0 \<longleftrightarrow> u = 0 \<and> v = 0" for u v :: "8 word"
    by (auto simp: bit_eq_iff bit_simps)
  show ?case by (cases p) (simp add: Cons.IH or_eq xor_eq)
qed simp

lemma constant_time_eq_iff [simp]: "constant_time_eq a b \<longleftrightarrow> a = b"
  by (auto simp: constant_time_eq_def fold_or_zero list_eq_iff_zip_eq)

lemma as_bytes_inject [simp]: "as_bytes s = as_bytes t \<longleftrightarrow> s = t"
proof -
  have "inj (\<lambda>c :: char. of_nat (of_char c) :: 8 word)"
  proof (rule injI)
    fix c d :: char
    assume eq: "(of_nat (of_char c) :: 8 word) = of_nat (of_char d)"
    have "unat (of_nat (of_char e) :: 8 word) = of_char e" for e :: char
      by (simp add: unat_of_nat)
    then show "c = d" using eq by (metis of_char_eq_iff)
  qed
  then show ?thesis by (simp add: as_bytes_def inj_map_eq_map)
qed

lemma matching_step_unfold:
  "matching_step x secret code t =
     find_first (\<lambda>s. x_totp_generate x secret (s * 30) = code) [t div 30 - 1 ..< Suc (t div 30 + 1)]"
  by (simp add: matching_step_def Let_def TOTP_STEP_SECS_def TOTP_SKEW_STEPS_def)

lemma step_window: "s \<in> set [c - 1 ..< Suc (c + 1)] \<longleftrightarrow> s \<le> c + 1 \<and> c \<le> s + (1 :: nat)"
  by (simp only: set_upt atLeastLessThan_iff) arith

lemma matching_step_SomeD:
  assumes "matching_step x secret code t = Some s"
  shows "x_totp_generate x secret (s * 30) = code" "s \<le> t div 30 + 1" "t div 30 \<le> s + 1"
  using find_first_SomeD [OF assms [unfolded matching_step_unfold]] by (simp_all only: step_window)

lemma matching_step_None:
  "matching_step x secret code t = None \<longleftrightarrow>
     (\<forall>s. s \<le> t div 30 + 1 \<longrightarrow> t div 30 \<le> s + 1 \<longrightarrow> x_totp_generate x secret (s * 30) \<noteq> code)"
  unfolding matching_step_unfold find_first_None_iff by (simp only: Ball_def step_window) blast

subsection \<open>Replay of TOTP steps\<close>

text \<open>The time step of a code, and what a check adds to the list of accepted steps.\<close>

definition step_of :: "ext \<Rightarrow> time \<Rightarrow> identity \<Rightarrow> string \<Rightarrow> nat option" where
  "step_of x now i code =
     (if is_totp_code (normalize_code code) then
        (case decrypt_secret x i of Inr (Some secret) \<Rightarrow> matching_step x secret (normalize_code code) (now_secs now) | _ \<Rightarrow> None)
      else None)"

definition accepted_step :: "ext \<Rightarrow> time \<Rightarrow> identity \<Rightarrow> string \<Rightarrow> world \<Rightarrow> (uuid \<times> time \<times> nat) list" where
  "accepted_step x now i code w = (case step_of x now i code of
       Some s \<Rightarrow> if fst (mfa_verify x now i code w) = Inr True then [(i_id i, now, s)] else []
     | None \<Rightarrow> [])"

text \<open>Whatever else happens to the tables: the rows of identities keep their switch and their marker.\<close>

definition mfa_kept :: "world \<Rightarrow> world \<Rightarrow> bool" where
  "mfa_kept w w' \<longleftrightarrow> distinct (map i_id (t_identities w')) \<and>
     (\<forall>i \<in> set (t_identities w). \<exists>j \<in> set (t_identities w'). i_id j = i_id i \<and> i_mfa_enabled j = i_mfa_enabled i \<and>
        i_mfa_last_used_step j = i_mfa_last_used_step i)"

text \<open>
  A history of the operations of the service, by any identities and codes at any times, each on the row as it is in the
  table, and of any other changes in between; with the list of the accepted time steps. Turning the
  second factor off takes the identity's steps out of the list: the code forgets them too.
\<close>

inductive mfa_run :: "ext \<Rightarrow> world \<Rightarrow> (uuid \<times> time \<times> nat) list \<Rightarrow> world \<Rightarrow> bool" for x w where
  start: "distinct (map i_id (t_identities w)) \<Longrightarrow> mfa_run x w [] w"
| verify: "mfa_run x w acc w' \<Longrightarrow> i \<in> set (t_identities w') \<Longrightarrow> mfa_verify x now i code w' = (r, w'') \<Longrightarrow>
    mfa_run x w (acc @ accepted_step x now i code w') w''"
| regenerate: "mfa_run x w acc w' \<Longrightarrow> i \<in> set (t_identities w') \<Longrightarrow>
    regenerate_backup_codes x now rnd ids i code w' = (r, w'') \<Longrightarrow> mfa_run x w (acc @ accepted_step x now i code w') w''"
| disable: "mfa_run x w acc w' \<Longrightarrow> i \<in> set (t_identities w') \<Longrightarrow> mfa_disable x now i code w' = (r, w'') \<Longrightarrow>
    mfa_run x w (if isl r then acc else filter (\<lambda>(iid, _). iid \<noteq> i_id i) acc) w''"
| begin_enrollment: "mfa_run x w acc w' \<Longrightarrow> i \<in> set (t_identities w') \<Longrightarrow>
    begin_enrollment x now bytes nonce i label w' = (r, w'') \<Longrightarrow> mfa_run x w acc w''"
| confirm: "mfa_run x w acc w' \<Longrightarrow> i \<in> set (t_identities w') \<Longrightarrow>
    confirm_enrollment x now rnd ids i code w' = (Inr codes, w'') \<Longrightarrow> step_of x now i code = Some s \<Longrightarrow>
    mfa_run x w (acc @ [(i_id i, now, s)]) w''"
| confirm_refused: "mfa_run x w acc w' \<Longrightarrow> i \<in> set (t_identities w') \<Longrightarrow>
    confirm_enrollment x now rnd ids i code w' = (Inl e, w'') \<Longrightarrow> mfa_run x w acc w''"
| other: "mfa_run x w acc w' \<Longrightarrow> mfa_kept w' w'' \<Longrightarrow> mfa_run x w acc w''"

text \<open>The second factor of an identity is on and its marker is at least \<open>s\<close>.\<close>

definition step_held :: "uuid \<Rightarrow> nat \<Rightarrow> world \<Rightarrow> bool" where
  "step_held iid s w \<longleftrightarrow> (\<exists>i \<in> set (t_identities w). i_id i = iid \<and> i_mfa_enabled i \<and>
     (\<exists>l. i_mfa_last_used_step i = Some l \<and> int s \<le> l))"

definition step_free :: "uuid \<Rightarrow> int \<Rightarrow> identity \<Rightarrow> bool" where
  "step_free iid step i \<longleftrightarrow>
     i_id i = iid \<and> (case i_mfa_last_used_step i of None \<Rightarrow> True | Some l \<Rightarrow> l < step)"

definition marked :: "uuid \<Rightarrow> int \<Rightarrow> identity \<Rightarrow> identity" where
  "marked iid step i = (if step_free iid step i then i\<lparr>i_mfa_last_used_step := Some step\<rparr> else i)"

lemma update_rows_map: "update_rows P f rows = map (\<lambda>r. if P r then f r else r) rows"
  by (simp add: update_rows_def)

lemma mark_step_used_run:
  "mark_step_used iid step w =
     (Inr (rows_affected (step_free iid step) (t_identities w) = 1),
      t_identities_update (map (marked iid step)) w)"
  by (simp add: mark_step_used_def Let_def step_free_def [abs_def] update_rows_map [abs_def] marked_def [abs_def])

lemma marked_simps [simp]:
  "i_id (marked iid s i) = i_id i" "i_mfa_enabled (marked iid s i) = i_mfa_enabled i"
  by (simp_all add: marked_def)

lemma marked_at_least: "i_id i = iid \<Longrightarrow> \<exists>l. i_mfa_last_used_step (marked iid s i) = Some l \<and> s \<le> l"
  by (auto simp: marked_def step_free_def split: option.splits)

lemma marked_mono: "i_mfa_last_used_step i = Some l \<Longrightarrow> \<exists>l'. i_mfa_last_used_step (marked iid s i) = Some l' \<and> l \<le> l'"
  by (auto simp: marked_def step_free_def)

lemma step_heldI:
  "i \<in> set (t_identities w) \<Longrightarrow> i_id i = iid \<Longrightarrow> i_mfa_enabled i \<Longrightarrow> i_mfa_last_used_step i = Some l \<Longrightarrow>
   int s \<le> l \<Longrightarrow> step_held iid s w"
  by (auto simp: step_held_def)

lemma step_held_map:
  assumes "step_held iid s w" "\<And>i. i \<in> set (t_identities w) \<Longrightarrow> i_id i = iid \<Longrightarrow> i_id (g i) = iid \<and> i_mfa_enabled (g i) = i_mfa_enabled i"
    and "\<And>i l. i_id i = iid \<Longrightarrow> i_mfa_last_used_step i = Some l \<Longrightarrow> \<exists>l'. i_mfa_last_used_step (g i) = Some l' \<and> l \<le> l'"
    and "t_identities w' = map g (t_identities w)"
  shows "step_held iid s w'"
  using assms unfolding step_held_def by (auto; metis order_trans)

lemma mark_step_used_held: "keeps (step_held iid s) (mark_step_used iid' step)"
proof (rule keepsI)
  fix w r w' assume "step_held iid s w" "mark_step_used iid' step w = (r, w')"
  then show "step_held iid s w'"
    by (rule_tac step_held_map [where g = "marked iid' step"]) (auto simp: mark_step_used_run dest: marked_mono)
qed

lemma consume_backup_code_identities:
  "consume_backup_code now iid h w = (r, w') \<Longrightarrow> t_identities w' = t_identities w"
  by (auto simp: consume_backup_code_def Let_def)

lemma step_held_identities: "t_identities w' = t_identities w \<Longrightarrow> step_held iid s w' = step_held iid s w"
  by (simp add: step_held_def)

lemma mfa_verify_held: "keeps (step_held iid s) (mfa_verify x now i code)"
proof -
  have "keeps (step_held iid s) (consume_backup_code now (i_id i) h)" for h
    by (rule keepsI) (metis consume_backup_code_identities step_held_identities)
  then show ?thesis
    unfolding mfa_verify_def Let_def
    by (intro keeps_if keeps_bindE keeps_pure keeps_option mark_step_used_held)
qed

lemma step_of_Some:
  "step_of x now i code = Some s \<longleftrightarrow> is_totp_code (normalize_code code) \<and>
     (\<exists>secret. decrypt_secret x i = Inr (Some secret) \<and> matching_step x secret (normalize_code code) (now_secs now) = Some s)"
  by (auto simp: step_of_def split: sum.splits option.splits)

lemma mfa_verify_step:
  assumes "mfa_verify x now i code w = (Inr True, w')" "step_of x now i code = Some s"
  shows "i_mfa_enabled i" "mark_step_used (i_id i) (int s) w = (Inr True, w')"
  using assms by (auto simp: mfa_verify_def Let_def step_of_Some split: if_splits)

lemma accepted_step_iff:
  assumes "mfa_verify x now i code w = (r, w')"
  shows "(j, t, s) \<in> set (accepted_step x now i code w) \<longleftrightarrow>
     j = i_id i \<and> t = now \<and> step_of x now i code = Some s \<and> r = Inr True"
  using assms by (auto simp: accepted_step_def split: option.splits)

text \<open>Identifiers are unique, and every accepted step is at most its identity's marker.\<close>

definition steps_held :: "(uuid \<times> time \<times> nat) list \<Rightarrow> world \<Rightarrow> bool" where
  "steps_held acc w \<longleftrightarrow> distinct (map i_id (t_identities w)) \<and> (\<forall>(iid, t, s) \<in> set acc. step_held iid s w)"

lemma steps_heldD: "steps_held acc w \<Longrightarrow> (iid, t, s) \<in> set acc \<Longrightarrow> step_held iid s w"
  by (auto simp: steps_held_def)

lemma step_held_row:
  assumes "distinct (map i_id (t_identities w))" "step_held (i_id i) s w" "i \<in> set (t_identities w)"
  shows "i_mfa_enabled i \<and> (\<exists>l. i_mfa_last_used_step i = Some l \<and> int s \<le> l)"
proof -
  obtain j where j: "j \<in> set (t_identities w)" "i_id j = i_id i" "i_mfa_enabled j"
    "\<exists>l. i_mfa_last_used_step j = Some l \<and> int s \<le> l" using assms(2) by (auto simp: step_held_def)
  then have "j = i" using assms(1,3) by (auto simp: distinct_map dest: inj_onD)
  with j show ?thesis by simp
qed

lemma mark_step_used_newer:
  assumes "mark_step_used iid (int s) w = (Inr True, w')" "distinct (map i_id (t_identities w))" "step_held iid s' w"
  shows "s' < s"
proof -
  have "rows_affected (step_free iid (int s)) (t_identities w) \<noteq> 0"
    using assms(1) by (simp add: mark_step_used_run)
  then obtain i where i: "i \<in> set (t_identities w)" "step_free iid (int s) i" by auto
  then obtain l where "i_mfa_last_used_step i = Some l" "int s' \<le> l"
    using step_held_row [OF assms(2) _ i(1)] assms(3) by (auto simp: step_free_def)
  then show ?thesis using i(2) by (simp add: step_free_def)
qed

lemma mark_step_used_holds:
  "mark_step_used (i_id i) (int s) w = (r, w') \<Longrightarrow> i \<in> set (t_identities w) \<Longrightarrow> i_mfa_enabled i \<Longrightarrow> step_held (i_id i) s w'"
  using marked_at_least [OF refl, of i "int s"]
  by (auto simp: mark_step_used_run intro: step_heldI [of "marked (i_id i) (int s) i"])

text \<open>No operation changes an identifier, and each touches its own identity only.\<close>

abbreviation ids_of :: "world \<Rightarrow> uuid list" where
  "ids_of w \<equiv> map i_id (t_identities w)"

definition other_rows :: "uuid \<Rightarrow> world \<Rightarrow> identity list" where
  "other_rows iid w = filter (\<lambda>i. i_id i \<noteq> iid) (t_identities w)"

abbreviation mfa_frame :: "uuid \<Rightarrow> world \<Rightarrow> uuid list \<times> identity list" where
  "mfa_frame iid w \<equiv> (ids_of w, other_rows iid w)"

lemma frame_held: "mfa_frame iid w' = mfa_frame iid w \<Longrightarrow> iid' \<noteq> iid \<Longrightarrow> step_held iid' s w' = step_held iid' s w"
proof -
  assume f: "mfa_frame iid w' = mfa_frame iid w" "iid' \<noteq> iid"
  have "step_held iid' s v \<longleftrightarrow> (\<exists>i \<in> set (other_rows iid v). i_id i = iid' \<and> i_mfa_enabled i \<and>
     (\<exists>l. i_mfa_last_used_step i = Some l \<and> int s \<le> l))" for v
    using f(2) by (auto simp: step_held_def other_rows_def)
  then show ?thesis using f(1) by simp
qed

lemma frame_update:
  assumes "\<And>i. P i \<Longrightarrow> i_id i = iid" "\<And>i. i_id (f i) = i_id i"
  shows "leaves (mfa_frame iid) (sql_update t_identities_update P f)"
proof (rule leavesI)
  have ids: "map i_id (update_rows P f rows) = map i_id rows" for rows
    using assms(2) by (simp add: update_rows_map)
  have "filter (\<lambda>i. i_id i \<noteq> iid) (update_rows P f rows) = filter (\<lambda>i. i_id i \<noteq> iid) rows" for rows
    using assms by (induction rows) (auto simp: update_rows_map)
  then show "mfa_frame iid t = mfa_frame iid w" if "sql_update t_identities_update P f w = (r, t)" for w r t
    using that ids by (auto simp: other_rows_def)
qed

lemma leaves_identities [leaves_rules]: "leaves t_identities (replace_backup_codes_tx ids iid hs)"
  unfolding replace_backup_codes_tx_def by (intro leaves_rules leaves_delete leaves_insert) simp_all

lemma leaves_via: "leaves f m \<Longrightarrow> (\<And>s t. f s = f t \<Longrightarrow> g s = g t) \<Longrightarrow> leaves g m"
  by (rule leavesI) (metis leavesD)

lemma leaves_frame:
  "leaves (mfa_frame iid) (mark_step_used iid step)" "leaves (mfa_frame iid) (consume_backup_code now iid h)"
  "leaves (mfa_frame iid) (mfa_set_pending_secret now iid enc)" "leaves (mfa_frame iid) (mfa_enable now ids iid hs)"
  "leaves (mfa_frame iid) (mfa_repo_disable now iid)"
proof -
  have codes: "leaves (mfa_frame iid) (replace_backup_codes_tx ids iid hs)"
    by (rule leaves_via [OF leaves_identities]) (simp add: other_rows_def)
  show "leaves (mfa_frame iid) (mark_step_used iid step)"
    unfolding mark_step_used_def Let_def by (intro leaves_rules frame_update) auto
  show "leaves (mfa_frame iid) (consume_backup_code now iid h)"
    by (rule leavesI) (simp add: other_rows_def consume_backup_code_identities)
  show "leaves (mfa_frame iid) (mfa_set_pending_secret now iid enc)"
    unfolding mfa_set_pending_secret_def by (intro frame_update) auto
  show "leaves (mfa_frame iid) (mfa_enable now ids iid hs)"
    unfolding mfa_enable_def by (intro leaves_rules frame_update codes) auto
  show "leaves (mfa_frame iid) (mfa_repo_disable now iid)"
    unfolding mfa_repo_disable_def by (intro leaves_rules frame_update leaves_delete) (auto simp: other_rows_def)
qed

lemma service_leaves_frame:
  "leaves (mfa_frame (i_id i)) (mfa_verify x now i code)"
  "leaves (mfa_frame (i_id i)) (begin_enrollment x now bytes nonce i label)"
  "leaves (mfa_frame (i_id i)) (confirm_enrollment x now rnd ids i code)"
  "leaves (mfa_frame (i_id i)) (mfa_disable x now i code)"
proof -
  show v: "leaves (mfa_frame (i_id i)) (mfa_verify x now i code)"
    unfolding mfa_verify_def Let_def by (intro leaves_rules leaves_frame)
  show "leaves (mfa_frame (i_id i)) (begin_enrollment x now bytes nonce i label)"
    unfolding begin_enrollment_def Let_def by (intro leaves_rules leaves_frame)
  show "leaves (mfa_frame (i_id i)) (confirm_enrollment x now rnd ids i code)"
    unfolding confirm_enrollment_def Let_def by (intro leaves_rules leaves_frame)
  show "leaves (mfa_frame (i_id i)) (mfa_disable x now i code)"
    unfolding mfa_disable_def require_valid_code_def by (intro leaves_rules leaves_frame v)
qed

lemma frame_steps_held:
  assumes "steps_held acc w" "leaves (mfa_frame iid) m" "m w = (r, w')" "\<And>t s. (iid, t, s) \<in> set acc' \<Longrightarrow> step_held iid s w'"
    and "\<And>j t s. (j, t, s) \<in> set acc' \<Longrightarrow> j \<noteq> iid \<Longrightarrow> (j, t, s) \<in> set acc"
  shows "steps_held acc' w'"
proof -
  have f: "mfa_frame iid w' = mfa_frame iid w" by (rule leavesD [OF assms(2,3)])
  have "step_held j s w'" if "(j, t, s) \<in> set acc'" for j t s
    using assms(1,4,5) that frame_held [OF f, of j s] steps_heldD [OF assms(1), of j t s] by (cases "j = iid") auto
  moreover have "distinct (ids_of w')" using f assms(1) by (simp add: steps_held_def)
  ultimately show ?thesis by (auto simp: steps_held_def)
qed

lemma verify_steps_held:
  assumes "steps_held acc w" "i \<in> set (t_identities w)" "mfa_verify x now i code w = (r, w')"
  shows "steps_held (acc @ accepted_step x now i code w) w'"
proof (rule frame_steps_held [OF assms(1) service_leaves_frame(1) assms(3)])
  show "step_held (i_id i) s w'" if e: "(i_id i, t, s) \<in> set (acc @ accepted_step x now i code w)" for t s
  proof (cases "(i_id i, t, s) \<in> set acc")
    case True
    then show ?thesis using keepsD [OF mfa_verify_held _ assms(3)] steps_heldD [OF assms(1)] by blast
  next
    case False
    then have s: "step_of x now i code = Some s" "r = Inr True"
      using e accepted_step_iff [OF assms(3)] by auto
    note step = mfa_verify_step [OF assms(3) [unfolded s(2)] s(1)]
    show ?thesis by (rule mark_step_used_holds [OF step(2) assms(2) step(1)])
  qed
  show "\<And>j t s. (j, t, s) \<in> set (acc @ accepted_step x now i code w) \<Longrightarrow> j \<noteq> i_id i \<Longrightarrow> (j, t, s) \<in> set acc"
    using accepted_step_iff [OF assms(3)] by auto
qed

lemma no_steps_disabled:
  "steps_held acc w \<Longrightarrow> i \<in> set (t_identities w) \<Longrightarrow> \<not> i_mfa_enabled i \<Longrightarrow> (i_id i, t, s) \<notin> set acc"
  using step_held_row [of w i s] by (auto simp: steps_held_def)

lemma confirm_Inr:
  assumes "confirm_enrollment x now rnd ids i code w = (Inr codes, w')" "step_of x now i code = Some s" "i \<in> set (t_identities w)"
  shows "\<not> i_mfa_enabled i" "step_held (i_id i) s w'"
proof -
  show off: "\<not> i_mfa_enabled i" using assms(1) by (auto simp: confirm_enrollment_def split: if_splits)
  obtain secret where s: "is_totp_code (normalize_code code)" "decrypt_secret x i = Inr (Some secret)"
    "matching_step x secret (normalize_code code) (now_secs now) = Some s" using assms(2) by (auto simp: step_of_Some)
  obtain codes' hs where fresh: "fresh_codes x rnd = (codes', hs)" by (cases "fresh_codes x rnd")
  obtain w1 b where mark: "mark_step_used (i_id i) (int s) w = (Inr b, w1)"
    and on: "mfa_enable now ids (i_id i) hs w1 = (Inr (), w')"
    using assms(1) by (auto simp: confirm_enrollment_def Let_def bindE_Inr_iff off s fresh)
  have w': "t_identities w' = update_rows (\<lambda>j. i_id j = i_id i) (\<lambda>j. j\<lparr>i_mfa_enabled := True, i_updated_at := now\<rparr>) (t_identities w1)"
    using on by (auto simp: mfa_enable_def in_tx_Inr_iff bindE_Inr_iff dest!: leavesD [OF leaves_identities])
  obtain l where "i_mfa_last_used_step (marked (i_id i) (int s) i) = Some l" "int s \<le> l"
    using marked_at_least [OF refl] by blast
  moreover have "(marked (i_id i) (int s) i)\<lparr>i_mfa_enabled := True, i_updated_at := now\<rparr> \<in> set (t_identities w')"
    using mark assms(3) by (auto simp: w' set_update_rows mark_step_used_run)
  ultimately show "step_held (i_id i) s w'" by (auto intro: step_heldI)
qed

lemma disable_Inl:
  assumes "mfa_disable x now i code w = (Inl e, w')"
  shows "w' = w \<or> (\<exists>r. mfa_verify x now i code w = (r, w'))"
  using assms
  by (auto simp: mfa_disable_def require_valid_code_def mfa_repo_disable_def bindE_Inl_iff in_tx_Inl_iff split: if_splits)

lemma regenerate_verifies:
  assumes "regenerate_backup_codes x now rnd ids i code w = (r, w')"
  shows "\<exists>q w1. mfa_verify x now i code w = (q, w1) \<and> t_identities w' = t_identities w1"
proof (cases "i_mfa_enabled i")
  case False
  then show ?thesis
    using assms by (simp add: regenerate_backup_codes_def require_valid_code_def mfa_verify_def bindE_run)
next
  case True
  obtain q w1 where v: "mfa_verify x now i code w = (q, w1)" by fastforce
  obtain codes hs where fresh: "fresh_codes x rnd = (codes, hs)" by (cases "fresh_codes x rnd")
  have "leaves t_identities (bindE (replace_backup_codes ids (i_id i) hs) (\<lambda>_. ret codes))"
    unfolding replace_backup_codes_def by (intro leaves_rules)
  from leavesD [OF this] have "t_identities w' = t_identities w1"
    using assms by (auto simp: regenerate_backup_codes_def require_valid_code_def True v fresh bindE_run split: sum.splits if_splits)
  then show ?thesis using v by blast
qed

lemma steps_held_identities:
  "steps_held acc w \<Longrightarrow> t_identities w' = t_identities w \<Longrightarrow> steps_held acc w'"
  by (simp add: steps_held_def step_held_def)

lemma kept_steps_held: "steps_held acc w \<Longrightarrow> mfa_kept w w' \<Longrightarrow> steps_held acc w'"
proof -
  assume a: "steps_held acc w" "mfa_kept w w'"
  have "step_held iid s w'" if "step_held iid s w" for iid s
    using that a(2) unfolding step_held_def mfa_kept_def by metis
  then show ?thesis using a by (auto simp: steps_held_def mfa_kept_def)
qed

lemma mfa_run_held: "mfa_run x w acc w' \<Longrightarrow> steps_held acc w'"
proof (induction rule: mfa_run.induct)
  case start
  then show ?case by (simp add: steps_held_def)
next
  case (verify acc w' i now code r w'')
  then show ?case using verify_steps_held by blast
next
  case (regenerate acc w' i now rnd ids code r w'')
  obtain q w1 where v: "mfa_verify x now i code w' = (q, w1)" "t_identities w'' = t_identities w1"
    using regenerate_verifies [OF regenerate.hyps(3)] by blast
  show ?case using verify_steps_held [OF regenerate.IH regenerate.hyps(2) v(1)] v(2) by (rule steps_held_identities)
next
  case (disable acc w' i now code r w'')
  show ?case
  proof (cases r)
    case (Inl e)
    have kept: "steps_held acc w1" if "mfa_verify x now i code w' = (q, w1)" for q w1
      using verify_steps_held [OF disable.IH disable.hyps(2) that] by (auto simp: steps_held_def)
    show ?thesis using disable_Inl disable.hyps(3) disable.IH kept Inl by fastforce
  next
    case (Inr u)
    have "steps_held (filter (\<lambda>(iid, _). iid \<noteq> i_id i) acc) w''"
      by (rule frame_steps_held [OF disable.IH service_leaves_frame(4) disable.hyps(3)]) auto
    then show ?thesis using Inr by simp
  qed
next
  case (begin_enrollment acc w' i now bytes nonce label r w'')
  show ?case
  proof (cases "i_mfa_enabled i")
    case True
    then show ?thesis using begin_enrollment by (simp add: begin_enrollment_def)
  next
    case False
    then show ?thesis
      using frame_steps_held [OF begin_enrollment.IH service_leaves_frame(2) begin_enrollment.hyps(3), of acc]
        no_steps_disabled [OF begin_enrollment.IH begin_enrollment.hyps(2)] by blast
  qed
next
  case (confirm acc w' i now rnd ids code codes w'' s)
  note c = confirm_Inr [OF confirm.hyps(3,4,2)]
  show ?case
    by (rule frame_steps_held [OF confirm.IH service_leaves_frame(3) confirm.hyps(3)])
      (use c no_steps_disabled [OF confirm.IH confirm.hyps(2)] in auto)
next
  case (confirm_refused acc w' i now rnd ids code e w'')
  show ?case
  proof (cases "i_mfa_enabled i")
    case True
    then show ?thesis using confirm_refused by (simp add: confirm_enrollment_def)
  next
    case False
    then show ?thesis
      using frame_steps_held [OF confirm_refused.IH service_leaves_frame(3) confirm_refused.hyps(3), of acc]
        no_steps_disabled [OF confirm_refused.IH confirm_refused.hyps(2)] by blast
  qed
next
  case (other acc w' w'')
  then show ?case using kept_steps_held by blast
qed

lemma step_refused:
  assumes "steps_held acc w" "(i_id i, t, s) \<in> set acc" "step_of x now i code = Some s'" "s' \<le> s"
  shows "fst (mfa_verify x now i code w) \<noteq> Inr True"
proof
  assume "fst (mfa_verify x now i code w) = Inr True"
  then have "mfa_verify x now i code w = (Inr True, snd (mfa_verify x now i code w))" by (metis prod.collapse)
  from mark_step_used_newer [OF mfa_verify_step(2) [OF this assms(3)]] have "s < s'"
    using assms(1) steps_heldD [OF assms(1,2)] by (simp add: steps_held_def)
  then show False using assms(4) by simp
qed

text \<open>The times and steps that were accepted for an identity.\<close>

definition steps_for :: "uuid \<Rightarrow> (uuid \<times> time \<times> nat) list \<Rightarrow> (time \<times> nat) list" where
  "steps_for iid acc = map snd (filter (\<lambda>p. fst p = iid) acc)"

lemma steps_for_simps [simp]:
  "steps_for iid [] = []" "steps_for iid (acc @ acc') = steps_for iid acc @ steps_for iid acc'"
  "steps_for iid [(j, t, s)] = (if j = iid then [(t, s)] else [])"
  by (simp_all add: steps_for_def)

lemma in_steps_for: "(t, s) \<in> set (steps_for iid acc) \<longleftrightarrow> (iid, t, s) \<in> set acc"
  by (auto simp: steps_for_def) force

lemma steps_for_drop: "steps_for iid (filter (\<lambda>(j, _). j \<noteq> k) acc) = (if iid = k then [] else steps_for iid acc)"
  by (induction acc) (auto simp: steps_for_def)

definition near_clock :: "time \<times> nat \<Rightarrow> bool" where
  "near_clock = (\<lambda>(t, s). s \<le> now_secs t div 30 + 1 \<and> now_secs t div 30 \<le> s + 1)"

abbreviation steps_increase :: "(time \<times> nat) list \<Rightarrow> bool" where
  "steps_increase ps \<equiv> sorted_wrt (<) (map snd ps) \<and> list_all near_clock ps"

lemma step_near_clock: "step_of x now i code = Some s \<Longrightarrow> near_clock (now, s)"
  by (auto simp: step_of_Some near_clock_def dest: matching_step_SomeD(2,3))

lemma verify_increases:
  assumes "steps_held acc w" "mfa_verify x now i code w = (r, w')" "steps_increase (steps_for iid acc)"
  shows "steps_increase (steps_for iid (acc @ accepted_step x now i code w))"
proof (cases "step_of x now i code")
  case None
  then show ?thesis using assms(3) by (simp add: accepted_step_def)
next
  case (Some s)
  show ?thesis
  proof (cases "r = Inr True")
    case False
    then show ?thesis using assms(2,3) Some by (simp add: accepted_step_def)
  next
    case True
    then have new: "accepted_step x now i code w = [(i_id i, now, s)]" using assms(2) Some by (simp add: accepted_step_def)
    have "s' < s" if "(i_id i, t, s') \<in> set acc" for t s'
      using mark_step_used_newer mfa_verify_step(2) [OF assms(2) [unfolded True] Some] steps_heldD [OF assms(1) that] assms(1)
      by (auto simp: steps_held_def)
    then show ?thesis
      using assms(3) step_near_clock [OF Some] by (auto simp: new sorted_wrt_append in_steps_for)
  qed
qed

lemma mfa_run_increases: "mfa_run x w acc w' \<Longrightarrow> steps_increase (steps_for iid acc)"
proof (induction rule: mfa_run.induct)
  case (verify acc w' i now code r w'')
  then show ?case using verify_increases [OF mfa_run_held] by blast
next
  case (regenerate acc w' i now rnd ids code r w'')
  obtain q w1 where "mfa_verify x now i code w' = (q, w1)" using regenerate_verifies [OF regenerate.hyps(3)] by blast
  then show ?case using verify_increases [OF mfa_run_held [OF regenerate.hyps(1)]] regenerate.IH by blast
next
  case (confirm acc w' i now rnd ids code codes w'' s)
  have "steps_for (i_id i) acc = []"
    using no_steps_disabled [OF mfa_run_held [OF confirm.hyps(1)] confirm.hyps(2) confirm_Inr(1) [OF confirm.hyps(3,4,2)]]
      in_steps_for by (metis list.set_intros(1) neq_Nil_conv surj_pair)
  then show ?case using confirm.IH step_near_clock [OF confirm.hyps(4)] by auto
qed (auto simp: steps_for_drop)

subsection \<open>Backup codes\<close>

definition backup_codes_ok :: "world \<Rightarrow> bool" where
  "backup_codes_ok w \<longleftrightarrow> unique_on (\<lambda>r. Some (bc_id r)) (t_backup_codes w)"

lemma filter_mark_one:
  assumes "unique_on (\<lambda>r. Some (bc_id r)) rows" "r \<in> set rows" "unused_code iid r"
  shows "length (filter (unused_code iid') rows) =
    (if iid' = iid then Suc else (\<lambda>n. n))
      (length (filter (unused_code iid') (update_rows (\<lambda>r'. bc_id r' = bc_id r) (\<lambda>r. r\<lparr>bc_consumed_at := Some now\<rparr>) rows)))"
  using assms
proof (induction rows)
  case (Cons a rows)
  show ?case
  proof (cases "a = r")
    case True
    then have "bc_id r' \<noteq> bc_id r" if "r' \<in> set rows" for r'
      using Cons.prems(1) that by (auto simp: unique_on_def set_keyed)
    then have "update_rows (\<lambda>r'. bc_id r' = bc_id r) (\<lambda>r. r\<lparr>bc_consumed_at := Some now\<rparr>) rows = rows"
      by (rule update_rows_none)
    with True Cons.prems show ?thesis by (auto simp: unused_code_def)
  next
    case False
    then have r: "r \<in> set rows" using Cons.prems by simp
    then have "bc_id a \<noteq> bc_id r"
      using Cons.prems(1) by (auto simp: unique_on_def set_keyed)
    with r Cons show ?thesis by (auto simp: unique_on_def)
  qed
qed simp

lemma consume_backup_code_True:
  assumes "consume_backup_code now iid h w = (Inr True, w')"
  obtains r where "r \<in> set (t_backup_codes w)" "unused_code iid r" "bc_code_hash r = h"
    "w' = t_backup_codes_update (update_rows (\<lambda>r'. bc_id r' = bc_id r) (\<lambda>r. r\<lparr>bc_consumed_at := Some now\<rparr>)) w"
proof (cases "find_first (\<lambda>r. unused_code iid r \<and> bc_code_hash r = h) (t_backup_codes w)")
  case None
  then show ?thesis using assms by (simp add: consume_backup_code_def rows_affected_def Let_def)
next
  case (Some r)
  then show ?thesis
    using assms that find_first_SomeD [OF Some]
    by (auto simp: consume_backup_code_def Let_def)
qed

lemma mfa_verify_backup:
  assumes "mfa_verify x now i code w = (Inr True, w')" "\<not> is_totp_code (normalize_code code)"
  shows "i_mfa_enabled i" "length (normalize_code code) = BACKUP_CODE_LEN"
    "consume_backup_code now (i_id i) (hash_backup_code x (normalize_code code)) w = (Inr True, w')"
  using assms by (auto simp: mfa_verify_def Let_def split: if_splits)

lemma consume_again:
  assumes "consume_backup_code now iid h w = (Inr True, w')" "backup_codes_ok w"
    and "distinct (map bc_code_hash (filter (unused_code iid) (t_backup_codes w)))"
  shows "consume_backup_code now' iid h w' = (Inr False, w')"
proof -
  obtain r where r: "r \<in> set (t_backup_codes w)" "unused_code iid r" "bc_code_hash r = h"
    and w': "w' = t_backup_codes_update (update_rows (\<lambda>r'. bc_id r' = bc_id r) (\<lambda>r. r\<lparr>bc_consumed_at := Some now\<rparr>)) w"
    by (rule consume_backup_code_True [OF assms(1)]) blast
  have "\<not> (unused_code iid q \<and> bc_code_hash q = h)" if "q \<in> set (t_backup_codes w')" for q
  proof
    assume q: "unused_code iid q \<and> bc_code_hash q = h"
    with that have "q \<in> set (t_backup_codes w)" "bc_id q \<noteq> bc_id r"
      by (auto simp: w' set_update_rows unused_code_def)
    moreover have "q = r"
      using assms(3) q r calculation(1) by (auto simp: distinct_map inj_on_def)
    ultimately show False by simp
  qed
  then have "find_first (\<lambda>q. unused_code iid q \<and> bc_code_hash q = h) (t_backup_codes w') = None"
    by (simp add: find_first_None_iff)
  then show ?thesis
    by (simp add: consume_backup_code_def Let_def rows_affected_def update_rows_none [where xs = "t_backup_codes w'"] update_rows_def)
qed

definition base32_correct :: "ext \<Rightarrow> bool" where
  "base32_correct x \<longleftrightarrow> (\<forall>b. x_base32_decode x (x_base32_encode x b) = Inr b)"

definition mfa_identity :: identity where
  "mfa_identity = (new_identity 0 7 (Some ''a@b.c'') None None None None None)
     \<lparr>i_mfa_enabled := True, i_mfa_secret := Some (''0123456789ab'' @ replicate 32 (CHR ''k'') @ ''seed'')\<rparr>"

definition mfa_world :: world where
  "mfa_world = world0\<lparr>t_identities := [mfa_identity],
     t_backup_codes := [\<lparr>bc_id = 2, bc_identity_id = 7, bc_code_hash = hash_backup_code ext0 ''abcdefghjk'', bc_consumed_at = None\<rparr>]\<rparr>"

lemma mfa_world_secret: "decrypt_secret ext0 mfa_identity = Inr (Some ''seed'')"
  by code_simp

lemma mfa_world_code:
  "is_totp_code (normalize_code ''000 002'')" "matching_step ext0 ''seed'' (normalize_code ''000 002'') (now_secs (secs 60)) = Some 2"
proof -
  show "is_totp_code (normalize_code ''000 002'')" by code_simp
  have "normalize_code ''000 002'' = ''000002''" by code_simp
  moreover have "[1 ..< 4] = [1, 2, 3 :: nat]" by (simp add: upt_rec)
  ultimately show "matching_step ext0 ''seed'' (normalize_code ''000 002'') (now_secs (secs 60)) = Some 2"
    by (simp add: matching_step_unfold now_secs_def secs_def ext0_def)
qed

lemma mfa_identity_fields [simp]:
  "i_id mfa_identity = 7" "i_mfa_enabled mfa_identity" "i_mfa_last_used_step mfa_identity = None"
  by (simp_all add: mfa_identity_def new_identity_def)

lemma mfa_identity_accepts:
  assumes "t_identities w = [mfa_identity]"
  shows "mfa_verify ext0 (secs 60) mfa_identity ''000 002'' w = (Inr True, snd (mark_step_used 7 2 w))"
  using assms mfa_world_code
  by (simp add: mfa_verify_def Let_def mfa_world_secret mark_step_used_run rows_affected_def step_free_def)

lemma mfa_world_accepts:
  "mfa_verify ext0 (secs 60) mfa_identity ''000 002'' mfa_world = (Inr True, snd (mark_step_used 7 2 mfa_world))"
  by (rule mfa_identity_accepts) (simp add: mfa_world_def)

subsection \<open>Properties\<close>

text \<open>
  C20. No TOTP code is accepted twice: in every history of enrolments, logins with a second factor, renewals of backup
  codes and any changes to other data, the time steps accepted for an identity since its second factor was
  last turned off are strictly increasing, each within one step of the clock, and a code
  of a step at or before an accepted one is refused. Turning the second factor off forgets the steps, as
  the code does.
\<close>

theorem totp_no_replay:
  assumes "mfa_run x w acc w'"
  shows "sorted_wrt (<) (map snd (steps_for iid acc)) \<and> list_all near_clock (steps_for iid acc) \<and>
    (\<forall>i now code t s s'. i_id i = iid \<longrightarrow> (t, s) \<in> set (steps_for iid acc) \<longrightarrow> step_of x now i code = Some s' \<longrightarrow> s' \<le> s \<longrightarrow>
      fst (mfa_verify x now i code w') \<noteq> Inr True)"
proof (intro conjI allI impI)
  show "sorted_wrt (<) (map snd (steps_for iid acc))" "list_all near_clock (steps_for iid acc)"
    using mfa_run_increases [OF assms] by blast+
  fix i now code t s s'
  assume i: "i_id i = iid" "(t, s) \<in> set (steps_for iid acc)" "step_of x now i code = Some s'" "s' \<le> s"
  show "fst (mfa_verify x now i code w') \<noteq> Inr True"
    using step_refused [OF mfa_run_held [OF assms] _ i(3,4)] i(1,2) by (auto simp: in_steps_for)
qed

theorem totp_no_replay_witness:
  "mfa_run ext0 mfa_world [(7, secs 60, 2)] (snd (mark_step_used 7 2 mfa_world)) \<and>
   sorted_wrt (<) (map snd (steps_for 7 [(7, secs 60, 2)])) \<and>
   fst (mfa_verify ext0 (secs 61) mfa_identity ''000 002'' (snd (mark_step_used 7 2 mfa_world))) \<noteq> Inr True"
proof -
  have "now_secs (secs 61) div 30 = now_secs (secs 60) div 30" by (simp add: now_secs_def secs_def)
  then have "matching_step ext0 ''seed'' c (now_secs (secs 61)) = matching_step ext0 ''seed'' c (now_secs (secs 60))" for c
    by (simp only: matching_step_unfold)
  then have step: "step_of ext0 (secs 60) mfa_identity ''000 002'' = Some 2"
    "step_of ext0 (secs 61) mfa_identity ''000 002'' = Some 2"
    using mfa_world_code mfa_world_secret by (simp_all add: step_of_Some)
  then have "accepted_step ext0 (secs 60) mfa_identity ''000 002'' mfa_world = [(7, secs 60, 2)]"
    by (simp add: accepted_step_def mfa_world_accepts)
  moreover have "distinct (map i_id (t_identities mfa_world))" "mfa_identity \<in> set (t_identities mfa_world)"
    by (simp_all add: mfa_world_def)
  ultimately have run: "mfa_run ext0 mfa_world [(7, secs 60, 2)] (snd (mark_step_used 7 2 mfa_world))"
    using mfa_run.verify [OF mfa_run.start _ mfa_world_accepts] by fastforce
  have "(secs 60, 2) \<in> set (steps_for 7 [(7, secs 60, 2)])" by simp
  then show ?thesis using totp_no_replay [OF run, of 7] run step(2) by fastforce
qed

lemma backup_code_facts:
  assumes "mfa_verify x now i code w = (Inr True, w')" "\<not> is_totp_code (normalize_code code)"
    and "backup_codes_ok w"
  shows "\<exists>r \<in> set (t_backup_codes w). unused_code (i_id i) r \<and> bc_code_hash r = hash_backup_code x (normalize_code code)"
    and "fst (count_unused_backup_codes iid w) =
      Inr (if iid = i_id i then Suc (length (filter (unused_code iid) (t_backup_codes w')))
           else length (filter (unused_code iid) (t_backup_codes w')))"
    and "distinct (map bc_code_hash (filter (unused_code (i_id i)) (t_backup_codes w))) \<Longrightarrow>
      mfa_verify x now' i code w' = (Inr False, w')"
proof -
  let ?h = "hash_backup_code x (normalize_code code)"
  note v = mfa_verify_backup [OF assms(1,2)]
  obtain r where r: "r \<in> set (t_backup_codes w)" "unused_code (i_id i) r" "bc_code_hash r = ?h"
    and w': "w' = t_backup_codes_update (update_rows (\<lambda>r'. bc_id r' = bc_id r) (\<lambda>r. r\<lparr>bc_consumed_at := Some now\<rparr>)) w"
    by (rule consume_backup_code_True [OF v(3)]) blast
  show "\<exists>r \<in> set (t_backup_codes w). unused_code (i_id i) r \<and> bc_code_hash r = ?h"
    using r by blast
  show "fst (count_unused_backup_codes iid w) =
      Inr (if iid = i_id i then Suc (length (filter (unused_code iid) (t_backup_codes w')))
           else length (filter (unused_code iid) (t_backup_codes w')))"
    using filter_mark_one [OF assms(3) [unfolded backup_codes_ok_def] r(1,2), of iid now]
    by (simp add: count_unused_backup_codes_def w')
  assume "distinct (map bc_code_hash (filter (unused_code (i_id i)) (t_backup_codes w)))"
  then show "mfa_verify x now' i code w' = (Inr False, w')"
    using consume_again [OF v(3) assms(3)] v(1,2) assms(2) by (simp add: mfa_verify_def Let_def)
qed

text \<open>
  C23. A backup code is consumed by its use: an accepted backup code matches the hash of an
  unused code of that identity, leaves exactly one fewer unused code and touches no other
  identity's codes; and when the identity's unused codes are distinct the same code is
  refused ever after.
\<close>

theorem backup_code_single_use:
  assumes "mfa_verify x now i code w = (Inr True, w')" "\<not> is_totp_code (normalize_code code)"
    and "backup_codes_ok w"
  shows "(\<exists>r \<in> set (t_backup_codes w). unused_code (i_id i) r \<and> bc_code_hash r = hash_backup_code x (normalize_code code)) \<and>
    (\<forall>iid. fst (count_unused_backup_codes iid w) =
      Inr (if iid = i_id i then Suc (length (filter (unused_code iid) (t_backup_codes w')))
           else length (filter (unused_code iid) (t_backup_codes w')))) \<and>
    (distinct (map bc_code_hash (filter (unused_code (i_id i)) (t_backup_codes w))) \<longrightarrow>
      (\<forall>now'. mfa_verify x now' i code w' = (Inr False, w')))"
  using backup_code_facts [OF assms] by blast

theorem backup_code_single_use_witness:
  "mfa_verify ext0 (secs 9) mfa_identity ''abcde-fghjk'' (snd (mfa_verify ext0 (secs 1) mfa_identity ''abcde-fghjk'' mfa_world))
     = (Inr False, snd (mfa_verify ext0 (secs 1) mfa_identity ''abcde-fghjk'' mfa_world))"
proof -
  have "fst (mfa_verify ext0 (secs 1) mfa_identity ''abcde-fghjk'' mfa_world) = Inr True" by code_simp
  then have v: "mfa_verify ext0 (secs 1) mfa_identity ''abcde-fghjk'' mfa_world =
      (Inr True, snd (mfa_verify ext0 (secs 1) mfa_identity ''abcde-fghjk'' mfa_world))"
    by (metis prod.collapse)
  have "\<not> is_totp_code (normalize_code ''abcde-fghjk'')" by code_simp
  moreover have "backup_codes_ok mfa_world"
    by (simp add: backup_codes_ok_def mfa_world_def unique_on_def)
  moreover have "distinct (map bc_code_hash (filter (unused_code (i_id mfa_identity)) (t_backup_codes mfa_world)))"
    by (simp add: mfa_world_def)
  ultimately show ?thesis
    using backup_code_single_use [OF v] by blast
qed

lemma enrollment_facts:
  assumes "b64_correct x" "aead_correct x" "utf8_correct x" "base32_correct x" "length nonce = 12"
    and "begin_enrollment x now bytes nonce i label w = (Inr e, w')"
    and "identities_get_by_id (i_id i) w' = (Inr (Some i'), w')"
  shows "decrypt_secret x i' = Inr (Some bytes)" "me_secret e = x_base32_encode x bytes"
    "\<not> i_mfa_enabled i'" "i_mfa_last_used_step i' = None"
proof -
  obtain enc where enc: "cipher_encrypt x (mfa_cipher x) nonce (x_base32_encode x bytes) = Inr enc"
    and "mfa_set_pending_secret now (i_id i) enc w = (Inr (), w')"
    and e: "me_secret e = x_base32_encode x bytes"
    using assms(6)
    by (auto simp: begin_enrollment_def Let_def bindE_Inr_iff case_res_Inr_iff map_err_def split: if_splits sum.split_asm)
  then have w': "w' = t_identities_update (update_rows (\<lambda>i'. i_id i' = i_id i)
      (\<lambda>i. i\<lparr>i_mfa_secret := Some enc, i_mfa_enabled := False, i_mfa_last_used_step := None, i_updated_at := now\<rparr>)) w"
    by (simp add: mfa_set_pending_secret_def)
  have "find_first (\<lambda>j. i_id j = i_id i) (t_identities w') = Some i'"
    using assms(7) by (simp add: identities_get_by_id_def)
  then have "i_mfa_secret i' = Some enc" "\<not> i_mfa_enabled i'" "i_mfa_last_used_step i' = None"
    by (auto simp: w' set_update_rows dest!: find_first_SomeD split: if_splits)
  moreover have "cipher_decrypt x (mfa_cipher x) enc = Inr (x_base32_encode x bytes)"
    using cipher_roundtrip assms(1-3,5) enc by blast
  ultimately show "decrypt_secret x i' = Inr (Some bytes)" "me_secret e = x_base32_encode x bytes"
    "\<not> i_mfa_enabled i'" "i_mfa_last_used_step i' = None"
    using assms(4) e by (simp_all add: decrypt_secret_def base32_correct_def)
qed

text \<open>
  Enrolment stores the secret it shows: after \<open>begin_enrollment\<close> succeeds, the identity's
  stored row has MFA still off and no replay marker, and its encrypted secret decrypts to
  exactly the bytes whose Base32 form was returned to the user.
\<close>

theorem enrollment_roundtrip:
  assumes "b64_correct x" "aead_correct x" "utf8_correct x" "base32_correct x" "length nonce = 12"
    and "begin_enrollment x now bytes nonce i label w = (Inr e, w')"
    and "identities_get_by_id (i_id i) w' = (Inr (Some i'), w')"
  shows "decrypt_secret x i' = Inr (Some bytes) \<and> me_secret e = x_base32_encode x bytes \<and>
    \<not> i_mfa_enabled i' \<and> i_mfa_last_used_step i' = None"
  using enrollment_facts [OF assms] by blast

theorem enrollment_roundtrip_witness:
  "\<exists>i'. decrypt_secret ext0 i' = Inr (Some ''seed2'') \<and> i_id i' = 7"
proof -
  let ?i = "mfa_identity\<lparr>i_mfa_enabled := False\<rparr>"
  let ?r = "begin_enrollment ext0 (secs 1) ''seed2'' ''0123456789ab'' ?i ''a:b'' mfa_world"
  obtain e where b: "?r = (Inr e, snd ?r)"
  proof -
    have "\<not> isl (fst ?r)" by code_simp
    then show thesis using that by (metis isl_def prod.collapse sum.collapse(2))
  qed
  obtain i' where i': "identities_get_by_id (i_id ?i) (snd ?r) = (Inr (Some i'), snd ?r)"
  proof -
    have "find_first (\<lambda>j. i_id j = i_id ?i) (t_identities (snd ?r)) \<noteq> None" by code_simp
    then show thesis using that by (auto simp: identities_get_by_id_def)
  qed
  have "decrypt_secret ext0 i' = Inr (Some ''seed2'')"
    using enrollment_roundtrip [OF ext0_correct _ _ b i'] by (simp add: base32_correct_def ext0_def)
  moreover have "i_id i' = 7"
    using i' by (auto simp: identities_get_by_id_def mfa_identity_def new_identity_def dest!: find_first_SomeD)
  ultimately show ?thesis by blast
qed

end
