(* ===== verification/Tenant_Config.thy ===== *)
theory Tenant_Config
  imports Crypto Token_Repos
begin

section \<open>Tenant configuration\<close>

text \<open>
  \<^verbatim>\<open>src/repo/kv_store.rs\<close> (values per tenant, group and key, encrypted when sensitive) and
  \<^verbatim>\<open>src/services/tenant_config.rs\<close> (the loader, its 60-second cache and the typed views of the
  policies). The cache is the field \<open>cfg_cache\<close> of the state. Deserialising a configuration
  struct follows serde: an object by field name (a missing or null optional field is \<open>None\<close>,
  unknown fields are ignored, a value of the wrong type or out of range is an error) or an
  array by position.
\<close>

subsection \<open>Key-value store\<close>

definition kv_cipher :: "ext \<Rightarrow> secret_cipher" where
  "kv_cipher x = cipher_new x (c_kv_encryption_key x)"

definition kv_at :: "string \<Rightarrow> string \<Rightarrow> string \<Rightarrow> kv_row \<Rightarrow> bool" where
  "kv_at tenant_id group_key key r \<longleftrightarrow>
     kv_tenant_id r = tenant_id \<and> kv_group_key r = group_key \<and> kv_key r = key"

definition kv_get :: "ext \<Rightarrow> string \<Rightarrow> string \<Rightarrow> string \<Rightarrow> json option op" where
  "kv_get x tenant_id group_key key =
     bindE (sql_fetch t_kv (kv_at tenant_id group_key key)) (\<lambda>row. case row of
       None \<Rightarrow> ret None
     | Some r \<Rightarrow>
         bindE (if kv_sensitive r then lift (cipher_decrypt x (kv_cipher x) (kv_value r)) else ret (kv_value r)) (\<lambda>value_str.
         bindE (lift (map_err (\<lambda>e. Internal (''Invalid JSON in kv_store: '' @ e)) (x_json_parse x value_str))) (\<lambda>v.
           ret (Some v))))"

definition kv_upsert :: "string \<Rightarrow> string \<Rightarrow> string \<Rightarrow> string \<Rightarrow> bool \<Rightarrow> unit op" where
  "kv_upsert tenant_id group_key key stored is_sensitive =
     bindE (sql_exists t_kv (kv_at tenant_id group_key key)) (\<lambda>conflict.
       if conflict then sql_update t_kv_update (kv_at tenant_id group_key key)
         (\<lambda>r. r\<lparr>kv_value := stored, kv_sensitive := is_sensitive\<rparr>)
       else sql_insert t_kv_update
         (\<lambda>w. token_violation False [(''kv_store_tenant_id_fkey'', tenant_exists tenant_id w)])
         \<lparr>kv_tenant_id = tenant_id, kv_group_key = group_key, kv_key = key, kv_value = stored, kv_sensitive = is_sensitive\<rparr>)"

definition kv_set :: "ext \<Rightarrow> string \<Rightarrow> string \<Rightarrow> string \<Rightarrow> string \<Rightarrow> json \<Rightarrow> bool \<Rightarrow> unit op" where
  "kv_set x nonce tenant_id group_key key value is_sensitive =
     (let value_str = x_json_print x value in
      bindE (if is_sensitive then lift (cipher_encrypt x (kv_cipher x) nonce value_str) else ret value_str) (\<lambda>stored.
        kv_upsert tenant_id group_key key stored is_sensitive))"

definition kv_delete :: "string \<Rightarrow> string \<Rightarrow> string \<Rightarrow> bool op" where
  "kv_delete tenant_id group_key key =
     bindE (counting t_kv (kv_at tenant_id group_key key) (sql_delete t_kv_update (kv_at tenant_id group_key key)))
       (\<lambda>n. ret (0 < n))"

definition kv_list :: "string \<Rightarrow> string option \<Rightarrow> string option \<Rightarrow> (string \<times> string \<times> bool) list op" where
  "kv_list tenant_id group_key_filter key_filter =
     bindE (case group_key_filter of
         Some gk \<Rightarrow> (case key_filter of
             Some k \<Rightarrow> sql_select t_kv (kv_at tenant_id gk k)
           | None \<Rightarrow> sql_select t_kv (\<lambda>r. kv_tenant_id r = tenant_id \<and> kv_group_key r = gk))
       | None \<Rightarrow> sql_select t_kv (\<lambda>r. kv_tenant_id r = tenant_id))
       (\<lambda>rows. ret (map (\<lambda>r. (kv_group_key r, kv_key r, kv_sensitive r)) rows))"

subsection \<open>The loader and its cache\<close>

definition CACHE_TTL_SECS :: int where "CACHE_TTL_SECS = 60"

definition cache_key :: "string \<Rightarrow> string \<Rightarrow> string \<Rightarrow> string" where
  "cache_key tenant_id group_key key = tenant_id @ '':'' @ group_key @ '':'' @ key"

definition config_load :: "ext \<Rightarrow> time \<Rightarrow> string \<Rightarrow> string \<Rightarrow> string \<Rightarrow> json option op" where
  "config_load x now tenant_id group_key key =
     bindE (kv_get x tenant_id group_key key) (\<lambda>value.
       case value of None \<Rightarrow> ret None
       | Some v \<Rightarrow> bindE (modify (cfg_cache_update (\<lambda>c. c(cache_key tenant_id group_key key \<mapsto>
                              \<lparr>ce_value = v, ce_expires_at = now + secs CACHE_TTL_SECS\<rparr>))))
                     (\<lambda>_. ret (Some v)))"

definition config_get :: "ext \<Rightarrow> time \<Rightarrow> string \<Rightarrow> string \<Rightarrow> string \<Rightarrow> json option op" where
  "config_get x now tenant_id group_key key =
     bindE (gets (\<lambda>w. cfg_cache w (cache_key tenant_id group_key key))) (\<lambda>e. case e of
       Some ent \<Rightarrow> (if now < ce_expires_at ent then ret (Some (ce_value ent))
                    else config_load x now tenant_id group_key key)
     | None \<Rightarrow> config_load x now tenant_id group_key key)"

definition invalidate_tenant :: "string \<Rightarrow> unit op" where
  "invalidate_tenant tenant_id = modify (cfg_cache_update (\<lambda>c k.
     if starts_with (tenant_id @ '':'') k then None else c k))"

subsection \<open>Typed views\<close>

text \<open>The fields of a struct value: by name, or by position (at least \<open>least\<close> of them).\<close>

definition struct_fields :: "string list \<Rightarrow> nat \<Rightarrow> json \<Rightarrow> (string \<Rightarrow> json option) option" where
  "struct_fields names least j = (case j of
       JObj kvs \<Rightarrow> Some (map_of kvs)
     | JArr vs \<Rightarrow> (if least \<le> length vs \<and> length vs \<le> length names then Some (map_of (zip names vs)) else None)
     | _ \<Rightarrow> None)"

definition opt_field :: "(json \<Rightarrow> 'a option) \<Rightarrow> json option \<Rightarrow> 'a option option" where
  "opt_field de v = (case v of None \<Rightarrow> Some None | Some JNull \<Rightarrow> Some None | Some j \<Rightarrow> map_option Some (de j))"

fun de_string :: "json \<Rightarrow> string option" where
  "de_string (JStr s) = Some s" | "de_string _ = None"

fun de_bool :: "json \<Rightarrow> bool option" where
  "de_bool (JBool b) = Some b" | "de_bool _ = None"

fun de_unsigned :: "nat \<Rightarrow> json \<Rightarrow> nat option" where
  "de_unsigned bits (JInt n) = (if 0 \<le> n \<and> n < 2 ^ bits then Some (nat n) else None)"
| "de_unsigned bits _ = None"

fun de_i32 :: "json \<Rightarrow> int option" where
  "de_i32 (JInt n) = (if - (2 ^ 31) \<le> n \<and> n < 2 ^ 31 then Some n else None)" | "de_i32 _ = None"

fun all_some :: "'a option list \<Rightarrow> 'a list option" where
  "all_some [] = Some []"
| "all_some (v # vs) = Option.bind v (\<lambda>a. map_option ((#) a) (all_some vs))"

fun de_vec :: "(json \<Rightarrow> 'a option) \<Rightarrow> json \<Rightarrow> 'a list option" where
  "de_vec de (JArr vs) = all_some (map de vs)" | "de_vec de _ = None"

record oauth_config =
  oc_client_id :: string
  oc_client_secret :: string
  oc_redirect_url :: string
  oc_tenant :: "string option"
  oc_allow_signup :: "bool option"

definition de_oauth_config :: "json \<Rightarrow> oauth_config option" where
  "de_oauth_config j =
     Option.bind (struct_fields [''clientId'', ''clientSecret'', ''redirectUrl'', ''tenant'', ''allowSignup''] 3 j) (\<lambda>f.
     Option.bind (Option.bind (f ''clientId'') de_string) (\<lambda>a.
     Option.bind (Option.bind (f ''clientSecret'') de_string) (\<lambda>b.
     Option.bind (Option.bind (f ''redirectUrl'') de_string) (\<lambda>c.
     Option.bind (opt_field de_string (f ''tenant'')) (\<lambda>d.
     Option.bind (opt_field de_bool (f ''allowSignup'')) (\<lambda>e.
       Some \<lparr>oc_client_id = a, oc_client_secret = b, oc_redirect_url = c, oc_tenant = d, oc_allow_signup = e\<rparr>))))))"

record password_policy =
  pp_min_length :: "nat option"
  pp_require_uppercase :: "bool option"
  pp_require_digit :: "bool option"
  pp_max_age_days :: "nat option"

definition de_password_policy :: "json \<Rightarrow> password_policy option" where
  "de_password_policy j =
     Option.bind (struct_fields [''minLength'', ''requireUppercase'', ''requireDigit'', ''maxAgeDays''] 4 j) (\<lambda>f.
     Option.bind (opt_field (de_unsigned 32) (f ''minLength'')) (\<lambda>a.
     Option.bind (opt_field de_bool (f ''requireUppercase'')) (\<lambda>b.
     Option.bind (opt_field de_bool (f ''requireDigit'')) (\<lambda>c.
     Option.bind (opt_field (de_unsigned 32) (f ''maxAgeDays'')) (\<lambda>d.
       Some \<lparr>pp_min_length = a, pp_require_uppercase = b, pp_require_digit = c, pp_max_age_days = d\<rparr>)))))"

record session_policy =
  sn_idle_timeout_mins :: "64 word option"
  sn_absolute_timeout_mins :: "64 word option"

definition de_session_policy :: "json \<Rightarrow> session_policy option" where
  "de_session_policy j =
     Option.bind (struct_fields [''idleTimeoutMins'', ''absoluteTimeoutMins''] 2 j) (\<lambda>f.
     Option.bind (opt_field (de_unsigned 64) (f ''idleTimeoutMins'')) (\<lambda>a.
     Option.bind (opt_field (de_unsigned 64) (f ''absoluteTimeoutMins'')) (\<lambda>b.
       Some \<lparr>sn_idle_timeout_mins = map_option of_nat a, sn_absolute_timeout_mins = map_option of_nat b\<rparr>)))"

record rate_limit_config =
  rl_max_requests :: "32 word option"
  rl_window_secs :: "64 word option"

definition de_rate_limit_config :: "json \<Rightarrow> rate_limit_config option" where
  "de_rate_limit_config j =
     Option.bind (struct_fields [''maxRequests'', ''windowSecs''] 2 j) (\<lambda>f.
     Option.bind (opt_field (de_unsigned 32) (f ''maxRequests'')) (\<lambda>a.
     Option.bind (opt_field (de_unsigned 64) (f ''windowSecs'')) (\<lambda>b.
       Some \<lparr>rl_max_requests = map_option of_nat a, rl_window_secs = map_option of_nat b\<rparr>)))"

definition config_view :: "(json \<Rightarrow> 'a option) \<Rightarrow> ext \<Rightarrow> time \<Rightarrow> string \<Rightarrow> string \<Rightarrow> string \<Rightarrow> 'a option op" where
  "config_view de x now tenant_id group_key key =
     bindE (config_get x now tenant_id group_key key) (\<lambda>v. ret (Option.bind v de))"

definition get_oauth :: "ext \<Rightarrow> time \<Rightarrow> string \<Rightarrow> string \<Rightarrow> oauth_config option op" where
  "get_oauth x now tenant_id provider = config_view de_oauth_config x now tenant_id ''oauth'' provider"

definition get_password_policy :: "ext \<Rightarrow> time \<Rightarrow> string \<Rightarrow> password_policy option op" where
  "get_password_policy x now tenant_id =
     config_view de_password_policy x now tenant_id ''password_policy'' ''default''"

definition get_session_policy :: "ext \<Rightarrow> time \<Rightarrow> string \<Rightarrow> session_policy option op" where
  "get_session_policy x now tenant_id =
     config_view de_session_policy x now tenant_id ''session_policy'' ''default''"

definition get_rate_limits :: "ext \<Rightarrow> time \<Rightarrow> string \<Rightarrow> string \<Rightarrow> rate_limit_config option op" where
  "get_rate_limits x now tenant_id name =
     config_view de_rate_limit_config x now tenant_id ''rate_limits'' name"

definition get_login_methods :: "ext \<Rightarrow> time \<Rightarrow> string \<Rightarrow> int list option op" where
  "get_login_methods x now tenant_id =
     config_view (de_vec de_i32) x now tenant_id ''login_methods'' ''allowed''"

definition get_allowed_email_domains :: "ext \<Rightarrow> time \<Rightarrow> string \<Rightarrow> string list option op" where
  "get_allowed_email_domains x now tenant_id =
     config_view (de_vec de_string) x now tenant_id ''email_policy'' ''allowed_domains''"

definition get_frontend_base_url :: "ext \<Rightarrow> time \<Rightarrow> string \<Rightarrow> string option op" where
  "get_frontend_base_url x now tenant_id =
     bindE (config_get x now tenant_id ''frontend_config'' ''base_url'') (\<lambda>v.
       ret (case Option.bind v as_str of Some s \<Rightarrow> (if s = [] then None else Some s) | None \<Rightarrow> None))"

lemmas config_getters =
  get_oauth_def get_password_policy_def get_session_policy_def get_rate_limits_def
  get_login_methods_def get_allowed_email_domains_def get_frontend_base_url_def config_view_def

subsection \<open>Key-value laws\<close>

definition kv_read :: "ext \<Rightarrow> kv_row \<Rightarrow> json result" where
  "kv_read x r = bind_res (if kv_sensitive r then cipher_decrypt x (kv_cipher x) (kv_value r) else Inr (kv_value r)) (\<lambda>s.
     map_err (\<lambda>e. Internal (''Invalid JSON in kv_store: '' @ e)) (x_json_parse x s))"

definition kv_lookup :: "ext \<Rightarrow> string \<Rightarrow> string \<Rightarrow> string \<Rightarrow> world \<Rightarrow> json option result" where
  "kv_lookup x t g k w = (case find_first (kv_at t g k) (t_kv w) of
     None \<Rightarrow> Inr None | Some r \<Rightarrow> bind_res (kv_read x r) (\<lambda>v. Inr (Some v)))"

lemma kv_get_run: "kv_get x t g k w = (kv_lookup x t g k w, w)"
proof (cases "find_first (kv_at t g k) (t_kv w)")
  case (Some r)
  then show ?thesis
    by (cases "kv_sensitive r")
      (auto simp: kv_get_def kv_lookup_def kv_read_def bind_res_def bindE_run map_err_def split: sum.split)
qed (simp add: kv_get_def kv_lookup_def)

lemma kv_at_update:
  "kv_at t g k (r\<lparr>kv_value := v, kv_sensitive := s\<rparr>) = kv_at t g k r"
  by (simp add: kv_at_def)

lemma kv_at_same: "kv_at t g k r \<Longrightarrow> kv_at t' g' k' r \<longleftrightarrow> (t', g', k') = (t, g, k)"
  by (auto simp: kv_at_def)

lemma kv_upsert_find:
  assumes "kv_upsert t g k v s w = (Inr (), w')"
  shows "\<exists>r. find_first (kv_at t g k) (t_kv w') = Some r \<and> kv_value r = v \<and> kv_sensitive r = s"
    and "(t', g', k') \<noteq> (t, g, k) \<Longrightarrow>
      find_first (kv_at t' g' k') (t_kv w') = find_first (kv_at t' g' k') (t_kv w)"
proof -
  let ?f = "\<lambda>r. r\<lparr>kv_value := v, kv_sensitive := s\<rparr>"
  let ?new = "\<lparr>kv_tenant_id = t, kv_group_key = g, kv_key = k, kv_value = v, kv_sensitive = s\<rparr>"
  have new: "kv_at t g k ?new" by (simp add: kv_at_def)
  consider (upd) "list_ex (kv_at t g k) (t_kv w)" "t_kv w' = update_rows (kv_at t g k) ?f (t_kv w)"
    | (ins) "\<not> list_ex (kv_at t g k) (t_kv w)" "t_kv w' = t_kv w @ [?new]"
    using assms by (auto simp: kv_upsert_def bindE_Inr_iff split: if_splits option.splits)
  then have *: "(\<exists>r. find_first (kv_at t g k) (t_kv w') = Some r \<and> kv_value r = v \<and> kv_sensitive r = s) \<and>
    ((t', g', k') \<noteq> (t, g, k) \<longrightarrow> find_first (kv_at t' g' k') (t_kv w') = find_first (kv_at t' g' k') (t_kv w))"
  proof cases
    case upd
    then obtain r where r: "find_first (kv_at t g k) (t_kv w) = Some r" "kv_at t g k r"
      by (metis find_first_None_iff find_first_SomeD list_ex_iff not_Some_eq)
    have f: "find_first (kv_at a b c) (t_kv w') =
        map_option (\<lambda>x. if kv_at t g k x then ?f x else x) (find_first (kv_at a b c) (t_kv w))" for a b c
      unfolding upd(2) by (rule find_first_update_rows) (simp add: kv_at_update)
    have "find_first (kv_at t' g' k') (t_kv w') = find_first (kv_at t' g' k') (t_kv w)"
      if "(t', g', k') \<noteq> (t, g, k)"
      using that kv_at_same by (cases "find_first (kv_at t' g' k') (t_kv w)") (auto simp: f dest!: find_first_SomeD)
    with r show ?thesis by (auto simp: f)
  next
    case ins
    then have "find_first (kv_at t g k) (t_kv w) = None"
      by (auto simp: find_first_None_iff list_ex_iff)
    then show ?thesis
      using new kv_at_same [OF new] by (auto simp: ins(2) find_first_append split: option.split)
  qed
  then show "\<exists>r. find_first (kv_at t g k) (t_kv w') = Some r \<and> kv_value r = v \<and> kv_sensitive r = s" by blast
  from * show "(t', g', k') \<noteq> (t, g, k) \<Longrightarrow>
      find_first (kv_at t' g' k') (t_kv w') = find_first (kv_at t' g' k') (t_kv w)" by blast
qed

subsection \<open>Staleness of the cache\<close>

text \<open>
  A history of configuration reads and writes, most recent state first: at each instant the
  store is changed, a value is read through the cache, a tenant is invalidated or nothing
  happens. Tenants and groups contain no colon, as the cache key requires.
\<close>

inductive config_run :: "ext \<Rightarrow> (time \<times> world) list \<Rightarrow> bool" for x where
  start: "cfg_cache w = (\<lambda>_. None) \<Longrightarrow> config_run x [(t, w)]"
| set_value: "config_run x ((t, w) # tr) \<Longrightarrow> t \<le> t' \<Longrightarrow> kv_set x nonce tid g k v s w = (r, w') \<Longrightarrow>
    config_run x ((t', w') # (t, w) # tr)"
| delete_value: "config_run x ((t, w) # tr) \<Longrightarrow> t \<le> t' \<Longrightarrow> kv_delete tid g k w = (r, w') \<Longrightarrow>
    config_run x ((t', w') # (t, w) # tr)"
| read_value: "config_run x ((t, w) # tr) \<Longrightarrow> t \<le> t' \<Longrightarrow> CHR '':'' \<notin> set tid \<Longrightarrow> CHR '':'' \<notin> set g \<Longrightarrow>
    config_get x t' tid g k w = (r, w') \<Longrightarrow> config_run x ((t', w') # (t, w) # tr)"
| invalidate: "config_run x ((t, w) # tr) \<Longrightarrow> t \<le> t' \<Longrightarrow> invalidate_tenant tid w = (r, w') \<Longrightarrow>
    config_run x ((t', w') # (t, w) # tr)"

lemma cache_key_inject:
  "CHR '':'' \<notin> set t \<Longrightarrow> CHR '':'' \<notin> set g \<Longrightarrow> CHR '':'' \<notin> set t' \<Longrightarrow> CHR '':'' \<notin> set g' \<Longrightarrow>
   cache_key t g k = cache_key t' g' k' \<longleftrightarrow> (t, g, k) = (t', g', k')"
proof -
  assume a: "CHR '':'' \<notin> set t" "CHR '':'' \<notin> set g" "CHR '':'' \<notin> set t'" "CHR '':'' \<notin> set g'"
  have "t = t' \<and> g = g' \<and> k = k'" if "cache_key t g k = cache_key t' g' k'"
  proof -
    have "split_once (CHR '':'') (cache_key t g k) = Some (t, g @ CHR '':'' # k)"
      "split_once (CHR '':'') (cache_key t' g' k') = Some (t', g' @ CHR '':'' # k')"
      using a by (simp_all add: cache_key_def split_once_append)
    with that have "t = t'" "g @ CHR '':'' # k = g' @ CHR '':'' # k'" by auto
    then show ?thesis
      by (metis a(2,4) option.inject prod.inject split_once_append)
  qed
  then show ?thesis by blast
qed

text \<open>Every cache entry holds a value that the store had when the entry was made.\<close>

definition entry_sound :: "ext \<Rightarrow> (time \<times> world) list \<Rightarrow> string \<Rightarrow> cache_entry \<Rightarrow> bool" where
  "entry_sound x tr ck e \<longleftrightarrow> (\<exists>t w tid g k. (t, w) \<in> set tr \<and> CHR '':'' \<notin> set tid \<and> CHR '':'' \<notin> set g
     \<and> ck = cache_key tid g k \<and> ce_expires_at e = t + secs 60 \<and> kv_lookup x tid g k w = Inr (Some (ce_value e)))"

definition cache_sound :: "ext \<Rightarrow> (time \<times> world) list \<Rightarrow> world \<Rightarrow> bool" where
  "cache_sound x tr w \<longleftrightarrow> (\<forall>ck e. cfg_cache w ck = Some e \<longrightarrow> entry_sound x tr ck e)"

lemma entry_sound_mono: "entry_sound x tr ck e \<Longrightarrow> set tr \<subseteq> set tr' \<Longrightarrow> entry_sound x tr' ck e"
  unfolding entry_sound_def by blast

lemma cache_sound_mono: "cache_sound x tr w \<Longrightarrow> set tr \<subseteq> set tr' \<Longrightarrow> cache_sound x tr' w"
  unfolding cache_sound_def by (blast intro: entry_sound_mono)

lemma cache_sound_step:
  "cache_sound x tr w \<Longrightarrow> (\<And>ck e. cfg_cache w' ck = Some e \<Longrightarrow> cfg_cache w ck = Some e) \<Longrightarrow> cache_sound x (p # tr) w'"
  unfolding cache_sound_def by (metis entry_sound_mono set_subset_Cons)

lemma kv_set_cache: "kv_set x nonce tid g k v s w = (r, w') \<Longrightarrow> cfg_cache w' = cfg_cache w"
  by (auto simp: kv_set_def kv_upsert_def Let_def bindE_run split: if_splits sum.splits option.splits prod.splits)

lemma kv_delete_cache: "kv_delete tid g k w = (r, w') \<Longrightarrow> cfg_cache w' = cfg_cache w"
  by (auto simp: kv_delete_def)

lemma kv_lookup_cache [simp]: "kv_lookup x t g k (cfg_cache_update f w) = kv_lookup x t g k w"
  by (simp add: kv_lookup_def)

lemma config_get_cases:
  assumes "config_get x now tid g k w = (r, w')"
  obtains (hit) e where "cfg_cache w (cache_key tid g k) = Some e" "now < ce_expires_at e"
      "r = Inr (Some (ce_value e))" "w' = w"
    | (load) v where "kv_lookup x tid g k w = Inr (Some v)" "r = Inr (Some v)"
      "w' = cfg_cache_update (\<lambda>c. c(cache_key tid g k \<mapsto> \<lparr>ce_value = v, ce_expires_at = now + secs 60\<rparr>)) w"
    | (miss) "r = kv_lookup x tid g k w" "\<forall>v. r \<noteq> Inr (Some v)" "w' = w"
proof (cases "\<exists>e. cfg_cache w (cache_key tid g k) = Some e \<and> now < ce_expires_at e")
  case True
  then obtain e where "cfg_cache w (cache_key tid g k) = Some e" "now < ce_expires_at e" by blast
  moreover from this assms have "r = Inr (Some (ce_value e))" "w' = w" by (simp_all add: config_get_def)
  ultimately show ?thesis by (rule hit)
next
  case False
  then have "config_load x now tid g k w = (r, w')"
    using assms by (auto simp: config_get_def split: option.splits)
  then show ?thesis
  proof (cases "\<exists>v. kv_lookup x tid g k w = Inr (Some v)")
    case True
    then obtain v where "kv_lookup x tid g k w = Inr (Some v)" by blast
    moreover from this \<open>config_load x now tid g k w = (r, w')\<close> have "r = Inr (Some v)"
      "w' = cfg_cache_update (\<lambda>c. c(cache_key tid g k \<mapsto> \<lparr>ce_value = v, ce_expires_at = now + secs 60\<rparr>)) w"
      by (simp_all add: config_load_def kv_get_run CACHE_TTL_SECS_def)
    ultimately show ?thesis by (rule load)
  next
    case False
    with \<open>config_load x now tid g k w = (r, w')\<close> have "r = kv_lookup x tid g k w" "w' = w"
      by (cases "kv_lookup x tid g k w"; simp add: config_load_def kv_get_run split: option.splits)+
    with False show ?thesis by (intro miss) auto
  qed
qed

lemma config_run_sound: "config_run x tr \<Longrightarrow> tr = (t, w) # tr' \<Longrightarrow> cache_sound x tr w"
proof (induction arbitrary: t w tr' rule: config_run.induct)
  case (start w t)
  then show ?case by (simp add: cache_sound_def)
next
  case (set_value t0 w0 tr0 t' nonce tid g k v s r w')
  then have "cache_sound x ((t0, w0) # tr0) w0" by blast
  then show ?case
    using set_value.prems kv_set_cache [OF set_value.hyps(3)] by (auto intro: cache_sound_step)
next
  case (delete_value t0 w0 tr0 t' tid g k r w')
  then have "cache_sound x ((t0, w0) # tr0) w0" by blast
  then show ?case
    using delete_value.prems kv_delete_cache [OF delete_value.hyps(3)] by (auto intro: cache_sound_step)
next
  case (read_value t0 w0 tr0 t' tid g k r w')
  then have s: "cache_sound x ((t', w') # (t0, w0) # tr0) w0"
    using cache_sound_mono by (metis set_subset_Cons)
  from read_value.hyps(5) have "cache_sound x ((t', w') # (t0, w0) # tr0) w'"
  proof (cases rule: config_get_cases)
    case (load v)
    have "entry_sound x ((t', w') # (t0, w0) # tr0) (cache_key tid g k) \<lparr>ce_value = v, ce_expires_at = t' + secs 60\<rparr>"
      unfolding entry_sound_def
      by (intro exI [of _ t'] exI [of _ w'] exI [of _ tid] exI [of _ g] exI [of _ k])
        (use read_value load in simp)
    with s show ?thesis by (auto simp: cache_sound_def load)
  qed (use s in auto)
  then show ?case using read_value.prems by simp
next
  case (invalidate t0 w0 tr0 t' tid r w')
  then have c: "cache_sound x ((t0, w0) # tr0) w0" by blast
  have "cfg_cache w0 ck = Some e" if "cfg_cache w' ck = Some e" for ck e
    using that invalidate.hyps(3) by (auto simp: invalidate_tenant_def split: if_splits)
  then have "cache_sound x ((t', w') # (t0, w0) # tr0) w'" by (rule cache_sound_step [OF c])
  then show ?case using invalidate.prems by simp
qed

subsection \<open>Properties\<close>

definition json_correct_at :: "ext \<Rightarrow> json \<Rightarrow> bool" where
  "json_correct_at x v \<longleftrightarrow> x_json_parse x (x_json_print x v) = Inr v"

definition config_world :: world where
  "config_world = world0\<lparr>t_kv := [\<lparr>kv_tenant_id = ''acme'', kv_group_key = ''oauth'', kv_key = ''google'',
     kv_value = ''old'', kv_sensitive = False\<rparr>]\<rparr>"

lemma kv_facts:
  assumes "b64_correct x" "aead_correct x" "utf8_correct x" "length nonce = 12" "json_correct_at x v"
    and "kv_set x nonce t g k v s w = (Inr (), w')"
  shows "kv_get x t g k w' = (Inr (Some v), w')"
    and "(t', g', k') \<noteq> (t, g, k) \<Longrightarrow> fst (kv_get x t' g' k' w') = fst (kv_get x t' g' k' w)"
proof -
  obtain stored where st: "(if s then cipher_encrypt x (kv_cipher x) nonce (x_json_print x v) else Inr (x_json_print x v)) = Inr stored"
    and up: "kv_upsert t g k stored s w = (Inr (), w')"
    using assms(6) by (cases s) (auto simp: kv_set_def Let_def case_res_Inr_iff)
  obtain r where r: "find_first (kv_at t g k) (t_kv w') = Some r" "kv_value r = stored" "kv_sensitive r = s"
    using kv_upsert_find(1) [OF up] by blast
  have "(if s then cipher_decrypt x (kv_cipher x) stored else Inr stored) = Inr (x_json_print x v)"
    using st cipher_roundtrip [OF assms(1-4)] by (cases s) auto
  then have "kv_read x r = Inr v"
    using assms(5) r by (cases s) (simp_all add: kv_read_def json_correct_at_def)
  then show "kv_get x t g k w' = (Inr (Some v), w')"
    by (simp add: kv_get_run kv_lookup_def r)
  assume "(t', g', k') \<noteq> (t, g, k)"
  then show "fst (kv_get x t' g' k' w') = fst (kv_get x t' g' k' w)"
    using kv_upsert_find(2) [OF up] by (simp add: kv_get_run kv_lookup_def)
qed

text \<open>
  The key-value store round-trips: a value written with \<open>set\<close>, in the clear or encrypted, is
  what \<open>get\<close> returns for that tenant, group and key, and no other entry changes.
\<close>

theorem kv_roundtrip:
  assumes "b64_correct x" "aead_correct x" "utf8_correct x" "length nonce = 12" "json_correct_at x v"
    and "kv_set x nonce t g k v s w = (Inr (), w')"
  shows "kv_get x t g k w' = (Inr (Some v), w') \<and>
    (\<forall>t' g' k'. (t', g', k') \<noteq> (t, g, k) \<longrightarrow> fst (kv_get x t' g' k' w') = fst (kv_get x t' g' k' w))"
  using kv_facts [OF assms] by blast

theorem kv_roundtrip_witness:
  "fst (kv_get ext0 ''acme'' ''oauth'' ''google''
     (snd (kv_set ext0 ''0123456789ab'' ''acme'' ''oauth'' ''google'' (JStr ''v'') True config_world))) = Inr (Some (JStr ''v''))"
proof -
  let ?r = "kv_set ext0 ''0123456789ab'' ''acme'' ''oauth'' ''google'' (JStr ''v'') True config_world"
  have "fst ?r = Inr ()" by code_simp
  then have set: "?r = (Inr (), snd ?r)" by (metis prod.collapse)
  have "json_correct_at ext0 (JStr ''v'')" by code_simp
  with kv_roundtrip [OF ext0_correct _ _ set] show ?thesis by simp
qed

text \<open>
  C34. Configuration read through the cache is at most a minute old: in any history of reads,
  writes, deletions and invalidations, a value that the loader returns is one that the store
  itself held, for that tenant, group and key, at an instant less than 60 seconds ago.
\<close>

theorem config_bounded_staleness:
  assumes "config_run x ((t, w) # tr)" "CHR '':'' \<notin> set tid" "CHR '':'' \<notin> set g"
    and "config_get x now tid g k w = (Inr (Some v), w')"
  shows "\<exists>t0 w0. (t0, w0) \<in> set ((now, w) # (t, w) # tr) \<and> now < t0 + secs 60 \<and>
    fst (kv_get x tid g k w0) = Inr (Some v)"
  using assms(4)
proof (cases rule: config_get_cases)
  case (hit e)
  then have "entry_sound x ((t, w) # tr) (cache_key tid g k) e"
    using config_run_sound [OF assms(1) refl] by (simp add: cache_sound_def)
  then obtain t0 w0 where "(t0, w0) \<in> set ((t, w) # tr)" "ce_expires_at e = t0 + secs 60"
    "kv_lookup x tid g k w0 = Inr (Some (ce_value e))"
    unfolding entry_sound_def using cache_key_inject [OF assms(2,3)] by (metis prod.inject)
  with hit show ?thesis by (auto simp: kv_get_run)
next
  case (load u)
  then show ?thesis by (intro exI [of _ now] exI [of _ w]) (auto simp: kv_get_run secs_def)
next
  case miss
  then show ?thesis by metis
qed

theorem config_bounded_staleness_witness:
  "\<exists>t0 w0. (t0, w0) \<in> set [(5, config_world), (0, config_world)] \<and> 5 < t0 + secs 60 \<and>
     fst (kv_get ext0 ''acme'' ''oauth'' ''google'' w0) = Inr (Some (JStr ''old''))"
proof -
  have run: "config_run ext0 [(0, config_world)]"
    by (rule config_run.start) (simp add: config_world_def world0_def)
  have "fst (config_get ext0 5 ''acme'' ''oauth'' ''google'' config_world) = Inr (Some (JStr ''old''))"
    by code_simp
  then have get: "config_get ext0 5 ''acme'' ''oauth'' ''google'' config_world =
      (Inr (Some (JStr ''old'')), snd (config_get ext0 5 ''acme'' ''oauth'' ''google'' config_world))"
    by (metis prod.collapse)
  show ?thesis by (rule config_bounded_staleness [OF run _ _ get]) simp_all
qed

lemma config_invalidate_facts:
  "fst (config_get x now tid g k (snd (invalidate_tenant tid w))) = fst (kv_get x tid g k w)"
  "CHR '':'' \<notin> set tid \<Longrightarrow> CHR '':'' \<notin> set tid' \<Longrightarrow> tid' \<noteq> tid \<Longrightarrow>
     cfg_cache (snd (invalidate_tenant tid w)) (cache_key tid' g k) = cfg_cache w (cache_key tid' g k)"
proof -
  have "starts_with (tid @ '':'') (cache_key tid g k)"
    unfolding starts_with_iff by (rule exI [of _ "g @ '':'' @ k"]) (simp add: cache_key_def)
  then show "fst (config_get x now tid g k (snd (invalidate_tenant tid w))) = fst (kv_get x tid g k w)"
    by (cases "kv_lookup x tid g k w")
      (auto simp: config_get_def config_load_def invalidate_tenant_def kv_get_run bindE_run split: option.splits)
  assume "CHR '':'' \<notin> set tid" "CHR '':'' \<notin> set tid'" "tid' \<noteq> tid"
  then have "\<not> starts_with (tid @ '':'') (cache_key tid' g k)"
    unfolding starts_with_iff
    by (metis append_Cons append_assoc cache_key_def option.inject prod.inject split_once_append)
  then show "cfg_cache (snd (invalidate_tenant tid w)) (cache_key tid' g k) = cfg_cache w (cache_key tid' g k)"
    by (simp add: invalidate_tenant_def)
qed

text \<open>
  Invalidating a tenant makes the next read current: after \<open>invalidate_tenant\<close> a read through
  the cache returns exactly what the store holds, whatever was cached; and no other tenant's
  entries are dropped (tenant names without a colon).
\<close>

theorem config_fresh_after_invalidate:
  "fst (config_get x now tid g k (snd (invalidate_tenant tid w))) = fst (kv_get x tid g k w) \<and>
   (\<forall>tid'. CHR '':'' \<notin> set tid \<longrightarrow> CHR '':'' \<notin> set tid' \<longrightarrow> tid' \<noteq> tid \<longrightarrow>
     cfg_cache (snd (invalidate_tenant tid w)) (cache_key tid' g k) = cfg_cache w (cache_key tid' g k))"
  using config_invalidate_facts by blast

theorem config_fresh_after_invalidate_witness:
  "cfg_cache (snd (invalidate_tenant ''a'' config_world)) (cache_key ''ab'' ''oauth'' ''x'')
     = cfg_cache config_world (cache_key ''ab'' ''oauth'' ''x'')"
  using config_fresh_after_invalidate [of ext0 0 "''a''" "''oauth''" "''x''" config_world] by simp

end
