(* ===== verification/Roles_Repo.thy ===== *)
theory Roles_Repo
  imports Users_Repo
begin

section \<open>Roles and their hierarchy\<close>

text \<open>
  \<^verbatim>\<open>src/repo/roles.rs\<close>. A role may have a parent role; a user holds the roles assigned to it
  and all their ancestors. The recursive queries are modelled by two functions:

  \<^item> \<open>role_closure\<close> is \<^verbatim>\<open>WITH RECURSIVE .. UNION\<close>: the working table is joined with its
    parents until no new row appears. It terminates on every table.
  \<^item> \<open>ancestor_chain\<close> is \<^verbatim>\<open>WITH RECURSIVE .. UNION ALL\<close>: it follows parents with no
    duplicate check and does not end on a cyclic hierarchy. Its fuel is one more than the
    number of roles; \<open>None\<close>, out of fuel, stands for a query that never ends.

  The theory shows that every operation keeps the hierarchy acyclic and inside one tenant,
  hence that the chain queries always return, and that a user's effective roles and
  permissions are exactly those reachable through the hierarchy.
\<close>

subsection \<open>Slugs\<close>

fun uid_loop :: "bool \<Rightarrow> string \<Rightarrow> string" where
  "uid_loop prev_underscore [] = []"
| "uid_loop prev_underscore (c # cs) =
     (if is_alphanumeric c then c # uid_loop False cs
      else if \<not> prev_underscore then CHR ''_'' # uid_loop True cs
      else uid_loop prev_underscore cs)"

definition to_uid :: "string \<Rightarrow> string" where
  "to_uid name =
     (let uid = uid_loop True (to_lowercase (trim name)) in
      if uid \<noteq> [] \<and> last uid = CHR ''_'' then butlast uid else uid)"

text \<open>A slug: lower-case alphanumeric words separated by single underscores.\<close>

fun slug_from :: "bool \<Rightarrow> string \<Rightarrow> bool" where
  "slug_from prev_underscore [] \<longleftrightarrow> \<not> prev_underscore"
| "slug_from prev_underscore (c # cs) \<longleftrightarrow>
     (if c = CHR ''_'' then \<not> prev_underscore \<and> slug_from True cs
      else is_alphanumeric c \<and> \<not> is_ascii_uppercase c \<and> slug_from False cs)"

definition slug :: "string \<Rightarrow> bool" where
  "slug s \<longleftrightarrow> s = [] \<or> slug_from True s"

subsection \<open>Recursive queries\<close>

lemma length_filter_less_sub:
  "x \<in> set xs \<Longrightarrow> Q x \<Longrightarrow> \<not> P x \<Longrightarrow> (\<And>y. P y \<Longrightarrow> Q y) \<Longrightarrow> length (filter P xs) < length (filter Q xs)"
proof (induction xs)
  case (Cons a xs)
  have "length (filter P xs) \<le> length (filter Q xs)"
    using Cons.prems(4) by (induction xs) auto
  with Cons show ?case by (cases "a = x") (auto simp: less_Suc_eq_le)
qed simp

text \<open>The rows a recursion step adds: parents, in the tenant, of the working table's rows.\<close>

definition parents_of :: "role list \<Rightarrow> string \<Rightarrow> role list \<Rightarrow> role list" where
  "parents_of roles tenant_id work =
     filter (\<lambda>r. r_tenant_id r = tenant_id \<and> list_ex (\<lambda>a. r_parent_role_id a = Some (r_id r)) work) roles"

function role_closure :: "role list \<Rightarrow> string \<Rightarrow> role list \<Rightarrow> role list \<Rightarrow> role list" where
  "role_closure roles tenant_id acc work =
     (if work = [] then acc
      else (let new = filter (\<lambda>r. r \<notin> set acc) (remdups (parents_of roles tenant_id work)) in
        role_closure roles tenant_id (acc @ new) new))"
  by pat_completeness auto

termination
proof (relation "measures [\<lambda>(roles, t, acc, work). length (filter (\<lambda>r. r \<notin> set acc) roles), \<lambda>(roles, t, acc, work). length work]")
  fix roles :: "role list" and tenant_id acc work new
  assume w: "work \<noteq> []" and new: "new = filter (\<lambda>r. r \<notin> set acc) (remdups (parents_of roles tenant_id work))"
  show "((roles, tenant_id, acc @ new, new), (roles, tenant_id, acc, work))
      \<in> measures [\<lambda>(roles, t, acc, work). length (filter (\<lambda>r. r \<notin> set acc) roles), \<lambda>(roles, t, acc, work). length work]"
  proof (cases "new = []")
    case True
    then show ?thesis using w by simp
  next
    case False
    then obtain r where "r \<in> set new" by (cases new) auto
    then have r: "r \<in> set roles" "r \<notin> set acc" "r \<in> set new" by (auto simp: new parents_of_def)
    have "length (filter (\<lambda>r. r \<notin> set (acc @ new)) roles) < length (filter (\<lambda>r. r \<notin> set acc) roles)"
      using r by (intro length_filter_less_sub [of r]) auto
    then show ?thesis by simp
  qed
qed simp

declare role_closure.simps [simp del]

definition union_ancestors :: "role list \<Rightarrow> string \<Rightarrow> role list \<Rightarrow> role list" where
  "union_ancestors roles tenant_id base =
     (let b = remdups base in role_closure roles tenant_id b b)"

fun ancestor_chain :: "nat \<Rightarrow> role list \<Rightarrow> string \<Rightarrow> uuid option \<Rightarrow> role list option" where
  "ancestor_chain fuel roles tenant_id None = Some []"
| "ancestor_chain 0 roles tenant_id (Some rid) = None"
| "ancestor_chain (Suc fuel) roles tenant_id (Some rid) =
     (case find_first (\<lambda>r. r_id r = rid \<and> r_tenant_id r = tenant_id) roles of
        None \<Rightarrow> Some []
      | Some r \<Rightarrow> map_option (Cons r) (ancestor_chain fuel roles tenant_id (r_parent_role_id r)))"

definition chain_fuel :: "role list \<Rightarrow> nat" where
  "chain_fuel roles = Suc (length roles)"

text \<open>A query that never ends; \<open>roles_ok\<close> rules it out.\<close>

definition no_answer :: app_error where
  "no_answer = Internal ''recursive query does not terminate''"

subsection \<open>Queries\<close>

definition direct_roles :: "world \<Rightarrow> string \<Rightarrow> uuid \<Rightarrow> role list" where
  "direct_roles w tenant_id user_id =
     filter (\<lambda>r. (user_id, r_id r) \<in> set (t_user_roles w) \<and> r_tenant_id r = tenant_id) (t_roles w)"

definition effective_roles :: "world \<Rightarrow> string \<Rightarrow> uuid \<Rightarrow> role list" where
  "effective_roles w tenant_id user_id =
     union_ancestors (t_roles w) tenant_id (direct_roles w tenant_id user_id)"

definition permissions_of_roles :: "world \<Rightarrow> string \<Rightarrow> role list \<Rightarrow> string list" where
  "permissions_of_roles w tenant_id roles =
     remdups (map p_name (filter (\<lambda>p. p_tenant_id p = tenant_id \<and>
       list_ex (\<lambda>r. (r_id r, p_id p) \<in> set (t_role_permissions w)) roles) (t_permissions w)))"

definition roles_get_user_permissions :: "string \<Rightarrow> uuid \<Rightarrow> string list op" where
  "roles_get_user_permissions tenant_id user_id = gets (\<lambda>w.
     permissions_of_roles w tenant_id (effective_roles w tenant_id user_id))"

definition roles_get_user_roles :: "string \<Rightarrow> uuid \<Rightarrow> string list op" where
  "roles_get_user_roles tenant_id user_id = gets (\<lambda>w.
     sort (remdups (map r_uid (effective_roles w tenant_id user_id))))"

definition roles_get_user_role_ids :: "string \<Rightarrow> uuid \<Rightarrow> uuid list op" where
  "roles_get_user_role_ids tenant_id user_id = gets (\<lambda>w.
     remdups (map r_id (effective_roles w tenant_id user_id)))"

definition roles_get_user_roles_detail :: "string \<Rightarrow> uuid \<Rightarrow> (uuid \<times> string \<times> string) list op" where
  "roles_get_user_roles_detail tenant_id user_id = gets (\<lambda>w.
     map (\<lambda>r. (r_id r, r_name r, r_uid r)) (sort_key r_name (direct_roles w tenant_id user_id)))"

definition roles_get_role_ancestors :: "string \<Rightarrow> uuid \<Rightarrow> (uuid \<times> string \<times> string) list op" where
  "roles_get_role_ancestors tenant_id role_id =
     bindE (gets (\<lambda>w. case find_first (\<lambda>r. r_id r = role_id \<and> r_tenant_id r = tenant_id) (t_roles w) of
         None \<Rightarrow> Some []
       | Some r \<Rightarrow> ancestor_chain (chain_fuel (t_roles w)) (t_roles w) tenant_id (r_parent_role_id r)))
       (\<lambda>c. case c of None \<Rightarrow> throw no_answer
          | Some rs \<Rightarrow> ret (map (\<lambda>r. (r_id r, r_name r, r_uid r)) (rev rs)))"

definition list_roles_query ::
  "string \<Rightarrow> filter_node option \<Rightarrow> sort_spec list \<Rightarrow> 32 word \<Rightarrow> 32 word \<Rightarrow> (string \<times> string list) result" where
  "list_roles_query tenant_id filt sorts limit offset =
     bind_res (build filt sorts role_filter_fields 2) (\<lambda>built.
       Inr (''SELECT id, name, uid, parent_role_id FROM roles WHERE '' @ and_filter ''tenant_id = $1'' built
              @ order_or '' ORDER BY name'' built @ limit_offset limit offset,
            tenant_id # params built))"

definition roles_get_role_id_by_name :: "string \<Rightarrow> string \<Rightarrow> uuid option op" where
  "roles_get_role_id_by_name tenant_id name = gets (\<lambda>w. map_option r_id
     (find_first (\<lambda>r. r_tenant_id r = tenant_id \<and> r_name r = name) (t_roles w)))"

definition roles_get_role_id_by_uid :: "string \<Rightarrow> string \<Rightarrow> uuid option op" where
  "roles_get_role_id_by_uid tenant_id uid = gets (\<lambda>w. map_option r_id
     (find_first (\<lambda>r. r_tenant_id r = tenant_id \<and> r_uid r = uid) (t_roles w)))"

definition roles_resolve_role_uid :: "string \<Rightarrow> string \<Rightarrow> string option op" where
  "roles_resolve_role_uid tenant_id ident = gets (\<lambda>w. map_option r_uid
     (find_first (\<lambda>r. r_tenant_id r = tenant_id \<and> (r_uid r = ident \<or> r_name r = ident)) (t_roles w)))"

subsection \<open>Mutations\<close>

definition in_tenant :: "string \<Rightarrow> uuid \<Rightarrow> role \<Rightarrow> bool" where
  "in_tenant tenant_id rid r \<longleftrightarrow> r_id r = rid \<and> r_tenant_id r = tenant_id"

definition roles_validate_parent :: "string \<Rightarrow> uuid \<Rightarrow> uuid option \<Rightarrow> unit op" where
  "roles_validate_parent tenant_id parent_role_id child_role_id =
     bindE (sql_exists t_roles (in_tenant tenant_id parent_role_id)) (\<lambda>ex.
     bindE (unless ex (NotFound ''Parent role not found in tenant'')) (\<lambda>_.
       case child_role_id of
         None \<Rightarrow> ret ()
       | Some child_id \<Rightarrow>
           bindE (unless (parent_role_id \<noteq> child_id) (BadRequest ''A role cannot be its own parent'')) (\<lambda>_.
           bindE (gets (\<lambda>w. case find_first (\<lambda>r. r_id r = parent_role_id) (t_roles w) of
               None \<Rightarrow> Some []
             | Some r \<Rightarrow> map_option (Cons r)
                 (ancestor_chain (chain_fuel (t_roles w)) (t_roles w) tenant_id (r_parent_role_id r)))) (\<lambda>chain.
           case chain of
             None \<Rightarrow> throw no_answer
           | Some rs \<Rightarrow> unless (\<not> list_ex (\<lambda>r. r_id r = child_id) rs)
               (BadRequest ''Setting this parent would create a role hierarchy cycle'')))))"

definition role_uid_key :: "role \<Rightarrow> (string \<times> string) option" where
  "role_uid_key r = Some (r_tenant_id r, r_uid r)"

definition role_id_key :: "role \<Rightarrow> uuid option" where
  "role_id_key r = Some (r_id r)"

definition roles_violation :: "role \<Rightarrow> world \<Rightarrow> sqlx_error option" where
  "roles_violation r w =
     (if dup_key role_id_key r (t_roles w) \<or> dup_key role_uid_key r (t_roles w) then Some UniqueViolation
      else if \<not> list_ex (\<lambda>t. tn_id t = r_tenant_id r) (t_tenants w)
        then Some (OtherSqlError ''roles_tenant_id_fkey'')
      else None)"

definition roles_create :: "uuid \<Rightarrow> string \<Rightarrow> string \<Rightarrow> uuid option \<Rightarrow> (uuid \<times> string \<times> string) op" where
  "roles_create fresh tenant_id name0 parent_role_id =
     (let name = trim name0; uid = to_uid name;
          row = \<lparr>r_id = fresh, r_tenant_id = tenant_id, r_name = name, r_uid = uid, r_parent_role_id = parent_role_id\<rparr> in
      bindE (unless (name \<noteq> []) (BadRequest ''Role name is required'')) (\<lambda>_.
      bindE (roles_get_role_id_by_uid tenant_id uid) (\<lambda>ex.
      bindE (unless (ex = None) (Conflict (''A role with uid '' @ [CHR 0x27] @ uid @ [CHR 0x27]
               @ '' already exists for this tenant''))) (\<lambda>_.
      bindE (case parent_role_id of None \<Rightarrow> ret ()
             | Some parent_id \<Rightarrow> roles_validate_parent tenant_id parent_id None) (\<lambda>_.
      bindE (sql_insert t_roles_update (roles_violation row) row) (\<lambda>_.
        ret (fresh, name, uid)))))))"

definition roles_set_parent :: "string \<Rightarrow> uuid \<Rightarrow> uuid option \<Rightarrow> unit op" where
  "roles_set_parent tenant_id role_id parent_role_id =
     bindE (sql_exists t_roles (in_tenant tenant_id role_id)) (\<lambda>ex.
     bindE (unless ex (NotFound ''Role not found in tenant'')) (\<lambda>_.
     bindE (case parent_role_id of None \<Rightarrow> ret ()
            | Some parent_id \<Rightarrow> roles_validate_parent tenant_id parent_id (Some role_id)) (\<lambda>_.
       sql_update t_roles_update (in_tenant tenant_id role_id) (\<lambda>r. r\<lparr>r_parent_role_id := parent_role_id\<rparr>))))"

text \<open>
  \<^verbatim>\<open>DELETE FROM roles\<close> with the foreign keys of the migrations: rows of the junction tables
  go with the role (\<^verbatim>\<open>CASCADE\<close>), a child's parent becomes \<^verbatim>\<open>NULL\<close> (\<^verbatim>\<open>SET NULL\<close>).
\<close>

definition cascade_role :: "uuid \<Rightarrow> world \<Rightarrow> world" where
  "cascade_role rid w = w\<lparr>
     t_roles := update_rows (\<lambda>r. r_parent_role_id r = Some rid) (\<lambda>r. r\<lparr>r_parent_role_id := None\<rparr>)
       (filter (\<lambda>r. r_id r \<noteq> rid) (t_roles w)),
     t_role_permissions := filter (\<lambda>(r, p). r \<noteq> rid) (t_role_permissions w),
     t_user_roles := filter (\<lambda>(u, r). r \<noteq> rid) (t_user_roles w),
     t_group_roles := filter (\<lambda>(g, r). r \<noteq> rid) (t_group_roles w)\<rparr>"

definition roles_delete :: "string \<Rightarrow> uuid \<Rightarrow> bool op" where
  "roles_delete tenant_id role_id =
     bindE (sql_exists t_roles (in_tenant tenant_id role_id)) (\<lambda>ex.
       if ex then bindE (modify (cascade_role role_id)) (\<lambda>_. ret True) else ret False)"

definition roles_assign_role_to_user :: "string \<Rightarrow> uuid \<Rightarrow> uuid \<Rightarrow> unit op" where
  "roles_assign_role_to_user tenant_id user_id role_id =
     bindE (gets (\<lambda>w. list_ex (\<lambda>u. m_id u = user_id \<and> m_tenant_id u = tenant_id) (t_users w)
                    \<and> list_ex (in_tenant tenant_id role_id) (t_roles w))) (\<lambda>ok.
       if ok then
         sql_insert t_user_roles_update
           (\<lambda>w. if (user_id, role_id) \<in> set (t_user_roles w) then Some UniqueViolation else None)
           (user_id, role_id)
       else throw (NotFound ''User or role not found in tenant''))"

definition roles_remove_role_from_user :: "uuid \<Rightarrow> uuid \<Rightarrow> bool op" where
  "roles_remove_role_from_user user_id role_id =
     bindE (counting t_user_roles (\<lambda>p. p = (user_id, role_id))
              (sql_delete t_user_roles_update (\<lambda>p. p = (user_id, role_id)))) (\<lambda>n. ret (0 < n))"


subsection \<open>Slugs are well formed\<close>

lemma underscore_facts [simp]: "\<not> is_alphanumeric (CHR ''_'')" "lower_char (CHR ''_'') = CHR ''_''"
  by (simp_all add: char_class_defs lower_char_def)

text \<open>Dropping one trailing underscore, as \<^verbatim>\<open>to_uid\<close> does.\<close>

definition pop_underscore :: "string \<Rightarrow> string" where
  "pop_underscore s = (if s \<noteq> [] \<and> last s = CHR ''_'' then butlast s else s)"

lemma pop_underscore_simps [simp]:
  "pop_underscore [] = []"
  "c \<noteq> CHR ''_'' \<Longrightarrow> pop_underscore (c # s) = c # pop_underscore s"
  "s \<noteq> [] \<Longrightarrow> pop_underscore (c # s) = c # pop_underscore s"
  "pop_underscore ''_'' = []"
  by (auto simp: pop_underscore_def)

lemma uid_loop_slug:
  assumes "\<And>c. c \<in> set s \<Longrightarrow> \<not> is_ascii_uppercase c"
  shows "(b \<and> uid_loop b s = []) \<or> slug_from b (pop_underscore (uid_loop b s))"
  using assms
proof (induction b s rule: uid_loop.induct)
  case (2 b c cs)
  have up: "\<And>d. d \<in> set cs \<Longrightarrow> \<not> is_ascii_uppercase d" using "2.prems" by auto
  show ?case
  proof (cases "is_alphanumeric c")
    case True
    then have "c \<noteq> CHR ''_''" by auto
    with True "2.IH"(1) [OF True up] "2.prems" show ?thesis by auto
  next
    case False
    with "2.IH"(2) [OF False _ up] "2.IH"(3) [OF False _ up] show ?thesis
      by (cases b; cases "uid_loop True cs = []") auto
  qed
qed auto

lemma slug_to_uid: "slug (to_uid name)"
proof -
  have "\<not> is_ascii_uppercase c" if "c \<in> set (to_lowercase s)" for c s
    using that by (auto simp: to_lowercase_def)
  then have "uid_loop True (to_lowercase (trim name)) = [] \<or>
      slug_from True (pop_underscore (uid_loop True (to_lowercase (trim name))))"
    using uid_loop_slug [of "to_lowercase (trim name)" True] by blast
  then show ?thesis by (auto simp: to_uid_def slug_def pop_underscore_def Let_def)
qed

lemma slug_from_fixed: "slug_from b s \<Longrightarrow> uid_loop b s = s"
  by (induction b s rule: slug_from.induct) (auto split: if_splits)

lemma slug_from_last: "slug_from b s \<Longrightarrow> s \<noteq> [] \<Longrightarrow> last s \<noteq> CHR ''_''"
  by (induction b s rule: slug_from.induct) (auto split: if_splits)

lemma slug_from_chars:
  "slug_from b s \<Longrightarrow> c \<in> set s \<Longrightarrow> \<not> is_whitespace c \<and> \<not> is_ascii_uppercase c"
  by (induction b s rule: slug_from.induct) (auto simp: char_class_defs split: if_splits)

lemma to_uid_slug: "slug s \<Longrightarrow> to_uid s = s"
proof -
  assume "slug s"
  then consider "s = []" | "slug_from True s" by (auto simp: slug_def)
  then show ?thesis
  proof cases
    case 1
    then show ?thesis by (simp add: to_uid_def trim_def trim_start_def trim_end_def)
  next
    case 2
    have "trim s = s" using slug_from_chars [OF 2] by (intro trim_no_ws) auto
    moreover have "to_lowercase s = s"
      using slug_from_chars [OF 2] by (auto simp: to_lowercase_def lower_char_def intro!: map_idI)
    ultimately show ?thesis
      using slug_from_fixed [OF 2] slug_from_last [OF 2] by (auto simp: to_uid_def Let_def)
  qed
qed

subsection \<open>The union query computes reachability\<close>

definition parent_edges :: "role list \<Rightarrow> string \<Rightarrow> (role \<times> role) set" where
  "parent_edges roles tenant_id = {(a, b). a \<in> set roles \<and> b \<in> set roles
     \<and> r_tenant_id b = tenant_id \<and> r_parent_role_id a = Some (r_id b)}"

lemma parents_of_edges:
  "set work \<subseteq> set roles \<Longrightarrow> set (parents_of roles t work) = parent_edges roles t `` set work"
  by (auto simp: parents_of_def parent_edges_def list_ex_iff)

lemma role_closure_reach:
  assumes "set base \<subseteq> set acc" "set work \<subseteq> set acc" "set acc \<subseteq> set roles"
    "parent_edges roles t `` (set acc - set work) \<subseteq> set acc"
    "set acc \<subseteq> (parent_edges roles t)\<^sup>* `` set base"
  shows "set (role_closure roles t acc work) = (parent_edges roles t)\<^sup>* `` set base"
  using assms
proof (induction roles t acc work rule: role_closure.induct)
  case (1 roles t acc work)
  let ?E = "parent_edges roles t"
  show ?case
  proof (cases "work = []")
    case True
    then have "?E `` set acc \<subseteq> set acc" using "1.prems"(4) by simp
    then have "?E\<^sup>* `` set acc = set acc" by (rule Image_closed_trancl)
    with "1.prems"(1,5) True show ?thesis
      by (subst role_closure.simps) auto
  next
    case False
    define new where "new = filter (\<lambda>r. r \<notin> set acc) (remdups (parents_of roles t work))"
    have new: "set new = ?E `` set work - set acc"
      using "1.prems"(2,3) by (auto simp: new_def parents_of_edges)
    have "set (role_closure roles t (acc @ new) new) = ?E\<^sup>* `` set base"
    proof (rule "1.IH" [OF False new_def])
      show "set (acc @ new) \<subseteq> set roles"
        using "1.prems"(3) by (auto simp: new_def parents_of_def)
      show "?E `` (set (acc @ new) - set new) \<subseteq> set (acc @ new)"
        using "1.prems"(4) unfolding set_append new by blast
      show "set (acc @ new) \<subseteq> ?E\<^sup>* `` set base"
      proof -
        have "?E `` (?E\<^sup>* `` set base) \<subseteq> ?E\<^sup>* `` set base"
          by (auto intro: rtrancl_into_rtrancl)
        then show ?thesis using "1.prems"(2,5) unfolding set_append new by blast
      qed
    qed (use "1.prems"(1) in auto)
    then show ?thesis
      using False by (subst role_closure.simps) (simp add: new_def Let_def)
  qed
qed

lemma union_ancestors_reach:
  "set base \<subseteq> set roles \<Longrightarrow> set (union_ancestors roles t base) = (parent_edges roles t)\<^sup>* `` set base"
  unfolding union_ancestors_def Let_def by (subst role_closure_reach [where base = base]) auto

subsection \<open>The hierarchy invariant\<close>

text \<open>The parent edges between role ids.\<close>

definition hier :: "role list \<Rightarrow> (uuid \<times> uuid) set" where
  "hier roles = {(c, p). \<exists>r \<in> set roles. r_id r = c \<and> r_parent_role_id r = Some p}"

definition parents_in_tenant :: "role list \<Rightarrow> bool" where
  "parents_in_tenant roles \<longleftrightarrow> (\<forall>r \<in> set roles. \<forall>p. r_parent_role_id r = Some p \<longrightarrow>
     (\<exists>q \<in> set roles. r_id q = p \<and> r_tenant_id q = r_tenant_id r))"

definition role_table_ok :: "role list \<Rightarrow> bool" where
  "role_table_ok roles \<longleftrightarrow> unique_on role_id_key roles \<and> unique_on role_uid_key roles
     \<and> parents_in_tenant roles \<and> acyclic (hier roles)"

abbreviation roles_ok :: "world \<Rightarrow> bool" where
  "roles_ok w \<equiv> role_table_ok (t_roles w)"

lemma role_by_id_unique:
  "unique_on role_id_key roles \<Longrightarrow> r \<in> set roles \<Longrightarrow> q \<in> set roles \<Longrightarrow> r_id r = r_id q \<Longrightarrow> r = q"
  by (rule unique_onD [where f = role_id_key]) (auto simp: role_id_key_def)

lemma find_role:
  assumes "unique_on role_id_key roles" "r \<in> set roles" "r_id r = x" "r_tenant_id r = t"
  shows "find_first (\<lambda>r. r_id r = x \<and> r_tenant_id r = t) roles = Some r"
  using assms by (intro find_first_unique) (auto intro: role_by_id_unique)

lemma find_role_id:
  assumes "unique_on role_id_key roles" "r \<in> set roles" "r_id r = x"
  shows "find_first (\<lambda>r. r_id r = x) roles = Some r"
  using assms by (intro find_first_unique) (auto intro: role_by_id_unique)

definition ancestor_ids :: "role list \<Rightarrow> uuid \<Rightarrow> uuid set" where
  "ancestor_ids roles x = (hier roles)\<^sup>* `` {x} \<inter> r_id ` set roles"

lemma ancestor_ids_parent:
  assumes "acyclic (hier roles)" "(x, y) \<in> hier roles"
  shows "ancestor_ids roles y \<subset> ancestor_ids roles x"
proof
  show "ancestor_ids roles y \<subseteq> ancestor_ids roles x"
    using assms(2) by (auto simp: ancestor_ids_def intro: converse_rtrancl_into_rtrancl)
  have "x \<in> ancestor_ids roles x" using assms(2) by (auto simp: ancestor_ids_def hier_def)
  moreover have "x \<notin> ancestor_ids roles y"
    using assms by (auto simp: ancestor_ids_def acyclic_def dest: rtrancl_into_trancl2)
  ultimately show "ancestor_ids roles y \<noteq> ancestor_ids roles x" by blast
qed

lemma ancestor_chain_returns:
  assumes ac: "acyclic (hier roles)"
  shows "(\<forall>x. p = Some x \<longrightarrow> card (ancestor_ids roles x) < n) \<Longrightarrow> \<exists>c. ancestor_chain n roles t p = Some c"
proof (induction n arbitrary: p)
  case 0
  then show ?case by (cases p) auto
next
  case (Suc n)
  show ?case
  proof (cases p)
    case (Some x)
    show ?thesis
    proof (cases "find_first (\<lambda>r. r_id r = x \<and> r_tenant_id r = t) roles")
      case None
      with Some show ?thesis by simp
    next
      case f: (Some r)
      then have r: "r \<in> set roles" "r_id r = x" by (auto dest: find_first_SomeD)
      have "card (ancestor_ids roles y) < n" if "r_parent_role_id r = Some y" for y
      proof -
        have "(x, y) \<in> hier roles" using r that by (auto simp: hier_def)
        then have "card (ancestor_ids roles y) < card (ancestor_ids roles x)"
          using ac by (intro psubset_card_mono ancestor_ids_parent) (auto simp: ancestor_ids_def)
        then show ?thesis using Suc.prems Some by fastforce
      qed
      then obtain c where "ancestor_chain n roles t (r_parent_role_id r) = Some c"
        using Suc.IH by blast
      with Some f show ?thesis by simp
    qed
  qed simp
qed

lemma ancestor_chain_enough_fuel:
  "acyclic (hier roles) \<Longrightarrow> \<exists>c. ancestor_chain (chain_fuel roles) roles t p = Some c"
proof (rule ancestor_chain_returns)
  show "\<forall>x. p = Some x \<longrightarrow> card (ancestor_ids roles x) < chain_fuel roles"
  proof (intro allI impI)
    fix x
    have "card (ancestor_ids roles x) \<le> card (r_id ` set roles)"
      by (rule card_mono) (auto simp: ancestor_ids_def)
    also have "\<dots> \<le> length roles"
      by (metis card_image_le card_length finite_set le_trans)
    finally show "card (ancestor_ids roles x) < chain_fuel roles" by (simp add: chain_fuel_def)
  qed
qed

text \<open>The chain of a role of the tenant is exactly its ancestors, itself included.\<close>

lemma ancestor_chain_ids:
  assumes u: "unique_on role_id_key roles" and pt: "parents_in_tenant roles"
  shows "ancestor_chain n roles t (Some x) = Some c \<Longrightarrow> r \<in> set roles \<Longrightarrow> r_id r = x \<Longrightarrow> r_tenant_id r = t
    \<Longrightarrow> r_id ` set c = (hier roles)\<^sup>* `` {x}"
proof (induction n arbitrary: x c r)
  case (Suc n)
  have f: "find_first (\<lambda>r. r_id r = x \<and> r_tenant_id r = t) roles = Some r"
    using u Suc.prems by (intro find_role)
  then obtain c' where c': "ancestor_chain n roles t (r_parent_role_id r) = Some c'" "c = r # c'"
    using Suc.prems(1) by auto
  have edge: "(x, y) \<in> hier roles \<longleftrightarrow> r_parent_role_id r = Some y" for y
    using Suc.prems u by (auto simp: hier_def dest: role_by_id_unique)
  have unfold_star: "(hier roles)\<^sup>* `` {x} = insert x ((hier roles)\<^sup>* `` (hier roles `` {x}))"
    by (auto elim: converse_rtranclE intro: converse_rtrancl_into_rtrancl)
  show ?case
  proof (cases "r_parent_role_id r")
    case None
    then have "hier roles `` {x} = {}" using edge by auto
    with None c' Suc.prems(3) show ?thesis by (subst unfold_star) auto
  next
    case (Some y)
    then obtain q where q: "q \<in> set roles" "r_id q = y" "r_tenant_id q = t"
      using pt Suc.prems by (auto simp: parents_in_tenant_def)
    have "r_id ` set c' = (hier roles)\<^sup>* `` {y}"
      using Suc.IH [OF _ q] c'(1) Some by simp
    moreover have "hier roles `` {x} = {y}" using edge Some by auto
    ultimately show ?thesis using c'(2) Suc.prems(3) by (subst unfold_star) auto
  qed
qed simp

subsection \<open>Every operation keeps the invariant\<close>

lemma hier_append: "hier (roles @ [r]) = hier roles \<union> (case r_parent_role_id r of None \<Rightarrow> {} | Some p \<Rightarrow> {(r_id r, p)})"
  by (auto simp: hier_def split: option.splits)

lemma acyclic_new_role:
  assumes "acyclic (hier roles)" "parents_in_tenant roles" "r_id r \<notin> r_id ` set roles"
    "\<And>p. r_parent_role_id r = Some p \<Longrightarrow> p \<in> r_id ` set roles"
  shows "acyclic (hier (roles @ [r]))"
proof (cases "r_parent_role_id r")
  case None
  with assms(1) show ?thesis by (simp add: hier_append)
next
  case (Some p)
  have "y \<noteq> r_id r" if e: "(x, y) \<in> hier roles" for x y
  proof -
    obtain a where a: "a \<in> set roles" "r_parent_role_id a = Some y"
      using e by (auto simp: hier_def)
    then obtain q where "q \<in> set roles" "r_id q = y"
      using assms(2) unfolding parents_in_tenant_def by blast
    then show ?thesis using assms(3) by (metis image_eqI)
  qed
  moreover have "p \<noteq> r_id r" using assms(3) assms(4) [OF Some] by metis
  ultimately have "(p, r_id r) \<notin> (hier roles)\<^sup>*" by (blast elim: rtranclE)
  with assms(1) Some show ?thesis by (simp add: hier_append acyclic_insert)
qed

lemma role_table_ok_insert:
  assumes "role_table_ok (t_roles w)" "roles_violation r w = None"
    "\<And>p. r_parent_role_id r = Some p \<Longrightarrow> list_ex (in_tenant (r_tenant_id r) p) (t_roles w)"
  shows "role_table_ok (t_roles w @ [r])"
proof -
  have d: "\<not> dup_key role_id_key r (t_roles w)" "\<not> dup_key role_uid_key r (t_roles w)"
    using assms(2) by (auto simp: roles_violation_def split: if_splits)
  have fresh: "r_id r \<notin> r_id ` set (t_roles w)"
    using d(1) by (auto simp: dup_key_def set_keyed role_id_key_def)
  have "parents_in_tenant (t_roles w @ [r])"
    using assms(1,3) by (fastforce simp: role_table_ok_def parents_in_tenant_def list_ex_iff in_tenant_def)
  moreover have "acyclic (hier (t_roles w @ [r]))"
    using assms(1,3) fresh by (intro acyclic_new_role)
      (fastforce simp: role_table_ok_def list_ex_iff in_tenant_def)+
  ultimately show ?thesis
    using assms(1) d by (simp add: role_table_ok_def unique_on_append)
qed

lemma acyclic_reparent:
  assumes "acyclic (hier roles)" "\<And>p. parent = Some p \<Longrightarrow> (p, x) \<notin> (hier roles)\<^sup>*"
  shows "acyclic (hier (update_rows (in_tenant t x) (\<lambda>r. r\<lparr>r_parent_role_id := parent\<rparr>) roles))"
proof (rule acyclic_subset)
  let ?new = "case parent of None \<Rightarrow> {} | Some p \<Rightarrow> {(x, p)}"
  show "hier (update_rows (in_tenant t x) (\<lambda>r. r\<lparr>r_parent_role_id := parent\<rparr>) roles) \<subseteq> hier roles \<union> ?new"
    by (auto simp: hier_def set_update_rows in_tenant_def split: option.splits if_splits)
  show "acyclic (hier roles \<union> ?new)"
    using assms by (cases parent) (simp_all add: acyclic_insert)
qed

lemma parents_in_tenant_map:
  assumes keep: "\<And>r. r_id (f r) = r_id r" "\<And>r. r_tenant_id (f r) = r_tenant_id r"
    and par: "\<And>r p. r \<in> set roles \<Longrightarrow> r_parent_role_id (f r) = Some p \<Longrightarrow>
      \<exists>q \<in> set roles. r_id q = p \<and> r_tenant_id q = r_tenant_id r"
  shows "parents_in_tenant (map f roles)"
  unfolding parents_in_tenant_def
proof (intro ballI allI impI)
  fix r' p
  assume "r' \<in> set (map f roles)" and p: "r_parent_role_id r' = Some p"
  then obtain r where r: "r \<in> set roles" "r' = f r" by auto
  then obtain q where "q \<in> set roles" "r_id q = p" "r_tenant_id q = r_tenant_id r"
    using par p by blast
  then show "\<exists>q' \<in> set (map f roles). r_id q' = p \<and> r_tenant_id q' = r_tenant_id r'"
    using keep r by (intro bexI [of _ "f q"]) auto
qed

lemma role_keys_update:
  "role_table_ok roles \<Longrightarrow> unique_on role_id_key (update_rows P (\<lambda>r. r\<lparr>r_parent_role_id := x\<rparr>) (filter Q roles))
     \<and> unique_on role_uid_key (update_rows P (\<lambda>r. r\<lparr>r_parent_role_id := x\<rparr>) (filter Q roles))"
  by (auto simp: role_table_ok_def role_id_key_def role_uid_key_def
      intro!: unique_on_update_rows unique_on_filter)

lemma role_table_ok_reparent:
  assumes ok: "role_table_ok roles"
    and p: "\<And>p. parent = Some p \<Longrightarrow> list_ex (in_tenant t p) roles \<and> (p, x) \<notin> (hier roles)\<^sup>*"
  shows "role_table_ok (update_rows (in_tenant t x) (\<lambda>r. r\<lparr>r_parent_role_id := parent\<rparr>) roles)"
proof -
  have "parents_in_tenant (update_rows (in_tenant t x) (\<lambda>r. r\<lparr>r_parent_role_id := parent\<rparr>) roles)"
    unfolding update_rows_def
    using ok p by (intro parents_in_tenant_map)
      (auto simp: role_table_ok_def parents_in_tenant_def list_ex_iff in_tenant_def split: if_splits)
  moreover have "acyclic (hier (update_rows (in_tenant t x) (\<lambda>r. r\<lparr>r_parent_role_id := parent\<rparr>) roles))"
    using ok p by (intro acyclic_reparent) (auto simp: role_table_ok_def)
  ultimately show ?thesis
    using role_keys_update [OF ok, of _ _ "\<lambda>_. True"] by (simp add: role_table_ok_def)
qed

lemma role_table_ok_delete:
  assumes ok: "role_table_ok roles"
  shows "role_table_ok (update_rows (\<lambda>r. r_parent_role_id r = Some x) (\<lambda>r. r\<lparr>r_parent_role_id := None\<rparr>)
    (filter (\<lambda>r. r_id r \<noteq> x) roles))" (is "role_table_ok ?new")
proof -
  have "hier ?new \<subseteq> hier roles"
    by (auto simp: hier_def set_update_rows split: if_splits)
  then have "acyclic (hier ?new)"
    using ok by (auto simp: role_table_ok_def intro: acyclic_subset)
  moreover have "parents_in_tenant ?new"
    unfolding update_rows_def
  proof (rule parents_in_tenant_map)
    fix r p
    assume r: "r \<in> set (filter (\<lambda>r. r_id r \<noteq> x) roles)"
      and p: "r_parent_role_id (if r_parent_role_id r = Some x then r\<lparr>r_parent_role_id := None\<rparr> else r) = Some p"
    then have "r_parent_role_id r = Some p" "p \<noteq> x" by (auto split: if_splits)
    with r ok show "\<exists>q \<in> set (filter (\<lambda>r. r_id r \<noteq> x) roles). r_id q = p \<and> r_tenant_id q = r_tenant_id r"
      by (fastforce simp: role_table_ok_def parents_in_tenant_def)
  qed auto
  ultimately show ?thesis
    using role_keys_update [OF ok] by (simp add: role_table_ok_def)
qed

text \<open>What a successful \<^verbatim>\<open>validate_parent\<close> has established.\<close>

lemma validate_parent_None:
  "roles_validate_parent t p None w = (Inr (), w') \<Longrightarrow> w' = w \<and> list_ex (in_tenant t p) (t_roles w)"
  by (auto simp: roles_validate_parent_def bindE_Inr_iff split: if_splits)

lemma validate_parent_Some:
  assumes ok: "roles_ok w" and v: "roles_validate_parent t p (Some c) w = (Inr (), w')"
  shows "w' = w \<and> list_ex (in_tenant t p) (t_roles w) \<and> (p, c) \<notin> (hier (t_roles w))\<^sup>*"
proof -
  have u: "unique_on role_id_key (t_roles w)" and pt: "parents_in_tenant (t_roles w)"
    using ok by (auto simp: role_table_ok_def)
  have ex: "list_ex (in_tenant t p) (t_roles w)"
    using v by (auto simp: roles_validate_parent_def bindE_Inr_iff split: if_splits)
  then obtain r where r: "r \<in> set (t_roles w)" "r_id r = p" "r_tenant_id r = t"
    by (auto simp: list_ex_iff in_tenant_def)
  have f: "find_first (\<lambda>r. r_id r = p) (t_roles w) = Some r"
    using u r by (intro find_role_id)
  obtain c' where c': "ancestor_chain (chain_fuel (t_roles w)) (t_roles w) t (r_parent_role_id r) = Some c'"
    using ok ancestor_chain_enough_fuel by (metis role_table_ok_def)
  then have "ancestor_chain (Suc (chain_fuel (t_roles w))) (t_roles w) t (Some p) = Some (r # c')"
    using find_role [OF u r(1)] r by simp
  then have ids: "r_id ` set (r # c') = (hier (t_roles w))\<^sup>* `` {p}"
    using ancestor_chain_ids [OF u pt _ r] by blast
  have "w' = w" "c \<notin> r_id ` set (r # c')"
    using v f c' by (auto simp: roles_validate_parent_def bindE_Inr_iff list_ex_iff split: if_splits)
  with ids ex show ?thesis by (metis Image_singleton_iff)
qed

lemma roles_reads_readonly [readonly_rules, simp]:
  "readonly (roles_get_role_id_by_uid t u)" "readonly (roles_get_role_id_by_name t n)"
  "readonly (roles_resolve_role_uid t n)" "readonly (roles_get_user_permissions t v)"
  "readonly (roles_get_user_roles t v)" "readonly (roles_get_user_role_ids t v)"
  "readonly (roles_get_user_roles_detail t v)" "readonly (roles_get_role_ancestors t v)"
  by (auto simp: roles_get_role_id_by_uid_def roles_get_role_id_by_name_def roles_resolve_role_uid_def
      roles_get_user_permissions_def roles_get_user_roles_def roles_get_user_role_ids_def
      roles_get_user_roles_detail_def roles_get_role_ancestors_def)

lemma readonly_validate_parent [readonly_rules, simp]: "readonly (roles_validate_parent t p c)"
  unfolding roles_validate_parent_def by (intro readonly_rules)

lemma roles_create_keeps [keeps_rules]: "keeps roles_ok (roles_create fresh t n p)"
  unfolding roles_create_def Let_def
proof (rule keeps_ends, (rule ends_bind_read, (intro readonly_rules)[1], assumption)+)
  fix w :: world and ex :: "uuid option" and u :: unit
  assume ok: "roles_ok w"
    and v: "(case p of None \<Rightarrow> ret () | Some q \<Rightarrow> roles_validate_parent t q None) w = (Inr u, w)"
  let ?row = "\<lparr>r_id = fresh, r_tenant_id = t, r_name = trim n, r_uid = to_uid (trim n), r_parent_role_id = p\<rparr>"
  have "list_ex (in_tenant t q) (t_roles w)" if "p = Some q" for q
    using v that validate_parent_None [of t q w w] by auto
  then show "ends_in roles_ok (bindE (sql_insert t_roles_update (roles_violation ?row) ?row)
      (\<lambda>_. ret (fresh, trim n, to_uid (trim n)))) w"
    using ok by (auto simp: ends_in_def bindE_run split: option.split intro!: role_table_ok_insert)
qed

lemma roles_set_parent_keeps [keeps_rules]: "keeps roles_ok (roles_set_parent t c p)"
  unfolding roles_set_parent_def
proof (intro keeps_ends ends_bind_read readonly_rules)
  fix w :: world and ex u
  assume ok: "roles_ok w"
    and v: "(case p of None \<Rightarrow> ret () | Some q \<Rightarrow> roles_validate_parent t q (Some c)) w = (Inr u, w)"
  have "list_ex (in_tenant t q) (t_roles w) \<and> (q, c) \<notin> (hier (t_roles w))\<^sup>*" if "p = Some q" for q
    using v that validate_parent_Some [OF ok, of t q c w] by auto
  then have "role_table_ok (update_rows (in_tenant t c) (\<lambda>r. r\<lparr>r_parent_role_id := p\<rparr>) (t_roles w))"
    using ok by (intro role_table_ok_reparent)
  then show "ends_in roles_ok (sql_update t_roles_update (in_tenant t c) (\<lambda>r. r\<lparr>r_parent_role_id := p\<rparr>)) w"
    by (simp add: ends_in_def)
qed

lemma roles_keep_ok [keeps_rules]:
  "keeps roles_ok (roles_delete t r)"
  "keeps roles_ok (roles_assign_role_to_user t u r)"
  "keeps roles_ok (roles_remove_role_from_user u r)"
  by (auto simp: roles_delete_def roles_assign_role_to_user_def roles_remove_role_from_user_def cascade_role_def
      intro!: keeps_bindE keeps_if keeps_modify keeps_insert keeps_delete keeps_counting role_table_ok_delete)


subsection \<open>Sequences of role operations\<close>

inductive roles_run :: "world \<Rightarrow> world \<Rightarrow> bool" for w0 :: world where
  start: "roles_run w0 w0"
| create: "roles_run w0 w \<Longrightarrow> roles_create fresh t n p w = (r1, w') \<Longrightarrow> roles_run w0 w'"
| set_parent: "roles_run w0 w \<Longrightarrow> roles_set_parent t c p w = (r2, w') \<Longrightarrow> roles_run w0 w'"
| delete: "roles_run w0 w \<Longrightarrow> roles_delete t c w = (r3, w') \<Longrightarrow> roles_run w0 w'"
| assign: "roles_run w0 w \<Longrightarrow> roles_assign_role_to_user t u c w = (r2, w') \<Longrightarrow> roles_run w0 w'"
| unassign: "roles_run w0 w \<Longrightarrow> roles_remove_role_from_user u c w = (r3, w') \<Longrightarrow> roles_run w0 w'"

lemma roles_run_ok: "roles_run w0 w \<Longrightarrow> roles_ok w0 \<Longrightarrow> roles_ok w"
  by (induction rule: roles_run.induct)
    (blast dest: keepsD [OF roles_create_keeps] keepsD [OF roles_set_parent_keeps]
       keepsD [OF roles_keep_ok(1)] keepsD [OF roles_keep_ok(2)] keepsD [OF roles_keep_ok(3)])+

lemma empty_roles_ok: "role_table_ok []"
  by (simp add: role_table_ok_def parents_in_tenant_def hier_def acyclic_def)

lemma role_ancestors_run:
  assumes ok: "roles_ok w" and r: "r \<in> set (t_roles w)"
  shows "\<exists>l. roles_get_role_ancestors (r_tenant_id r) (r_id r) w = (Inr l, w)
    \<and> fst ` set l = (hier (t_roles w))\<^sup>+ `` {r_id r}"
proof -
  let ?H = "hier (t_roles w)" and ?t = "r_tenant_id r"
  have u: "unique_on role_id_key (t_roles w)" and pt: "parents_in_tenant (t_roles w)"
    using ok by (auto simp: role_table_ok_def)
  have f: "find_first (\<lambda>q. r_id q = r_id r \<and> r_tenant_id q = ?t) (t_roles w) = Some r"
    using u r by (intro find_role) auto
  obtain c where c: "ancestor_chain (chain_fuel (t_roles w)) (t_roles w) ?t (r_parent_role_id r) = Some c"
    using ok ancestor_chain_enough_fuel by (metis role_table_ok_def)
  have edge: "?H `` {r_id r} = set_option (r_parent_role_id r)"
    using u r by (auto simp: hier_def dest: role_by_id_unique)
  have "r_id ` set c = ?H\<^sup>* `` (?H `` {r_id r})"
  proof (cases "r_parent_role_id r")
    case None
    with c edge show ?thesis by simp
  next
    case (Some y)
    then obtain q where q: "q \<in> set (t_roles w)" "r_id q = y" "r_tenant_id q = ?t"
      using pt r by (auto simp: parents_in_tenant_def)
    with ancestor_chain_ids [OF u pt _ q] c Some edge show ?thesis by simp
  qed
  also have "\<dots> = ?H\<^sup>+ `` {r_id r}"
    by (auto dest: tranclD intro: rtrancl_into_trancl2)
  finally show ?thesis
    using f c by (force simp: roles_get_role_ancestors_def image_image)
qed

subsection \<open>Properties\<close>

text \<open>
  C17. The role hierarchy stays acyclic and inside one tenant: after any sequence of role
  creations, re-parentings, deletions and (un)assignments, successful or not, no role is
  its own ancestor and every parent is a role of the same tenant.
\<close>

theorem role_hierarchy_invariant:
  "roles_run w0 w \<Longrightarrow> t_roles w0 = [] \<Longrightarrow>
     acyclic (hier (t_roles w)) \<and> parents_in_tenant (t_roles w)"
  using roles_run_ok [of w0 w] empty_roles_ok by (simp add: role_table_ok_def)

theorem role_hierarchy_invariant_witness:
  "acyclic (hier (t_roles (snd (roles_set_parent ''acme'' 1 (Some 2)
     (snd (roles_create 2 ''acme'' ''Super Admin'' (Some 1)
       (snd (roles_create 1 ''acme'' ''Admin'' None world0)))))))) \<and>
   parents_in_tenant (t_roles (snd (roles_set_parent ''acme'' 1 (Some 2)
     (snd (roles_create 2 ''acme'' ''Super Admin'' (Some 1)
       (snd (roles_create 1 ''acme'' ''Admin'' None world0)))))))"
proof (rule role_hierarchy_invariant)
  let ?w1 = "snd (roles_create 1 ''acme'' ''Admin'' None world0)"
  let ?w2 = "snd (roles_create 2 ''acme'' ''Super Admin'' (Some 1) ?w1)"
  have "roles_run world0 ?w1" by (rule roles_run.create [OF roles_run.start prod.collapse [symmetric]])
  then have "roles_run world0 ?w2" by (rule roles_run.create [OF _ prod.collapse [symmetric]])
  then show "roles_run world0 (snd (roles_set_parent ''acme'' 1 (Some 2) ?w2))"
    by (rule roles_run.set_parent [OF _ prod.collapse [symmetric]])
  show "t_roles world0 = []" by (simp add: world0_def)
qed

text \<open>
  C40. The ancestor query of a role returns, although it recurses without a duplicate check:
  in a consistent table it yields exactly the proper ancestors of the role.
\<close>

theorem role_ancestors_correct:
  "roles_ok w \<Longrightarrow> r \<in> set (t_roles w) \<Longrightarrow>
   \<exists>l. roles_get_role_ancestors (r_tenant_id r) (r_id r) w = (Inr l, w)
     \<and> fst ` set l = (hier (t_roles w))\<^sup>+ `` {r_id r}"
  by (rule role_ancestors_run)

abbreviation role_row :: "uuid \<Rightarrow> string \<Rightarrow> uuid option \<Rightarrow> role" where
  "role_row i n p \<equiv> \<lparr>r_id = i, r_tenant_id = ''acme'', r_name = n, r_uid = n, r_parent_role_id = p\<rparr>"

theorem role_ancestors_correct_witness:
  "\<exists>l. roles_get_role_ancestors ''acme'' 2 (world0\<lparr>t_roles := [role_row 1 ''admin'' None, role_row 2 ''ops'' (Some 1)]\<rparr>)
       = (Inr l, world0\<lparr>t_roles := [role_row 1 ''admin'' None, role_row 2 ''ops'' (Some 1)]\<rparr>)
     \<and> fst ` set l = (hier [role_row 1 ''admin'' None, role_row 2 ''ops'' (Some 1)])\<^sup>+ `` {2}"
proof -
  let ?rs = "[role_row 1 ''admin'' None, role_row 2 ''ops'' (Some 1)]"
  have h: "hier ?rs = {(2, 1)}" by (auto simp: hier_def)
  have "acyclic ({} :: (nat \<times> nat) set)" by (simp add: acyclic_def)
  then have "acyclic {(2 :: nat, 1 :: nat)}" by (simp add: acyclic_insert)
  then have "role_table_ok ?rs"
    unfolding role_table_ok_def h
    by (simp add: unique_on_def role_id_key_def role_uid_key_def parents_in_tenant_def)
  then show ?thesis
    using role_ancestors_correct [of "world0\<lparr>t_roles := ?rs\<rparr>" "role_row 2 ''ops'' (Some 1)"] by simp
qed

text \<open>
  C39. A user's effective permissions are exactly the permissions of the tenant attached to
  a role the user holds directly or to an ancestor of such a role, on every table, cyclic or
  not; the query never invents and never loses one.
\<close>

theorem user_permissions_correct:
  "\<exists>ps. roles_get_user_permissions t u w = (Inr ps, w) \<and> distinct ps \<and>
     set ps = {p_name p | p. p \<in> set (t_permissions w) \<and> p_tenant_id p = t \<and>
       (\<exists>r \<in> (parent_edges (t_roles w) t)\<^sup>* `` set (direct_roles w t u).
          (r_id r, p_id p) \<in> set (t_role_permissions w))}"
proof -
  have "set (effective_roles w t u) = (parent_edges (t_roles w) t)\<^sup>* `` set (direct_roles w t u)"
    unfolding effective_roles_def by (rule union_ancestors_reach) (auto simp: direct_roles_def)
  then show ?thesis
    by (auto simp: roles_get_user_permissions_def permissions_of_roles_def list_ex_iff)
qed

text \<open>
  A role's or group's uid is a slug (lower-case alphanumeric words joined by single
  underscores, none leading or trailing), and the conversion leaves a slug unchanged, so it
  is idempotent.
\<close>

theorem to_uid_correct: "slug (to_uid name) \<and> to_uid (to_uid name) = to_uid name"
  using slug_to_uid to_uid_slug by simp

end
