(* ===== verification/Groups_Repo.thy ===== *)
theory Groups_Repo
  imports Roles_Repo
begin

section \<open>Groups\<close>

text \<open>
  \<^verbatim>\<open>src/repo/groups.rs\<close>: groups of users, the roles assigned to them and what a user inherits
  through its groups. The recursive queries are those of \<^verbatim>\<open>Roles_Repo\<close>, started from the roles
  of the user's groups.
\<close>

definition group_uid_key :: "group \<Rightarrow> (string \<times> string) option" where
  "group_uid_key g = Some (g_tenant_id g, g_uid g)"

definition group_name_key :: "group \<Rightarrow> (string \<times> string) option" where
  "group_name_key g = Some (g_tenant_id g, g_name g)"

definition group_id_key :: "group \<Rightarrow> uuid option" where
  "group_id_key g = Some (g_id g)"

definition groups_violation :: "group \<Rightarrow> world \<Rightarrow> sqlx_error option" where
  "groups_violation g w =
     (if dup_key group_id_key g (t_groups w) \<or> dup_key group_name_key g (t_groups w)
         \<or> dup_key group_uid_key g (t_groups w) then Some UniqueViolation
      else if \<not> list_ex (\<lambda>t. tn_id t = g_tenant_id g) (t_tenants w)
        then Some (OtherSqlError ''groups_tenant_id_fkey'')
      else None)"

definition group_in :: "string \<Rightarrow> uuid \<Rightarrow> group \<Rightarrow> bool" where
  "group_in tenant_id gid g \<longleftrightarrow> g_tenant_id g = tenant_id \<and> g_id g = gid"

subsection \<open>Groups\<close>

definition groups_create :: "uuid \<Rightarrow> string \<Rightarrow> string \<Rightarrow> string option \<Rightarrow> (uuid \<times> string \<times> string) op" where
  "groups_create fresh tenant_id name0 description =
     (let name = trim name0; uid = to_uid name;
          row = \<lparr>g_id = fresh, g_tenant_id = tenant_id, g_name = name, g_uid = uid, g_description = description\<rparr> in
      bindE (unless (name \<noteq> []) (BadRequest ''Group name is required'')) (\<lambda>_.
      bindE (sql_exists t_groups (\<lambda>g. g_tenant_id g = tenant_id \<and> g_uid g = uid)) (\<lambda>existing.
      bindE (unless (\<not> existing) (Conflict (''A group with uid '' @ [CHR 0x27] @ uid @ [CHR 0x27]
               @ '' already exists for this tenant''))) (\<lambda>_.
      bindE (sql_insert t_groups_update (groups_violation row) row) (\<lambda>_.
        ret (fresh, name, uid))))))"

definition groups_list_query ::
  "string \<Rightarrow> filter_node option \<Rightarrow> sort_spec list \<Rightarrow> 32 word \<Rightarrow> 32 word \<Rightarrow> (string \<times> string list) result" where
  "groups_list_query tenant_id filt sorts limit offset =
     bind_res (build filt sorts group_filter_fields 2) (\<lambda>built.
       Inr (''SELECT id, name, uid, description FROM groups WHERE '' @ and_filter ''tenant_id = $1'' built
              @ order_or '' ORDER BY name'' built @ limit_offset limit offset,
            tenant_id # params built))"

definition group_view :: "group \<Rightarrow> string \<times> string \<times> string option" where
  "group_view g = (g_name g, g_uid g, g_description g)"

definition groups_get :: "string \<Rightarrow> uuid \<Rightarrow> (string \<times> string \<times> string option) option op" where
  "groups_get tenant_id gid = gets (\<lambda>w. map_option group_view (find_first (group_in tenant_id gid) (t_groups w)))"

text \<open>
  \<^verbatim>\<open>name\<close>: \<open>None\<close> leaves it; \<^verbatim>\<open>description\<close>: \<open>None\<close> leaves it, \<open>Some None\<close> clears it. The
  \<^verbatim>\<open>UPDATE\<close> is also subject to the unique name of the table.
\<close>

definition groups_update :: "string \<Rightarrow> uuid \<Rightarrow> string option \<Rightarrow> string option option
    \<Rightarrow> (string \<times> string \<times> string option) option op" where
  "groups_update tenant_id gid name0 description =
     (let name = map_option trim name0;
          f = (\<lambda>g. g\<lparr>g_name := (case name of None \<Rightarrow> g_name g | Some n \<Rightarrow> n),
                      g_description := (case description of None \<Rightarrow> g_description g | Some d \<Rightarrow> d)\<rparr>) in
      bindE (case name of None \<Rightarrow> ret () | Some n \<Rightarrow>
          bindE (unless (n \<noteq> []) (BadRequest ''Group name cannot be empty'')) (\<lambda>_.
          bindE (sql_exists t_groups (\<lambda>g. g_tenant_id g = tenant_id \<and> g_name g = n \<and> g_id g \<noteq> gid)) (\<lambda>existing.
            unless (\<not> existing) (Conflict (''A group named '' @ [CHR 0x27] @ n @ [CHR 0x27]
              @ '' already exists for this tenant''))))) (\<lambda>_.
      bindE (sql_update t_groups_update (group_in tenant_id gid) f) (\<lambda>_.
        gets (\<lambda>w. map_option group_view (find_first (group_in tenant_id gid) (t_groups w))))))"

definition cascade_group :: "uuid \<Rightarrow> world \<Rightarrow> world" where
  "cascade_group gid w = w\<lparr>
     t_groups := filter (\<lambda>g. g_id g \<noteq> gid) (t_groups w),
     t_user_groups := filter (\<lambda>(u, g). g \<noteq> gid) (t_user_groups w),
     t_group_roles := filter (\<lambda>(g, r). g \<noteq> gid) (t_group_roles w)\<rparr>"

definition groups_delete :: "string \<Rightarrow> uuid \<Rightarrow> bool op" where
  "groups_delete tenant_id gid =
     bindE (sql_exists t_groups (group_in tenant_id gid)) (\<lambda>ex.
       if ex then bindE (modify (cascade_group gid)) (\<lambda>_. ret True) else ret False)"

subsection \<open>Members and roles\<close>

text \<open>\<^verbatim>\<open>INSERT .. ON CONFLICT DO NOTHING\<close>, with the number of rows inserted.\<close>

definition insert_pair ::
  "(world \<Rightarrow> ('a \<times> 'b) list) \<Rightarrow> ((('a \<times> 'b) list \<Rightarrow> ('a \<times> 'b) list) \<Rightarrow> world \<Rightarrow> world)
   \<Rightarrow> (world \<Rightarrow> bool) \<Rightarrow> 'a \<times> 'b \<Rightarrow> nat op" where
  "insert_pair tab upd cond p = bindE (gets (\<lambda>w. cond w \<and> p \<notin> set (tab w))) (\<lambda>new.
     if new then bindE (modify (upd (\<lambda>rows. rows @ [p]))) (\<lambda>_. ret 1) else ret 0)"

definition groups_add_user :: "string \<Rightarrow> uuid \<Rightarrow> uuid \<Rightarrow> unit op" where
  "groups_add_user tenant_id gid user_id =
     bindE (insert_pair t_user_groups t_user_groups_update
         (\<lambda>w. list_ex (\<lambda>u. m_id u = user_id \<and> m_tenant_id u = tenant_id) (t_users w)
            \<and> list_ex (group_in tenant_id gid) (t_groups w)) (user_id, gid)) (\<lambda>n.
     if n = 0 then
       bindE (sql_exists t_groups (group_in tenant_id gid)) (\<lambda>ex.
         unless ex (NotFound ''Group not found in tenant''))
     else ret ())"

definition groups_remove_user :: "uuid \<Rightarrow> uuid \<Rightarrow> bool op" where
  "groups_remove_user gid user_id =
     bindE (counting t_user_groups (\<lambda>p. p = (user_id, gid))
              (sql_delete t_user_groups_update (\<lambda>p. p = (user_id, gid)))) (\<lambda>n. ret (0 < n))"

definition groups_of_user :: "world \<Rightarrow> string \<Rightarrow> uuid \<Rightarrow> group list" where
  "groups_of_user w tenant_id user_id =
     filter (\<lambda>g. (user_id, g_id g) \<in> set (t_user_groups w) \<and> g_tenant_id g = tenant_id) (t_groups w)"

definition groups_get_user_groups :: "string \<Rightarrow> uuid \<Rightarrow> (uuid \<times> string \<times> string) list op" where
  "groups_get_user_groups tenant_id user_id = gets (\<lambda>w.
     map (\<lambda>g. (g_id g, g_name g, g_uid g)) (sort_key g_name (groups_of_user w tenant_id user_id)))"

definition groups_get_user_group_uids :: "string \<Rightarrow> uuid \<Rightarrow> string list op" where
  "groups_get_user_group_uids tenant_id user_id = gets (\<lambda>w. sort (map g_uid (groups_of_user w tenant_id user_id)))"

definition groups_get_user_group_ids :: "string \<Rightarrow> uuid \<Rightarrow> uuid list op" where
  "groups_get_user_group_ids tenant_id user_id = gets (\<lambda>w. map g_id (groups_of_user w tenant_id user_id))"

definition groups_assign_role :: "string \<Rightarrow> uuid \<Rightarrow> uuid \<Rightarrow> unit op" where
  "groups_assign_role tenant_id gid role_id =
     bindE (insert_pair t_group_roles t_group_roles_update
         (\<lambda>w. list_ex (group_in tenant_id gid) (t_groups w)
            \<and> list_ex (in_tenant tenant_id role_id) (t_roles w)) (gid, role_id)) (\<lambda>n.
     if n = 0 then
       bindE (sql_exists t_groups (group_in tenant_id gid)) (\<lambda>ex.
         unless ex (NotFound ''Group or role not found in tenant''))
     else ret ())"

definition groups_remove_role :: "uuid \<Rightarrow> uuid \<Rightarrow> bool op" where
  "groups_remove_role gid role_id =
     bindE (counting t_group_roles (\<lambda>p. p = (gid, role_id))
              (sql_delete t_group_roles_update (\<lambda>p. p = (gid, role_id)))) (\<lambda>n. ret (0 < n))"

definition groups_list_group_roles :: "string \<Rightarrow> uuid \<Rightarrow> (uuid \<times> string \<times> string) list op" where
  "groups_list_group_roles tenant_id gid = gets (\<lambda>w.
     if list_ex (group_in tenant_id gid) (t_groups w)
     then map (\<lambda>r. (r_id r, r_name r, r_uid r))
       (sort_key r_name (filter (\<lambda>r. (gid, r_id r) \<in> set (t_group_roles w)) (t_roles w)))
     else [])"

subsection \<open>What a user inherits through groups\<close>

definition direct_group_roles :: "world \<Rightarrow> string \<Rightarrow> uuid \<Rightarrow> role list" where
  "direct_group_roles w tenant_id user_id =
     filter (\<lambda>r. r_tenant_id r = tenant_id \<and>
       list_ex (\<lambda>(u, g). u = user_id \<and> (g, r_id r) \<in> set (t_group_roles w)) (t_user_groups w)) (t_roles w)"

definition effective_group_roles :: "world \<Rightarrow> string \<Rightarrow> uuid \<Rightarrow> role list" where
  "effective_group_roles w tenant_id user_id =
     union_ancestors (t_roles w) tenant_id (direct_group_roles w tenant_id user_id)"

definition groups_get_user_group_role_uids :: "string \<Rightarrow> uuid \<Rightarrow> string list op" where
  "groups_get_user_group_role_uids tenant_id user_id = gets (\<lambda>w.
     sort (remdups (map r_uid (effective_group_roles w tenant_id user_id))))"

definition groups_get_user_group_role_ids :: "string \<Rightarrow> uuid \<Rightarrow> uuid list op" where
  "groups_get_user_group_role_ids tenant_id user_id = gets (\<lambda>w.
     remdups (map r_id (effective_group_roles w tenant_id user_id)))"

definition groups_get_user_group_permissions :: "string \<Rightarrow> uuid \<Rightarrow> string list op" where
  "groups_get_user_group_permissions tenant_id user_id = gets (\<lambda>w.
     permissions_of_roles w tenant_id (effective_group_roles w tenant_id user_id))"

lemma groups_reads_readonly [readonly_rules, simp]:
  "readonly (groups_get t g)" "readonly (groups_get_user_groups t u)"
  "readonly (groups_get_user_group_uids t u)" "readonly (groups_get_user_group_ids t u)"
  "readonly (groups_list_group_roles t g)" "readonly (groups_get_user_group_role_uids t u)"
  "readonly (groups_get_user_group_role_ids t u)" "readonly (groups_get_user_group_permissions t u)"
  by (auto simp: groups_get_def groups_get_user_groups_def groups_get_user_group_uids_def
      groups_get_user_group_ids_def groups_list_group_roles_def groups_get_user_group_role_uids_def
      groups_get_user_group_role_ids_def groups_get_user_group_permissions_def)

lemma effective_group_roles_reach:
  "set (effective_group_roles w t u) = (parent_edges (t_roles w) t)\<^sup>* `` set (direct_group_roles w t u)"
  unfolding effective_group_roles_def by (rule union_ancestors_reach) (auto simp: direct_group_roles_def)

lemma effective_roles_reach:
  "set (effective_roles w t u) = (parent_edges (t_roles w) t)\<^sup>* `` set (direct_roles w t u)"
  unfolding effective_roles_def by (rule union_ancestors_reach) (auto simp: direct_roles_def)

subsection \<open>The tables' invariant\<close>

text \<open>Group names and uids are unique per tenant; memberships and assignments stay in one tenant.\<close>

definition group_table_ok :: "group list \<Rightarrow> bool" where
  "group_table_ok gs \<longleftrightarrow> unique_on group_id_key gs \<and> unique_on group_uid_key gs \<and> unique_on group_name_key gs"

definition groups_ok :: "world \<Rightarrow> bool" where
  "groups_ok w \<longleftrightarrow> group_table_ok (t_groups w)
     \<and> (\<forall>(u, g) \<in> set (t_user_groups w). \<exists>m \<in> set (t_users w). \<exists>gr \<in> set (t_groups w).
          m_id m = u \<and> g_id gr = g \<and> m_tenant_id m = g_tenant_id gr)"

lemma group_table_ok_insert:
  "group_table_ok (t_groups w) \<Longrightarrow> groups_violation g w = None \<Longrightarrow> group_table_ok (t_groups w @ [g])"
  by (auto simp: group_table_ok_def groups_violation_def unique_on_append split: if_splits)

lemma groups_create_keeps [keeps_rules]: "keeps groups_ok (groups_create fresh t n d)"
proof -
  have "groups_ok w \<Longrightarrow> groups_violation g w = None \<Longrightarrow> groups_ok (t_groups_update (\<lambda>rows. rows @ [g]) w)" for w g
    unfolding groups_ok_def by (auto intro: group_table_ok_insert) fastforce
  then show ?thesis
    unfolding groups_create_def Let_def by (intro keeps_rules) auto
qed

lemma groups_add_user_keeps [keeps_rules]: "keeps groups_ok (groups_add_user t g u)"
proof -
  have "ends_in groups_ok (insert_pair t_user_groups t_user_groups_update
      (\<lambda>w. list_ex (\<lambda>m. m_id m = u \<and> m_tenant_id m = t) (t_users w) \<and> list_ex (group_in t g) (t_groups w)) (u, g)) w"
    if "groups_ok w" for w
    using that by (fastforce simp: insert_pair_def ends_in_def groups_ok_def list_ex_iff group_in_def)
  then have "keeps groups_ok (insert_pair t_user_groups t_user_groups_update
      (\<lambda>w. list_ex (\<lambda>m. m_id m = u \<and> m_tenant_id m = t) (t_users w) \<and> list_ex (group_in t g) (t_groups w)) (u, g))"
    by (rule keeps_ends)
  then show ?thesis unfolding groups_add_user_def by (intro keeps_rules) auto
qed

end
