(* ===== verification/Auth_Service.thy ===== *)
theory Auth_Service
  imports Mfa Tenant_Config Session_Store Groups_Repo
begin

section \<open>The authentication service\<close>

text \<open>
  \<^verbatim>\<open>src/services/auth.rs\<close>: password, OTP, OAuth and identity-first logins, the second factor,
  lockout, sign-up and invites, password reset and change, and the administrator's operations
  on users. Every operation runs at one instant \<open>now\<close>; the random session, change, reset or
  challenge token it may issue is the argument \<open>tok\<close>, the keys of new rows are \<open>iid\<close> (identity)
  and \<open>uid\<close> (membership), the salt of a password hash is \<open>salt\<close>. Chrono panics on durations
  beyond its range; those inputs are outside the model.
\<close>

definition dedup_chain :: "'a list \<Rightarrow> 'a list \<Rightarrow> 'a list" where
  "dedup_chain a b = dedup_seen {} (a @ b)"

definition LOGIN_METHOD_EMAIL_PASSWORD :: int where "LOGIN_METHOD_EMAIL_PASSWORD = 1"
definition LOGIN_METHOD_EMAIL_OTP :: int where "LOGIN_METHOD_EMAIL_OTP = 2"
definition LOGIN_METHOD_USERNAME_PASSWORD :: int where "LOGIN_METHOD_USERNAME_PASSWORD = 4"
definition LOGIN_METHOD_OAUTH :: int where "LOGIN_METHOD_OAUTH = 5"
definition DEFAULT_LOCK_AFTER_ATTEMPTS :: int where "DEFAULT_LOCK_AFTER_ATTEMPTS = 5"
definition DEFAULT_LOCK_DURATION_MINS :: int where "DEFAULT_LOCK_DURATION_MINS = 15"
definition DEFAULT_SESSION_TTL_SECS :: "64 word" where "DEFAULT_SESSION_TTL_SECS = 3600"
definition PASSWORD_RESET_TOKEN_TTL_MINS :: int where "PASSWORD_RESET_TOKEN_TTL_MINS = 60"
definition FORCE_CHANGE_TOKEN_TTL_MINS :: int where "FORCE_CHANGE_TOKEN_TTL_MINS = 15"
definition MFA_CHALLENGE_TTL_MINS :: int where "MFA_CHALLENGE_TTL_MINS = 5"
definition MAX_MFA_ATTEMPTS :: int where "MAX_MFA_ATTEMPTS = 5"
definition IDENTITY_TOKEN_TTL_MINS :: int where "IDENTITY_TOKEN_TTL_MINS = 10"

datatype login_result =
    LoginSuccess string time
  | MfaRequired string uuid
  | PasswordChangeRequired string

datatype signup_outcome =
    Created user
  | VerificationSent string string

record tenant_membership =
  tm_tenant_id :: string
  tm_status :: string

text \<open>The client of a request: its address and user agent.\<close>

type_synonym client = "string option \<times> string option"

subsection \<open>Login methods, e-mail domains, passwords\<close>

definition user_supported_methods :: "user \<Rightarrow> int list" where
  "user_supported_methods u =
     (if u_email u \<noteq> None then [1, 2] else [])
     @ (if u_mobile u \<noteq> None \<and> u_country_code u \<noteq> None then [3, 6] else [])
     @ (if u_username u \<noteq> None then [4] else [])
     @ [LOGIN_METHOD_OAUTH]"

definition effective_login_methods :: "ext \<Rightarrow> time \<Rightarrow> string \<Rightarrow> user \<Rightarrow> int list op" where
  "effective_login_methods x now tenant_id u =
     bindE (get_login_methods x now tenant_id) (\<lambda>m.
       let tenant_allowed = (case m of None \<Rightarrow> [1, 2, 3, 4, 5, 6] | Some l \<Rightarrow> l) in
       ret (filter (\<lambda>m. m \<in> set (user_supported_methods u)) tenant_allowed))"

definition ensure_email_domain_allowed :: "ext \<Rightarrow> time \<Rightarrow> string \<Rightarrow> string \<Rightarrow> unit op" where
  "ensure_email_domain_allowed x now tenant_id email =
     bindE (get_allowed_email_domains x now tenant_id) (\<lambda>allowed. case allowed of
         None \<Rightarrow> ret ()
       | Some list \<Rightarrow>
           (if list = [] then ret ()
            else case rsplit_once (CHR ''@'') (trim email) of
                None \<Rightarrow> throw (Forbidden ''Email domain is not permitted'')
              | Some (_, d) \<Rightarrow>
                  (if d = [] then throw (Forbidden ''Email domain is not permitted'')
                   else unless (list_ex (\<lambda>e. to_lowercase (trim_start_matches (CHR ''@'') (trim e)) = to_lowercase d) list)
                          (Forbidden ''Email domain is not permitted''))))"

definition verify_password :: "ext \<Rightarrow> string \<Rightarrow> string \<Rightarrow> bool result" where
  "verify_password x hash password = map_err Internal (x_argon2_verify x hash password)"

definition validate_password_policy :: "string \<Rightarrow> password_policy option \<Rightarrow> unit result" where
  "validate_password_policy password policy = (case policy of
       None \<Rightarrow> Inr ()
     | Some p \<Rightarrow>
         bind_res (case pp_min_length p of
             None \<Rightarrow> Inr ()
           | Some n \<Rightarrow> ensure (n \<le> length password)
               (BadRequest (''Password must be at least '' @ nat_str n @ '' characters''))) (\<lambda>_.
         bind_res (ensure (pp_require_uppercase p = Some True \<longrightarrow> list_ex is_ascii_uppercase password)
             (BadRequest ''Password must contain at least one uppercase letter'')) (\<lambda>_.
         ensure (pp_require_digit p = Some True \<longrightarrow> list_ex is_ascii_digit password)
           (BadRequest ''Password must contain at least one digit''))))"

definition hash_password :: "ext \<Rightarrow> string \<Rightarrow> string \<Rightarrow> string result" where
  "hash_password x salt password = map_err Internal (x_argon2_hash x salt password)"

subsection \<open>Gates, lockout and sessions\<close>

definition load_identity :: "uuid \<Rightarrow> identity op" where
  "load_identity identity_id =
     get_or (Internal ''Identity not found for membership'') (identities_get_by_id identity_id)"

definition check_gates :: "time \<Rightarrow> user \<Rightarrow> identity \<Rightarrow> unit result" where
  "check_gates now u i =
     (if u_status u \<noteq> ''active'' \<or> i_status i \<noteq> ''active'' then Inl (Forbidden ''Account is not active'')
      else if (case i_locked_until i of None \<Rightarrow> False | Some l \<Rightarrow> now < l)
        then Inl (Locked ''Account is temporarily locked'')
      else if (case u_access_valid_until u of None \<Rightarrow> False | Some v \<Rightarrow> v < now)
        then Inl (AccessExpired ''Account access has expired'')
      else Inr ())"

definition register_failed_attempt :: "time \<Rightarrow> identity \<Rightarrow> unit op" where
  "register_failed_attempt now i =
     identities_increment_failed_attempts now (i_id i)
       (if DEFAULT_LOCK_AFTER_ATTEMPTS \<le> i_failed_attempts i + 1
        then Some (now + minutes DEFAULT_LOCK_DURATION_MINS) else None)"

definition default_session_ttl_secs :: "ext \<Rightarrow> 64 word" where
  "default_session_ttl_secs x =
     (if 0 < c_default_session_ttl_secs x then c_default_session_ttl_secs x else DEFAULT_SESSION_TTL_SECS)"

definition session_ttl :: "ext \<Rightarrow> session_policy option \<Rightarrow> 64 word" where
  "session_ttl x policy = (case Option.bind policy sn_absolute_timeout_mins of
     None \<Rightarrow> default_session_ttl_secs x | Some m \<Rightarrow> m * 60)"

definition session_payload_of :: "world \<Rightarrow> string \<Rightarrow> user \<Rightarrow> client \<Rightarrow> time \<Rightarrow> session_payload" where
  "session_payload_of w tenant_id u c expires_at =
     \<lparr>sp_tenant_id = tenant_id, sp_user_id = u_id u, sp_identity_id = u_identity_id u,
      sp_roles = dedup_chain (projr (fst (roles_get_user_roles tenant_id (u_id u) w)))
                             (projr (fst (groups_get_user_group_role_uids tenant_id (u_id u) w))),
      sp_role_ids = dedup_chain (projr (fst (roles_get_user_role_ids tenant_id (u_id u) w)))
                                (projr (fst (groups_get_user_group_role_ids tenant_id (u_id u) w))),
      sp_permissions = dedup_chain (projr (fst (roles_get_user_permissions tenant_id (u_id u) w)))
                                   (projr (fst (groups_get_user_group_permissions tenant_id (u_id u) w))),
      sp_groups = projr (fst (groups_get_user_group_uids tenant_id (u_id u) w)),
      sp_group_ids = projr (fst (groups_get_user_group_ids tenant_id (u_id u) w)),
      sp_ip = fst c, sp_user_agent = snd c, sp_expires_at = expires_at\<rparr>"

definition do_create_session :: "ext \<Rightarrow> time \<Rightarrow> string \<Rightarrow> string \<Rightarrow> user \<Rightarrow> client \<Rightarrow> login_result op" where
  "do_create_session x now tok tenant_id u c =
     bindE (catch_default [] (roles_get_user_roles tenant_id (u_id u))) (\<lambda>direct_role_uids.
     bindE (catch_default [] (roles_get_user_role_ids tenant_id (u_id u))) (\<lambda>direct_role_ids.
     bindE (catch_default [] (roles_get_user_permissions tenant_id (u_id u))) (\<lambda>direct_perms.
     bindE (catch_default [] (groups_get_user_group_uids tenant_id (u_id u))) (\<lambda>group_uids.
     bindE (catch_default [] (groups_get_user_group_ids tenant_id (u_id u))) (\<lambda>group_ids.
     bindE (catch_default [] (groups_get_user_group_role_uids tenant_id (u_id u))) (\<lambda>group_role_uids.
     bindE (catch_default [] (groups_get_user_group_role_ids tenant_id (u_id u))) (\<lambda>group_role_ids.
     bindE (catch_default [] (groups_get_user_group_permissions tenant_id (u_id u))) (\<lambda>group_perms.
     bindE (get_session_policy x now tenant_id) (\<lambda>session_policy.
     let ttl_secs = session_ttl x session_policy;
         expires_at = now + secs (sint ttl_secs);
         payload = \<lparr>sp_tenant_id = tenant_id, sp_user_id = u_id u, sp_identity_id = u_identity_id u,
                    sp_roles = dedup_chain direct_role_uids group_role_uids,
                    sp_role_ids = dedup_chain direct_role_ids group_role_ids,
                    sp_permissions = dedup_chain direct_perms group_perms,
                    sp_groups = group_uids, sp_group_ids = group_ids,
                    sp_ip = fst c, sp_user_agent = snd c, sp_expires_at = expires_at\<rparr> in
     bindE (store_set x now tok payload ttl_secs) (\<lambda>_.
     bindE (if writes_audit_row x then ret ()
            else create_audit x tok tenant_id (u_id u) (fst c) (snd c) expires_at (Some (x_payload_ser x payload))) (\<lambda>_.
     ret (LoginSuccess tok expires_at))))))))))))"

definition issue_force_change_token :: "time \<Rightarrow> string \<Rightarrow> string \<Rightarrow> uuid \<Rightarrow> login_result op" where
  "issue_force_change_token now tok tenant_id user_id =
     bindE (change_tokens_create (tenant_id, user_id) tok (now + minutes FORCE_CHANGE_TOKEN_TTL_MINS)) (\<lambda>_.
       ret (PasswordChangeRequired tok))"

definition finalize_login :: "ext \<Rightarrow> time \<Rightarrow> string \<Rightarrow> string \<Rightarrow> user \<Rightarrow> identity \<Rightarrow> client \<Rightarrow> login_result op" where
  "finalize_login x now tok tenant_id u i c =
     (if i_force_password_change i then issue_force_change_token now tok tenant_id (u_id u)
      else if i_mfa_enabled i then
        bindE (create_challenge now tok tenant_id (u_id u) (now + minutes MFA_CHALLENGE_TTL_MINS)) (\<lambda>_.
          ret (MfaRequired tok (u_id u)))
      else do_create_session x now tok tenant_id u c)"

subsection \<open>Logins\<close>

definition do_password_login ::
  "ext \<Rightarrow> time \<Rightarrow> string \<Rightarrow> string \<Rightarrow> user \<Rightarrow> string \<Rightarrow> client \<Rightarrow> int \<Rightarrow> login_result op" where
  "do_password_login x now tok tenant_id u password c meth =
     bindE (load_identity (u_identity_id u)) (\<lambda>i.
     bindE (lift (check_gates now u i)) (\<lambda>_.
     bindE (effective_login_methods x now tenant_id u) (\<lambda>effective.
     bindE (unless (meth \<in> set effective) (Forbidden ''This login method is not allowed for your account'')) (\<lambda>_.
     bindE (lift (ok_or (Unauthorized ''Invalid credentials'') (i_password_hash i))) (\<lambda>password_hash.
     bindE (lift (verify_password x password_hash password)) (\<lambda>ok.
     if \<not> ok then bindE (register_failed_attempt now i) (\<lambda>_. throw (Unauthorized ''Invalid email or password''))
     else bindE (identities_clear_failed_attempts now (i_id i)) (\<lambda>_.
            finalize_login x now tok tenant_id u i c)))))))"

definition login_email_password ::
  "ext \<Rightarrow> time \<Rightarrow> string \<Rightarrow> string \<Rightarrow> string \<Rightarrow> string \<Rightarrow> client \<Rightarrow> login_result op" where
  "login_email_password x now tok tenant_id email password c =
     bindE (ensure_email_domain_allowed x now tenant_id email) (\<lambda>_.
     bindE (get_or (Unauthorized ''Invalid email or password'') (users_get_by_email tenant_id email)) (\<lambda>u.
       do_password_login x now tok tenant_id u password c LOGIN_METHOD_EMAIL_PASSWORD))"

definition login_username_password ::
  "ext \<Rightarrow> time \<Rightarrow> string \<Rightarrow> string \<Rightarrow> string \<Rightarrow> string \<Rightarrow> client \<Rightarrow> login_result op" where
  "login_username_password x now tok tenant_id username password c =
     bindE (get_or (Unauthorized ''Invalid username or password'') (users_get_by_username tenant_id username)) (\<lambda>u.
       do_password_login x now tok tenant_id u password c LOGIN_METHOD_USERNAME_PASSWORD)"

definition complete_mfa_login :: "ext \<Rightarrow> time \<Rightarrow> string \<Rightarrow> string \<Rightarrow> string \<Rightarrow> client \<Rightarrow> login_result op" where
  "complete_mfa_login x now tok mfa_token code c =
     bindE (get_or (Unauthorized ''Invalid or expired MFA token'') (get_challenge now mfa_token)) (\<lambda>ch.
     if MAX_MFA_ATTEMPTS \<le> mc_attempt_count ch then
       bindE (delete_challenge mfa_token) (\<lambda>_. throw (Unauthorized ''Too many attempts. Sign in again.''))
     else
     bindE (get_or (Unauthorized ''Invalid or expired MFA token'') (users_get_by_id (mc_tenant_id ch) (mc_user_id ch))) (\<lambda>u.
     bindE (load_identity (u_identity_id u)) (\<lambda>i.
     bindE (lift (check_gates now u i)) (\<lambda>_.
     bindE (mfa_verify x now i code) (\<lambda>ok.
     if \<not> ok then
       bindE (increment_challenge_attempts mfa_token) (\<lambda>_.
       bindE (register_failed_attempt now i) (\<lambda>_. throw (Unauthorized ''Invalid MFA code'')))
     else
     bindE (delete_challenge mfa_token) (\<lambda>deleted.
     bindE (unless deleted (Unauthorized ''Invalid or expired MFA token'')) (\<lambda>_.
     bindE (identities_clear_failed_attempts now (i_id i)) (\<lambda>_.
       do_create_session x now tok (mc_tenant_id ch) u c))))))))"

definition login_with_verified_otp ::
  "ext \<Rightarrow> time \<Rightarrow> string \<Rightarrow> string \<Rightarrow> string \<Rightarrow> client \<Rightarrow> login_result op" where
  "login_with_verified_otp x now tok tenant_id email c =
     bindE (get_or (Unauthorized ''Invalid or expired code'') (users_get_by_email_insensitive tenant_id email)) (\<lambda>u.
     bindE (load_identity (u_identity_id u)) (\<lambda>i.
     bindE (lift (check_gates now u i)) (\<lambda>_.
     bindE (effective_login_methods x now tenant_id u) (\<lambda>effective.
     bindE (unless (LOGIN_METHOD_EMAIL_OTP \<in> set effective) (Forbidden ''Email OTP login is not allowed for your account'')) (\<lambda>_.
       finalize_login x now tok tenant_id u i c)))))"

record oauth_profile =
  op_provider_user_id :: string
  op_email :: "string option"
  op_email_verified :: bool
  op_first_name :: "string option"
  op_last_name :: "string option"

definition verified_email :: "oauth_profile \<Rightarrow> string option" where
  "verified_email p = (if op_email_verified p then op_email p else None)"

definition oauth_check_domain :: "ext \<Rightarrow> time \<Rightarrow> string \<Rightarrow> oauth_profile \<Rightarrow> unit op" where
  "oauth_check_domain x now tenant_id p = (case verified_email p of
       Some e \<Rightarrow> ensure_email_domain_allowed x now tenant_id e
     | None \<Rightarrow> bindE (get_allowed_email_domains x now tenant_id) (\<lambda>l.
         unless (case l of None \<Rightarrow> True | Some ds \<Rightarrow> ds = [])
           (Forbidden ''A verified email is required to sign in to this tenant'')))"

definition oauth_new_identity :: "time \<Rightarrow> uuid \<Rightarrow> oauth_profile \<Rightarrow> bool \<Rightarrow> identity op" where
  "oauth_new_identity now iid p allow_signup =
     bindE (case (if op_email_verified p then None else op_email p) of
         None \<Rightarrow> ret ()
       | Some e \<Rightarrow> bindE (identities_exists_by_email e) (\<lambda>ex. unless (\<not> ex)
           (Forbidden ''An account with this email already exists. Sign in with your existing method.''))) (\<lambda>_.
     bindE (unless allow_signup (Forbidden ''No account exists for this sign-in'')) (\<lambda>_.
       identities_create now iid (verified_email p) None None (op_first_name p) (op_last_name p) None))"

definition oauth_resolve_identity :: "time \<Rightarrow> uuid \<Rightarrow> string \<Rightarrow> oauth_profile \<Rightarrow> bool \<Rightarrow> identity op" where
  "oauth_resolve_identity now iid provider p allow_signup =
     bindE (oauth_get_linked_identity provider (op_provider_user_id p)) (\<lambda>linked. case linked of
         Some identity_id \<Rightarrow> load_identity identity_id
       | None \<Rightarrow>
           bindE (case verified_email p of Some e \<Rightarrow> identities_get_by_email e | None \<Rightarrow> ret None) (\<lambda>existing.
           bindE (case existing of Some i \<Rightarrow> ret i | None \<Rightarrow> oauth_new_identity now iid p allow_signup) (\<lambda>i.
           bindE (oauth_link (i_id i) provider (op_provider_user_id p) (op_email p)) (\<lambda>_. ret i))))"

definition login_oauth ::
  "ext \<Rightarrow> time \<Rightarrow> string \<Rightarrow> uuid \<Rightarrow> uuid \<Rightarrow> string \<Rightarrow> string \<Rightarrow> oauth_profile \<Rightarrow> bool \<Rightarrow> client \<Rightarrow> login_result op" where
  "login_oauth x now tok iid uid tenant_id provider p allow_signup c =
     bindE (oauth_check_domain x now tenant_id p) (\<lambda>_.
     bindE (oauth_resolve_identity now iid provider p allow_signup) (\<lambda>i.
     bindE (unless (i_status i = ''active'') (Forbidden ''Account is not active'')) (\<lambda>_.
     bindE (users_get_membership (i_id i) tenant_id) (\<lambda>m.
     bindE (case m of Some u \<Rightarrow> ret u
            | None \<Rightarrow> if allow_signup then users_create now uid i tenant_id None
                      else throw (Forbidden ''No membership in this tenant'')) (\<lambda>u.
     bindE (lift (check_gates now u i)) (\<lambda>_.
     bindE (effective_login_methods x now tenant_id u) (\<lambda>effective.
     bindE (unless (LOGIN_METHOD_OAUTH \<in> set effective) (Forbidden ''OAuth login is not allowed for your account'')) (\<lambda>_.
       finalize_login x now tok tenant_id u i c))))))))"

subsection \<open>Sign-up and invites\<close>

definition signup ::
  "ext \<Rightarrow> time \<Rightarrow> string \<Rightarrow> string \<Rightarrow> uuid \<Rightarrow> uuid \<Rightarrow> string \<Rightarrow> string \<Rightarrow> string \<Rightarrow> string \<Rightarrow> string option
   \<Rightarrow> string option \<Rightarrow> string \<Rightarrow> string \<Rightarrow> signup_outcome op" where
  "signup x now tok salt iid uid tenant_id first_name last_name email_arg mobile_arg country_arg password retype_password =
     (let email = trim email_arg in
      if email = [] then throw (BadRequest ''Email is required'') else
      bindE (ensure_email_domain_allowed x now tenant_id email) (\<lambda>_.
      bindE (unless (password = retype_password) (BadRequest ''Password and retype password do not match'')) (\<lambda>_.
      bindE (get_password_policy x now tenant_id) (\<lambda>policy.
      bindE (lift (validate_password_policy password policy)) (\<lambda>_.
      bindE (unless (case (mobile_arg, country_arg) of (Some m, Some c) \<Rightarrow> trim m = [] \<or> trim c \<noteq> [] | _ \<Rightarrow> True)
               (BadRequest ''Country code is required when mobile is provided'')) (\<lambda>_.
      let mobile = non_empty_trim mobile_arg;
          country_code = non_empty_trim country_arg;
          first = non_empty_trim (Some first_name);
          last = non_empty_trim (Some last_name) in
      bindE (users_get_by_email tenant_id email) (\<lambda>member.
      bindE (unless (member = None) (Conflict ''An account with this email already exists'')) (\<lambda>_.
      bindE (identities_get_by_email email) (\<lambda>by_email.
      bindE (case by_email of
               Some i \<Rightarrow> ret (Some i)
             | None \<Rightarrow> (case (mobile, country_code) of
                   (Some m, Some c) \<Rightarrow> identities_get_by_mobile c m
                 | _ \<Rightarrow> ret None)) (\<lambda>existing.
      case existing of
        Some i \<Rightarrow>
          bindE (invites_create \<lparr>mi_identity_id = i_id i, mi_tenant_id = tenant_id, mi_first_name = first,
                                 mi_last_name = last, mi_username = None\<rparr> tok
                   (now + minutes PASSWORD_RESET_TOKEN_TTL_MINS)) (\<lambda>_.
          ret (VerificationSent (case i_email i of None \<Rightarrow> email | Some e \<Rightarrow> e) tok))
      | None \<Rightarrow>
          bindE (lift (hash_password x salt password)) (\<lambda>password_hash.
          bindE (identities_create now iid (Some email) mobile country_code first last (Some password_hash)) (\<lambda>i.
          bindE (users_create now uid i tenant_id None) (\<lambda>u.
          ret (Created u))))))))))))))"

definition verify_membership_invite :: "time \<Rightarrow> uuid \<Rightarrow> string \<Rightarrow> user op" where
  "verify_membership_invite now uid token =
     bindE (get_or (BadRequest ''Invalid or expired invite token'') (invites_get_valid now token)) (\<lambda>invite.
     bindE (users_get_membership (mi_identity_id invite) (mi_tenant_id invite)) (\<lambda>existing. case existing of
         Some u \<Rightarrow> bindE (invites_delete_by_token token) (\<lambda>_. ret u)
       | None \<Rightarrow>
           bindE (load_identity (mi_identity_id invite)) (\<lambda>i.
           bindE (users_create now uid i (mi_tenant_id invite) (mi_username invite)) (\<lambda>u.
           bindE (invites_delete_by_token token) (\<lambda>_. ret u)))))"

subsection \<open>Passwords\<close>

definition forgot_password :: "time \<Rightarrow> string \<Rightarrow> string \<Rightarrow> (string \<times> string) option op" where
  "forgot_password now tok email_arg =
     (let email = to_lowercase (trim email_arg) in
      if email = [] then throw (BadRequest ''Email is required'') else
      bindE (identities_get_by_email email) (\<lambda>found. case found of
          None \<Rightarrow> ret None
        | Some i \<Rightarrow> (case i_email i of
              None \<Rightarrow> ret None
            | Some to_email \<Rightarrow>
                bindE (reset_tokens_delete_for_identity (i_id i)) (\<lambda>_.
                bindE (reset_tokens_create (i_id i) tok (now + minutes PASSWORD_RESET_TOKEN_TTL_MINS)) (\<lambda>_.
                ret (Some (to_email, tok)))))))"

definition new_password_checks :: "ext \<Rightarrow> time \<Rightarrow> string \<Rightarrow> string \<Rightarrow> string \<Rightarrow> unit op" where
  "new_password_checks x now tenant_id new_password retype_password =
     bindE (unless (new_password = retype_password) (BadRequest ''Password and retype password do not match'')) (\<lambda>_.
     bindE (get_password_policy x now tenant_id) (\<lambda>policy.
       lift (validate_password_policy new_password policy)))"

definition reset_password :: "ext \<Rightarrow> time \<Rightarrow> string \<Rightarrow> string \<Rightarrow> string \<Rightarrow> string \<Rightarrow> string \<Rightarrow> unit op" where
  "reset_password x now salt tenant_id token_arg new_password retype_password =
     (let token = trim token_arg in
      if token = [] then throw (BadRequest ''Token is required'') else
      bindE (new_password_checks x now tenant_id new_password retype_password) (\<lambda>_.
      bindE (get_or (BadRequest ''Invalid or expired reset token'') (reset_tokens_get_valid now token)) (\<lambda>identity_id.
      bindE (lift (hash_password x salt new_password)) (\<lambda>password_hash.
      bindE (identities_update_password now identity_id password_hash) (\<lambda>_.
        reset_tokens_delete_by_token token)))))"

definition change_password :: "ext \<Rightarrow> time \<Rightarrow> string \<Rightarrow> string \<Rightarrow> uuid \<Rightarrow> string \<Rightarrow> string \<Rightarrow> string \<Rightarrow> unit op" where
  "change_password x now salt tenant_id user_id current_password new_password retype_password =
     bindE (new_password_checks x now tenant_id new_password retype_password) (\<lambda>_.
     bindE (get_or (NotFound ''User not found'') (users_get_by_id tenant_id user_id)) (\<lambda>u.
     bindE (load_identity (u_identity_id u)) (\<lambda>i.
     bindE (lift (ok_or (BadRequest ''Account has no password set'') (i_password_hash i))) (\<lambda>password_hash.
     bindE (lift (verify_password x password_hash current_password)) (\<lambda>ok.
     bindE (unless ok (Unauthorized ''Current password is incorrect'')) (\<lambda>_.
     bindE (lift (hash_password x salt new_password)) (\<lambda>new_hash.
       identities_update_password now (i_id i) new_hash)))))))"

definition multi_tenant_message :: string where
  "multi_tenant_message = ''This account belongs to multiple tenants; you cannot set its shared password. '' @
     ''Pass forcePasswordChange=true to require the user to reset it themselves.''"

definition admin_reset_password ::
  "ext \<Rightarrow> time \<Rightarrow> string \<Rightarrow> string \<Rightarrow> uuid \<Rightarrow> string \<Rightarrow> string \<Rightarrow> bool \<Rightarrow> unit op" where
  "admin_reset_password x now salt tenant_id user_id new_password retype_password force_password_change =
     bindE (new_password_checks x now tenant_id new_password retype_password) (\<lambda>_.
     bindE (get_or (NotFound ''User not found'') (users_get_by_id tenant_id user_id)) (\<lambda>u.
     bindE (users_get_memberships_for_identity (u_identity_id u)) (\<lambda>ms.
     if 1 < length ms then
       bindE (unless force_password_change (Forbidden multi_tenant_message)) (\<lambda>_.
         identities_set_force_password_change now (u_identity_id u) True)
     else
       bindE (lift (hash_password x salt new_password)) (\<lambda>password_hash.
       bindE (identities_update_password now (u_identity_id u) password_hash) (\<lambda>_.
         identities_set_force_password_change now (u_identity_id u) force_password_change)))))"

definition force_change_password ::
  "ext \<Rightarrow> time \<Rightarrow> string \<Rightarrow> string \<Rightarrow> string \<Rightarrow> string \<Rightarrow> string \<Rightarrow> client \<Rightarrow> login_result op" where
  "force_change_password x now tok salt change_token new_password retype_password c =
     bindE (get_or (Unauthorized ''Invalid or expired change token'') (change_tokens_get_valid now change_token)) (\<lambda>(tenant_id, user_id).
     bindE (new_password_checks x now tenant_id new_password retype_password) (\<lambda>_.
     bindE (get_or (NotFound ''User not found'') (users_get_by_id tenant_id user_id)) (\<lambda>u.
     bindE (unless (case u_access_valid_until u of None \<Rightarrow> True | Some v \<Rightarrow> now \<le> v)
              (AccessExpired ''Account access has expired'')) (\<lambda>_.
     bindE (lift (hash_password x salt new_password)) (\<lambda>password_hash.
     bindE (identities_update_password now (u_identity_id u) password_hash) (\<lambda>_.
     bindE (change_tokens_delete_by_token change_token) (\<lambda>_.
     bindE (load_identity (u_identity_id u)) (\<lambda>i.
       finalize_login x now tok tenant_id u i c))))))))"

subsection \<open>Administration of users\<close>

definition resolve_or_create_identity ::
  "time \<Rightarrow> uuid \<Rightarrow> string option \<Rightarrow> string option \<Rightarrow> string option \<Rightarrow> string option \<Rightarrow> string option \<Rightarrow> string option
   \<Rightarrow> identity op" where
  "resolve_or_create_identity now iid email mobile country_code first_name last_name password_hash =
     bindE (case email of None \<Rightarrow> ret None | Some e \<Rightarrow> identities_get_by_email e) (\<lambda>by_email. case by_email of
         Some i \<Rightarrow> ret i
       | None \<Rightarrow>
           bindE (case (mobile, country_code) of
               (Some m, Some c) \<Rightarrow> identities_get_by_mobile c m | _ \<Rightarrow> ret None) (\<lambda>by_mobile. case by_mobile of
               Some i \<Rightarrow> ret i
             | None \<Rightarrow> identities_create now iid email mobile country_code first_name last_name password_hash))"

definition admin_password_hash ::
  "ext \<Rightarrow> time \<Rightarrow> string \<Rightarrow> string \<Rightarrow> string option \<Rightarrow> string option \<Rightarrow> string option op" where
  "admin_password_hash x now salt tenant_id password retype_password = (case (password, retype_password) of
       (Some p, Some r) \<Rightarrow>
         bindE (new_password_checks x now tenant_id p r) (\<lambda>_.
         bindE (lift (hash_password x salt p)) (\<lambda>h. ret (Some h)))
     | (None, None) \<Rightarrow> ret None
     | _ \<Rightarrow> throw (BadRequest ''Both password and retypePassword are required when setting a password''))"

definition admin_create_user ::
  "ext \<Rightarrow> time \<Rightarrow> string \<Rightarrow> uuid \<Rightarrow> uuid \<Rightarrow> string \<Rightarrow> string option \<Rightarrow> string option \<Rightarrow> string option \<Rightarrow> string option
   \<Rightarrow> string option \<Rightarrow> string option \<Rightarrow> string option \<Rightarrow> string option \<Rightarrow> user op" where
  "admin_create_user x now salt iid uid tenant_id first_name last_name email_arg username_arg mobile_arg country_arg
       password retype_password =
     (let email = non_empty_trim email_arg;
          username = non_empty_trim username_arg;
          mobile = non_empty_trim mobile_arg;
          country_code = non_empty_trim country_arg in
      bindE (unless (has_valid_identity email mobile country_code username)
               (BadRequest ''At least one of email, (mobile and countryCode), or username is required'')) (\<lambda>_.
      bindE (case email of None \<Rightarrow> ret ()
             | Some e \<Rightarrow> bindE (users_get_by_email tenant_id e) (\<lambda>u.
                 unless (u = None) (Conflict ''An account with this email already exists''))) (\<lambda>_.
      bindE (case username of None \<Rightarrow> ret ()
             | Some n \<Rightarrow> bindE (users_get_by_username tenant_id n) (\<lambda>u.
                 unless (u = None) (Conflict ''An account with this username already exists''))) (\<lambda>_.
      bindE (admin_password_hash x now salt tenant_id password retype_password) (\<lambda>password_hash.
      bindE (resolve_or_create_identity now iid email mobile country_code (non_empty_trim first_name)
               (non_empty_trim last_name) password_hash) (\<lambda>i.
        users_create now uid i tenant_id username))))))"

definition admin_set_access_valid_until :: "time \<Rightarrow> string \<Rightarrow> uuid \<Rightarrow> time option \<Rightarrow> unit op" where
  "admin_set_access_valid_until now tenant_id user_id access_valid_until =
     bindE (get_or (NotFound ''User not found'') (users_get_by_id tenant_id user_id)) (\<lambda>_.
       users_set_access_valid_until now tenant_id user_id access_valid_until)"

definition admin_archive_user :: "time \<Rightarrow> string \<Rightarrow> uuid \<Rightarrow> unit op" where
  "admin_archive_user now tenant_id user_id =
     bindE (get_or (NotFound ''User not found'') (users_get_by_id tenant_id user_id)) (\<lambda>_.
     bindE (users_archive now tenant_id user_id) (\<lambda>archived.
       unless archived (BadRequest ''User is already archived'')))"

subsection \<open>Identity-first login\<close>

definition tenants_for_identity :: "uuid \<Rightarrow> tenant_membership list op" where
  "tenants_for_identity identity_id =
     bindE (users_get_memberships_for_identity identity_id) (\<lambda>us.
       ret (map (\<lambda>u. \<lparr>tm_tenant_id = u_tenant_id u, tm_status = u_status u\<rparr>) us))"

definition login_identity :: "ext \<Rightarrow> time \<Rightarrow> string \<Rightarrow> string \<Rightarrow> string \<Rightarrow> (string \<times> tenant_membership list) op" where
  "login_identity x now tok email_arg password =
     bindE (get_or (Unauthorized ''Invalid credentials'') (identities_get_by_email (trim email_arg))) (\<lambda>i.
     bindE (unless (i_status i = ''active'') (Forbidden ''Account is not active'')) (\<lambda>_.
     bindE (unless (case i_locked_until i of None \<Rightarrow> True | Some l \<Rightarrow> l \<le> now) (Locked ''Account is temporarily locked'')) (\<lambda>_.
     bindE (lift (ok_or (Unauthorized ''Invalid credentials'') (i_password_hash i))) (\<lambda>password_hash.
     bindE (lift (verify_password x password_hash password)) (\<lambda>ok.
     if \<not> ok then bindE (register_failed_attempt now i) (\<lambda>_. throw (Unauthorized ''Invalid credentials''))
     else
     bindE (identities_clear_failed_attempts now (i_id i)) (\<lambda>_.
     bindE (identity_tokens_create (i_id i) tok (now + minutes IDENTITY_TOKEN_TTL_MINS)) (\<lambda>_.
     bindE (tenants_for_identity (i_id i)) (\<lambda>tenants. ret (tok, tenants)))))))))"

definition tenants_for_identity_token :: "time \<Rightarrow> string \<Rightarrow> tenant_membership list op" where
  "tenants_for_identity_token now identity_token =
     bindE (get_or (Unauthorized ''Invalid or expired identity token'') (identity_tokens_get_valid now identity_token))
       tenants_for_identity"

definition select_tenant :: "ext \<Rightarrow> time \<Rightarrow> string \<Rightarrow> uuid \<Rightarrow> string \<Rightarrow> client \<Rightarrow> login_result op" where
  "select_tenant x now tok identity_id tenant_id c =
     bindE (get_or (Forbidden ''No membership in this tenant'') (users_get_membership identity_id tenant_id)) (\<lambda>u.
     bindE (load_identity identity_id) (\<lambda>i.
     bindE (lift (check_gates now u i)) (\<lambda>_.
       finalize_login x now tok tenant_id u i c)))"

definition select_tenant_with_token :: "ext \<Rightarrow> time \<Rightarrow> string \<Rightarrow> string \<Rightarrow> string \<Rightarrow> client \<Rightarrow> login_result op" where
  "select_tenant_with_token x now tok identity_token tenant_id c =
     bindE (get_or (Unauthorized ''Invalid or expired identity token'') (identity_tokens_get_valid now identity_token)) (\<lambda>identity_id.
       select_tenant x now tok identity_id tenant_id c)"

end
