(* ===== verification/Auth_Logins.thy ===== *)
theory Auth_Logins
  imports Auth_Service
begin

section \<open>Logins: soundness, lockout, second factor and sessions\<close>

text \<open>
  What a successful login of \<^verbatim>\<open>src/services/auth.rs\<close> implies, and what repeated failures lead to.
  Reading tenant configuration changes only the cache; \<open>db\<close> is the state without it, and
  operations that leave it alone are transparent to the arguments below.
\<close>

subsection \<open>Configuration reads leave the database alone\<close>

definition db :: "world \<Rightarrow> world" where
  "db w = cfg_cache_update (\<lambda>_ _. None) w"

lemma db_fields [simp]:
  "t_users (db w) = t_users w" "t_identities (db w) = t_identities w" "t_tenants (db w) = t_tenants w"
  "t_kv (db w) = t_kv w" "t_roles (db w) = t_roles w" "t_sessions (db w) = t_sessions w"
  "t_challenges (db w) = t_challenges w" "t_oauth_accounts (db w) = t_oauth_accounts w"
  "t_reset_tokens (db w) = t_reset_tokens w" "t_invites (db w) = t_invites w" "redis (db w) = redis w"
  "t_permissions (db w) = t_permissions w" "t_role_permissions (db w) = t_role_permissions w"
  "t_user_roles (db w) = t_user_roles w" "t_groups (db w) = t_groups w" "t_user_groups (db w) = t_user_groups w"
  "t_group_roles (db w) = t_group_roles w" "t_change_tokens (db w) = t_change_tokens w"
  "t_identity_tokens (db w) = t_identity_tokens w" "t_backup_codes (db w) = t_backup_codes w"
  by (simp_all add: db_def)

lemma same_db:
  assumes "db w' = db w"
  shows "t_users w' = t_users w" "t_identities w' = t_identities w" "t_tenants w' = t_tenants w"
    "t_kv w' = t_kv w" "t_roles w' = t_roles w" "t_sessions w' = t_sessions w"
    "t_challenges w' = t_challenges w" "t_oauth_accounts w' = t_oauth_accounts w"
    "t_reset_tokens w' = t_reset_tokens w" "t_invites w' = t_invites w" "redis w' = redis w"
    "t_permissions w' = t_permissions w" "t_role_permissions w' = t_role_permissions w"
    "t_user_roles w' = t_user_roles w" "t_groups w' = t_groups w" "t_user_groups w' = t_user_groups w"
    "t_group_roles w' = t_group_roles w" "t_change_tokens w' = t_change_tokens w"
    "t_identity_tokens w' = t_identity_tokens w" "t_backup_codes w' = t_backup_codes w"
  using assms by (metis db_fields)+

lemma config_get_leaves [leaves_rules]: "leaves db (config_get x now t g k)"
proof (rule leavesI)
  fix s r t' assume "config_get x now t g k s = (r, t')"
  then show "db t' = db s" by (cases rule: config_get_cases) (auto simp: db_def)
qed

lemma config_views_leave [leaves_rules]:
  "leaves db (get_oauth x now t p)" "leaves db (get_password_policy x now t)"
  "leaves db (get_session_policy x now t)" "leaves db (get_rate_limits x now t n)"
  "leaves db (get_login_methods x now t)" "leaves db (get_allowed_email_domains x now t)"
  "leaves db (get_frontend_base_url x now t)"
  unfolding config_getters by (intro leaves_rules)+

lemma effective_login_methods_leaves [leaves_rules]: "leaves db (effective_login_methods x now t u)"
  unfolding effective_login_methods_def Let_def by (intro leaves_rules)

lemma ensure_email_domain_leaves [leaves_rules]: "leaves db (ensure_email_domain_allowed x now t e)"
  unfolding ensure_email_domain_allowed_def by (intro leaves_rules)

lemma new_password_checks_leaves [leaves_rules]: "leaves db (new_password_checks x now t p r)"
  unfolding new_password_checks_def by (intro leaves_rules)

subsection \<open>Memberships and their identities\<close>

definition member_of :: "world \<Rightarrow> user \<Rightarrow> bool" where
  "member_of w u \<longleftrightarrow> (\<exists>m i. m \<in> set (t_users w) \<and> i \<in> set (t_identities w) \<and> i_id i = m_identity_id m \<and> u = row_to_user m i)"

lemma in_from_join: "(m, i) \<in> set (from_join w) \<longleftrightarrow> m \<in> set (t_users w) \<and> i \<in> set (t_identities w) \<and> i_id i = m_identity_id m"
  by (auto simp: from_join_def)

lemma fetch_user_Some:
  assumes "fetch_user P w = (Inr (Some u), w')"
  shows "w' = w" "\<exists>m i. m \<in> set (t_users w) \<and> i \<in> set (t_identities w) \<and> i_id i = m_identity_id m \<and> P m i \<and> u = row_to_user m i"
  using assms by (fastforce simp: fetch_user_def in_from_join dest!: find_first_SomeD)+

lemma load_identity_Inr:
  "load_identity iid w = (Inr i, w') \<longleftrightarrow> w' = w \<and> find_first (\<lambda>i. i_id i = iid) (t_identities w) = Some i"
  by (auto simp: load_identity_def identities_get_by_id_def split: option.splits)

lemma load_identity_member:
  assumes "accounts_ok w" "i \<in> set (t_identities w)" "load_identity (i_id i) w = (Inr j, w')"
  shows "j = i"
  using assms identity_found_by_id [OF accounts_ok_identities, of w i] by (simp add: load_identity_Inr)

lemma check_gates_ok:
  "check_gates now u i = Inr () \<longleftrightarrow> u_status u = ''active'' \<and> i_status i = ''active'' \<and>
     (\<forall>l. i_locked_until i = Some l \<longrightarrow> l \<le> now) \<and> (\<forall>v. u_access_valid_until u = Some v \<longrightarrow> now \<le> v)"
  by (auto simp: check_gates_def split: option.splits)

lemma verify_password_True: "verify_password x h p = Inr True \<longleftrightarrow> x_argon2_verify x h p = Inr True"
  by (cases "x_argon2_verify x h p") (auto simp: verify_password_def)

lemma do_create_session_result:
  "do_create_session x now tok tid u c w = (Inr r, w') \<Longrightarrow> \<exists>e. r = LoginSuccess tok e"
  by (auto simp: do_create_session_def bindE_Inr_iff Let_def)

lemma finalize_login_success:
  "finalize_login x now tok tid u i c w = (Inr (LoginSuccess t e), w') \<longleftrightarrow>
     \<not> i_force_password_change i \<and> \<not> i_mfa_enabled i \<and> do_create_session x now tok tid u c w = (Inr (LoginSuccess t e), w')"
  by (auto simp: finalize_login_def issue_force_change_token_def bindE_Inr_iff)

lemma do_password_login_Inr:
  assumes "do_password_login x now tok tid u pw c meth w = (Inr r, w')"
  obtains i h eff w1 where "load_identity (u_identity_id u) w = (Inr i, w)" "check_gates now u i = Inr ()"
    "effective_login_methods x now tid u w = (Inr eff, w1)" "db w1 = db w" "meth \<in> set eff"
    "i_password_hash i = Some h" "x_argon2_verify x h pw = Inr True"
    "finalize_login x now tok tid u i c (snd (identities_clear_failed_attempts now (i_id i) w1)) = (Inr r, w')"
proof -
  from assms obtain i where i: "load_identity (u_identity_id u) w = (Inr i, w)"
    by (auto simp: do_password_login_def bindE_Inr_iff load_identity_Inr)
  with assms obtain eff w1 h where *: "check_gates now u i = Inr ()"
    "effective_login_methods x now tid u w = (Inr eff, w1)" "meth \<in> set eff" "i_password_hash i = Some h"
    "verify_password x h pw = Inr True"
    "bindE (identities_clear_failed_attempts now (i_id i)) (\<lambda>_. finalize_login x now tok tid u i c) w1 = (Inr r, w')"
    by (auto simp: do_password_login_def bindE_Inr_iff case_res_Inr_iff split: if_splits)
  moreover have "db w1 = db w" by (rule leavesD [OF effective_login_methods_leaves *(2)])
  ultimately show ?thesis
    using that i by (auto simp: verify_password_True identities_clear_failed_attempts_def)
qed

lemma effective_methods_sub:
  "effective_login_methods x now tid u w = (Inr eff, w1) \<Longrightarrow> set eff \<subseteq> set (user_supported_methods u)"
  by (auto simp: effective_login_methods_def bindE_Inr_iff Let_def)

subsection \<open>Errors of the building blocks\<close>

lemma cipher_decrypt_error: "cipher_decrypt x c s = Inl e \<Longrightarrow> store_error e"
  by (auto simp: cipher_decrypt_def cipher_cipher_def bind_res_Inl_iff split: if_splits sum.splits)

lemma fails_config_get [fails_rules]: "fails_only store_error (config_get x now t g k)"
proof -
  have "fails_only store_error (kv_get x t g k)"
    unfolding kv_get_def
    by (intro fails_rules) (auto dest: cipher_decrypt_error)
  then show ?thesis
    unfolding config_get_def config_load_def by (intro fails_rules)
qed

lemma fails_config_views [fails_rules]:
  "fails_only store_error (get_session_policy x now t)" "fails_only store_error (get_login_methods x now t)"
  "fails_only store_error (get_allowed_email_domains x now t)" "fails_only store_error (get_password_policy x now t)"
  unfolding config_getters by (intro fails_rules)+

lemma fails_effective_methods [fails_rules]: "fails_only store_error (effective_login_methods x now t u)"
  unfolding effective_login_methods_def Let_def by (intro fails_rules)

lemma fails_store_set [fails_rules]: "fails_only store_error (store_set x now tok p ttl)"
  unfolding store_set_def redis_set_def rd_setex_def rd_put_def rd_sadd_expire_def rd_smembers_def rd_put_set_def
    pg_set_def create_audit_def
  by (intro fails_rules) simp_all

lemma fails_do_create_session [fails_rules]: "fails_only store_error (do_create_session x now tok t u c)"
  unfolding do_create_session_def Let_def create_audit_def
  by (intro fails_rules) simp_all

lemma fails_finalize_login [fails_rules]: "fails_only store_error (finalize_login x now tok t u i c)"
  unfolding finalize_login_def issue_force_change_token_def change_tokens_create_def create_challenge_def
  by (intro fails_rules) simp_all

lemma decrypt_secret_error: "decrypt_secret x i = Inl e \<Longrightarrow> store_error e"
  by (auto simp: decrypt_secret_def bind_res_Inl_iff split: option.splits sum.splits dest: cipher_decrypt_error)

lemma fails_mfa_verify [fails_rules]: "fails_only store_error (mfa_verify x now i code)"
  unfolding mfa_verify_def mark_step_used_def consume_backup_code_def Let_def
  by (intro fails_rules) (auto dest: decrypt_secret_error)

lemma verify_password_error: "verify_password x h p = Inl e \<Longrightarrow> store_error e"
  by (auto simp: verify_password_def split: sum.splits)

lemma load_identity_error: "load_identity iid w = (Inl e, w') \<Longrightarrow> store_error e"
  by (auto simp: load_identity_def identities_get_by_id_def split: option.splits)

lemma check_gates_error: "check_gates now u i = Inl e \<Longrightarrow> e \<noteq> Unauthorized m"
  by (auto simp: check_gates_def split: if_splits)

subsection \<open>Failed attempts and the lock\<close>

definition lock_state :: "uuid \<Rightarrow> world \<Rightarrow> (int \<times> time option) option" where
  "lock_state iid w = map_option (\<lambda>i. (i_failed_attempts i, i_locked_until i)) (find_first (\<lambda>i. i_id i = iid) (t_identities w))"

lemma lock_state_db: "db w' = db w \<Longrightarrow> lock_state iid w' = lock_state iid w"
  by (simp add: lock_state_def same_db(2) [of w' w])

lemma lock_state_failed:
  assumes "register_failed_attempt now i w = (Inr (), w')" "lock_state (i_id i) w = Some (i_failed_attempts i, l)"
  shows "lock_state (i_id i) w' = Some (i_failed_attempts i + 1, if 5 \<le> i_failed_attempts i + 1 then Some (now + minutes 15) else l)"
proof -
  obtain j where j: "find_first (\<lambda>j. i_id j = i_id i) (t_identities w) = Some j" "i_id j = i_id i"
    "i_failed_attempts j = i_failed_attempts i" "i_locked_until j = l"
    using assms(2) by (auto simp: lock_state_def dest: find_first_SomeD)
  have "same_handles (\<lambda>i. i\<lparr>i_failed_attempts := i_failed_attempts i + 1, i_locked_until := Some u, i_updated_at := now\<rparr>)"
    "same_handles (\<lambda>i. i\<lparr>i_failed_attempts := i_failed_attempts i + 1, i_updated_at := now\<rparr>)" for u
    by (simp_all add: same_handles_def)
  with j assms(1) show ?thesis
    by (auto simp: register_failed_attempt_def identities_increment_failed_attempts_def lock_state_def
        find_identity_update DEFAULT_LOCK_AFTER_ATTEMPTS_def DEFAULT_LOCK_DURATION_MINS_def split: if_splits)
qed

lemma register_failed_returns: "\<exists>w'. register_failed_attempt now i w = (Inr (), w')"
  by (simp add: register_failed_attempt_def identities_increment_failed_attempts_def split: option.split)

lemma do_password_login_rejected:
  assumes "do_password_login x now tok tid u pw c meth w = (Inl (Unauthorized ''Invalid email or password''), w')"
  obtains i w1 where "find_first (\<lambda>i. i_id i = u_identity_id u) (t_identities w) = Some i" "check_gates now u i = Inr ()"
    "db w1 = db w" "register_failed_attempt now i w1 = (Inr (), w')"
proof -
  let ?e = "Unauthorized ''Invalid email or password''"
  have ne: "\<not> store_error ?e" by simp
  obtain i where i: "load_identity (u_identity_id u) w = (Inr i, w)"
    using assms
    by (auto simp: do_password_login_def bindE_Inl_iff load_identity_Inr dest!: load_identity_error)
  moreover have gates: "check_gates now u i = Inr ()"
    using assms i check_gates_error [of now u i]
    by (cases "check_gates now u i") (auto simp: do_password_login_def)
  ultimately obtain eff w1 where eff: "effective_login_methods x now tid u w = (Inr eff, w1)"
    using assms by (auto simp: do_password_login_def bindE_Inl_iff dest!: fails_onlyD [OF fails_effective_methods])
  then have w1: "db w1 = db w" by (rule leavesD [OF effective_login_methods_leaves])
  obtain h where h: "i_password_hash i = Some h" "verify_password x h pw = Inr False"
  proof -
    obtain h where "i_password_hash i = Some h"
      using assms i gates eff by (cases "i_password_hash i") (auto simp: do_password_login_def split: if_splits)
    moreover have "verify_password x h pw \<noteq> Inr True"
    proof
      assume "verify_password x h pw = Inr True"
      then have "finalize_login x now tok tid u i c (snd (identities_clear_failed_attempts now (i_id i) w1)) = (Inl ?e, w')"
        using assms i gates eff calculation
        by (auto simp: do_password_login_def identities_clear_failed_attempts_def split: if_splits)
      then show False using ne fails_onlyD [OF fails_finalize_login] by blast
    qed
    moreover have "\<not> isl (verify_password x h pw)"
      using assms i gates eff calculation(1) verify_password_error [of x h pw]
      by (cases "verify_password x h pw") (auto simp: do_password_login_def split: if_splits)
    ultimately show thesis using that by (metis (full_types) sum.collapse(2))
  qed
  have "register_failed_attempt now i w1 = (Inr (), w')"
    using assms i gates eff h register_failed_returns [of now i w1]
    by (auto simp: do_password_login_def split: if_splits)
  then show thesis using that i gates w1 by (auto simp: load_identity_Inr)
qed

lemma login_identity_rejected:
  assumes "login_identity x now tok email pw w = (Inl (Unauthorized ''Invalid credentials''), w')"
    and "identities_get_by_email (trim email) w = (Inr (Some i), w)" "i_password_hash i = Some h"
  shows "(case i_locked_until i of None \<Rightarrow> True | Some l \<Rightarrow> l \<le> now)" "register_failed_attempt now i w = (Inr (), w')"
proof -
  obtain w'' where r: "register_failed_attempt now i w = (Inr (), w'')" using register_failed_returns by blast
  have tail: "fails_only store_error (bindE (identities_clear_failed_attempts now (i_id i)) (\<lambda>_.
     bindE (identity_tokens_create (i_id i) tok (now + minutes IDENTITY_TOKEN_TTL_MINS)) (\<lambda>_.
     bindE (tenants_for_identity (i_id i)) (\<lambda>tenants. ret (tok, tenants)))))"
    unfolding identities_clear_failed_attempts_def identity_tokens_create_def tenants_for_identity_def
      users_get_memberships_for_identity_def
    by (intro fails_rules) simp_all
  have v: "verify_password x h pw = Inr False"
  proof (cases "verify_password x h pw")
    case (Inl e)
    then show ?thesis using assms verify_password_error [OF Inl]
      by (auto simp: login_identity_def split: if_splits)
  next
    case (Inr ok)
    then show ?thesis
      using assms fails_onlyD [OF tail, of w "Unauthorized ''Invalid credentials''" w'] by (cases ok) (auto simp: login_identity_def split: if_splits)
  qed
  with assms r show "(case i_locked_until i of None \<Rightarrow> True | Some l \<Rightarrow> l \<le> now)" "register_failed_attempt now i w = (Inr (), w')"
    by (auto simp: login_identity_def split: if_splits)
qed

lemma mark_step_lock: "leaves (lock_state iid) (mark_step_used iid' step)"
proof (rule leavesI)
  fix w r w' assume "mark_step_used iid' step w = (r, w')"
  then have w': "w' = t_identities_update (update_rows (step_free iid' step) (\<lambda>i. i\<lparr>i_mfa_last_used_step := Some step\<rparr>)) w"
    by (auto simp: mark_step_used_def Let_def step_free_def [abs_def])
  have "find_first (\<lambda>i. i_id i = iid) (t_identities w') =
      map_option (\<lambda>i. if step_free iid' step i then i\<lparr>i_mfa_last_used_step := Some step\<rparr> else i) (find_first (\<lambda>i. i_id i = iid) (t_identities w))"
    unfolding w' by (simp add: find_first_update_rows)
  then show "lock_state iid w' = lock_state iid w"
    by (cases "find_first (\<lambda>i. i_id i = iid) (t_identities w)") (auto simp: lock_state_def)
qed

lemma mfa_verify_lock: "leaves (lock_state iid) (mfa_verify x now i code)"
  unfolding mfa_verify_def consume_backup_code_def Let_def
  by (intro leaves_rules mark_step_lock leaves_update) (simp add: lock_state_def)

lemma complete_mfa_rejected:
  assumes "complete_mfa_login x now tok mt code c w = (Inl (Unauthorized ''Invalid MFA code''), w')"
  obtains ch u i w1 where "get_challenge now mt w = (Inr (Some ch), w)" "mc_attempt_count ch < 5"
    "users_get_by_id (mc_tenant_id ch) (mc_user_id ch) w = (Inr (Some u), w)"
    "find_first (\<lambda>i. i_id i = u_identity_id u) (t_identities w) = Some i" "check_gates now u i = Inr ()"
    "mfa_verify x now i code w = (Inr False, w1)"
    "register_failed_attempt now i (snd (increment_challenge_attempts mt w1)) = (Inr (), w')"
proof -
  let ?e = "Unauthorized ''Invalid MFA code''"
  obtain ch where ch: "get_challenge now mt w = (Inr (Some ch), w)"
    using assms by (auto simp: complete_mfa_login_def get_challenge_def bindE_Inl_iff split: option.splits)
  then have att: "mc_attempt_count ch < 5"
    using assms by (auto simp: complete_mfa_login_def MAX_MFA_ATTEMPTS_def delete_challenge_def split: if_splits)
  obtain uo where uo: "users_get_by_id (mc_tenant_id ch) (mc_user_id ch) w = (Inr uo, w)"
    by (auto simp: users_get_by_id_def fetch_user_def)
  with ch att assms obtain u where u: "users_get_by_id (mc_tenant_id ch) (mc_user_id ch) w = (Inr (Some u), w)"
    by (cases uo) (auto simp: complete_mfa_login_def MAX_MFA_ATTEMPTS_def)
  with ch att assms obtain i where i: "load_identity (u_identity_id u) w = (Inr i, w)"
    by (auto simp: complete_mfa_login_def MAX_MFA_ATTEMPTS_def bindE_Inl_iff load_identity_Inr dest!: load_identity_error)
  with ch att u assms have gates: "check_gates now u i = Inr ()"
    using check_gates_error [of now u i]
    by (cases "check_gates now u i") (auto simp: complete_mfa_login_def MAX_MFA_ATTEMPTS_def)
  with ch att u i assms obtain ok w1 where v: "mfa_verify x now i code w = (Inr ok, w1)"
    by (auto simp: complete_mfa_login_def MAX_MFA_ATTEMPTS_def bindE_Inl_iff dest!: fails_onlyD [OF fails_mfa_verify])
  have "\<not> ok"
  proof
    assume ok
    with ch att u i gates v assms have "do_create_session x now tok (mc_tenant_id ch) u c
        (snd (identities_clear_failed_attempts now (i_id i) (snd (delete_challenge mt w1)))) = (Inl ?e, w')"
      by (auto simp: complete_mfa_login_def MAX_MFA_ATTEMPTS_def delete_challenge_def identities_clear_failed_attempts_def
          split: if_splits)
    then have "store_error ?e" by (rule fails_onlyD [OF fails_do_create_session])
    then show False by simp
  qed
  moreover obtain w2 where "register_failed_attempt now i (snd (increment_challenge_attempts mt w1)) = (Inr (), w2)"
    using register_failed_returns by blast
  ultimately show thesis
    using that [OF ch att u] ch att u i gates v assms
    by (auto simp: complete_mfa_login_def MAX_MFA_ATTEMPTS_def increment_challenge_attempts_def load_identity_Inr)
qed

text \<open>
  A wrong guess against one identity: a wrong password in any tenant, a wrong password at the
  identity-first login, or a wrong second factor. A run is a sequence of wrong guesses with the
  instants at which they were made; between guesses anything may happen that leaves the
  identity's counter and lock alone.
\<close>

inductive wrong_guess :: "ext \<Rightarrow> uuid \<Rightarrow> time \<Rightarrow> world \<Rightarrow> world \<Rightarrow> bool" for x iid now where
  password: "u_identity_id u = iid \<Longrightarrow>
    do_password_login x now tok tid u pw c meth w = (Inl (Unauthorized ''Invalid email or password''), w') \<Longrightarrow>
    wrong_guess x iid now w w'"
| identity_password: "identities_ok w \<Longrightarrow>
    identities_get_by_email (trim email) w = (Inr (Some i), w) \<Longrightarrow> i_id i = iid \<Longrightarrow> i_password_hash i = Some h \<Longrightarrow>
    login_identity x now tok email pw w = (Inl (Unauthorized ''Invalid credentials''), w') \<Longrightarrow>
    wrong_guess x iid now w w'"
| code: "get_challenge now mt w = (Inr (Some ch), w) \<Longrightarrow>
    users_get_by_id (mc_tenant_id ch) (mc_user_id ch) w = (Inr (Some u), w) \<Longrightarrow> u_identity_id u = iid \<Longrightarrow>
    complete_mfa_login x now tok mt code c w = (Inl (Unauthorized ''Invalid MFA code''), w') \<Longrightarrow>
    wrong_guess x iid now w w'"

inductive guess_run :: "ext \<Rightarrow> uuid \<Rightarrow> world \<Rightarrow> time list \<Rightarrow> world \<Rightarrow> bool" for x iid w0 where
  start: "guess_run x iid w0 [] w0"
| guess: "guess_run x iid w0 ts w \<Longrightarrow> wrong_guess x iid now w w' \<Longrightarrow> guess_run x iid w0 (ts @ [now]) w'"
| other: "guess_run x iid w0 ts w \<Longrightarrow> lock_state iid w' = lock_state iid w \<Longrightarrow> guess_run x iid w0 ts w'"

lemma lock_stateI:
  "find_first (\<lambda>i. i_id i = iid) (t_identities w) = Some i \<Longrightarrow>
   i_id i = iid \<and> lock_state iid w = Some (i_failed_attempts i, i_locked_until i)"
  by (auto simp: lock_state_def dest: find_first_SomeD)

lemma wrong_guess_locks:
  assumes "wrong_guess x iid now w w'" "lock_state iid w = Some (n, l)"
  shows "(\<forall>t. l = Some t \<longrightarrow> t \<le> now) \<and>
    lock_state iid w' = Some (n + 1, if 5 \<le> n + 1 then Some (now + minutes 15) else l)"
  using assms(1)
proof cases
  case (password u tok tid pw c meth)
  obtain i w1 where i: "find_first (\<lambda>i. i_id i = u_identity_id u) (t_identities w) = Some i" "check_gates now u i = Inr ()"
    "db w1 = db w" "register_failed_attempt now i w1 = (Inr (), w')"
    using password(2) by (rule do_password_login_rejected)
  moreover have "i_id i = iid" "i_failed_attempts i = n" "i_locked_until i = l"
    using lock_stateI [OF i(1)] password(1) assms(2) by simp_all
  ultimately show ?thesis
    using lock_state_failed [OF i(4)] lock_state_db [OF i(3)] assms(2) by (auto simp: check_gates_ok)
next
  case (identity_password email i h tok pw)
  then have "i \<in> set (t_identities w)" by (auto simp: identities_get_by_email_def dest: find_first_SomeD)
  then have "i_failed_attempts i = n" "i_locked_until i = l"
    using identity_found_by_id [OF identity_password(1), of i] identity_password(3) assms(2)
    by (auto dest: lock_stateI)
  then show ?thesis
    using login_identity_rejected [OF identity_password(5,2,4)] lock_state_failed assms(2) identity_password(3)
    by (auto split: option.splits)
next
  case (code mt ch u tok code c)
  from code(4) obtain ch' u' i w1 where r: "get_challenge now mt w = (Inr (Some ch'), w)"
    "users_get_by_id (mc_tenant_id ch') (mc_user_id ch') w = (Inr (Some u'), w)"
    "find_first (\<lambda>i. i_id i = u_identity_id u') (t_identities w) = Some i" "check_gates now u' i = Inr ()"
    "mfa_verify x now i code w = (Inr False, w1)"
    "register_failed_attempt now i (snd (increment_challenge_attempts mt w1)) = (Inr (), w')"
    by (rule complete_mfa_rejected)
  then have id: "i_id i = iid" "i_failed_attempts i = n" "i_locked_until i = l"
    using lock_stateI [OF r(3)] code(1-3) assms(2) by auto
  have "lock_state iid (snd (increment_challenge_attempts mt w1)) = lock_state iid w"
    using leavesD [OF mfa_verify_lock r(5)] by (simp add: increment_challenge_attempts_def lock_state_def)
  with r(4) id show ?thesis
    using lock_state_failed [OF r(6)] assms(2) by (auto simp: check_gates_ok)
qed

lemma guess_run_locks:
  assumes "guess_run x iid w0 ts w" "lock_state iid w0 = Some (k, l)" "0 \<le> k"
  shows "lock_state iid w = Some (k + int (length ts), if ts \<noteq> [] \<and> 5 \<le> k + int (length ts) then Some (last ts + minutes 15) else l)
    \<and> (\<forall>j. 5 \<le> j \<longrightarrow> j < length ts \<longrightarrow> ts ! (j - 1) + minutes 15 \<le> ts ! j)"
  using assms(1)
proof induction
  case start
  then show ?case using assms(2) by simp
next
  case (guess ts w now w')
  let ?l = "if ts \<noteq> [] \<and> 5 \<le> k + int (length ts) then Some (last ts + minutes 15) else l"
  have step: "\<forall>t. ?l = Some t \<longrightarrow> t \<le> now"
    "lock_state iid w' = Some (k + int (length ts) + 1, if 5 \<le> k + int (length ts) + 1 then Some (now + minutes 15) else ?l)"
    using wrong_guess_locks [OF guess.hyps(2)] guess.IH by blast+
  have "(ts @ [now]) ! (j - 1) + minutes 15 \<le> (ts @ [now]) ! j" if "5 \<le> j" "j < length (ts @ [now])" for j
  proof (cases "j < length ts")
    case True
    moreover from True have "j - 1 < length ts" by simp
    ultimately show ?thesis using guess.IH that(1) by (simp add: nth_append)
  next
    case False
    then have "j = length ts" "ts \<noteq> []" using that by auto
    then show ?thesis using step(1) that(1) assms(3) by (auto simp: nth_append last_conv_nth)
  qed
  with step(2) show ?case by (auto simp: add.assoc)
next
  case (other ts w w')
  then show ?case by simp
qed

text \<open>
  The wrong guesses since the counter was last cleared, which a login with the right password or second factor does.
\<close>

inductive guess_history :: "ext \<Rightarrow> uuid \<Rightarrow> time list \<Rightarrow> world \<Rightarrow> bool" for x iid where
  start: "lock_state iid w = Some (k, l) \<Longrightarrow> 0 \<le> k \<Longrightarrow> guess_history x iid [] w"
| guess: "guess_history x iid ts w \<Longrightarrow> wrong_guess x iid now w w' \<Longrightarrow> guess_history x iid (ts @ [now]) w'"
| cleared: "guess_history x iid ts w \<Longrightarrow> identities_clear_failed_attempts now iid w = (Inr (), w') \<Longrightarrow>
    guess_history x iid [] w'"
| other: "guess_history x iid ts w \<Longrightarrow> lock_state iid w' = lock_state iid w \<Longrightarrow> guess_history x iid ts w'"

lemma lock_state_cleared:
  "identities_clear_failed_attempts now iid w = (r, w') \<Longrightarrow> lock_state iid w \<noteq> None \<Longrightarrow> lock_state iid w' = Some (0, None)"
  by (auto simp: identities_clear_failed_attempts_def lock_state_def find_first_update_rows dest: find_first_SomeD)

lemma guess_history_run:
  "guess_history x iid ts w \<Longrightarrow> \<exists>w0 k l. guess_run x iid w0 ts w \<and> lock_state iid w0 = Some (k, l) \<and> 0 \<le> k"
proof (induction rule: guess_history.induct)
  case (cleared ts w now w')
  then have "lock_state iid w \<noteq> None" using guess_run_locks by fastforce
  then have "lock_state iid w' = Some (0, None)" by (rule lock_state_cleared [OF cleared.hyps(2)])
  then show ?case using guess_run.start by fastforce
qed (blast intro: guess_run.intros)+


text \<open>A world with one account: identity 7, member 5 of tenant \<^verbatim>\<open>acme\<close>.\<close>

definition login_identity0 :: "int \<Rightarrow> time option \<Rightarrow> time \<Rightarrow> identity" where
  "login_identity0 n l t = \<lparr>i_id = 7, i_email = Some ''ann@acme.io'', i_mobile = None, i_country_code = None,
     i_first_name = None, i_last_name = None, i_password_hash = Some ''$pw'', i_mfa_enabled = False,
     i_mfa_secret = None, i_force_password_change = False, i_failed_attempts = n, i_locked_until = l,
     i_status = ''active'', i_created_at = 0, i_updated_at = t, i_mfa_last_used_step = None\<rparr>"

definition login_world :: "identity \<Rightarrow> world" where
  "login_world i = world0\<lparr>t_identities := [i],
     t_users := [\<lparr>m_id = 5, m_tenant_id = ''acme'', m_identity_id = 7, m_username = Some ''ann'',
       m_status = ''active'', m_access_valid_until = None, m_created_at = 0, m_updated_at = 0\<rparr>]\<rparr>"

lemma login_world_ok: "i_id i = 7 \<Longrightarrow> mobile_pair i \<Longrightarrow> accounts_ok (login_world i)"
  by (simp add: accounts_ok_def identity_table_ok_def users_table_ok_def login_world_def unique_on_def keyed_def
      split: option.split)

lemma login_world_guess:
  assumes "\<forall>u. l = Some u \<longrightarrow> u \<le> now"
  shows "wrong_guess ext0 7 now (login_world (login_identity0 n l t)) (login_world (login_identity0 (n + 1)
    (if 5 \<le> n + 1 then Some (now + minutes 15) else l) now))"
proof (rule wrong_guess.identity_password)
  let ?w = "login_world (login_identity0 n l t)"
  show "identities_ok ?w"
    by (rule accounts_ok_identities [OF login_world_ok]) (simp_all add: login_identity0_def mobile_pair_def)
  have "email_key (login_identity0 n l t) = Some ''ann@acme.io''"
    by (simp add: email_key_def login_identity0_def) code_simp
  moreover have "to_lowercase (trim ''ann@acme.io'') = ''ann@acme.io''" by code_simp
  ultimately show get: "identities_get_by_email (trim ''ann@acme.io'') ?w = (Inr (Some (login_identity0 n l t)), ?w)"
    by (simp add: identities_get_by_email_def login_world_def)
  show "login_identity ext0 now ''t'' ''ann@acme.io'' ''bad'' ?w = (Inl (Unauthorized ''Invalid credentials''),
      login_world (login_identity0 (n + 1) (if 5 \<le> n + 1 then Some (now + minutes 15) else l) now))"
    using assms get
    by (auto simp: login_identity_def login_identity0_def verify_password_def ext0_def register_failed_attempt_def
        identities_increment_failed_attempts_def DEFAULT_LOCK_AFTER_ATTEMPTS_def DEFAULT_LOCK_DURATION_MINS_def
        login_world_def update_rows_def split: option.splits)
qed (simp_all add: login_identity0_def)


end
