(* ===== verification/Auth_Sound.thy ===== *)
theory Auth_Sound
  imports Auth_Logins
begin

section \<open>What a successful login means\<close>

text \<open>
  The logins of \<^verbatim>\<open>src/services/auth.rs\<close> seen from their result: which rows and which proof of
  possession a session rests on, what the session stores, and what the second factor consumes.
\<close>

subsection \<open>Password logins\<close>

text \<open>The account a login may use at an instant: active, not locked, not expired.\<close>

definition admissible :: "time \<Rightarrow> membership \<Rightarrow> identity \<Rightarrow> bool" where
  "admissible now m i \<longleftrightarrow> m_identity_id m = i_id i \<and> m_status m = ''active'' \<and> i_status i = ''active'' \<and>
     (case i_locked_until i of None \<Rightarrow> True | Some l \<Rightarrow> l \<le> now) \<and>
     (case m_access_valid_until m of None \<Rightarrow> True | Some v \<Rightarrow> now \<le> v)"

lemma row_to_user_fields [simp]:
  "u_id (row_to_user m i) = m_id m" "u_tenant_id (row_to_user m i) = m_tenant_id m"
  "u_identity_id (row_to_user m i) = m_identity_id m" "u_status (row_to_user m i) = m_status m"
  "u_access_valid_until (row_to_user m i) = m_access_valid_until m" "u_email (row_to_user m i) = i_email i"
  "u_username (row_to_user m i) = m_username m"
  by (simp_all add: row_to_user_def)

lemma gates_admissible:
  "check_gates now (row_to_user m i) j = Inr () \<Longrightarrow> i_id j = m_identity_id m \<Longrightarrow> admissible now m j"
  by (auto simp: check_gates_ok admissible_def split: option.split)

lemma password_login_account:
  assumes "accounts_ok w" "fetch_user P w = (Inr (Some u), w2)" 
    and "do_password_login x now tok tid u pw c meth w2 = (Inr r, w')"
  obtains m i h w3 where "m \<in> set (t_users w)" "i \<in> set (t_identities w)" "u = row_to_user m i" "P m i" "admissible now m i"
    "i_password_hash i = Some h" "x_argon2_verify x h pw = Inr True" "meth \<in> set (user_supported_methods u)"
    "finalize_login x now tok tid u i c w3 = (Inr r, w')"
proof -
  from fetch_user_Some [OF assms(2)] obtain m i where mi: "w2 = w" "m \<in> set (t_users w)" "i \<in> set (t_identities w)"
    "i_id i = m_identity_id m" "P m i" "u = row_to_user m i" by blast
  from assms(3) obtain j h eff w1 where j: "load_identity (u_identity_id u) w2 = (Inr j, w2)" "check_gates now u j = Inr ()"
    "effective_login_methods x now tid u w2 = (Inr eff, w1)" "meth \<in> set eff" "i_password_hash j = Some h"
    "x_argon2_verify x h pw = Inr True"
    "finalize_login x now tok tid u j c (snd (identities_clear_failed_attempts now (i_id j) w1)) = (Inr r, w')"
    by (rule do_password_login_Inr)
  have "j = i"
    using load_identity_member [OF assms(1) mi(3)] j(1) mi by simp
  with j mi show thesis
    using that [OF mi(2,3,6,5)] gates_admissible [of now m i i] effective_methods_sub [OF j(3)] by auto
qed

text \<open>
  C2. A password login that yields a session was made with the right password for an account
  that may sign in: the tenant has a membership with the given e-mail address or username, the
  membership and its identity are active, the identity is not locked and the access period has
  not ended, the stored hash verifies the password, and neither a password change nor a second
  factor is due.
\<close>

theorem password_login_sound:
  assumes "accounts_ok w"
    and "login_email_password x now tok tid name pw c w = (Inr (LoginSuccess t e), w')
       \<or> login_username_password x now tok tid name pw c w = (Inr (LoginSuccess t e), w')"
  shows "\<exists>m i h. m \<in> set (t_users w) \<and> i \<in> set (t_identities w) \<and> m_tenant_id m = tid \<and>
    (i_email i = Some name \<or> m_username m = Some name) \<and> admissible now m i \<and>
    i_password_hash i = Some h \<and> x_argon2_verify x h pw = Inr True \<and>
    \<not> i_force_password_change i \<and> \<not> i_mfa_enabled i"
proof -
  obtain P v u meth where ok: "accounts_ok v" "t_users v = t_users w" "t_identities v = t_identities w"
    and u: "fetch_user P v = (Inr (Some u), v)"
    and P: "\<forall>m i. P m i \<longrightarrow> m_tenant_id m = tid \<and> (i_email i = Some name \<or> m_username m = Some name)"
    and login: "do_password_login x now tok tid u pw c meth v = (Inr (LoginSuccess t e), w')"
    using assms(2)
  proof
    assume "login_email_password x now tok tid name pw c w = (Inr (LoginSuccess t e), w')"
    then obtain v u where v: "ensure_email_domain_allowed x now tid name w = (Inr (), v)"
      "users_get_by_email tid name v = (Inr (Some u), v)"
      "do_password_login x now tok tid u pw c LOGIN_METHOD_EMAIL_PASSWORD v = (Inr (LoginSuccess t e), w')"
      by (auto simp: login_email_password_def bindE_Inr_iff users_get_by_email_def fetch_user_def split: option.splits)
    have "db v = db w" by (rule leavesD [OF ensure_email_domain_leaves v(1)])
    then show thesis
      using that [of v "\<lambda>m i. m_tenant_id m = tid \<and> i_email i = Some name" u LOGIN_METHOD_EMAIL_PASSWORD] v(2,3) assms(1)
      by (simp add: same_db(1,2) [of v w] accounts_ok_def users_get_by_email_def)
  next
    assume "login_username_password x now tok tid name pw c w = (Inr (LoginSuccess t e), w')"
    then obtain u where "users_get_by_username tid name w = (Inr (Some u), w)"
      "do_password_login x now tok tid u pw c LOGIN_METHOD_USERNAME_PASSWORD w = (Inr (LoginSuccess t e), w')"
      by (auto simp: login_username_password_def bindE_Inr_iff users_get_by_username_def fetch_user_def split: option.splits)
    then show thesis
      using that [of w "\<lambda>m i. m_tenant_id m = tid \<and> m_username m = Some name" u LOGIN_METHOD_USERNAME_PASSWORD] assms(1)
      by (simp add: users_get_by_username_def)
  qed
  from ok(1) u login obtain m i h w3 where "m \<in> set (t_users v)" "i \<in> set (t_identities v)" "P m i" "admissible now m i"
    "i_password_hash i = Some h" "x_argon2_verify x h pw = Inr True"
    "finalize_login x now tok tid u i c w3 = (Inr (LoginSuccess t e), w')"
    by (rule password_login_account)
  then show ?thesis using P ok(2,3) by (auto simp: finalize_login_success)
qed

theorem password_login_sound_witness:
  "\<exists>t e w' m i h. login_username_password ext0 0 ''tok'' ''acme'' ''ann'' ''pw'' (None, None) (login_world (login_identity0 0 None 0))
      = (Inr (LoginSuccess t e), w') \<and>
    m \<in> set (t_users (login_world (login_identity0 0 None 0))) \<and> admissible 0 m i \<and> i_password_hash i = Some h \<and>
    x_argon2_verify ext0 h ''pw'' = Inr True"
proof -
  let ?w = "login_world (login_identity0 0 None 0)"
  let ?r = "login_username_password ext0 0 ''tok'' ''acme'' ''ann'' ''pw'' (None, None) ?w"
  have "fst ?r = Inr (LoginSuccess ''tok'' (secs 86400))" by code_simp
  then have r: "?r = (Inr (LoginSuccess ''tok'' (secs 86400)), snd ?r)" by (metis prod.collapse)
  have "accounts_ok ?w" by (rule login_world_ok) (simp_all add: login_identity0_def mobile_pair_def)
  from password_login_sound [OF this disjI2 [OF r]] r show ?thesis by blast
qed

subsection \<open>The session a login creates\<close>

lemma set_dedup_chain [simp]: "set (dedup_chain a b) = set a \<union> set b" "distinct (dedup_chain a b)"
proof -
  have *: "set (dedup_seen S xs) = set xs - S \<and> distinct (dedup_seen S xs)" for S and xs :: "'b list"
    by (induction S xs rule: dedup_seen.induct) auto
  show "set (dedup_chain a b) = set a \<union> set b" "distinct (dedup_chain a b)"
    using * [of "{}" "a @ b"] by (simp_all add: dedup_chain_def)
qed

lemma set_permissions_of_roles:
  "set (permissions_of_roles w tid rs) =
     {p_name p | p. p \<in> set (t_permissions w) \<and> p_tenant_id p = tid \<and> (\<exists>r \<in> set rs. (r_id r, p_id p) \<in> set (t_role_permissions w))}"
  by (auto simp: permissions_of_roles_def list_ex_iff)

lemmas payload_reads =
  roles_get_user_roles_def roles_get_user_role_ids_def roles_get_user_permissions_def groups_get_user_group_uids_def
  groups_get_user_group_ids_def groups_get_user_group_role_uids_def groups_get_user_group_role_ids_def
  groups_get_user_group_permissions_def

lemma do_create_session_run:
  "do_create_session x now tok tid u c w =
     bindE (get_session_policy x now tid) (\<lambda>pol.
       let ttl = session_ttl x pol; e = now + secs (sint ttl) in
       bindE (store_set x now tok (session_payload_of w tid u c e) ttl) (\<lambda>_.
       bindE (if writes_audit_row x then ret ()
              else create_audit x tok tid (u_id u) (fst c) (snd c) e (Some (x_payload_ser x (session_payload_of w tid u c e)))) (\<lambda>_.
       ret (LoginSuccess tok e)))) w"
  by (simp add: do_create_session_def session_payload_of_def payload_reads catch_default_def bindE_run Let_def
      cong: if_cong)

lemma store_ok_db: "db w' = db w \<Longrightarrow> store_ok x t w' = store_ok x t w"
  by (simp add: store_ok_def pg_ok_def redis_ok_def listed_def own_only_def entry_def members_def
      same_db(6,11) [of w' w])

lemma store_fits_db: "db w' = db w \<Longrightarrow> store_fits x ttl t p tok w' = store_fits x ttl t p tok w"
  by (simp add: store_fits_def redis_fits_def set_covers_def redis_unused_def entry_def same_db(11) [of w' w])

lemma valid_sessions_view:
  "redis w' = redis w \<Longrightarrow> (\<not> c_uses_redis x \<Longrightarrow> t_sessions w' = t_sessions w) \<Longrightarrow> valid_sessions x t w' = valid_sessions x t w"
  by (rule ext) (auto simp: valid_sessions_def store_get_def pg_get_def redis_get_def rd_get_def
      bindE_run split: option.splits sum.splits prod.splits)

lemma session_payload_claims:
  "set (sp_role_ids (session_payload_of w tid u c e)) =
     r_id ` (set (effective_roles w tid (u_id u)) \<union> set (effective_group_roles w tid (u_id u)))"
  "set (sp_roles (session_payload_of w tid u c e)) =
     r_uid ` (set (effective_roles w tid (u_id u)) \<union> set (effective_group_roles w tid (u_id u)))"
  "set (sp_permissions (session_payload_of w tid u c e)) =
     set (permissions_of_roles w tid (effective_roles w tid (u_id u) @ effective_group_roles w tid (u_id u)))"
  "set (sp_group_ids (session_payload_of w tid u c e)) = g_id ` set (groups_of_user w tid (u_id u))"
  by (auto simp: session_payload_of_def payload_reads set_permissions_of_roles)

lemma do_create_session_stores:
  assumes "get_session_policy x now tid w = (Inr pol, w1)" "ttl = session_ttl x pol" "sint ttl = uint ttl"
    and "store_ok x now w" "store_fits x ttl now p tok w" "p = session_payload_of w tid u c (now + secs (uint ttl))"
    and "payload_storable x p" "do_create_session x now tok tid u c w = (Inr r, w')"
  shows "r = LoginSuccess tok (now + secs (uint ttl))"
    and "valid_sessions x t w' = (valid_sessions x t w)(tok := if t < now + secs (uint ttl) then Some p else None)"
proof -
  have w1: "db w1 = db w" by (rule leavesD [OF config_views_leave(3) assms(1)])
  from assms obtain w2 where set: "store_set x now tok p ttl w1 = (Inr (), w2)" and r: "r = LoginSuccess tok (now + secs (uint ttl))"
    and audit: "(if writes_audit_row x then ret () else create_audit x tok tid (u_id u) (fst c) (snd c) (now + secs (uint ttl))
        (Some (x_payload_ser x p))) w2 = (Inr (), w')"
    by (auto simp: do_create_session_run bindE_Inr_iff Let_def cong: if_cong)
  show "r = LoginSuccess tok (now + secs (uint ttl))" by (rule r)
  have "store_ok x now w1" "store_fits x ttl now p tok w1" using assms(4,5) by (simp_all add: store_ok_db [OF w1] store_fits_db [OF w1])
  then have "valid_sessions x t w2 = (valid_sessions x t w1)(tok := if t < sp_expires_at p then Some p else None)"
    using store_refines(2) [OF _ assms(7) _ _ set] assms(6) by (simp add: session_payload_of_def)
  moreover have "valid_sessions x t w1 = valid_sessions x t w"
    by (rule valid_sessions_view) (simp_all add: same_db(6,11) [OF w1])
  moreover have "valid_sessions x t w' = valid_sessions x t w2"
    by (rule valid_sessions_view)
      (use audit in \<open>auto simp: writes_audit_row_def create_audit_def split: if_splits option.splits\<close>)
  ultimately show "valid_sessions x t w' = (valid_sessions x t w)(tok := if t < now + secs (uint ttl) then Some p else None)"
    using assms(6) by (simp add: session_payload_of_def)
qed

text \<open>
  C10. The session a login creates is the one the user is entitled to, and only that one: from the
  login until the expiry that the tenant's session policy gives, its token denotes a payload for this
  user and tenant, whose roles are exactly the ones held directly or through a group, with
  their ancestors, whose permissions are exactly the ones those roles grant, and whose groups are
  the user's; every other token denotes what it denoted before.
\<close>

theorem login_session_correct:
  assumes "get_session_policy x now tid w = (Inr pol, w1)" "ttl = session_ttl x pol" "sint ttl = uint ttl"
    and "store_ok x now w" "store_fits x ttl now p tok w" "p = session_payload_of w tid u c (now + secs (uint ttl))"
    and "payload_storable x p" "do_create_session x now tok tid u c w = (Inr r, w')"
    and "held = effective_roles w tid (u_id u) @ effective_group_roles w tid (u_id u)"
  shows "r = LoginSuccess tok (now + secs (uint ttl)) \<and>
    valid_sessions x t w' = (valid_sessions x t w)(tok := if t < now + secs (uint ttl) then Some p else None) \<and>
    sp_tenant_id p = tid \<and> sp_user_id p = u_id u \<and> sp_identity_id p = u_identity_id u \<and>
    set (sp_role_ids p) = r_id ` set held \<and> set (sp_roles p) = r_uid ` set held \<and>
    set (sp_permissions p) = set (permissions_of_roles w tid held) \<and>
    set (sp_group_ids p) = g_id ` set (groups_of_user w tid (u_id u))"
  using do_create_session_stores [OF assms(1-8)] unfolding assms(6,9)
  by (simp add: session_payload_claims) (simp add: session_payload_of_def)

text \<open>A serialiser that reads back the payload of the login below.\<close>

definition login_payload :: session_payload where
  "login_payload = \<lparr>sp_tenant_id = ''acme'', sp_user_id = 5, sp_identity_id = 7, sp_roles = [], sp_role_ids = [],
     sp_permissions = [], sp_groups = [], sp_group_ids = [], sp_ip = None, sp_user_agent = None, sp_expires_at = secs 86400\<rparr>"

definition login_ext :: ext where
  "login_ext = ext0\<lparr>x_payload_de := (\<lambda>_. Inr login_payload)\<rparr>"

definition login_user :: user where
  "login_user = row_to_user (hd (t_users (login_world (login_identity0 0 None 0)))) (login_identity0 0 None 0)"

theorem login_session_correct_witness:
  "\<exists>w'. do_create_session login_ext 0 ''tok'' ''acme'' login_user (None, None) (login_world (login_identity0 0 None 0))
       = (Inr (LoginSuccess ''tok'' (secs 86400)), w') \<and>
     valid_sessions login_ext (secs 86399) w' ''tok'' = Some login_payload \<and>
     valid_sessions login_ext (secs 86400) w' ''tok'' = None"
proof -
  let ?w = "login_world (login_identity0 0 None 0)"
  let ?r = "do_create_session login_ext 0 ''tok'' ''acme'' login_user (None, None) ?w"
  have "fst (get_session_policy login_ext 0 ''acme'' ?w) = Inr None" by code_simp
  then obtain w1 where pol: "get_session_policy login_ext 0 ''acme'' ?w = (Inr None, w1)" by (metis prod.collapse)
  have "session_payload_of ?w ''acme'' login_user (None, None) (secs 86400) = login_payload" by code_simp
  then have p: "login_payload = session_payload_of ?w ''acme'' login_user (None, None) (0 + secs (uint (86400 :: 64 word)))" by simp
  have "fst ?r = Inr (LoginSuccess ''tok'' (secs 86400))" by code_simp
  then have r: "?r = (Inr (LoginSuccess ''tok'' (secs 86400)), snd ?r)" by (metis prod.collapse)
  have ok: "store_ok login_ext 0 ?w" "store_fits login_ext 86400 0 login_payload ''tok'' ?w" "payload_storable login_ext login_payload"
    "86400 = session_ttl login_ext None"
    by (simp_all add: store_ok_def pg_ok_def store_fits_def payload_storable_def login_ext_def ext0_def login_world_def
        world0_def unique_on_def login_payload_def valid_uuid_def session_ttl_def default_session_ttl_secs_def)
  note login_session_correct [OF pol ok(4) _ ok(1,2) p ok(3) r refl]
  from this [of "secs 86399"] this [of "secs 86400"] show ?thesis
    by (intro exI [of _ "snd ?r"]) (use r in \<open>simp add: secs_def\<close>)
qed

subsection \<open>The second factor\<close>

lemma challenges_left [leaves_rules]:
  "leaves t_challenges (identities_clear_failed_attempts now iid)"
  "leaves t_challenges (store_set x now tok p ttl)"
  "leaves t_challenges (create_audit x tok tid uid ip ua e pl)"
  "leaves t_challenges (get_session_policy x now tid)"
proof -
  show "leaves t_challenges (identities_clear_failed_attempts now iid)"
    unfolding identities_clear_failed_attempts_def by (rule leaves_update) simp
  have audit: "leaves t_challenges (create_audit x tok tid uid ip ua e pl)" for tid uid ip ua e pl
    unfolding create_audit_def by (rule leaves_insert) simp
  then show "leaves t_challenges (create_audit x tok tid uid ip ua e pl)" .
  show "leaves t_challenges (store_set x now tok p ttl)"
    unfolding store_set_def redis_set_def rd_setex_def rd_put_def rd_sadd_expire_def rd_smembers_def rd_put_set_def pg_set_def
    by (intro leaves_rules leaves_modify audit) simp_all
  show "leaves t_challenges (get_session_policy x now tid)"
    by (rule leavesI) (metis db_fields(7) leavesD config_views_leave(3))
qed

lemma do_create_session_challenges: "leaves t_challenges (do_create_session x now tok tid u c)"
  unfolding do_create_session_def Let_def by (intro leaves_rules leaves_readonly; simp)

lemma complete_mfa_accepted:
  assumes "accounts_ok w" "complete_mfa_login x now tok mt code c w = (Inr r, w')"
  obtains ch m i w1 w3 where "get_challenge now mt w = (Inr (Some ch), w)" "mc_attempt_count ch < 5"
    "m \<in> set (t_users w)" "i \<in> set (t_identities w)" "m_tenant_id m = mc_tenant_id ch" "m_id m = mc_user_id ch"
    "admissible now m i" "mfa_verify x now i code w = (Inr True, w1)"
    "t_challenges w' = filter (\<lambda>r. ch_token r \<noteq> mt) (t_challenges w1)"
    "do_create_session x now tok (mc_tenant_id ch) (row_to_user m i) c w3 = (Inr r, w')"
proof -
  obtain ch where ch: "get_challenge now mt w = (Inr (Some ch), w)"
    using assms(2) by (auto simp: complete_mfa_login_def get_challenge_def bindE_Inr_iff split: option.splits)
  then have att: "mc_attempt_count ch < 5"
    using assms(2) by (auto simp: complete_mfa_login_def MAX_MFA_ATTEMPTS_def delete_challenge_def split: if_splits)
  from ch att assms(2) obtain u where u: "users_get_by_id (mc_tenant_id ch) (mc_user_id ch) w = (Inr (Some u), w)"
    by (auto simp: complete_mfa_login_def MAX_MFA_ATTEMPTS_def bindE_Inr_iff users_get_by_id_def fetch_user_def split: option.splits)
  then obtain m i where mi: "m \<in> set (t_users w)" "i \<in> set (t_identities w)" "i_id i = m_identity_id m"
    "m_tenant_id m = mc_tenant_id ch" "m_id m = mc_user_id ch" "u = row_to_user m i"
    using fetch_user_Some(2) unfolding users_get_by_id_def by blast
  have load: "load_identity (u_identity_id u) w = (Inr i, w)"
    using identity_found_by_id [OF accounts_ok_identities [OF assms(1)] mi(2)] mi by (simp add: load_identity_Inr)
  have gates: "check_gates now u i = Inr ()"
    using ch att u load assms(2) by (cases "check_gates now u i") (simp_all add: complete_mfa_login_def MAX_MFA_ATTEMPTS_def)
  with ch att u load assms(2) obtain ok w1 where ver: "mfa_verify x now i code w = (Inr ok, w1)"
    by (cases "mfa_verify x now i code w"; cases "fst (mfa_verify x now i code w)")
      (simp_all add: complete_mfa_login_def MAX_MFA_ATTEMPTS_def)
  moreover have ok
  proof (rule ccontr)
    assume "\<not> ok"
    obtain w2 where inc: "increment_challenge_attempts mt w1 = (Inr (), w2)" by (simp add: increment_challenge_attempts_def)
    obtain w3 where "register_failed_attempt now i w2 = (Inr (), w3)" using register_failed_returns by blast
    with \<open>\<not> ok\<close> inc ch att u load gates ver assms(2) show False
      by (simp add: complete_mfa_login_def MAX_MFA_ATTEMPTS_def)
  qed
  moreover define w2 where "w2 = t_challenges_update (filter (\<lambda>r. ch_token r \<noteq> mt)) w1"
  moreover obtain n where del: "delete_challenge mt w1 = (Inr n, w2)"
    by (simp add: delete_challenge_def w2_def)
  ultimately have v: "mfa_verify x now i code w = (Inr True, w1)"
    "bindE (identities_clear_failed_attempts now (i_id i)) (\<lambda>_. do_create_session x now tok (mc_tenant_id ch) u c) w2 = (Inr r, w')"
    using ch att u load gates assms(2)
    by (simp_all add: complete_mfa_login_def MAX_MFA_ATTEMPTS_def split: if_splits)
  have "leaves t_challenges (bindE (identities_clear_failed_attempts now (i_id i)) (\<lambda>_. do_create_session x now tok (mc_tenant_id ch) u c))"
    by (intro leaves_bindE challenges_left do_create_session_challenges)
  then have "t_challenges w' = t_challenges w2" using v(2) by (rule leavesD)
  then have "t_challenges w' = filter (\<lambda>r. ch_token r \<noteq> mt) (t_challenges w1)" by (simp add: w2_def)
  with v ch att mi gates gates_admissible [of now m i i] show thesis
    using that by (auto simp: bindE_Inr_iff)
qed

text \<open>
  C4. A login completed with a second factor rests on a live challenge of this user with fewer than
  five failed attempts, on an account that may still sign in, and on a code that the
  second-factor check accepted; the challenge is used up: its token is worth nothing from then on.
\<close>

theorem mfa_login_sound:
  assumes "accounts_ok w" "complete_mfa_login x now tok mt code c w = (Inr r, w')"
  shows "\<exists>ch m i w1 e. get_challenge now mt w = (Inr (Some ch), w) \<and> mc_attempt_count ch < 5 \<and>
    m \<in> set (t_users w) \<and> i \<in> set (t_identities w) \<and> m_tenant_id m = mc_tenant_id ch \<and> m_id m = mc_user_id ch \<and>
    admissible now m i \<and> mfa_verify x now i code w = (Inr True, w1) \<and> r = LoginSuccess tok e \<and>
    (\<forall>t. get_challenge t mt w' = (Inr None, w'))"
proof -
  obtain ch m i w1 w3 where r: "get_challenge now mt w = (Inr (Some ch), w)" "mc_attempt_count ch < 5"
    "m \<in> set (t_users w)" "i \<in> set (t_identities w)" "m_tenant_id m = mc_tenant_id ch" "m_id m = mc_user_id ch"
    "admissible now m i" "mfa_verify x now i code w = (Inr True, w1)"
    "t_challenges w' = filter (\<lambda>r. ch_token r \<noteq> mt) (t_challenges w1)"
    "do_create_session x now tok (mc_tenant_id ch) (row_to_user m i) c w3 = (Inr r, w')"
    using assms by (rule complete_mfa_accepted)
  then have "get_challenge t mt w' = (Inr None, w')" for t
    by (auto simp: get_challenge_def find_first_None_iff)
  with r do_create_session_result [OF r(10)] show ?thesis by blast
qed

theorem mfa_login_sound_witness:
  "\<exists>w w' m i w1 e. complete_mfa_login ext0 (secs 60) ''tok'' ''mt'' ''000 002'' (None, None) w = (Inr (LoginSuccess ''tok'' e), w') \<and>
     m \<in> set (t_users w) \<and> admissible (secs 60) m i \<and> mfa_verify ext0 (secs 60) i ''000 002'' w = (Inr True, w1) \<and>
     get_challenge (secs 61) ''mt'' w' = (Inr None, w')"
proof -
  let ?w = "(login_world mfa_identity)\<lparr>t_challenges := [\<lparr>ch_token = ''mt'', ch_tenant_id = ''acme'', ch_user_id = 5,
    ch_attempt_count = 4, ch_expires_at = secs 300\<rparr>]\<rparr>"
  let ?m = "hd (t_users ?w)"
  let ?u = "row_to_user ?m mfa_identity"
  let ?r = "complete_mfa_login ext0 (secs 60) ''tok'' ''mt'' ''000 002'' (None, None) ?w"
  let ?w1 = "snd (identities_clear_failed_attempts (secs 60) 7 (snd (delete_challenge ''mt'' (snd (mark_step_used 7 2 ?w)))))"
  have "fst (do_create_session ext0 (secs 60) ''tok'' ''acme'' ?u (None, None) ?w1) = Inr (LoginSuccess ''tok'' (secs 86460))"
    by code_simp
  then obtain w' where "do_create_session ext0 (secs 60) ''tok'' ''acme'' ?u (None, None) ?w1 = (Inr (LoginSuccess ''tok'' (secs 86460)), w')"
    by (metis prod.collapse)
  moreover have "users_get_by_id ''acme'' 5 ?w = (Inr (Some ?u), ?w)"
    by (simp add: users_get_by_id_def fetch_user_def from_join_def login_world_def)
  moreover have "mfa_verify ext0 (secs 60) mfa_identity ''000 002'' ?w = (Inr True, snd (mark_step_used 7 2 ?w))"
    by (rule mfa_identity_accepts) (simp add: login_world_def)
  ultimately have r: "?r = (Inr (LoginSuccess ''tok'' (secs 86460)), w')"
    by (simp add: complete_mfa_login_def MAX_MFA_ATTEMPTS_def get_challenge_def load_identity_def identities_get_by_id_def
        check_gates_def mfa_identity_def new_identity_def login_world_def secs_def mark_step_used_run delete_challenge_def
        identities_clear_failed_attempts_def rows_affected_def)
  have "accounts_ok (login_world mfa_identity)"
    by (rule login_world_ok) (simp_all add: mfa_identity_def new_identity_def mobile_pair_def)
  then have "accounts_ok ?w" by (simp add: accounts_ok_def)
  from mfa_login_sound [OF this r] r show ?thesis by blast
qed

end
