(* ===== verification/Auth_Accounts.thy ===== *)
theory Auth_Accounts
  imports Auth_Sound "HOL-Library.Sublist"
begin

section \<open>Accounts: who may create, link and change them\<close>

text \<open>
  The account side of \<^verbatim>\<open>src/services/auth.rs\<close>: the invariant of identities and memberships that
  every operation of the service keeps, and the operations that create accounts, link them to a
  provider or change a password, seen from what they leave alone.
\<close>

subsection \<open>Operations that leave the accounts alone\<close>

definition accounts :: "world \<Rightarrow> identity list \<times> membership list" where
  "accounts w = (t_identities w, t_users w)"

lemma accounts_fields: "accounts w' = accounts w \<longleftrightarrow> t_identities w' = t_identities w \<and> t_users w' = t_users w"
  by (simp add: accounts_def)

lemma accounts_db: "leaves db m \<Longrightarrow> leaves accounts m"
  by (rule leavesI) (metis accounts_def db_fields(1,2) leavesD)

lemma keeps_accounts_ok: "leaves accounts m \<Longrightarrow> keeps accounts_ok m"
  by (rule keepsI) (metis accounts_fields accounts_ok_def leavesD)

lemma config_leaves_accounts [leaves_rules]:
  "leaves accounts (get_oauth x now t p)" "leaves accounts (get_session_policy x now t)"
  "leaves accounts (get_allowed_email_domains x now t)" "leaves accounts (get_password_policy x now t)"
  "leaves accounts (effective_login_methods x now t u)" "leaves accounts (ensure_email_domain_allowed x now t e)"
  "leaves accounts (new_password_checks x now t p r)"
  by (intro accounts_db config_views_leave effective_login_methods_leaves ensure_email_domain_leaves
      new_password_checks_leaves)+

lemma lookups_leave_accounts [leaves_rules]:
  "leaves f (identities_get_by_id iid)" "leaves f (identities_get_by_email e)" "leaves f (identities_get_by_mobile c m)"
  "leaves f (identities_exists_by_email e)" "leaves f (load_identity iid)" "leaves f (users_get_by_id t u)"
  "leaves f (users_get_membership iid t)" "leaves f (users_get_memberships_for_identity iid)"
  "leaves f (users_get_by_email t e)" "leaves f (users_get_by_email_insensitive t e)" "leaves f (users_get_by_username t n)"
  "leaves f (reset_tokens_get_valid now tok)" "leaves f (identity_tokens_get_valid now tok)"
  "leaves f (change_tokens_get_valid now tok)" "leaves f (invites_get_valid now tok)" "leaves f (get_challenge now tok)"
  "leaves f (oauth_get_linked_identity p pid)"
  unfolding load_identity_def identities_ops users_reads reset_tokens_get_valid_def identity_tokens_get_valid_def
    change_tokens_get_valid_def invites_get_valid_def get_challenge_def oauth_get_linked_identity_def
  by (intro leaves_rules)+

lemma tokens_leave_accounts [leaves_rules]:
  "leaves accounts (reset_tokens_create iid tok e)" "leaves accounts (reset_tokens_delete_by_token tok)"
  "leaves accounts (reset_tokens_delete_for_identity iid)" "leaves accounts (identity_tokens_create iid tok e)"
  "leaves accounts (change_tokens_create s tok e)" "leaves accounts (change_tokens_delete_by_token tok)"
  "leaves accounts (invites_create i tok e)" "leaves accounts (invites_delete_by_token tok)"
  "leaves accounts (create_challenge now tok t uid e)" "leaves accounts (increment_challenge_attempts tok)"
  "leaves accounts (delete_challenge tok)" "leaves accounts (oauth_link iid p pid em)"
  "leaves accounts (consume_backup_code now iid h)"
  unfolding reset_tokens_create_def reset_tokens_delete_by_token_def reset_tokens_delete_for_identity_def
    identity_tokens_create_def change_tokens_create_def change_tokens_delete_by_token_def invites_create_def
    invites_delete_by_token_def create_challenge_def increment_challenge_attempts_def delete_challenge_def
    oauth_link_def consume_backup_code_def Let_def
  by (intro leaves_rules leaves_insert leaves_delete leaves_update; simp add: accounts_def)+

lemma sessions_leave_accounts [leaves_rules]:
  "leaves accounts (create_audit x tok t uid ip ua e pl)" "leaves accounts (store_set x now tok p ttl)"
proof -
  have audit: "leaves accounts (create_audit x tok t uid ip ua e pl)" for t uid ip ua e pl
    unfolding create_audit_def by (rule leaves_insert) (simp add: accounts_def)
  then show "leaves accounts (create_audit x tok t uid ip ua e pl)" .
  show "leaves accounts (store_set x now tok p ttl)"
    unfolding store_set_def redis_set_def rd_setex_def rd_put_def rd_sadd_expire_def rd_smembers_def rd_put_set_def pg_set_def
    by (intro leaves_rules leaves_modify audit) (simp_all add: accounts_def)
qed

lemma session_creation_leaves_accounts [leaves_rules]:
  "leaves accounts (do_create_session x now tok tid u c)" "leaves accounts (finalize_login x now tok tid u i c)"
proof -
  show s: "leaves accounts (do_create_session x now tok tid u c)"
    unfolding do_create_session_def Let_def
    by (intro leaves_rules leaves_readonly; simp)
  show "leaves accounts (finalize_login x now tok tid u i c)"
    unfolding finalize_login_def issue_force_change_token_def by (intro leaves_rules s)
qed

subsection \<open>The invariant of the accounts\<close>

lemma mfa_keeps_accounts [keeps_rules]:
  "keeps accounts_ok (mark_step_used iid step)" "keeps accounts_ok (mfa_verify x now i code)"
  "keeps accounts_ok (begin_enrollment x now bytes nonce i label)" "keeps accounts_ok (confirm_enrollment x now rnd ids i code)"
  "keeps accounts_ok (mfa_disable x now i code)" "keeps accounts_ok (regenerate_backup_codes x now rnd ids i code)"
proof -
  have codes: "leaves accounts (replace_backup_codes_tx ids iid hs)" for iid hs
    unfolding replace_backup_codes_tx_def
    by (intro leaves_rules leaves_insert leaves_delete) (auto simp: accounts_def)
  have upd: "keeps accounts_ok (sql_update t_identities_update P f)" if "same_handles f" for P f
    using that by (intro keeps_update accounts_ok_identity_update)
  show m: "keeps accounts_ok (mark_step_used iid step)" for iid step
    unfolding mark_step_used_def Let_def by (intro keeps_rules upd) (simp_all add: same_handles_def)
  then show v: "keeps accounts_ok (mfa_verify x now i code)"
    unfolding mfa_verify_def Let_def
    by (intro keeps_rules keeps_accounts_ok [OF tokens_leave_accounts(13)]) auto
  show "keeps accounts_ok (begin_enrollment x now bytes nonce i label)"
    unfolding begin_enrollment_def mfa_set_pending_secret_def Let_def
    by (intro keeps_rules upd) (simp_all add: same_handles_def)
  have "keeps accounts_ok (mfa_enable now ids iid hs)" for iid hs
    unfolding mfa_enable_def by (intro keeps_rules upd keeps_accounts_ok [OF codes]) (simp add: same_handles_def)
  with m show "keeps accounts_ok (confirm_enrollment x now rnd ids i code)"
    unfolding confirm_enrollment_def Let_def by (intro keeps_rules)
  have r: "keeps accounts_ok (require_valid_code x now i code)"
    unfolding require_valid_code_def by (intro keeps_rules v)
  show "keeps accounts_ok (mfa_disable x now i code)"
    unfolding mfa_disable_def mfa_repo_disable_def
    by (intro keeps_rules r upd keeps_accounts_ok [OF leaves_delete]) (simp_all add: same_handles_def accounts_def)
  show "keeps accounts_ok (regenerate_backup_codes x now rnd ids i code)"
    unfolding regenerate_backup_codes_def replace_backup_codes_def
    by (intro keeps_rules r keeps_accounts_ok [OF codes])
qed

named_theorems service_defs "the definitions of the service's operations"

lemmas [service_defs] =
  do_password_login_def login_email_password_def login_username_password_def complete_mfa_login_def
  login_with_verified_otp_def oauth_check_domain_def oauth_new_identity_def oauth_resolve_identity_def login_oauth_def
  signup_def verify_membership_invite_def forgot_password_def login_identity_def tenants_for_identity_def
  tenants_for_identity_token_def select_tenant_def select_tenant_with_token_def register_failed_attempt_def Let_def

lemma open_operations_keep [keeps_rules]:
  "keeps accounts_ok (login_email_password x now tok tid e pw c)"
  "keeps accounts_ok (login_username_password x now tok tid n pw c)"
  "keeps accounts_ok (complete_mfa_login x now tok mt code c)"
  "keeps accounts_ok (login_with_verified_otp x now tok tid e c)"
  "keeps accounts_ok (login_oauth x now tok iid uid tid provider p allow c)"
  "keeps accounts_ok (signup x now tok salt iid uid tid fn ln e mob cc pw rpw)"
  "keeps accounts_ok (verify_membership_invite now uid tok)"
  "keeps accounts_ok (forgot_password now tok e)"
  "keeps accounts_ok (login_identity x now tok e pw)"
  "keeps accounts_ok (select_tenant x now tok iid tid c)"
  "keeps accounts_ok (select_tenant_with_token x now tok it tid c)"
  unfolding service_defs
  by (intro keeps_rules keeps_accounts_ok leaves_rules; auto)+

lemma password_operations_keep [keeps_rules]:
  "keeps accounts_ok (reset_password x now salt tid tok p r)"
  "keeps accounts_ok (change_password x now salt tid uid cur p r)"
  "keeps accounts_ok (force_change_password x now tok salt ct p r c)"
  "keeps accounts_ok (admin_reset_password x now salt tid uid p r force)"
  "keeps accounts_ok (admin_create_user x now salt iid uid tid fn ln e un mob cc pw rpw)"
  "keeps accounts_ok (admin_set_access_valid_until now tid uid v)"
  "keeps accounts_ok (admin_archive_user now tid uid)"
  unfolding reset_password_def change_password_def force_change_password_def admin_reset_password_def
    admin_create_user_def resolve_or_create_identity_def admin_password_hash_def admin_set_access_valid_until_def
    admin_archive_user_def Let_def
  by (intro keeps_rules keeps_accounts_ok leaves_rules; auto)+

text \<open>
  One step of the service on its accounts. The first group needs no standing in the account it
  touches: sign-up, invites, and logins with whatever secrets the caller presents. The second
  group changes a password or a second factor, the third is the administrator's.
\<close>

inductive open_step :: "ext \<Rightarrow> world \<Rightarrow> world \<Rightarrow> bool" for x where
  email_login: "login_email_password x now tok tid e pw c w = (r, w') \<Longrightarrow> open_step x w w'"
| username_login: "login_username_password x now tok tid n pw c w = (r, w') \<Longrightarrow> open_step x w w'"
| mfa_login: "complete_mfa_login x now tok mt code c w = (r, w') \<Longrightarrow> open_step x w w'"
| otp_login: "login_with_verified_otp x now tok tid e c w = (r, w') \<Longrightarrow> open_step x w w'"
| oauth_login: "login_oauth x now tok iid uid tid provider p allow c w = (r, w') \<Longrightarrow> open_step x w w'"
| sign_up: "signup x now tok salt iid uid tid fn ln e mob cc pw rpw w = (r, w') \<Longrightarrow> open_step x w w'"
| accept_invite: "verify_membership_invite now uid tok w = (r, w') \<Longrightarrow> open_step x w w'"
| forgot: "forgot_password now tok e w = (r, w') \<Longrightarrow> open_step x w w'"
| identity_login: "login_identity x now tok e pw w = (r, w') \<Longrightarrow> open_step x w w'"
| select: "select_tenant x now tok iid tid c w = (r, w') \<Longrightarrow> open_step x w w'"
| select_token: "select_tenant_with_token x now tok it tid c w = (r, w') \<Longrightarrow> open_step x w w'"

inductive account_step :: "ext \<Rightarrow> world \<Rightarrow> world \<Rightarrow> bool" for x where
  opened: "open_step x w w' \<Longrightarrow> account_step x w w'"
| reset: "reset_password x now salt tid tok p q w = (r, w') \<Longrightarrow> account_step x w w'"
| change: "change_password x now salt tid uid cur p q w = (r, w') \<Longrightarrow> account_step x w w'"
| forced_change: "force_change_password x now tok salt ct p q c w = (r, w') \<Longrightarrow> account_step x w w'"
| enroll: "begin_enrollment x now bytes nonce i label w = (r, w') \<Longrightarrow> account_step x w w'"
| confirm: "confirm_enrollment x now rnd ids i code w = (r, w') \<Longrightarrow> account_step x w w'"
| disable: "mfa_disable x now i code w = (r, w') \<Longrightarrow> account_step x w w'"
| regenerate: "regenerate_backup_codes x now rnd ids i code w = (r, w') \<Longrightarrow> account_step x w w'"
| admin_reset: "admin_reset_password x now salt tid uid p q force w = (r, w') \<Longrightarrow> account_step x w w'"
| admin_create: "admin_create_user x now salt iid uid tid fn ln e un mob cc pw rpw w = (r, w') \<Longrightarrow> account_step x w w'"
| admin_access: "admin_set_access_valid_until now tid uid v w = (r, w') \<Longrightarrow> account_step x w w'"
| admin_archive: "admin_archive_user now tid uid w = (r, w') \<Longrightarrow> account_step x w w'"

lemma open_step_ok: "open_step x w w' \<Longrightarrow> accounts_ok w \<Longrightarrow> accounts_ok w'"
  by (induction rule: open_step.induct) (blast intro: open_operations_keep [THEN keepsD])+

lemma account_step_ok: "account_step x w w' \<Longrightarrow> accounts_ok w \<Longrightarrow> accounts_ok w'"
  by (induction rule: account_step.induct)
    (blast intro: open_step_ok password_operations_keep [THEN keepsD] mfa_keeps_accounts [THEN keepsD])+

text \<open>
  The accounts stay consistent: in every history of service operations, successful or failed,
  no two identities share a primary key, an e-mail address (up to case) or a mobile number, a
  mobile number and its country code come together, no two memberships share a key, an
  identity within a tenant or a username within a tenant, and every membership refers to an
  existing identity.
\<close>

theorem accounts_invariant:
  assumes "(account_step x)\<^sup>*\<^sup>* w w'" "accounts_ok w"
  shows "accounts_ok w'"
  using assms by (induction rule: rtranclp_induct) (auto intro: account_step_ok)

theorem accounts_invariant_witness:
  "accounts_ok (snd (signup ext0 0 ''t'' ''s'' 9 10 ''acme'' ''B'' ''C'' ''bob@acme.io'' None None ''pw'' ''pw''
     (login_world (login_identity0 0 None 0))))"
proof (rule accounts_invariant [of ext0 "login_world (login_identity0 0 None 0)"])
  show "(account_step ext0)\<^sup>*\<^sup>* (login_world (login_identity0 0 None 0))
     (snd (signup ext0 0 ''t'' ''s'' 9 10 ''acme'' ''B'' ''C'' ''bob@acme.io'' None None ''pw'' ''pw''
       (login_world (login_identity0 0 None 0))))"
    by (rule r_into_rtranclp, rule account_step.opened, rule open_step.sign_up [OF prod.collapse [symmetric]])
  show "accounts_ok (login_world (login_identity0 0 None 0))"
    by (rule login_world_ok) (simp_all add: login_identity0_def mobile_pair_def)
qed

subsection \<open>Credentials of existing accounts\<close>

text \<open>What somebody signs in with, and the second factor that protects it.\<close>

definition credentials :: "identity \<Rightarrow> uuid \<times> string option \<times> (string option \<times> string option) \<times> string option \<times> string \<times>
    bool \<times> string option \<times> bool" where
  "credentials i = (i_id i, i_email i, (i_country_code i, i_mobile i), i_password_hash i, i_status i,
     i_mfa_enabled i, i_mfa_secret i, i_force_password_change i)"

definition extends_accounts :: "world \<Rightarrow> world \<Rightarrow> bool" where
  "extends_accounts v w \<longleftrightarrow> prefix (map credentials (t_identities v)) (map credentials (t_identities w)) \<and>
     prefix (t_users v) (t_users w)"

lemma extends_accounts_refl: "extends_accounts w w"
  by (simp add: extends_accounts_def)

lemma extends_accounts_trans: "extends_accounts u v \<Longrightarrow> extends_accounts v w \<Longrightarrow> extends_accounts u w"
  by (auto simp: extends_accounts_def intro: prefix_order.trans)

lemma keeps_extends: "leaves accounts m \<Longrightarrow> keeps (extends_accounts v) m"
  by (rule keepsI) (drule (1) leavesD, simp add: accounts_fields extends_accounts_def)

lemma extends_update:
  "(\<And>i. credentials (f i) = credentials i) \<Longrightarrow> keeps (extends_accounts v) (sql_update t_identities_update P f)"
  by (rule keeps_update) (simp add: extends_accounts_def map_update_rows)

lemma inserts_extend [keeps_rules]:
  "keeps (extends_accounts v) (identities_create now iid email mobile cc fn ln h)"
  "keeps (extends_accounts v) (users_create now uid i t un)"
  unfolding identities_create_def users_create_def Let_def
  by (intro keeps_rules; auto simp: extends_accounts_def)+

lemma counters_extend [keeps_rules]:
  "keeps (extends_accounts v) (identities_clear_failed_attempts now iid)"
  "keeps (extends_accounts v) (register_failed_attempt now i)"
  "keeps (extends_accounts v) (mark_step_used iid step)"
  unfolding identities_clear_failed_attempts_def register_failed_attempt_def identities_increment_failed_attempts_def
    mark_step_used_def Let_def
  by (intro keeps_rules extends_update; simp add: credentials_def)+

lemma mfa_verify_extends [keeps_rules]: "keeps (extends_accounts v) (mfa_verify x now i code)"
  unfolding mfa_verify_def Let_def
  by (intro keeps_rules keeps_extends leaves_rules)

lemma open_operations_extend:
  "keeps (extends_accounts v) (login_email_password x now tok tid e pw c)"
  "keeps (extends_accounts v) (login_username_password x now tok tid n pw c)"
  "keeps (extends_accounts v) (complete_mfa_login x now tok mt code c)"
  "keeps (extends_accounts v) (login_with_verified_otp x now tok tid e c)"
  "keeps (extends_accounts v) (login_oauth x now tok iid uid tid provider p allow c)"
  "keeps (extends_accounts v) (signup x now tok salt iid uid tid fn ln e mob cc pw rpw)"
  "keeps (extends_accounts v) (verify_membership_invite now uid tok)"
  "keeps (extends_accounts v) (forgot_password now tok e)"
  "keeps (extends_accounts v) (login_identity x now tok e pw)"
  "keeps (extends_accounts v) (select_tenant x now tok iid tid c)"
  "keeps (extends_accounts v) (select_tenant_with_token x now tok it tid c)"
  unfolding do_password_login_def login_email_password_def login_username_password_def complete_mfa_login_def
    login_with_verified_otp_def oauth_check_domain_def oauth_new_identity_def oauth_resolve_identity_def login_oauth_def
    signup_def verify_membership_invite_def forgot_password_def login_identity_def tenants_for_identity_def
    select_tenant_def select_tenant_with_token_def Let_def
  by (intro keeps_rules keeps_extends leaves_rules; auto)+

lemma open_step_extends: "open_step x w w' \<Longrightarrow> extends_accounts w w'"
  by (induction rule: open_step.induct)
    (blast intro: open_operations_extend [THEN keepsD] extends_accounts_refl)+

text \<open>
  C8. Nobody's account can be altered from the outside: whatever sequence of sign-ups, invite
  acceptances, password, OTP, OAuth and identity-first logins, second factors and reset
  requests is played, with whatever secrets, every existing identity keeps its e-mail address,
  mobile number, password hash, status, second factor and forced-change flag, and every
  existing membership stays as it is; accounts are only added.
\<close>

theorem open_operations_keep_credentials:
  assumes "(open_step x)\<^sup>*\<^sup>* w w'"
  shows "prefix (map credentials (t_identities w)) (map credentials (t_identities w')) \<and> prefix (t_users w) (t_users w')"
proof -
  have "extends_accounts w w'"
    using assms by (induction rule: rtranclp_induct) (auto intro: extends_accounts_refl extends_accounts_trans open_step_extends)
  then show ?thesis by (simp add: extends_accounts_def)
qed

theorem open_operations_keep_credentials_witness:
  "prefix (map credentials [login_identity0 0 None 0]) (map credentials (t_identities (snd (signup ext0 0 ''t'' ''s'' 9 10
     ''acme'' ''B'' ''C'' ''bob@acme.io'' None None ''pw'' ''pw'' (login_world (login_identity0 0 None 0))))))"
proof -
  have "(open_step ext0)\<^sup>*\<^sup>* (login_world (login_identity0 0 None 0))
     (snd (signup ext0 0 ''t'' ''s'' 9 10 ''acme'' ''B'' ''C'' ''bob@acme.io'' None None ''pw'' ''pw''
       (login_world (login_identity0 0 None 0))))"
    by (rule r_into_rtranclp, rule open_step.sign_up [OF prod.collapse [symmetric]])
  from open_operations_keep_credentials [OF this] show ?thesis
    by (simp add: login_world_def)
qed

end
