(* ===== verification/Auth_Passwords.thy ===== *)
theory Auth_Passwords
  imports Auth_Accounts
begin

section \<open>Passwords\<close>

text \<open>
  Password reset by e-mail token and by an administrator (\<^verbatim>\<open>src/services/auth.rs\<close>): what a
  successful reset changes and what it leaves alone, and the shared credential of an identity
  with memberships in several tenants. Argon2 is a library: \<open>argon2_correct\<close> states that a
  password verifies against the hash computed from it.
\<close>

definition argon2_correct :: "ext \<Rightarrow> bool" where
  "argon2_correct x \<longleftrightarrow> (\<forall>salt p h. x_argon2_hash x salt p = Inr h \<longrightarrow> x_argon2_verify x h p = Inr True)"

definition password_rows :: "world \<Rightarrow> (uuid \<times> string option) list" where
  "password_rows w = map (\<lambda>i. (i_id i, i_password_hash i)) (t_identities w)"

lemma hash_password_verifies:
  "argon2_correct x \<Longrightarrow> hash_password x salt p = Inr h \<Longrightarrow> verify_password x h p = Inr True"
  by (cases "x_argon2_hash x salt p") (auto simp: argon2_correct_def hash_password_def verify_password_def)

lemma new_password_checks_Inr:
  assumes "new_password_checks x now tid p r w = (Inr (), w1)"
  shows "p = r" "db w1 = db w" "\<exists>pol. fst (get_password_policy x now tid w) = Inr pol \<and> validate_password_policy p pol = Inr ()"
proof -
  show "p = r" using assms by (auto simp: new_password_checks_def split: if_splits)
  show "db w1 = db w" by (rule leavesD [OF new_password_checks_leaves assms])
  show "\<exists>pol. fst (get_password_policy x now tid w) = Inr pol \<and> validate_password_policy p pol = Inr ()"
    using assms by (auto simp: new_password_checks_def bindE_Inr_iff split: if_splits)
qed

lemma password_updated:
  assumes "identities_update_password now iid h w = (Inr (), w')"
  shows "t_identities w' = map (\<lambda>i. if i_id i = iid then i\<lparr>i_password_hash := Some h, i_force_password_change := False, i_updated_at := now\<rparr> else i) (t_identities w)"
    "t_reset_tokens w' = t_reset_tokens w" "t_users w' = t_users w"
  using assms by (auto simp: identities_update_password_def update_rows_def)

lemma reset_password_Inr:
  assumes "reset_password x now salt tid tok p r w = (Inr (), w')"
  obtains iid h where "fst (reset_tokens_get_valid now (trim tok) w) = Inr (Some iid)" "hash_password x salt p = Inr h" "p = r"
    "\<exists>pol. fst (get_password_policy x now tid w) = Inr pol \<and> validate_password_policy p pol = Inr ()"
    "t_identities w' = map (\<lambda>i. if i_id i = iid then i\<lparr>i_password_hash := Some h, i_force_password_change := False, i_updated_at := now\<rparr> else i) (t_identities w)"
    "t_users w' = t_users w" "t_reset_tokens w' = filter (\<lambda>r. rt_token r \<noteq> trim tok) (t_reset_tokens w)"
proof -
  have ne: "trim tok \<noteq> []" using assms by (auto simp: reset_password_def Let_def)
  from assms obtain w1 where c: "new_password_checks x now tid p r w = (Inr (), w1)"
    and rest: "bindE (get_or (BadRequest ''Invalid or expired reset token'') (reset_tokens_get_valid now (trim tok))) (\<lambda>identity_id.
      bindE (lift (hash_password x salt p)) (\<lambda>password_hash.
      bindE (identities_update_password now identity_id password_hash) (\<lambda>_.
        reset_tokens_delete_by_token (trim tok)))) w1 = (Inr (), w')"
    using ne by (auto simp: reset_password_def Let_def bindE_Inr_iff)
  note ch = new_password_checks_Inr [OF c]
  from rest obtain iid h where "reset_tokens_get_valid now (trim tok) w1 = (Inr (Some iid), w1)" "hash_password x salt p = Inr h"
    "w' = t_reset_tokens_update (filter (\<lambda>r. rt_token r \<noteq> trim tok)) (snd (identities_update_password now iid h w1))"
    by (auto simp: bindE_Inr_iff case_res_Inr_iff reset_tokens_get_valid_def reset_tokens_delete_by_token_def
        identities_update_password_def split: option.splits)
  moreover from this(1) have "fst (reset_tokens_get_valid now (trim tok) w) = Inr (Some iid)"
    by (simp add: reset_tokens_get_valid_def same_db(9) [OF ch(2)])
  ultimately show thesis
    using that ch(1,3) same_db(1,2,9) [OF ch(2)] by (simp add: identities_update_password_def update_rows_def)
qed

text \<open>
  C33. A password reset by e-mail token does what it says and nothing else: it succeeds only with a
  live token and a repeated password that the tenant's policy accepts; the token's identity then
  verifies the new password, every other identity and every membership is unchanged, and the
  token is worth nothing from then on.
\<close>

theorem reset_password_effect:
  assumes "argon2_correct x" "reset_password x now salt tid tok p r w = (Inr (), w')"
  shows "\<exists>iid pol. fst (reset_tokens_get_valid now (trim tok) w) = Inr (Some iid) \<and> p = r \<and>
    fst (get_password_policy x now tid w) = Inr pol \<and> validate_password_policy p pol = Inr () \<and>
    (\<forall>i \<in> set (t_identities w'). i_id i = iid \<longrightarrow> (\<exists>h. i_password_hash i = Some h \<and> verify_password x h p = Inr True)) \<and>
    filter (\<lambda>i. i_id i \<noteq> iid) (t_identities w') = filter (\<lambda>i. i_id i \<noteq> iid) (t_identities w) \<and>
    map i_id (t_identities w') = map i_id (t_identities w) \<and> t_users w' = t_users w \<and>
    (\<forall>t. reset_tokens_get_valid t (trim tok) w' = (Inr None, w'))"
proof -
  obtain iid h where r: "fst (reset_tokens_get_valid now (trim tok) w) = Inr (Some iid)" "hash_password x salt p = Inr h" "p = r"
    "\<exists>pol. fst (get_password_policy x now tid w) = Inr pol \<and> validate_password_policy p pol = Inr ()"
    "t_identities w' = map (\<lambda>i. if i_id i = iid then i\<lparr>i_password_hash := Some h, i_force_password_change := False, i_updated_at := now\<rparr> else i) (t_identities w)"
    "t_users w' = t_users w" "t_reset_tokens w' = filter (\<lambda>r. rt_token r \<noteq> trim tok) (t_reset_tokens w)"
    using assms(2) by (rule reset_password_Inr)
  have "filter (\<lambda>i. i_id i \<noteq> iid) (map (\<lambda>i. if i_id i = iid then f i else i) is) = filter (\<lambda>i. i_id i \<noteq> iid) is"
    "map i_id (map (\<lambda>i. if i_id i = iid then f i else i) is) = map i_id is"
    if "\<And>i. i_id (f i) = i_id i" for f and "is" :: "identity list"
    using that by (induction "is") auto
  then have "filter (\<lambda>i. i_id i \<noteq> iid) (t_identities w') = filter (\<lambda>i. i_id i \<noteq> iid) (t_identities w)"
    "map i_id (t_identities w') = map i_id (t_identities w)"
    unfolding r(5) by simp_all
  moreover have "\<forall>i \<in> set (t_identities w'). i_id i = iid \<longrightarrow> (\<exists>h. i_password_hash i = Some h \<and> verify_password x h p = Inr True)"
  proof (intro ballI impI)
    fix i assume i: "i \<in> set (t_identities w')" "i_id i = iid"
    from i(1) obtain j where j: "i = (if i_id j = iid then j\<lparr>i_password_hash := Some h, i_force_password_change := False, i_updated_at := now\<rparr> else j)"
      unfolding r(5) set_map by blast
    with i(2) have "i_id j = iid" by (cases "i_id j = iid") simp_all
    with j have "i_password_hash i = Some h" by simp
    then show "\<exists>h. i_password_hash i = Some h \<and> verify_password x h p = Inr True"
      using hash_password_verifies [OF assms(1) r(2)] by blast
  qed
  moreover have "reset_tokens_get_valid t (trim tok) w' = (Inr None, w')" for t
    by (auto simp: reset_tokens_get_valid_def r(7) find_first_None_iff)
  moreover obtain pol where "fst (get_password_policy x now tid w) = Inr pol" "validate_password_policy p pol = Inr ()"
    using r(4) by blast
  ultimately show ?thesis using r(1,3,6) by (intro exI [of _ iid] exI [of _ pol] conjI allI) assumption+
qed

theorem reset_password_effect_witness:
  "\<exists>w w'. reset_password ext0 0 ''s'' ''acme'' ''rt'' ''new'' ''new'' w = (Inr (), w') \<and> t_reset_tokens w \<noteq> [] \<and>
     (\<forall>t. reset_tokens_get_valid t ''rt'' w' = (Inr None, w'))"
proof -
  let ?w = "(login_world (login_identity0 0 None 0))\<lparr>t_reset_tokens := [\<lparr>rt_identity_id = 7, rt_token = ''rt'', rt_expires_at = secs 9\<rparr>]\<rparr>"
  let ?r = "reset_password ext0 0 ''s'' ''acme'' ''rt'' ''new'' ''new'' ?w"
  have a: "argon2_correct ext0" by (simp add: argon2_correct_def ext0_def)
  have "fst ?r = Inr ()" by code_simp
  then have r: "?r = (Inr (), snd ?r)" by (metis prod.collapse)
  have "trim ''rt'' = ''rt''" by code_simp
  with reset_password_effect [OF a r] have "\<forall>t. reset_tokens_get_valid t ''rt'' (snd ?r) = (Inr None, snd ?r)" by metis
  with r show ?thesis by (intro exI [of _ ?w] exI [of _ "snd ?r"]) simp
qed

subsection \<open>The shared credential and administrators\<close>

lemma memberships_of_run:
  "users_get_memberships_for_identity iid w = (Inr (sort_key u_created_at (map (\<lambda>(m, i). row_to_user m i)
     (filter (\<lambda>(m, i). m_identity_id m = iid \<and> m_status m \<noteq> ''archived'') (from_join w)))), w)"
  by (simp add: users_get_memberships_for_identity_def)

lemma force_flag_keeps_passwords: "leaves password_rows (identities_set_force_password_change now iid b)"
proof (rule leavesI)
  fix w r w' assume "identities_set_force_password_change now iid b w = (r, w')"
  then have "t_identities w' = update_rows (\<lambda>i. i_id i = iid) (\<lambda>i. i\<lparr>i_force_password_change := b, i_updated_at := now\<rparr>) (t_identities w)"
    by (auto simp: identities_set_force_password_change_def)
  then show "password_rows w' = password_rows w"
    by (simp add: password_rows_def map_update_rows)
qed

lemma password_rows_db: "db w' = db w \<Longrightarrow> password_rows w' = password_rows w"
  by (simp add: password_rows_def same_db(2) [of w' w])

text \<open>
  C32. No tenant's administrator can set the password of somebody who also belongs to other tenants:
  whatever an administrator's reset is given, if the user's identity has more than one membership
  that is not archived, no password hash changes; the reset succeeds only with the request to
  force a change, and then the user's identity, and no other, is made to choose a new password.
\<close>

theorem admin_reset_respects_shared_identity:
  assumes "users_get_by_id tid uid w = (Inr (Some u), w)"
    and "1 < length (projr (fst (users_get_memberships_for_identity (u_identity_id u) w)))"
    and "admin_reset_password x now salt tid uid p r force w = (res, w')"
  shows "password_rows w' = password_rows w \<and>
    (res = Inr () \<longrightarrow> force \<and> (\<forall>i \<in> set (t_identities w'). i_id i = u_identity_id u \<longrightarrow> i_force_password_change i)) \<and>
    filter (\<lambda>i. i_id i \<noteq> u_identity_id u) (t_identities w') = filter (\<lambda>i. i_id i \<noteq> u_identity_id u) (t_identities w)"
proof (cases "new_password_checks x now tid p r w")
  case (Pair c w1)
  have w1: "db w1 = db w" by (rule leavesD [OF new_password_checks_leaves Pair])
  show ?thesis
  proof (cases c)
    case (Inl e)
    with Pair assms(3) have "res = Inl e" "w' = w1" by (auto simp: admin_reset_password_def)
    then show ?thesis by (simp add: password_rows_db [OF w1] same_db(2) [OF w1])
  next
    case (Inr c')
    have join: "from_join w1 = from_join w" by (simp add: from_join_def same_db(1,2) [OF w1])
    have u: "users_get_by_id tid uid w1 = (Inr (Some u), w1)"
      using assms(1) by (simp add: users_get_by_id_def fetch_user_def join)
    have ms: "users_get_memberships_for_identity (u_identity_id u) w1 = (Inr (projr (fst (users_get_memberships_for_identity (u_identity_id u) w))), w1)"
      by (simp add: memberships_of_run join)
    have *: "(res, w') = bindE (unless force (Forbidden multi_tenant_message)) (\<lambda>_.
        identities_set_force_password_change now (u_identity_id u) True) w1"
      using assms(2,3) Pair Inr by (simp add: admin_reset_password_def u ms)
    show ?thesis
    proof (cases force)
      case False
      with * have "w' = w1" "res \<noteq> Inr ()" by auto
      then show ?thesis by (simp add: password_rows_db [OF w1] same_db(2) [OF w1])
    next
      case True
      with * have run: "identities_set_force_password_change now (u_identity_id u) True w1 = (res, w')" by simp
      then have "t_identities w' = update_rows (\<lambda>i. i_id i = u_identity_id u)
          (\<lambda>i. i\<lparr>i_force_password_change := True, i_updated_at := now\<rparr>) (t_identities w)"
        by (auto simp: identities_set_force_password_change_def same_db(2) [OF w1])
      moreover have "filter (\<lambda>i. i_id i \<noteq> j) (update_rows (\<lambda>i. i_id i = j) f is) = filter (\<lambda>i. i_id i \<noteq> j) is"
        if "\<And>i. i_id (f i) = i_id i" for f j and "is" :: "identity list"
        using that by (induction "is") (auto simp: update_rows_def)
      ultimately show ?thesis
        using True leavesD [OF force_flag_keeps_passwords run] password_rows_db [OF w1]
        by (auto simp: set_update_rows)
    qed
  qed
qed

theorem admin_reset_respects_shared_identity_witness:
  "\<exists>w w'. fst (admin_reset_password ext0 0 ''s'' ''acme'' 5 ''new'' ''new'' False w) = Inl (Forbidden multi_tenant_message) \<and>
     snd (admin_reset_password ext0 0 ''s'' ''acme'' 5 ''new'' ''new'' False w) = w' \<and> password_rows w' = password_rows w"
proof -
  let ?m = "hd (t_users (login_world (login_identity0 0 None 0)))"
  let ?w = "(login_world (login_identity0 0 None 0))\<lparr>t_users := [?m, ?m\<lparr>m_id := 6, m_tenant_id := ''beta''\<rparr>]\<rparr>"
  let ?r = "admin_reset_password ext0 0 ''s'' ''acme'' 5 ''new'' ''new'' False ?w"
  have u: "users_get_by_id ''acme'' 5 ?w = (Inr (Some (row_to_user ?m (login_identity0 0 None 0))), ?w)"
    by (simp add: users_get_by_id_def fetch_user_def from_join_def login_world_def login_identity0_def)
  have n: "1 < length (projr (fst (users_get_memberships_for_identity (u_identity_id (row_to_user ?m (login_identity0 0 None 0))) ?w)))"
    by (simp add: memberships_of_run from_join_def login_world_def login_identity0_def)
  have "fst ?r = Inl (Forbidden multi_tenant_message)" by code_simp
  with admin_reset_respects_shared_identity [OF u n prod.collapse [symmetric]] show ?thesis by blast
qed

end
