(* ===== verification/Policy_Resource.thy ===== *)
theory Policy_Resource
  imports Tenant_Config "HOL-Library.Sublist"
begin

section \<open>Policies: documents, resources and the schema text\<close>

text \<open>
  \<^verbatim>\<open>src/policy/domain.rs\<close> (permission documents and their JSON form), \<^verbatim>\<open>src/policy/resource.rs\<close>
  (resource paths, entity types and ids, wildcard patterns) and \<^verbatim>\<open>src/policy/schema.rs\<close> (action
  names and the text of the Cedar schema).
\<close>

subsection \<open>Permission documents\<close>

datatype effect = Allow | Deny

record condition =
  cn_attribute :: string
  cn_operator :: string
  cn_value :: json

record permission_statement =
  st_sid :: string
  st_effect :: effect
  st_principals :: "string list"
  st_actions :: "string list"
  st_resources :: "string list"
  st_conditions :: "condition list"

record permission_document =
  pd_version :: string
  pd_statements :: "permission_statement list"

text \<open>The derived \<^verbatim>\<open>Serialize\<close> and \<^verbatim>\<open>Deserialize\<close>: a unit variant is its lower-case name.\<close>

fun ser_effect :: "effect \<Rightarrow> json" where
  "ser_effect Allow = JStr ''allow''" | "ser_effect Deny = JStr ''deny''"

definition effect_named :: "string \<Rightarrow> effect option" where
  "effect_named s = (if s = ''allow'' then Some Allow else if s = ''deny'' then Some Deny else None)"

fun de_effect :: "json \<Rightarrow> effect option" where
  "de_effect (JStr s) = effect_named s"
| "de_effect (JObj [(s, JNull)]) = effect_named s"
| "de_effect _ = None"

definition ser_condition :: "condition \<Rightarrow> json" where
  "ser_condition c = JObj [(''attribute'', JStr (cn_attribute c)), (''operator'', JStr (cn_operator c)), (''value'', cn_value c)]"

definition de_condition :: "json \<Rightarrow> condition option" where
  "de_condition j =
     Option.bind (struct_fields [''attribute'', ''operator'', ''value''] 3 j) (\<lambda>f.
     Option.bind (Option.bind (f ''attribute'') de_string) (\<lambda>a.
     Option.bind (Option.bind (f ''operator'') de_string) (\<lambda>b.
     Option.bind (f ''value'') (\<lambda>c.
       Some \<lparr>cn_attribute = a, cn_operator = b, cn_value = c\<rparr>))))"

definition ser_statement :: "permission_statement \<Rightarrow> json" where
  "ser_statement s = JObj [(''sid'', JStr (st_sid s)), (''effect'', ser_effect (st_effect s)),
     (''principals'', JArr (map JStr (st_principals s))), (''actions'', JArr (map JStr (st_actions s))),
     (''resources'', JArr (map JStr (st_resources s))), (''conditions'', JArr (map ser_condition (st_conditions s)))]"

definition de_statement :: "json \<Rightarrow> permission_statement option" where
  "de_statement j =
     Option.bind (struct_fields [''sid'', ''effect'', ''principals'', ''actions'', ''resources'', ''conditions''] 5 j) (\<lambda>f.
     Option.bind (Option.bind (f ''sid'') de_string) (\<lambda>a.
     Option.bind (Option.bind (f ''effect'') de_effect) (\<lambda>b.
     Option.bind (Option.bind (f ''principals'') (de_vec de_string)) (\<lambda>c.
     Option.bind (Option.bind (f ''actions'') (de_vec de_string)) (\<lambda>d.
     Option.bind (Option.bind (f ''resources'') (de_vec de_string)) (\<lambda>e.
     Option.bind (case f ''conditions'' of None \<Rightarrow> Some [] | Some v \<Rightarrow> de_vec de_condition v) (\<lambda>g.
       Some \<lparr>st_sid = a, st_effect = b, st_principals = c, st_actions = d, st_resources = e, st_conditions = g\<rparr>)))))))"

definition ser_document :: "permission_document \<Rightarrow> json" where
  "ser_document d = JObj [(''version'', JStr (pd_version d)), (''statements'', JArr (map ser_statement (pd_statements d)))]"

definition de_document :: "json \<Rightarrow> permission_document option" where
  "de_document j =
     Option.bind (struct_fields [''version'', ''statements''] 2 j) (\<lambda>f.
     Option.bind (Option.bind (f ''version'') de_string) (\<lambda>a.
     Option.bind (Option.bind (f ''statements'') (de_vec de_statement)) (\<lambda>b.
       Some \<lparr>pd_version = a, pd_statements = b\<rparr>)))"

subsection \<open>Resource paths\<close>

definition segment_entity_type :: "string \<Rightarrow> string" where
  "segment_entity_type segment = (case map_option fst (split_once (CHR '':'') segment) of
       Some p \<Rightarrow> (if p = ''package'' then ''Package'' else if p = ''table'' then ''Table''
          else if p = ''column'' then ''Column'' else if p = ''query'' then ''Query''
          else if p = ''view'' then ''View'' else ''Service'')
     | None \<Rightarrow> ''Service'')"

definition allows_parent :: "string \<Rightarrow> string \<Rightarrow> bool" where
  "allows_parent child parent \<longleftrightarrow> (child, parent) \<in> {(''Package'', ''Service''), (''Table'', ''Package''),
     (''Column'', ''Table''), (''Query'', ''Package''), (''View'', ''Package'')}"

definition segments :: "string \<Rightarrow> string list" where
  "segments path = split_on (CHR ''/'') path"

definition entity_type :: "string \<Rightarrow> string" where
  "entity_type resource = segment_entity_type (last (segments resource))"

definition segment_id :: "string \<Rightarrow> string" where
  "segment_id s = (case split_once (CHR '':'') s of None \<Rightarrow> s | Some (_, i) \<Rightarrow> i)"

definition entity_id :: "string list \<Rightarrow> string" where
  "entity_id segs = join ''/'' (map segment_id segs)"

definition is_wildcard :: "string \<Rightarrow> bool" where
  "is_wildcard resource \<longleftrightarrow> CHR ''*'' \<in> set resource"

datatype pattern_elem = Wildcard | Literal string

fun like_elems :: "nat \<Rightarrow> string list \<Rightarrow> pattern_elem list" where
  "like_elems i [] = []"
| "like_elems i (literal # ls) =
     (if 0 < i then [Wildcard] else []) @ (if literal \<noteq> [] then [Literal literal] else []) @ like_elems (Suc i) ls"

fun elem_json :: "pattern_elem \<Rightarrow> json" where
  "elem_json Wildcard = JStr ''Wildcard''"
| "elem_json (Literal s) = JObj [(''Literal'', JStr s)]"

definition like_pattern :: "string \<Rightarrow> pattern_elem list" where
  "like_pattern resource = like_elems 0 (split_on (CHR ''*'') resource)"

subsection \<open>The schema\<close>

definition CRUD_VERBS :: "string list" where
  "CRUD_VERBS = [''get'', ''post'', ''patch'', ''put'', ''delete'', ''archive'', ''unarchive'']"

definition EXTENSIBLE_VERBS :: "string list" where
  "EXTENSIBLE_VERBS = [''getExtensibleFields'', ''putExtensibleFields'', ''deleteExtensibleFields'']"

definition QUERY_ACTIONS :: "string list" where "QUERY_ACTIONS = [''run'']"

definition VIEW_ACTIONS :: "string list" where "VIEW_ACTIONS = [''get'', ''refresh'']"

definition is_builtin_action :: "string \<Rightarrow> bool" where
  "is_builtin_action action \<longleftrightarrow> action \<in> set QUERY_ACTIONS \<or> action \<in> set VIEW_ACTIONS"

fun capitalize :: "string \<Rightarrow> string" where
  "capitalize [] = []" | "capitalize (c # cs) = upper_char c # cs"

definition to_pascal_case :: "string \<Rightarrow> string" where
  "to_pascal_case s = concat (map capitalize (split_on (CHR ''_'') s))"

definition crud_action_names :: "string \<Rightarrow> string list" where
  "crud_action_names table = map (\<lambda>v. v @ to_pascal_case table) CRUD_VERBS"

definition extensible_action_names :: "string \<Rightarrow> string list" where
  "extensible_action_names table = map (\<lambda>v. v @ to_pascal_case table) EXTENSIBLE_VERBS"

definition dq :: string where "dq = [CHR 0x22]"

definition applies_to :: "string \<Rightarrow> string" where
  "applies_to resource_types = ''appliesTo { principal: [User], resource: '' @ resource_types @ '' }''"

definition action_line :: "string \<Rightarrow> string \<Rightarrow> string" where
  "action_line resource_types action = ''  action '' @ dq @ action @ dq @ '' '' @ applies_to resource_types @ '';''"

definition resource_types :: string where
  "resource_types = ''[Service, Package, Table, Column, Query, View]''"

definition action_lines :: "(string \<times> string) list \<Rightarrow> (string \<times> string) list \<Rightarrow> string list" where
  "action_lines package_tables custom_actions =
     concat (map (\<lambda>(_, t). map (action_line resource_types) (crud_action_names t)) package_tables)
     @ map (action_line ''[Query]'') QUERY_ACTIONS @ map (action_line ''[View]'') VIEW_ACTIONS
     @ map (\<lambda>(_, a). action_line resource_types a) (filter (\<lambda>(_, a). \<not> is_builtin_action a) custom_actions)"

definition nl :: string where "nl = [CHR 0x0A]"

definition schema_lines :: "(string \<times> string) list \<Rightarrow> (string \<times> string) list \<Rightarrow> string list" where
  "schema_lines package_tables custom_actions =
     dedup_adj (\<lambda>a b. a = b) (sort (action_lines package_tables custom_actions))"

definition build_schema_str :: "(string \<times> string) list \<Rightarrow> (string \<times> string) list \<Rightarrow> string" where
  "build_schema_str package_tables custom_actions =
     ''namespace AuthRS {'' @ nl @ ''  entity User in [Role];'' @ nl @ ''  entity Role;'' @ nl
     @ ''  entity Service = { path: String };'' @ nl @ ''  entity Package in [Service] = { path: String };'' @ nl
     @ ''  entity Table in [Package] = { path: String };'' @ nl @ ''  entity Column in [Table] = { path: String };'' @ nl
     @ ''  entity Query in [Package] = { path: String };'' @ nl @ ''  entity View in [Package] = { path: String };'' @ nl
     @ join nl (schema_lines package_tables custom_actions) @ nl @ ''}''"

subsection \<open>Wildcard patterns\<close>

text \<open>
  The meaning of a wildcard resource (\<open>glob\<close>) and the documented meaning of a Cedar \<^verbatim>\<open>like\<close> pattern:
  a star, or \<^verbatim>\<open>Wildcard\<close>, matches any run of characters.
\<close>

fun glob :: "string \<Rightarrow> string \<Rightarrow> bool" where
  "glob [] s \<longleftrightarrow> s = []"
| "glob (c # p) s \<longleftrightarrow> (if c = CHR ''*'' then list_ex (\<lambda>t. glob p t) (suffixes s)
     else case s of [] \<Rightarrow> False | d # t \<Rightarrow> c = d \<and> glob p t)"

fun pattern_matches :: "pattern_elem list \<Rightarrow> string \<Rightarrow> bool" where
  "pattern_matches [] s \<longleftrightarrow> s = []"
| "pattern_matches (Wildcard # ps) s \<longleftrightarrow> list_ex (\<lambda>t. pattern_matches ps t) (suffixes s)"
| "pattern_matches (Literal l # ps) s \<longleftrightarrow> (case strip_prefix l s of None \<Rightarrow> False | Some t \<Rightarrow> pattern_matches ps t)"

definition lit :: "string \<Rightarrow> pattern_elem list" where
  "lit l = (if l = [] then [] else [Literal l])"

lemma like_elems_Suc: "like_elems (Suc i) ls = concat (map (\<lambda>l. Wildcard # lit l) ls)"
  by (induction ls arbitrary: i) (auto simp: lit_def)

lemma like_pattern_Cons:
  "like_pattern (c # r) = (if c = CHR ''*'' then Wildcard # like_pattern r
     else (case split_on (CHR ''*'') r of l # ls \<Rightarrow> Literal (c # l) # concat (map (\<lambda>l. Wildcard # lit l) ls)))"
  by (cases "split_on (CHR ''*'') r") (auto simp: like_pattern_def like_elems_Suc lit_def)

lemma like_pattern_split:
  "split_on (CHR ''*'') r = l # ls \<Longrightarrow> like_pattern r = lit l @ concat (map (\<lambda>l. Wildcard # lit l) ls)"
  by (simp add: like_pattern_def like_elems_Suc lit_def)

lemma lit_matches: "pattern_matches (lit l @ ps) s \<longleftrightarrow> (case strip_prefix l s of None \<Rightarrow> False | Some t \<Rightarrow> pattern_matches ps t)"
  by (auto simp: lit_def)

lemma like_pattern_glob: "pattern_matches (like_pattern r) s = glob r s"
proof (induction r arbitrary: s)
  case Nil
  then show ?case by (simp add: like_pattern_def)
next
  case (Cons c r)
  obtain l ls where l: "split_on (CHR ''*'') r = l # ls" by (cases "split_on (CHR ''*'') r") auto
  show ?case
  proof (cases "c = CHR ''*''")
    case True
    moreover have "pattern_matches (like_pattern r) = glob r" by (rule ext) (rule Cons.IH)
    ultimately show ?thesis by (simp add: like_pattern_Cons)
  next
    case False
    then show ?thesis
      using Cons by (cases s) (auto simp: like_pattern_Cons l like_pattern_split [OF l] lit_matches split: option.splits)
  qed
qed

subsection \<open>Documents survive storage\<close>

lemma all_some_map: "(\<And>a. a \<in> set xs \<Longrightarrow> f (g a) = Some a) \<Longrightarrow> all_some (map f (map g xs)) = Some xs"
  by (induction xs) auto

lemma de_vec_ser: "(\<And>a. a \<in> set xs \<Longrightarrow> f (g a) = Some a) \<Longrightarrow> de_vec f (JArr (map g xs)) = Some xs"
  using all_some_map [of xs f g] by simp

lemma de_strings: "de_vec de_string (JArr (map JStr xs)) = Some xs"
  by (rule de_vec_ser) simp

lemma de_condition_ser: "de_condition (ser_condition c) = Some c"
  by (simp add: de_condition_def ser_condition_def struct_fields_def)

lemma de_effect_ser: "de_effect (ser_effect e) = Some e"
  by (cases e) (simp_all add: effect_named_def)

lemma de_statement_ser: "de_statement (ser_statement s) = Some s"
  using de_vec_ser [of "st_conditions s" de_condition ser_condition] de_strings
  by (simp add: de_statement_def ser_statement_def struct_fields_def de_effect_ser de_condition_ser del: de_vec.simps)

text \<open>
  C38. The \<^verbatim>\<open>like\<close> pattern the compiler emits for a wildcard resource means the same as the resource
  itself: it matches a path exactly if the path arises by replacing every star by some text.
\<close>

theorem like_pattern_equiv: "pattern_matches (like_pattern r) s = glob r s"
  by (rule like_pattern_glob)

text \<open>A document is read back as it was written, conditions and their values included.\<close>

lemma de_document_ser [simp]: "de_document (ser_document d) = Some d"
  using de_vec_ser [of "pd_statements d" de_statement ser_statement]
  by (simp add: de_document_def ser_document_def struct_fields_def de_statement_ser del: de_vec.simps)

subsection \<open>The actions a schema declares\<close>

definition declared_actions :: "(string \<times> string) list \<Rightarrow> (string \<times> string) list \<Rightarrow> (string \<times> string) list" where
  "declared_actions package_tables custom_actions =
     concat (map (\<lambda>(_, t). map (Pair resource_types) (crud_action_names t)) package_tables)
     @ map (Pair ''[Query]'') QUERY_ACTIONS @ map (Pair ''[View]'') VIEW_ACTIONS
     @ map (\<lambda>(_, a). (resource_types, a)) (filter (\<lambda>(_, a). \<not> is_builtin_action a) custom_actions)"

lemma action_lines_declared: "action_lines ts cs = map (\<lambda>(tys, a). action_line tys a) (declared_actions ts cs)"
  by (auto simp: action_lines_def declared_actions_def map_concat o_def split_def intro!: arg_cong [where f = concat])

definition types_of_action :: "string \<Rightarrow> string" where
  "types_of_action a = (if a \<in> set QUERY_ACTIONS then ''[Query]'' else if a \<in> set VIEW_ACTIONS then ''[View]'' else resource_types)"

lemma crud_not_builtin:
  assumes "to_pascal_case t \<noteq> []" "a \<in> set (crud_action_names t)"
  shows "\<not> is_builtin_action a"
  using assms by (auto simp: crud_action_names_def CRUD_VERBS_def is_builtin_action_def QUERY_ACTIONS_def VIEW_ACTIONS_def)

lemma declared_types:
  assumes "\<And>p t. (p, t) \<in> set ts \<Longrightarrow> to_pascal_case t \<noteq> []" "(tys, a) \<in> set (declared_actions ts cs)"
  shows "tys = types_of_action a"
proof -
  from assms(2) consider p t where "(p, t) \<in> set ts" "a \<in> set (crud_action_names t)" "tys = resource_types"
    | "a \<in> set QUERY_ACTIONS" "tys = ''[Query]''" | "a \<in> set VIEW_ACTIONS" "tys = ''[View]''"
    | "\<not> is_builtin_action a" "tys = resource_types"
    by (auto simp: declared_actions_def)
  then show ?thesis
    using assms(1) crud_not_builtin
    by cases (auto simp: types_of_action_def is_builtin_action_def QUERY_ACTIONS_def VIEW_ACTIONS_def)
qed

lemma declared_names:
  "snd ` set (declared_actions ts cs) = set QUERY_ACTIONS \<union> set VIEW_ACTIONS \<union> snd ` set cs
     \<union> (\<Union>(p, t) \<in> set ts. set (crud_action_names t))"
proof -
  let ?custom = "map (\<lambda>(_, a). (resource_types, a)) (filter (\<lambda>(_, a). \<not> is_builtin_action a) cs)"
  let ?crud = "concat (map (\<lambda>(_, t). map (Pair resource_types) (crud_action_names t)) ts)"
  have "snd ` set ?custom = {a \<in> snd ` set cs. \<not> is_builtin_action a}" by force
  moreover have "snd ` set ?crud = (\<Union>(p, t) \<in> set ts. set (crud_action_names t))"
    by (simp add: image_UN image_image split_def)
  moreover have "snd ` set (map (Pair tys) as) = set as" for tys :: string and as :: "string list"
    by (simp add: image_image)
  ultimately have "snd ` set (declared_actions ts cs) = (\<Union>(p, t) \<in> set ts. set (crud_action_names t)) \<union> set QUERY_ACTIONS
      \<union> set VIEW_ACTIONS \<union> {a \<in> snd ` set cs. \<not> is_builtin_action a}"
    unfolding declared_actions_def set_append image_Un by (simp only: Un_assoc)
  then show ?thesis by (auto simp only: is_builtin_action_def)
qed

lemma action_line_inject:
  assumes "action_line t a = action_line t' a'" "{t, t'} \<subseteq> {''[Query]'', ''[View]'', resource_types}"
  shows "t = t' \<and> a = a'"
proof -
  have "rev (action_line t a) = rev (action_line t' a')" using assms(1) by simp
  with assms(2) show ?thesis
    by (auto simp: action_line_def applies_to_def resource_types_def dq_def)
qed

lemma declared_type_names: "(tys, a) \<in> set (declared_actions ts cs) \<Longrightarrow> tys \<in> {''[Query]'', ''[View]'', resource_types}"
  by (auto simp: declared_actions_def)

lemma schema_lines_facts: "distinct (schema_lines ts cs)" "set (schema_lines ts cs) = set (action_lines ts cs)"
  using sorted_distinct_dedup_adj [of "sort (action_lines ts cs)"] by (simp_all add: schema_lines_def set_dedup_adj_eq)

text \<open>
  The schema declares every action exactly once: its action lines are the declarations of
  distinct actions, namely the seven verbs of every registered table, the built-in query and view
  actions, and every registered package action; a package action cannot redeclare a built-in one.
  (Table names contain something besides underscores.)
\<close>

theorem schema_declares_once:
  assumes "\<forall>(p, t) \<in> set ts. to_pascal_case t \<noteq> []"
  shows "\<exists>decls. schema_lines ts cs = map (\<lambda>(tys, a). action_line tys a) decls \<and> distinct (map snd decls) \<and>
    snd ` set decls = set QUERY_ACTIONS \<union> set VIEW_ACTIONS \<union> snd ` set cs \<union> (\<Union>(p, t) \<in> set ts. set (crud_action_names t)) \<and>
    (\<forall>(tys, a) \<in> set decls. is_builtin_action a \<longrightarrow> tys = (if a = ''run'' then ''[Query]'' else ''[View]''))"
proof -
  let ?f = "\<lambda>(tys, a). action_line tys a" and ?D = "declared_actions ts cs"
  define decls where "decls = map (inv_into (set ?D) ?f) (schema_lines ts cs)"
  have inj: "inj_on ?f (set ?D)"
    by (intro inj_onI) (auto dest!: action_line_inject dest: declared_type_names)
  have sub: "set (schema_lines ts cs) = ?f ` set ?D" by (simp add: schema_lines_facts action_lines_declared)
  have lines: "schema_lines ts cs = map ?f decls"
    unfolding decls_def map_map by (rule map_idI [symmetric]) (simp add: sub f_inv_into_f)
  have D: "set decls = set ?D"
    unfolding decls_def set_map sub by (rule inv_into_image_cancel [OF inj subset_refl])
  have types: "tys = types_of_action a" if "(tys, a) \<in> set decls" for tys a
    using declared_types [of ts tys a cs] that assms unfolding D by fastforce
  have "distinct decls" using schema_lines_facts(1) [of ts cs] unfolding lines by (simp add: distinct_map)
  moreover have "inj_on snd (set decls)"
    by (rule inj_onI) (metis prod.collapse types)
  ultimately have "distinct (map snd decls)" by (simp add: distinct_map)
  moreover have "\<forall>(tys, a) \<in> set decls. is_builtin_action a \<longrightarrow> tys = (if a = ''run'' then ''[Query]'' else ''[View]'')"
  proof clarify
    fix tys a assume "(tys, a) \<in> set decls" "is_builtin_action a"
    then show "tys = (if a = ''run'' then ''[Query]'' else ''[View]'')"
      using types [of tys a] by (auto simp: types_of_action_def is_builtin_action_def QUERY_ACTIONS_def VIEW_ACTIONS_def)
  qed
  ultimately show ?thesis using lines declared_names [of ts cs] unfolding D [symmetric] by blast
qed

theorem schema_declares_once_witness:
  "\<exists>decls. schema_lines [(''p'', ''orders'')] [(''q'', ''run''), (''q'', ''ship'')] = map (\<lambda>(tys, a). action_line tys a) decls \<and>
     distinct (map snd decls) \<and> ''ship'' \<in> snd ` set decls"
proof -
  have "\<forall>(p, t) \<in> set [(''p'', ''orders'')]. to_pascal_case t \<noteq> []" by code_simp
  from schema_declares_once [OF this, of "[(''q'', ''run''), (''q'', ''ship'')]"] show ?thesis by force
qed

end
