(* ===== verification/Policy_Engine.thy ===== *)
theory Policy_Engine
  imports Policy_Resource
begin

section \<open>Policies: compiler and authorization\<close>

text \<open>
  \<^verbatim>\<open>src/policy/compiler.rs\<close> and \<^verbatim>\<open>src/policy/engine.rs\<close>. The Cedar library is a parameter: the
  record \<open>cedar\<close> has one field for each call whose result the code depends on (its first two are
  serde's message for a malformed document and the UUID parser). A policy is its JSON
  form with its id, a policy set a list of policies with distinct ids (adding an id twice fails),
  the schema its text. What the library documents about evaluating a policy is the hypothesis
  \<open>cedar_documented\<close>, stated with the functions \<open>policy_satisfied\<close> and \<open>decide\<close>.
\<close>

type_synonym entity_uid = "string \<times> string"

record cedar_entity =
  ce_uid :: entity_uid
  ce_path :: "string option"
  ce_parents :: "entity_uid list"

record authz_query =
  aq_principal :: entity_uid
  aq_action :: entity_uid
  aq_resource :: entity_uid
  aq_context :: json

type_synonym policy = "string \<times> json"

record cedar =
  cd_document_error :: "json \<Rightarrow> string"
  cd_is_uuid :: "string \<Rightarrow> bool"
  cd_policy_error :: "string \<Rightarrow> json \<Rightarrow> string option"
  cd_add_error :: "string \<Rightarrow> string"
  cd_schema_error :: "string \<Rightarrow> string option"
  cd_parse_uid :: "string \<Rightarrow> entity_uid option"
  cd_attr_ok :: "string \<Rightarrow> bool"
  cd_entities_ok :: "cedar_entity list \<Rightarrow> string \<Rightarrow> bool"
  cd_context_ok :: "json \<Rightarrow> bool"
  cd_request_ok :: "authz_query \<Rightarrow> string \<Rightarrow> bool"
  cd_authorized :: "authz_query \<Rightarrow> policy list \<Rightarrow> cedar_entity list \<Rightarrow> bool"

subsection \<open>Compiler\<close>

definition obj_entity :: "string \<Rightarrow> string \<Rightarrow> json" where
  "obj_entity tyn eid = JObj [(''type'', JStr tyn), (''id'', JStr eid)]"

definition op_all :: json where
  "op_all = JObj [(''op'', JStr ''All'')]"

definition op_entity :: "string \<Rightarrow> string \<Rightarrow> string \<Rightarrow> json" where
  "op_entity op tyn eid = JObj [(''op'', JStr op), (''entity'', obj_entity tyn eid)]"

definition parse_principal :: "string \<Rightarrow> json" where
  "parse_principal princ =
     (if princ = ''*'' then op_all
      else case (case split_once (CHR '':'') princ of None \<Rightarrow> (''user'', princ) | Some pi \<Rightarrow> pi) of (pre, i) \<Rightarrow>
        if pre = ''role'' then op_entity ''in'' ''AuthRS::Role'' i else op_entity ''=='' ''AuthRS::User'' i)"

definition parse_resource :: "string \<Rightarrow> json" where
  "parse_resource path =
     (if is_wildcard path then op_all
      else op_entity ''=='' (''AuthRS::'' @ entity_type path) (entity_id (segments path)))"

definition resource_like_condition :: "string \<Rightarrow> json" where
  "resource_like_condition path = JObj [(''kind'', JStr ''when''),
     (''body'', JObj [(''like'', JObj [
        (''left'', JObj [(''.'', JObj [(''left'', JObj [(''Var'', JStr ''resource'')]), (''attr'', JStr ''path'')])]),
        (''pattern'', JArr (map elem_json (like_pattern path)))])])]"

definition cedar_operator :: "string \<Rightarrow> string" where
  "cedar_operator op = (if op = ''neq'' then ''!='' else if op = ''gt'' then ''>'' else if op = ''lt'' then ''<'' else ''=='')"

text \<open>\<^verbatim>\<open>trim_start_matches("context.")\<close> removes the prefix as often as it occurs.\<close>

function trim_context :: "string \<Rightarrow> string" where
  "trim_context s = (case strip_prefix ''context.'' s of None \<Rightarrow> s | Some r \<Rightarrow> trim_context r)"
  by pat_completeness auto

termination
  by (relation "measure length") (auto simp: strip_prefix_Some_iff)

declare trim_context.simps [simp del]

definition condition_json :: "condition \<Rightarrow> json" where
  "condition_json c = JObj [(''kind'', JStr ''when''),
     (''body'', JObj [(cedar_operator (cn_operator c), JArr [JObj [(''Var'', JStr (trim_context (cn_attribute c)))],
        JObj [(''Value'', cn_value c)]])])]"

definition build_conditions :: "condition list \<Rightarrow> json list" where
  "build_conditions cs = map condition_json cs"

fun effect_clause :: "effect \<Rightarrow> string" where
  "effect_clause Allow = ''permit''" | "effect_clause Deny = ''forbid''"

definition build_cedar_json :: "permission_statement \<Rightarrow> string \<Rightarrow> string \<Rightarrow> string \<Rightarrow> json" where
  "build_cedar_json stmt princ action resource =
     JObj [(''effect'', JStr (effect_clause (st_effect stmt))),
       (''principal'', parse_principal princ),
       (''action'', op_entity ''=='' ''AuthRS::Action'' action),
       (''resource'', parse_resource resource),
       (''conditions'', JArr (build_conditions (st_conditions stmt)
          @ (if is_wildcard resource \<and> resource \<noteq> ''*'' then [resource_like_condition resource] else [])))]"

definition policy_set_add :: "cedar \<Rightarrow> policy \<Rightarrow> policy list \<Rightarrow> policy list result" where
  "policy_set_add ce p ps =
     (if fst p \<in> fst ` set ps then Inl (Internal (cd_add_error ce (fst p))) else Inr (ps @ [p]))"

definition policy_id :: "string \<Rightarrow> permission_statement \<Rightarrow> string \<Rightarrow> string \<Rightarrow> string" where
  "policy_id permission_db_id stmt action resource =
     permission_db_id @ ''-'' @ st_sid stmt @ ''-'' @ action @ ''-'' @ resource"

definition compile_one :: "cedar \<Rightarrow> string \<Rightarrow> permission_statement \<times> string \<times> string \<times> string \<Rightarrow> policy list \<Rightarrow> policy list result" where
  "compile_one ce db_id = (\<lambda>(stmt, princ, action, resource) ps.
     let i = policy_id db_id stmt action resource; est = build_cedar_json stmt princ action resource in
     case cd_policy_error ce i est of
       Some e \<Rightarrow> Inl (Internal e)
     | None \<Rightarrow> policy_set_add ce (i, est) ps)"

text \<open>The nested loops over statements, principals, actions and resources, in their order.\<close>

definition policy_tuples :: "permission_document \<Rightarrow> (permission_statement \<times> string \<times> string \<times> string) list" where
  "policy_tuples doc = concat (map (\<lambda>s. concat (map (\<lambda>p. concat (map (\<lambda>a.
     map (\<lambda>r. (s, p, a, r)) (st_resources s)) (st_actions s))) (st_principals s))) (pd_statements doc))"

fun fold_res :: "('x \<Rightarrow> 'a \<Rightarrow> 'a result) \<Rightarrow> 'x list \<Rightarrow> 'a \<Rightarrow> 'a result" where
  "fold_res f [] a = Inr a"
| "fold_res f (x # xs) a = bind_res (f x a) (fold_res f xs)"

definition policy_compile :: "cedar \<Rightarrow> permission_document \<Rightarrow> string \<Rightarrow> policy list result" where
  "policy_compile ce doc permission_db_id = fold_res (compile_one ce permission_db_id) (policy_tuples doc) []"

subsection \<open>Engine\<close>

record authz_request =
  ar_user_id :: uuid
  ar_role_names :: "string list"
  ar_action :: string
  ar_resource :: string
  ar_context :: json

definition uid_text :: "string \<Rightarrow> string \<Rightarrow> string" where
  "uid_text tyn eid = ''AuthRS::'' @ tyn @ ''::'' @ dq @ eid @ dq"

definition resource_uid :: "cedar \<Rightarrow> string \<Rightarrow> string \<Rightarrow> entity_uid option" where
  "resource_uid ce tyn eid = cd_parse_uid ce (uid_text tyn eid)"

definition resource_root_uid :: "cedar \<Rightarrow> string \<Rightarrow> entity_uid option" where
  "resource_root_uid ce path = resource_uid ce (entity_type path) (entity_id (segments path))"

definition action_uid :: "cedar \<Rightarrow> string \<Rightarrow> entity_uid option" where
  "action_uid ce verb = cd_parse_uid ce (uid_text ''Action'' verb)"

text \<open>\<^verbatim>\<open>.parse().unwrap()\<close> on the text of a UUID, which always parses.\<close>

definition user_uid :: "cedar \<Rightarrow> uuid \<Rightarrow> entity_uid" where
  "user_uid ce i = the (cd_parse_uid ce (uid_text ''User'' (uuid_str i)))"

definition build_user_entity :: "cedar \<Rightarrow> uuid \<Rightarrow> string list \<Rightarrow> cedar_entity" where
  "build_user_entity ce user_id role_names =
     \<lparr>ce_uid = user_uid ce user_id, ce_path = None,
      ce_parents = remdups (List.map_filter (\<lambda>name. cd_parse_uid ce (uid_text ''Role'' name)) role_names)\<rparr>"

fun chain_loop :: "cedar \<Rightarrow> string list \<Rightarrow> (string \<times> entity_uid) option \<Rightarrow> string list \<Rightarrow> cedar_entity list" where
  "chain_loop ce before parent [] = []"
| "chain_loop ce before parent (seg # segs) =
     (let upto = before @ [seg]; tyn = segment_entity_type seg in
      case resource_uid ce tyn (entity_id upto) of
        None \<Rightarrow> chain_loop ce upto None segs
      | Some uid \<Rightarrow>
          (let path = join ''/'' upto;
               parents = (case parent of Some (pty, puid) \<Rightarrow> if allows_parent tyn pty then [puid] else [] | None \<Rightarrow> []) in
           if cd_attr_ok ce path
           then \<lparr>ce_uid = uid, ce_path = Some path, ce_parents = parents\<rparr> # chain_loop ce upto (Some (tyn, uid)) segs
           else chain_loop ce upto None segs))"

definition build_resource_chain :: "cedar \<Rightarrow> string \<Rightarrow> cedar_entity list" where
  "build_resource_chain ce path = chain_loop ce [] None (segments path)"

definition authorize :: "cedar \<Rightarrow> authz_request \<Rightarrow> policy list \<Rightarrow> string \<Rightarrow> effect" where
  "authorize ce req policy_set schema =
     (case resource_root_uid ce (ar_resource req) of
        None \<Rightarrow> Deny
      | Some resource \<Rightarrow> (case action_uid ce (ar_action req) of
          None \<Rightarrow> Deny
        | Some action \<Rightarrow>
            (let all_entities = build_resource_chain ce (ar_resource req) @ [build_user_entity ce (ar_user_id req) (ar_role_names req)];
                 entities = (if cd_entities_ok ce all_entities schema then all_entities else []);
                 ctx = (if cd_context_ok ce (ar_context req) then ar_context req else JObj []);
                 request = \<lparr>aq_principal = user_uid ce (ar_user_id req), aq_action = action, aq_resource = resource, aq_context = ctx\<rparr> in
             if \<not> cd_request_ok ce request schema then Deny
             else if cd_authorized ce request policy_set entities then Allow else Deny)))"

definition derive_action_name :: "string \<Rightarrow> string \<Rightarrow> string option" where
  "derive_action_name http_method resource_path =
     map_option (\<lambda>t. to_lowercase http_method @ to_pascal_case t)
       (Option.bind (find_first (\<lambda>s. strip_prefix ''table:'' s \<noteq> None) (rev (segments resource_path))) (strip_prefix ''table:''))"

subsection \<open>What the library documents\<close>

text \<open>
  The meaning of the policies the compiler emits. A scope clause compares with the request's
  entity (\<^verbatim>\<open>==\<close>), or with it and its ancestors in the entity data (\<^verbatim>\<open>in\<close>); \<open>cond\<close> says of a
  \<^verbatim>\<open>when\<close> clause whether it evaluates to true. A request is allowed if a permit policy is
  satisfied and no forbid policy is.
\<close>

definition entity_edges :: "cedar_entity list \<Rightarrow> (entity_uid \<times> entity_uid) set" where
  "entity_edges es = set (concat (map (\<lambda>e. map (Pair (ce_uid e)) (ce_parents e)) es))"

lemma entity_edges_iff: "(u, v) \<in> entity_edges es \<longleftrightarrow> (\<exists>e \<in> set es. ce_uid e = u \<and> v \<in> set (ce_parents e))"
  by (auto simp: entity_edges_def)

definition clause_entity :: "json \<Rightarrow> entity_uid option" where
  "clause_entity j = (case json_field ''entity'' j of None \<Rightarrow> None
     | Some e \<Rightarrow> (case (json_field ''type'' e, json_field ''id'' e) of
         (Some (JStr t), Some (JStr i)) \<Rightarrow> Some (t, i) | _ \<Rightarrow> None))"

definition clause_holds :: "json option \<Rightarrow> entity_uid \<Rightarrow> cedar_entity list \<Rightarrow> bool" where
  "clause_holds clause u es \<longleftrightarrow> (case clause of None \<Rightarrow> False | Some j \<Rightarrow>
     (case json_field ''op'' j of Some (JStr op) \<Rightarrow> op = ''All'' \<or>
        (case clause_entity j of None \<Rightarrow> False | Some v \<Rightarrow>
           op = ''=='' \<and> v = u \<or> op = ''in'' \<and> (u = v \<or> (u, v) \<in> (entity_edges es)\<^sup>+))
      | _ \<Rightarrow> False))"

definition policy_satisfied ::
  "(json \<Rightarrow> authz_query \<Rightarrow> cedar_entity list \<Rightarrow> bool) \<Rightarrow> json \<Rightarrow> authz_query \<Rightarrow> cedar_entity list \<Rightarrow> bool" where
  "policy_satisfied cond est q es \<longleftrightarrow>
     clause_holds (json_field ''principal'' est) (aq_principal q) es \<and>
     clause_holds (json_field ''action'' est) (aq_action q) es \<and>
     clause_holds (json_field ''resource'' est) (aq_resource q) es \<and>
     (case json_field ''conditions'' est of Some (JArr cs) \<Rightarrow> (\<forall>c \<in> set cs. cond c q es) | _ \<Rightarrow> True)"

definition decide ::
  "(json \<Rightarrow> authz_query \<Rightarrow> cedar_entity list \<Rightarrow> bool) \<Rightarrow> policy list \<Rightarrow> authz_query \<Rightarrow> cedar_entity list \<Rightarrow> bool" where
  "decide cond ps q es \<longleftrightarrow>
     (\<exists>p \<in> set ps. json_field ''effect'' (snd p) = Some (JStr ''permit'') \<and> policy_satisfied cond (snd p) q es) \<and>
     \<not> (\<exists>p \<in> set ps. json_field ''effect'' (snd p) = Some (JStr ''forbid'') \<and> policy_satisfied cond (snd p) q es)"

definition plain_char :: "char \<Rightarrow> bool" where
  "plain_char c \<longleftrightarrow> 32 \<le> (of_char c :: nat) \<and> (of_char c :: nat) < 127 \<and> c \<noteq> CHR 0x22 \<and> c \<noteq> CHR 0x5C"

definition plain_id :: "string \<Rightarrow> bool" where
  "plain_id s \<longleftrightarrow> (\<forall>c \<in> set s. plain_char c)"

definition entity_types :: "string set" where
  "entity_types = {''Action'', ''User'', ''Role'', ''Service'', ''Package'', ''Table'', ''Column'', ''Query'', ''View''}"

definition cedar_documented :: "cedar \<Rightarrow> (json \<Rightarrow> authz_query \<Rightarrow> cedar_entity list \<Rightarrow> bool) \<Rightarrow> bool" where
  "cedar_documented ce cond \<longleftrightarrow>
     (\<forall>t i. t \<in> entity_types \<longrightarrow> plain_id i \<longrightarrow> cd_parse_uid ce (uid_text t i) = Some (''AuthRS::'' @ t, i)) \<and>
     (\<forall>s. cd_attr_ok ce s) \<and>
     (\<forall>q ps es. cd_authorized ce q ps es = decide cond ps q es) \<and>
     (\<forall>r q es. cond (resource_like_condition r) q es \<longleftrightarrow>
        (\<exists>e path. find_first (\<lambda>e. ce_uid e = aq_resource q) es = Some e \<and> ce_path e = Some path \<and>
           pattern_matches (like_pattern r) path))"

subsection \<open>What a document grants\<close>

definition principal_covers :: "string \<Rightarrow> uuid \<Rightarrow> string list \<Rightarrow> bool" where
  "principal_covers princ user roles \<longleftrightarrow> princ = ''*'' \<or>
     (case split_once (CHR '':'') princ of None \<Rightarrow> princ = uuid_str user
      | Some (pre, i) \<Rightarrow> if pre = ''role'' then i \<in> set roles else i = uuid_str user)"

definition resource_covers :: "string \<Rightarrow> string \<Rightarrow> bool" where
  "resource_covers r path \<longleftrightarrow> (if is_wildcard r then glob r path
     else entity_type r = entity_type path \<and> entity_id (segments r) = entity_id (segments path))"

definition statement_applies :: "permission_statement \<Rightarrow> authz_request \<Rightarrow> (condition \<Rightarrow> bool) \<Rightarrow> bool" where
  "statement_applies s req holds \<longleftrightarrow>
     (\<exists>p \<in> set (st_principals s). principal_covers p (ar_user_id req) (ar_role_names req)) \<and>
     ar_action req \<in> set (st_actions s) \<and> (\<exists>r \<in> set (st_resources s). resource_covers r (ar_resource req)) \<and>
     (\<forall>c \<in> set (st_conditions s). holds c)"

definition documents_allow :: "permission_document set \<Rightarrow> authz_request \<Rightarrow> (condition \<Rightarrow> bool) \<Rightarrow> bool" where
  "documents_allow docs req holds \<longleftrightarrow>
     (\<exists>d \<in> docs. \<exists>s \<in> set (pd_statements d). st_effect s = Allow \<and> statement_applies s req holds) \<and>
     \<not> (\<exists>d \<in> docs. \<exists>s \<in> set (pd_statements d). st_effect s = Deny \<and> statement_applies s req holds)"

subsection \<open>The compiler's output\<close>

definition compiled_policy :: "string \<Rightarrow> permission_statement \<times> string \<times> string \<times> string \<Rightarrow> policy" where
  "compiled_policy db_id = (\<lambda>(s, p, a, r). (policy_id db_id s a r, build_cedar_json s p a r))"

lemma policy_set_add_Inr: "policy_set_add ce p ps = Inr qs \<longleftrightarrow> fst p \<notin> fst ` set ps \<and> qs = ps @ [p]"
  by (auto simp: policy_set_add_def)

lemma fold_add_Inr:
  assumes "fold_res (\<lambda>x. f x) xs ps = Inr qs" "\<And>x ps qs. f x ps = Inr qs \<Longrightarrow> fst (g x) \<notin> fst ` set ps \<and> qs = ps @ [g x]"
  shows "qs = ps @ map g xs" "distinct (map fst ps) \<Longrightarrow> distinct (map fst qs)"
proof -
  have "qs = ps @ map g xs \<and> (distinct (map fst ps) \<longrightarrow> distinct (map fst qs))"
    using assms(1)
  proof (induction xs arbitrary: ps)
    case (Cons x xs)
    then obtain ps' where "f x ps = Inr ps'" "fold_res f xs ps' = Inr qs" by (auto simp: bind_res_Inr_iff)
    with Cons.IH assms(2) show ?case by (fastforce simp: image_iff)
  qed simp
  then show "qs = ps @ map g xs" "distinct (map fst ps) \<Longrightarrow> distinct (map fst qs)" by blast+
qed

lemma policy_compile_Inr:
  assumes "policy_compile ce doc db_id = Inr ps"
  shows "ps = map (compiled_policy db_id) (policy_tuples doc)" "distinct (map fst ps)"
proof -
  have one: "fst (compiled_policy db_id x) \<notin> fst ` set qs \<and> rs = qs @ [compiled_policy db_id x]"
    if "compile_one ce db_id x qs = Inr rs" for x qs rs
    using that by (cases x) (auto simp: compile_one_def compiled_policy_def Let_def policy_set_add_Inr split: option.splits)
  show "ps = map (compiled_policy db_id) (policy_tuples doc)" "distinct (map fst ps)"
    using fold_add_Inr [OF assms [unfolded policy_compile_def], of "compiled_policy db_id"] one by simp_all
qed

lemma policy_tuples_iff:
  "(s, p, a, r) \<in> set (policy_tuples doc) \<longleftrightarrow> s \<in> set (pd_statements doc) \<and> p \<in> set (st_principals s) \<and>
     a \<in> set (st_actions s) \<and> r \<in> set (st_resources s)"
  by (auto simp: policy_tuples_def)

text \<open>A statement with two principals names two policies alike; such a document never compiles.\<close>

lemma two_principals_fail:
  assumes "pd_statements doc = [s]" "st_principals s = [p, q]" "st_actions s = [a]" "st_resources s = [r]"
  shows "\<exists>e. policy_compile ce doc db_id = Inl e"
  using assms
  by (auto simp: policy_compile_def policy_tuples_def compile_one_def Let_def policy_set_add_def bind_res_def
      split: option.split)

subsection \<open>Entities of a request\<close>

lemma entity_types_segment: "segment_entity_type s \<in> {''Service'', ''Package'', ''Table'', ''Column'', ''Query'', ''View''}"
  by (auto simp: segment_entity_type_def split: option.split)

lemma plain_uuid_str: "plain_id (uuid_str u)"
proof -
  have "plain_char (hex_digit n)" if "n < 16" for n
  proof -
    have "n \<in> {0, 1, 2, 3, 4, 5, 6, 7, 8, 9, 10, 11, 12, 13, 14, 15}"
      using that by (simp only: insert_iff empty_iff) presburger
    then show ?thesis by (elim insertE emptyE; hypsubst; code_simp)
  qed
  then have "plain_id (hex_digits k n)" for k n
    by (induction k arbitrary: n) (auto simp: plain_id_def)
  moreover have "plain_id ''-''" by (simp add: plain_id_def plain_char_def)
  ultimately have "\<forall>c \<in> set (hex_digits 32 u) \<union> set ''-''. plain_char c" by (auto simp: plain_id_def)
  moreover have "set (uuid_str u) \<subseteq> set (hex_digits 32 u) \<union> set ''-''"
    unfolding uuid_str_def Let_def by (auto dest!: in_set_takeD in_set_dropD)
  ultimately show ?thesis unfolding plain_id_def by blast
qed

lemma set_segment_id: "set (segment_id s) \<subseteq> set s"
  by (auto simp: segment_id_def dest: split_once_SomeD split: option.splits)

lemma set_join: "set (join sep ws) \<subseteq> set sep \<union> \<Union> (set ` set ws)"
  by (induction sep ws rule: join.induct) auto

lemma plain_entity_id:
  assumes "\<forall>s \<in> set segs. plain_id s"
  shows "plain_id (entity_id segs)"
  unfolding plain_id_def
proof
  fix c assume "c \<in> set (entity_id segs)"
  then have "c \<in> set ''/'' \<or> (\<exists>s \<in> set segs. c \<in> set (segment_id s))"
    using set_join [of "''/''" "map segment_id segs"] by (auto simp: entity_id_def)
  moreover have "plain_char (CHR ''/'')" by (simp add: plain_char_def)
  ultimately show "plain_char c" using assms set_segment_id unfolding plain_id_def by auto
qed

lemma set_split_on: "w \<in> set (split_on c s) \<Longrightarrow> set w \<subseteq> set s"
proof (induction s arbitrary: w)
  case (Cons d s)
  then show ?case by (cases "split_on c s") (fastforce split: if_splits)+
qed simp

lemma plain_segments: "plain_id path \<Longrightarrow> s \<in> set (segments path) \<Longrightarrow> plain_id s"
  using set_split_on unfolding segments_def plain_id_def by fastforce

lemma join_append: "xs \<noteq> [] \<Longrightarrow> ys \<noteq> [] \<Longrightarrow> join sep (xs @ ys) = join sep xs @ sep @ join sep ys"
proof (induction xs)
  case (Cons x xs)
  then show ?case by (cases xs; cases ys) auto
qed simp

lemma entity_id_prefix_shorter: "xs \<noteq> [] \<Longrightarrow> ys \<noteq> [] \<Longrightarrow> entity_id xs \<noteq> entity_id (xs @ ys)"
  by (simp add: entity_id_def join_append)

definition resource_types_set :: "string set" where
  "resource_types_set = (\<lambda>t. ''AuthRS::'' @ t) ` {''Service'', ''Package'', ''Table'', ''Column'', ''Query'', ''View''}"

lemma resource_uid_documented:
  assumes "cedar_documented ce cond" "t \<in> entity_types" "plain_id i"
  shows "cd_parse_uid ce (uid_text t i) = Some (''AuthRS::'' @ t, i)"
  using assms by (simp add: cedar_documented_def)

lemma chain_loop_elem:
  assumes "cedar_documented ce cond" "\<forall>s \<in> set (before @ segs). plain_id s" "e \<in> set (chain_loop ce before parent segs)"
    and "\<And>t u. parent = Some (t, u) \<Longrightarrow> fst u \<in> resource_types_set"
  shows "\<exists>pre seg post. segs = pre @ seg # post \<and> ce_path e = Some (join ''/'' (before @ pre @ [seg])) \<and>
     ce_uid e = (''AuthRS::'' @ segment_entity_type seg, entity_id (before @ pre @ [seg])) \<and>
     fst ` set (ce_parents e) \<subseteq> resource_types_set"
  using assms(2-4)
proof (induction segs arbitrary: before parent)
  case (Cons seg segs)
  let ?upto = "before @ [seg]" and ?t = "segment_entity_type seg"
  let ?uid = "(''AuthRS::'' @ ?t, entity_id ?upto)"
  have "?t \<in> entity_types" using entity_types_segment [of seg] by (auto simp: entity_types_def)
  moreover have "plain_id (entity_id ?upto)" using Cons.prems(1) by (intro plain_entity_id) auto
  ultimately have uid: "resource_uid ce ?t (entity_id ?upto) = Some ?uid"
    unfolding resource_uid_def by (rule resource_uid_documented [OF assms(1)])
  have attr: "cd_attr_ok ce p" for p using assms(1) by (simp add: cedar_documented_def)
  have rt: "fst ?uid \<in> resource_types_set" using entity_types_segment [of seg] by (auto simp: resource_types_set_def)
  let ?e = "\<lparr>ce_uid = ?uid, ce_path = Some (join ''/'' ?upto),
    ce_parents = (case parent of Some (pty, puid) \<Rightarrow> if allows_parent ?t pty then [puid] else [] | None \<Rightarrow> [])\<rparr>"
  have "e = ?e \<or> e \<in> set (chain_loop ce ?upto (Some (?t, ?uid)) segs)"
    using Cons.prems(2) uid attr by (simp add: Let_def)
  then show ?case
  proof
    assume "e = ?e"
    then show ?thesis using Cons.prems(3)
      by (intro exI [of _ "[]"] exI [of _ seg] exI [of _ segs]) (auto split: option.splits)
  next
    assume "e \<in> set (chain_loop ce ?upto (Some (?t, ?uid)) segs)"
    then obtain pre s post where "segs = pre @ s # post" "ce_path e = Some (join ''/'' (?upto @ pre @ [s]))"
      "ce_uid e = (''AuthRS::'' @ segment_entity_type s, entity_id (?upto @ pre @ [s]))" "fst ` set (ce_parents e) \<subseteq> resource_types_set"
      using Cons.IH [of ?upto "Some (?t, ?uid)"] Cons.prems(1) rt by auto
    then show ?thesis by (intro exI [of _ "seg # pre"] exI [of _ s] exI [of _ post]) simp
  qed
qed simp

lemma chain_loop_last:
  assumes "cedar_documented ce cond" "\<forall>s \<in> set (before @ segs). plain_id s" "segs \<noteq> []"
  shows "\<exists>e \<in> set (chain_loop ce before parent segs). ce_uid e = (''AuthRS::'' @ segment_entity_type (last segs), entity_id (before @ segs))"
  using assms(2,3)
proof (induction segs arbitrary: before parent)
  case (Cons seg segs)
  let ?upto = "before @ [seg]" and ?t = "segment_entity_type seg"
  have "?t \<in> entity_types" using entity_types_segment [of seg] by (auto simp: entity_types_def)
  moreover have "plain_id (entity_id ?upto)" using Cons.prems(1) by (intro plain_entity_id) auto
  ultimately have uid: "resource_uid ce ?t (entity_id ?upto) = Some (''AuthRS::'' @ ?t, entity_id ?upto)"
    unfolding resource_uid_def by (rule resource_uid_documented [OF assms(1)])
  have attr: "cd_attr_ok ce p" for p using assms(1) by (simp add: cedar_documented_def)
  show ?case
  proof (cases "segs = []")
    case True
    then show ?thesis using uid attr by (simp add: Let_def)
  next
    case False
    have "\<exists>e \<in> set (chain_loop ce ?upto (Some (?t, (''AuthRS::'' @ ?t, entity_id ?upto))) segs).
        ce_uid e = (''AuthRS::'' @ segment_entity_type (last segs), entity_id (?upto @ segs))"
      using Cons.prems(1) False by (intro Cons.IH) auto
    then show ?thesis using uid attr False by (auto simp: Let_def)
  qed
qed simp

lemma find_first_ex: "\<exists>x \<in> set xs. P x \<Longrightarrow> \<exists>x. find_first P xs = Some x \<and> x \<in> set xs \<and> P x"
  by (metis find_first_None_iff find_first_SomeD not_Some_eq)

lemma chain_resource:
  assumes "cedar_documented ce cond" "plain_id path"
  shows "\<exists>e. find_first (\<lambda>e. ce_uid e = (''AuthRS::'' @ entity_type path, entity_id (segments path))) (build_resource_chain ce path) = Some e
    \<and> ce_path e = Some path"
proof -
  let ?u = "(''AuthRS::'' @ entity_type path, entity_id (segments path))"
  have ne: "segments path \<noteq> []" by (simp add: segments_def)
  have pl: "\<forall>s \<in> set ([] @ segments path). plain_id s" using plain_segments [OF assms(2)] by simp
  have "\<exists>e \<in> set (build_resource_chain ce path). ce_uid e = ?u"
    using chain_loop_last [OF assms(1) pl ne, of None] by (simp add: build_resource_chain_def entity_type_def)
  from find_first_ex [OF this] obtain e where e: "find_first (\<lambda>e. ce_uid e = ?u) (build_resource_chain ce path) = Some e"
    "e \<in> set (build_resource_chain ce path)" "ce_uid e = ?u"
    by blast
  obtain pre seg post where s: "segments path = pre @ seg # post" "ce_path e = Some (join ''/'' (pre @ [seg]))"
    "ce_uid e = (''AuthRS::'' @ segment_entity_type seg, entity_id (pre @ [seg]))"
    using chain_loop_elem [OF assms(1) pl e(2) [unfolded build_resource_chain_def]] by auto
  have "post = []"
    using e(3) s(1,3) entity_id_prefix_shorter [of "pre @ [seg]" post] by auto
  with s have "ce_path e = Some (join ''/'' (segments path))" by simp
  then show ?thesis using e(1) by (simp add: segments_def)
qed

definition request_entities :: "cedar \<Rightarrow> authz_request \<Rightarrow> cedar_entity list" where
  "request_entities ce req = build_resource_chain ce (ar_resource req) @ [build_user_entity ce (ar_user_id req) (ar_role_names req)]"

definition request_of :: "authz_request \<Rightarrow> authz_query" where
  "request_of req = \<lparr>aq_principal = (''AuthRS::User'', uuid_str (ar_user_id req)), aq_action = (''AuthRS::Action'', ar_action req),
     aq_resource = (''AuthRS::'' @ entity_type (ar_resource req), entity_id (segments (ar_resource req))), aq_context = ar_context req\<rparr>"

definition plain_request :: "authz_request \<Rightarrow> bool" where
  "plain_request req \<longleftrightarrow> plain_id (ar_resource req) \<and> plain_id (ar_action req) \<and> (\<forall>r \<in> set (ar_role_names req). plain_id r)"

lemma user_uid_eq: "cedar_documented ce cond \<Longrightarrow> user_uid ce u = (''AuthRS::User'', uuid_str u)"
  using resource_uid_documented [of ce cond "''User''" "uuid_str u"] by (simp add: user_uid_def entity_types_def plain_uuid_str)

lemma user_parents:
  assumes "cedar_documented ce cond" "\<forall>r \<in> set roles. plain_id r"
  shows "set (ce_parents (build_user_entity ce u roles)) = Pair ''AuthRS::Role'' ` set roles"
proof -
  have "cd_parse_uid ce (uid_text ''Role'' r) = Some (''AuthRS::Role'', r)" if "r \<in> set roles" for r
    using resource_uid_documented [OF assms(1), of "''Role''" r] assms(2) that by (simp add: entity_types_def)
  then show ?thesis by (auto simp: build_user_entity_def List.map_filter_def image_iff)
qed

lemma chain_edges:
  assumes "cedar_documented ce cond" "plain_request req" "e \<in> set (build_resource_chain ce (ar_resource req))"
  shows "fst (ce_uid e) \<in> resource_types_set"
  using chain_loop_elem [OF assms(1) _ assms(3) [unfolded build_resource_chain_def]] plain_segments assms(2) entity_types_segment
  by (fastforce simp: plain_request_def resource_types_set_def)

lemma user_ancestors:
  assumes "cedar_documented ce cond" "plain_request req"
  shows "((''AuthRS::User'', uuid_str (ar_user_id req)), v) \<in> (entity_edges (request_entities ce req))\<^sup>+
    \<longleftrightarrow> v \<in> Pair ''AuthRS::Role'' ` set (ar_role_names req)"
proof -
  let ?E = "entity_edges (request_entities ce req)" and ?u = "(''AuthRS::User'', uuid_str (ar_user_id req))"
  have roles: "\<forall>r \<in> set (ar_role_names req). plain_id r" using assms(2) by (simp add: plain_request_def)
  have uid: "ce_uid (build_user_entity ce (ar_user_id req) rs) = ?u" for rs
    by (simp add: build_user_entity_def user_uid_eq [OF assms(1)])
  have from_user: "(?u, v) \<in> ?E \<longleftrightarrow> v \<in> Pair ''AuthRS::Role'' ` set (ar_role_names req)" for v
    using chain_edges [OF assms] uid user_parents [OF assms(1) roles]
    by (fastforce simp: entity_edges_iff request_entities_def resource_types_set_def)
  have from_role: "((''AuthRS::Role'', r), v) \<notin> ?E" for r v
    using chain_edges [OF assms] uid
    by (fastforce simp: entity_edges_iff request_entities_def resource_types_set_def)
  show ?thesis
  proof
    assume "(?u, v) \<in> ?E\<^sup>+"
    then show "v \<in> Pair ''AuthRS::Role'' ` set (ar_role_names req)"
      by (induction rule: trancl_induct) (use from_user from_role in auto)
  next
    assume "v \<in> Pair ''AuthRS::Role'' ` set (ar_role_names req)"
    then show "(?u, v) \<in> ?E\<^sup>+" using from_user by blast
  qed
qed

lemma clause_all [simp]: "clause_holds (Some op_all) u es"
  by (simp add: clause_holds_def op_all_def)

lemma clause_entity_op [simp]: "clause_entity (op_entity op t i) = Some (t, i)"
  by (simp add: clause_entity_def op_entity_def obj_entity_def)

lemma clause_op [simp]:
  "clause_holds (Some (op_entity ''=='' t i)) u es \<longleftrightarrow> u = (t, i)"
  "clause_holds (Some (op_entity ''in'' t i)) u es \<longleftrightarrow> u = (t, i) \<or> (u, (t, i)) \<in> (entity_edges es)\<^sup>+"
  unfolding clause_holds_def by (auto simp: clause_entity_op [unfolded op_entity_def] op_entity_def)

lemma est_fields [simp]:
  "json_field ''effect'' (build_cedar_json s p a r) = Some (JStr (effect_clause (st_effect s)))"
  "json_field ''principal'' (build_cedar_json s p a r) = Some (parse_principal p)"
  "json_field ''action'' (build_cedar_json s p a r) = Some (op_entity ''=='' ''AuthRS::Action'' a)"
  "json_field ''resource'' (build_cedar_json s p a r) = Some (parse_resource r)"
  "json_field ''conditions'' (build_cedar_json s p a r) = Some (JArr (build_conditions (st_conditions s)
     @ (if is_wildcard r \<and> r \<noteq> ''*'' then [resource_like_condition r] else [])))"
  by (simp_all add: build_cedar_json_def)

lemma principal_clause:
  assumes "cedar_documented ce cond" "plain_request req"
  shows "clause_holds (Some (parse_principal p)) (aq_principal (request_of req)) (request_entities ce req)
    \<longleftrightarrow> principal_covers p (ar_user_id req) (ar_role_names req)"
proof (cases "p = ''*''")
  case False
  obtain pre i where pi: "(case split_once (CHR '':'') p of None \<Rightarrow> (''user'', p) | Some pi \<Rightarrow> pi) = (pre, i)"
    by (metis surj_pair)
  then have "principal_covers p (ar_user_id req) (ar_role_names req) \<longleftrightarrow>
      (if pre = ''role'' then i \<in> set (ar_role_names req) else i = uuid_str (ar_user_id req))"
    using False by (auto simp: principal_covers_def split: option.splits)
  then show ?thesis
    using False user_ancestors [OF assms] by (auto simp: parse_principal_def pi request_of_def)
qed (simp add: parse_principal_def principal_covers_def)

lemma glob_star: "glob ''*'' s"
  by (auto simp: list_ex_iff)

lemma find_first_append_Some: "find_first P xs = Some x \<Longrightarrow> find_first P (xs @ ys) = Some x"
  by (simp add: find_first_append)

lemma resource_clause:
  assumes "cedar_documented ce cond" "plain_request req"
  shows "clause_holds (Some (parse_resource r)) (aq_resource (request_of req)) (request_entities ce req) \<and>
      (is_wildcard r \<and> r \<noteq> ''*'' \<longrightarrow> cond (resource_like_condition r) (request_of req) (request_entities ce req))
    \<longleftrightarrow> resource_covers r (ar_resource req)"
proof (cases "is_wildcard r")
  case False
  then show ?thesis by (auto simp: resource_covers_def parse_resource_def request_of_def)
next
  case True
  obtain e where e: "find_first (\<lambda>e. ce_uid e = aq_resource (request_of req)) (request_entities ce req) = Some e"
    "ce_path e = Some (ar_resource req)"
    using chain_resource [OF assms(1), of "ar_resource req"] assms(2)
    by (auto simp: request_entities_def request_of_def plain_request_def dest: find_first_append_Some)
  then have "cond (resource_like_condition r) (request_of req) (request_entities ce req) \<longleftrightarrow> glob r (ar_resource req)"
    using assms(1) by (simp add: cedar_documented_def like_pattern_glob)
  then show ?thesis
    using True glob_star [of "ar_resource req"] by (auto simp: resource_covers_def parse_resource_def simp del: glob.simps)
qed

lemma policy_satisfied_iff:
  assumes "cedar_documented ce cond" "plain_request req"
  shows "policy_satisfied cond (build_cedar_json s p a r) (request_of req) (request_entities ce req) \<longleftrightarrow>
    principal_covers p (ar_user_id req) (ar_role_names req) \<and> a = ar_action req \<and> resource_covers r (ar_resource req) \<and>
    (\<forall>c \<in> set (st_conditions s). cond (condition_json c) (request_of req) (request_entities ce req))"
  using principal_clause [OF assms, of p] resource_clause [OF assms, of r]
  by (auto simp: policy_satisfied_def build_conditions_def request_of_def)

lemma authorize_run:
  assumes "cedar_documented ce cond" "plain_request req" "cd_entities_ok ce (request_entities ce req) schema"
    and "cd_context_ok ce (ar_context req)"
  shows "authorize ce req ps schema = Allow \<longleftrightarrow>
    cd_request_ok ce (request_of req) schema \<and> decide cond ps (request_of req) (request_entities ce req)"
proof -
  have "plain_id (entity_id (segments (ar_resource req)))"
    using assms(2) plain_segments by (intro plain_entity_id) (auto simp: plain_request_def)
  moreover have "entity_type (ar_resource req) \<in> entity_types"
    using entity_types_segment by (auto simp: entity_type_def entity_types_def)
  ultimately have "resource_root_uid ce (ar_resource req) = Some (aq_resource (request_of req))"
    using resource_uid_documented [OF assms(1)] by (simp add: resource_root_uid_def resource_uid_def request_of_def)
  moreover have "action_uid ce (ar_action req) = Some (''AuthRS::Action'', ar_action req)"
    using resource_uid_documented [OF assms(1), of "''Action''"] assms(2)
    by (simp add: action_uid_def entity_types_def plain_request_def)
  moreover have "cd_authorized ce q ps es = decide cond ps q es" for q es
    using assms(1) by (simp add: cedar_documented_def)
  ultimately show ?thesis
    using assms(3,4) user_uid_eq [OF assms(1)]
    by (simp add: authorize_def Let_def request_entities_def [symmetric] request_of_def)
qed

subsection \<open>A concrete library\<close>

text \<open>
  An instance of the parameter that behaves as documented, for the examples: it parses the entity
  ids without quotes or escapes and evaluates wildcard conditions; other conditions are false.
\<close>

definition parse_uid0 :: "string \<Rightarrow> entity_uid option" where
  "parse_uid0 s = (case split_once (CHR 0x22) s of None \<Rightarrow> None
     | Some (tyn, rest) \<Rightarrow> if rest \<noteq> [] \<and> last rest = CHR 0x22 then Some (butlast (butlast tyn), butlast rest) else None)"

fun json_elem :: "json \<Rightarrow> pattern_elem" where
  "json_elem (JObj [(_, JStr l)]) = Literal l" | "json_elem _ = Wildcard"

definition pattern_of :: "json \<Rightarrow> pattern_elem list option" where
  "pattern_of c = (case Option.bind (json_field ''body'' c) (\<lambda>b. Option.bind (json_field ''like'' b) (json_field ''pattern'')) of
     Some (JArr js) \<Rightarrow> Some (map json_elem js) | _ \<Rightarrow> None)"

definition cond0 :: "json \<Rightarrow> authz_query \<Rightarrow> cedar_entity list \<Rightarrow> bool" where
  "cond0 c q es = (case pattern_of c of None \<Rightarrow> False | Some pat \<Rightarrow>
     (case find_first (\<lambda>e. ce_uid e = aq_resource q) es of None \<Rightarrow> False | Some e \<Rightarrow>
        (case ce_path e of None \<Rightarrow> False | Some path \<Rightarrow> pattern_matches pat path)))"

definition cedar0 :: cedar where
  "cedar0 = \<lparr>cd_document_error = (\<lambda>_. ''bad document''), cd_is_uuid = (\<lambda>s. length s = 36),
     cd_policy_error = (\<lambda>i est. None), cd_add_error = (\<lambda>i. ''duplicate policy''), cd_schema_error = (\<lambda>s. None),
     cd_parse_uid = parse_uid0, cd_attr_ok = (\<lambda>s. True), cd_entities_ok = (\<lambda>es s. True), cd_context_ok = (\<lambda>c. True),
     cd_request_ok = (\<lambda>q s. True), cd_authorized = (\<lambda>q ps es. decide cond0 ps q es)\<rparr>"

lemma json_elem_inverse: "json_elem (elem_json e) = e"
  by (cases e) simp_all

lemma pattern_of_like [simp]: "pattern_of (resource_like_condition r) = Some (like_pattern r)"
  by (simp add: pattern_of_def resource_like_condition_def o_def json_elem_inverse)

lemma parse_uid0_text:
  assumes "t \<in> entity_types"
  shows "parse_uid0 (uid_text t i) = Some (''AuthRS::'' @ t, i)"
proof -
  have "CHR 0x22 \<notin> set (''AuthRS::'' @ t @ ''::'')" using assms by (auto simp: entity_types_def)
  from split_once_append [OF this, of "i @ dq"]
  have "split_once (CHR 0x22) (uid_text t i) = Some (''AuthRS::'' @ t @ ''::'', i @ dq)"
    by (simp add: uid_text_def dq_def)
  moreover have "butlast (butlast (''AuthRS::'' @ t @ ''::'')) = ''AuthRS::'' @ t"
    by (simp add: butlast_append)
  ultimately show ?thesis by (simp add: parse_uid0_def dq_def)
qed

lemma cedar0_fields [simp]:
  "cd_policy_error cedar0 i est = None" "cd_entities_ok cedar0 es s" "cd_context_ok cedar0 c" "cd_request_ok cedar0 q s"
  "cd_schema_error cedar0 s = None"
  by (simp_all add: cedar0_def)

lemma cedar0_documented: "cedar_documented cedar0 cond0"
  unfolding cedar_documented_def
  by (auto simp: cedar0_def parse_uid0_text cond0_def split: option.splits)

end
