(* ===== verification/Permissions.thy ===== *)
theory Permissions
  imports Policy_Engine Groups_Repo Session_Store
begin

section \<open>Stored permissions and the policies of a set of roles\<close>

text \<open>
  \<^verbatim>\<open>src/repo/permissions.rs\<close> and \<^verbatim>\<open>src/services/permissions.rs\<close>. A permission is a named
  document of a tenant, stored as JSON and attached to roles; the policies in force for a user are
  those of the documents attached to its roles.

  \<open>app\<close> is the state of a running process: the stores (\<open>world\<close>), the policy cache of the
  permissions service and the current Cedar schema, both behind a lock in the code and read or
  replaced in one step. A stored document is read back as it was written (\<^verbatim>\<open>JSONB\<close> may reorder
  the keys of an object, which no reader observes).
\<close>

record app =
  ap_world :: world
  ap_policy_cache :: "string \<Rightarrow> policy list option"
  ap_schema :: string

type_synonym 'a app_op = "(app, 'a) io"

definition on_world :: "'a op \<Rightarrow> 'a app_op" where
  "on_world m s = (case m (ap_world s) of (r, w) \<Rightarrow> (r, s\<lparr>ap_world := w\<rparr>))"

fun map_io :: "('x \<Rightarrow> ('s, 'a) io) \<Rightarrow> 'x list \<Rightarrow> ('s, 'a list) io" where
  "map_io f [] = ret []"
| "map_io f (x # xs) = bindE (f x) (\<lambda>y. bindE (map_io f xs) (\<lambda>ys. ret (y # ys)))"

subsection \<open>Repository\<close>

definition permission_id_key :: "permission \<Rightarrow> uuid option" where
  "permission_id_key p = Some (p_id p)"

definition permission_name_key :: "permission \<Rightarrow> (string \<times> string) option" where
  "permission_name_key p = Some (p_tenant_id p, p_name p)"

definition permissions_violation :: "permission \<Rightarrow> world \<Rightarrow> sqlx_error option" where
  "permissions_violation p w =
     (if dup_key permission_id_key p (t_permissions w) \<or> dup_key permission_name_key p (t_permissions w)
      then Some UniqueViolation
      else if \<not> list_ex (\<lambda>t. tn_id t = p_tenant_id p) (t_tenants w)
        then Some (OtherSqlError ''permissions_tenant_id_fkey'')
      else None)"

definition permission_in :: "string \<Rightarrow> uuid \<Rightarrow> permission \<Rightarrow> bool" where
  "permission_in tenant_id pid p \<longleftrightarrow> p_id p = pid \<and> p_tenant_id p = tenant_id"

definition permission_row :: "uuid \<Rightarrow> string \<Rightarrow> string \<Rightarrow> string option \<Rightarrow> permission_document \<Rightarrow> permission" where
  "permission_row i tenant_id name description doc =
     \<lparr>p_id = i, p_tenant_id = tenant_id, p_name = name, p_description = description, p_document = Some (ser_document doc)\<rparr>"

definition permissions_create ::
  "uuid \<Rightarrow> string \<Rightarrow> string \<Rightarrow> string option \<Rightarrow> permission_document \<Rightarrow> uuid op" where
  "permissions_create fresh tenant_id name description doc =
     (let row = permission_row fresh tenant_id name description doc in
      bindE (sql_insert t_permissions_update (permissions_violation row) row) (\<lambda>_. ret fresh))"

text \<open>\<^verbatim>\<open>ON CONFLICT (tenant_id, name) DO UPDATE .. RETURNING id\<close>: the row found keeps its id.\<close>

definition permissions_upsert ::
  "uuid \<Rightarrow> string \<Rightarrow> string \<Rightarrow> string option \<Rightarrow> permission_document \<Rightarrow> uuid op" where
  "permissions_upsert fresh tenant_id name description doc =
     (let same = (\<lambda>p. p_tenant_id p = tenant_id \<and> p_name p = name) in
      bindE (sql_fetch t_permissions same) (\<lambda>existing.
      case existing of
        None \<Rightarrow> permissions_create fresh tenant_id name description doc
      | Some old \<Rightarrow> bindE (sql_update t_permissions_update same
            (\<lambda>p. p\<lparr>p_description := description, p_document := Some (ser_document doc)\<rparr>)) (\<lambda>_. ret (p_id old))))"

definition permissions_list_query ::
  "string \<Rightarrow> filter_node option \<Rightarrow> sort_spec list \<Rightarrow> 32 word \<Rightarrow> 32 word \<Rightarrow> (string \<times> string list) result" where
  "permissions_list_query tenant_id filt sorts limit offset =
     bind_res (build filt sorts permission_filter_fields 2) (\<lambda>built.
       Inr (''SELECT id, name, description, document FROM permissions WHERE ''
              @ and_filter ''tenant_id = $1 AND document IS NOT NULL'' built
              @ order_or '' ORDER BY name'' built @ limit_offset limit offset,
            tenant_id # params built))"

definition decode_document :: "cedar \<Rightarrow> json \<Rightarrow> permission_document result" where
  "decode_document ce j = (case de_document j of None \<Rightarrow> Inl (Internal (cd_document_error ce j)) | Some d \<Rightarrow> Inr d)"

definition permissions_list ::
  "cedar \<Rightarrow> (string \<Rightarrow> string list \<Rightarrow> (uuid \<times> string \<times> string option \<times> json) list op) \<Rightarrow> string
   \<Rightarrow> filter_node option \<Rightarrow> sort_spec list \<Rightarrow> 32 word \<Rightarrow> 32 word
   \<Rightarrow> (uuid \<times> string \<times> string option \<times> permission_document) list op" where
  "permissions_list ce pg tenant_id filt sorts limit offset =
     bindE (lift (permissions_list_query tenant_id filt sorts limit offset)) (\<lambda>(sql, binds).
     bindE (pg sql binds) (\<lambda>rows.
       lift (map_res (\<lambda>(i, name, descr, j). bind_res (decode_document ce j) (\<lambda>doc. Inr (i, name, descr, doc))) rows)))"

definition has_document :: "permission \<Rightarrow> bool" where
  "has_document p \<longleftrightarrow> p_document p \<noteq> None"

text \<open>The rows a query with \<^verbatim>\<open>document IS NOT NULL\<close> returns, each with its decoded document.\<close>

definition decode_rows :: "cedar \<Rightarrow> (permission \<Rightarrow> 'k) \<Rightarrow> permission list \<Rightarrow> ('k \<times> permission_document) list result" where
  "decode_rows ce key rows =
     map_res (\<lambda>p. bind_res (decode_document ce (the (p_document p))) (\<lambda>doc. Inr (key p, doc))) rows"

definition permissions_get ::
  "cedar \<Rightarrow> string \<Rightarrow> uuid \<Rightarrow> (string \<times> string option \<times> permission_document) option op" where
  "permissions_get ce tenant_id pid =
     bindE (sql_fetch t_permissions (\<lambda>p. permission_in tenant_id pid p \<and> has_document p)) (\<lambda>row.
     case row of
       None \<Rightarrow> ret None
     | Some p \<Rightarrow> bindE (lift (decode_document ce (the (p_document p)))) (\<lambda>doc.
         ret (Some (p_name p, p_description p, doc))))"

text \<open>\<^verbatim>\<open>role_permissions\<close> references permissions with \<^verbatim>\<open>ON DELETE CASCADE\<close>.\<close>

definition cascade_permission :: "uuid \<Rightarrow> world \<Rightarrow> world" where
  "cascade_permission pid w = w\<lparr>
     t_permissions := filter (\<lambda>p. p_id p \<noteq> pid) (t_permissions w),
     t_role_permissions := filter (\<lambda>(r, p). p \<noteq> pid) (t_role_permissions w)\<rparr>"

definition permissions_delete :: "string \<Rightarrow> uuid \<Rightarrow> bool op" where
  "permissions_delete tenant_id pid =
     bindE (sql_exists t_permissions (permission_in tenant_id pid)) (\<lambda>ex.
       if ex then bindE (modify (cascade_permission pid)) (\<lambda>_. ret True) else ret False)"

definition permissions_attach_to_role :: "string \<Rightarrow> uuid \<Rightarrow> uuid \<Rightarrow> unit op" where
  "permissions_attach_to_role tenant_id role_id pid =
     bindE (sql_exists t_roles (in_tenant tenant_id role_id)) (\<lambda>role_exists.
     bindE (unless role_exists (NotFound ''Role not found in tenant'')) (\<lambda>_.
     bindE (sql_exists t_permissions (permission_in tenant_id pid)) (\<lambda>perm_exists.
     bindE (unless perm_exists (NotFound ''Permission not found in tenant'')) (\<lambda>_.
     bindE (insert_pair t_role_permissions t_role_permissions_update (\<lambda>_. True) (role_id, pid)) (\<lambda>_. ret ())))))"

definition permissions_detach_from_role :: "uuid \<Rightarrow> uuid \<Rightarrow> bool op" where
  "permissions_detach_from_role role_id pid =
     bindE (counting t_role_permissions (\<lambda>p. p = (role_id, pid))
              (sql_delete t_role_permissions_update (\<lambda>p. p = (role_id, pid)))) (\<lambda>n. ret (0 < n))"

definition permissions_list_for_role :: "cedar \<Rightarrow> string \<Rightarrow> uuid \<Rightarrow> ((uuid \<times> string) \<times> permission_document) list op" where
  "permissions_list_for_role ce tenant_id role_id =
     bindE (gets (\<lambda>w. sort_key p_name (filter (\<lambda>p. (role_id, p_id p) \<in> set (t_role_permissions w)
               \<and> p_tenant_id p = tenant_id \<and> has_document p) (t_permissions w)))) (\<lambda>rows.
       lift (decode_rows ce (\<lambda>p. (p_id p, p_name p)) rows))"

definition permissions_of_role_ids :: "world \<Rightarrow> string \<Rightarrow> uuid list \<Rightarrow> permission list" where
  "permissions_of_role_ids w tenant_id role_ids =
     filter (\<lambda>p. list_ex (\<lambda>(r, q). r \<in> set role_ids \<and> q = p_id p) (t_role_permissions w)
       \<and> p_tenant_id p = tenant_id \<and> has_document p) (t_permissions w)"

definition permissions_get_for_roles :: "cedar \<Rightarrow> string \<Rightarrow> uuid list \<Rightarrow> (uuid \<times> permission_document) list op" where
  "permissions_get_for_roles ce tenant_id role_ids =
     (if role_ids = [] then ret []
      else bindE (gets (\<lambda>w. permissions_of_role_ids w tenant_id role_ids)) (\<lambda>rows. lift (decode_rows ce p_id rows)))"

definition permissions_list_all_for_tenant :: "cedar \<Rightarrow> string \<Rightarrow> (uuid \<times> permission_document) list op" where
  "permissions_list_all_for_tenant ce tenant_id =
     bindE (sql_select t_permissions (\<lambda>p. p_tenant_id p = tenant_id \<and> has_document p)) (\<lambda>rows.
       lift (decode_rows ce p_id rows))"

definition permissions_resolve_role_uid :: "string \<Rightarrow> string \<Rightarrow> string option op" where
  "permissions_resolve_role_uid tenant_id ident = gets (\<lambda>w. map_option r_uid
     (find_first (\<lambda>r. r_tenant_id r = tenant_id \<and> (r_uid r = ident \<or> r_name r = ident)) (t_roles w)))"

text \<open>
  The query reads \<^verbatim>\<open>users.email\<close>, a column that migration 21 dropped: PostgreSQL rejects it,
  whatever the arguments.
\<close>

definition permissions_resolve_user_id :: "string \<Rightarrow> string \<Rightarrow> uuid option op" where
  "permissions_resolve_user_id tenant_id ident = throw (from_sqlx (OtherSqlError ''column users.email''))"

subsection \<open>Service\<close>

definition permissions_evict :: "string \<Rightarrow> unit app_op" where
  "permissions_evict tenant_id = modify (\<lambda>s. s\<lparr>ap_policy_cache := (ap_policy_cache s)(tenant_id := None)\<rparr>)"

definition permissions_evict_all :: "unit app_op" where
  "permissions_evict_all = modify (\<lambda>s. s\<lparr>ap_policy_cache := (\<lambda>_. None)\<rparr>)"

text \<open>The loop shared by the two loaders: every document compiled under its row's id.\<close>

definition load_policies :: "cedar \<Rightarrow> (uuid \<times> permission_document) list \<Rightarrow> policy list result" where
  "load_policies ce docs = fold_res (\<lambda>(i, doc) ps.
     bind_res (policy_compile ce doc (uuid_str i)) (\<lambda>compiled. fold_res (policy_set_add ce) compiled ps)) docs []"

definition get_policy_set :: "cedar \<Rightarrow> string \<Rightarrow> policy list app_op" where
  "get_policy_set ce tenant_id =
     bindE (gets (\<lambda>s. ap_policy_cache s tenant_id)) (\<lambda>hit. case hit of
       Some ps \<Rightarrow> ret ps
     | None \<Rightarrow>
         bindE (on_world (permissions_list_all_for_tenant ce tenant_id)) (\<lambda>docs.
         bindE (lift (load_policies ce docs)) (\<lambda>ps.
         bindE (modify (\<lambda>s. s\<lparr>ap_policy_cache := (ap_policy_cache s)(tenant_id := Some ps)\<rparr>)) (\<lambda>_.
           ret ps))))"

definition get_policy_set_for_roles :: "cedar \<Rightarrow> string \<Rightarrow> uuid list \<Rightarrow> policy list app_op" where
  "get_policy_set_for_roles ce tenant_id role_ids =
     bindE (on_world (permissions_get_for_roles ce tenant_id role_ids)) (\<lambda>docs. lift (load_policies ce docs))"

definition resolve_one_principal :: "cedar \<Rightarrow> string \<Rightarrow> string \<Rightarrow> string op" where
  "resolve_one_principal ce tenant_id princ =
     (if princ = ''*'' then ret princ
      else bindE (lift (ok_or (BadRequest (''Invalid principal format: '' @ princ)) (split_once (CHR '':'') princ))) (\<lambda>(pre, v).
        if pre = ''role'' then
          bindE (get_or (BadRequest (''Role not found: '' @ v)) (permissions_resolve_role_uid tenant_id v)) (\<lambda>uid.
            ret (''role:'' @ uid))
        else if pre = ''user'' then
          (if cd_is_uuid ce v then ret princ
           else bindE (get_or (BadRequest (''User not found: '' @ v)) (permissions_resolve_user_id tenant_id v)) (\<lambda>i.
             ret (''user:'' @ uuid_str i)))
        else throw (BadRequest (''Unknown principal prefix: '' @ pre))))"

definition resolve_principals :: "cedar \<Rightarrow> string \<Rightarrow> permission_document \<Rightarrow> permission_document op" where
  "resolve_principals ce tenant_id doc =
     bindE (map_io (\<lambda>stmt.
         bindE (map_io (resolve_one_principal ce tenant_id) (st_principals stmt)) (\<lambda>ps. ret (stmt\<lparr>st_principals := ps\<rparr>)))
       (pd_statements doc)) (\<lambda>stmts. ret (doc\<lparr>pd_statements := stmts\<rparr>))"

subsection \<open>Running an operation on the stores\<close>

lemma on_world_Pair: "on_world m s = (r, s') \<longleftrightarrow> (\<exists>w. m (ap_world s) = (r, w) \<and> s' = s\<lparr>ap_world := w\<rparr>)"
  by (auto simp: on_world_def split: prod.split)

lemma on_world_run: "on_world m s = (fst (m (ap_world s)), s\<lparr>ap_world := snd (m (ap_world s))\<rparr>)"
  by (simp add: on_world_def split: prod.split)

lemma app_same [simp]: "s\<lparr>ap_world := ap_world s\<rparr> = s"
  by (cases s) simp

lemma get_for_roles_run:
  "permissions_get_for_roles ce t ids w = (decode_rows ce p_id (permissions_of_role_ids w t ids), w)"
  by (auto simp: permissions_get_for_roles_def permissions_of_role_ids_def decode_rows_def list_ex_iff
      split: sum.split)

lemma get_policy_set_for_roles_run:
  "get_policy_set_for_roles ce t ids s = (bind_res (decode_rows ce p_id (permissions_of_role_ids (ap_world s) t ids)) (load_policies ce), s)"
  unfolding get_policy_set_for_roles_def bindE_run on_world_run get_for_roles_run
  by (simp split: sum.split)

end
