(* ===== verification/Packages.thy ===== *)
theory Packages
  imports Permissions
begin

section \<open>Packages and the schema registry\<close>

text \<open>
  \<^verbatim>\<open>src/repo/packages.rs\<close>, \<^verbatim>\<open>src/services/packages.rs\<close> and \<^verbatim>\<open>src/routes/packages.rs\<close>. A package
  registers its tables and the actions on them; the Cedar schema is rebuilt from the whole registry
  after each synchronisation. The tables' primary keys are the pairs, so an insertion either adds a
  pair or does nothing.
\<close>

subsection \<open>Repository\<close>

text \<open>\<^verbatim>\<open>INSERT .. ON CONFLICT DO NOTHING\<close>, the number of rows not asked for.\<close>

definition insert_new ::
  "(world \<Rightarrow> ('a \<times> 'b) list) \<Rightarrow> ((('a \<times> 'b) list \<Rightarrow> ('a \<times> 'b) list) \<Rightarrow> world \<Rightarrow> world) \<Rightarrow> 'a \<times> 'b \<Rightarrow> unit op" where
  "insert_new tab upd p = bindE (insert_pair tab upd (\<lambda>_. True) p) (\<lambda>_. ret ())"

definition packages_sync_package :: "string \<Rightarrow> string list \<Rightarrow> string list \<Rightarrow> unit op" where
  "packages_sync_package package_id table_names action_names = in_tx (
     bindE (sql_delete t_packages_update (\<lambda>(p, t). p = package_id)) (\<lambda>_.
     bindE (sql_delete t_package_actions_update (\<lambda>(p, a). p = package_id)) (\<lambda>_.
     bindE (for_each (\<lambda>t. insert_new t_packages t_packages_update (package_id, t)) table_names) (\<lambda>_.
       for_each (\<lambda>a. insert_new t_package_actions t_package_actions_update (package_id, a)) action_names))))"

text \<open>\<^verbatim>\<open>ORDER BY\<close> the two columns.\<close>

definition by_both :: "(string \<times> string) list \<Rightarrow> (string \<times> string) list" where
  "by_both ps = sort_key fst (sort_key snd ps)"

definition packages_list_tables :: "(string \<times> string) list op" where
  "packages_list_tables = gets (\<lambda>w. by_both (t_packages w))"

definition packages_list_custom_actions :: "(string \<times> string) list op" where
  "packages_list_custom_actions = gets (\<lambda>w. by_both (t_package_actions w))"

subsection \<open>Service\<close>

definition rebuild_schema :: "cedar \<Rightarrow> unit app_op" where
  "rebuild_schema ce =
     bindE (on_world packages_list_tables) (\<lambda>package_tables.
     bindE (on_world packages_list_custom_actions) (\<lambda>custom_actions.
       let schema_str = build_schema_str package_tables custom_actions in
       case cd_schema_error ce schema_str of
         Some e \<Rightarrow> throw (Internal (''Cedar schema error: '' @ e))
       | None \<Rightarrow> modify (\<lambda>s. s\<lparr>ap_schema := schema_str\<rparr>)))"

definition all_actions :: "string list \<Rightarrow> string list \<Rightarrow> string list \<Rightarrow> string list" where
  "all_actions tables extensible_tables custom_actions =
     dedup_adj (\<lambda>a b. a = b) (sort (concat (map crud_action_names tables)
       @ concat (map extensible_action_names extensible_tables) @ custom_actions))"

definition packages_sync :: "cedar \<Rightarrow> string \<Rightarrow> string list \<Rightarrow> string list \<Rightarrow> string list \<Rightarrow> unit app_op" where
  "packages_sync ce package_id tables extensible_tables custom_actions =
     bindE (on_world (packages_sync_package package_id tables
              (all_actions tables extensible_tables custom_actions))) (\<lambda>_.
     bindE (rebuild_schema ce) (\<lambda>_. permissions_evict_all))"

definition parse_resource_scope :: "string \<Rightarrow> string option \<times> string option" where
  "parse_resource_scope resource = foldl (\<lambda>(package_id, table_name) segment.
     case strip_prefix ''package:'' segment of
       Some p \<Rightarrow> (Some p, table_name)
     | None \<Rightarrow> (case strip_prefix ''table:'' segment of Some t \<Rightarrow> (package_id, Some t) | None \<Rightarrow> (package_id, table_name)))
     (None, None) (segments resource)"

text \<open>Whether a registered table, or a registered action, lies in the scope of the path.\<close>

fun table_in_scope :: "string option \<times> string option \<Rightarrow> string \<times> string \<Rightarrow> bool" where
  "table_in_scope (Some p, Some t) (pkg, tbl) \<longleftrightarrow> pkg = p \<and> tbl = t"
| "table_in_scope (Some p, None) (pkg, tbl) \<longleftrightarrow> pkg = p"
| "table_in_scope (None, _) (pkg, tbl) \<longleftrightarrow> True"

definition with_prefix :: "string \<Rightarrow> string \<Rightarrow> string" where
  "with_prefix service_prefix path = (if service_prefix = [] then path else service_prefix @ ''/'' @ path)"

definition table_actions :: "string \<Rightarrow> (string \<times> string) list \<Rightarrow> string \<times> string \<Rightarrow> (string \<times> string) list" where
  "table_actions service_prefix stored = (\<lambda>(pkg, tbl).
     let table_resource = with_prefix service_prefix (''package:'' @ pkg @ ''/table:'' @ tbl);
         ext_actions = extensible_action_names tbl in
     map (\<lambda>a. (a, table_resource)) (crud_action_names tbl)
     @ (if list_ex (\<lambda>a. (pkg, a) \<in> set stored) ext_actions then map (\<lambda>a. (a, table_resource)) ext_actions else []))"

definition last_segment :: "string \<Rightarrow> string" where
  "last_segment resource = last (segments resource)"

definition get_actions_for_resource :: "string \<Rightarrow> (string \<times> string) list op" where
  "get_actions_for_resource resource =
     (if starts_with ''query:'' (last_segment resource) then ret (map (\<lambda>a. (a, resource)) QUERY_ACTIONS)
      else if starts_with ''view:'' (last_segment resource) then ret (map (\<lambda>a. (a, resource)) VIEW_ACTIONS)
      else (let scope = parse_resource_scope resource;
                service_prefix = (case find_first (starts_with ''service:'') (segments resource) of None \<Rightarrow> [] | Some s \<Rightarrow> s) in
        bindE packages_list_tables (\<lambda>all_tables.
        bindE packages_list_custom_actions (\<lambda>all_custom.
          let actions = concat (map (table_actions service_prefix all_custom) (filter (table_in_scope scope) all_tables))
                @ map (\<lambda>(pkg, a). (a, with_prefix service_prefix (''package:'' @ pkg)))
                    (filter (\<lambda>(pkg, a). fst scope = None \<or> fst scope = Some pkg) all_custom)
          in ret (dedup_adj (\<lambda>a b. fst a = fst b) (sort_key fst actions))))))"

subsection \<open>Routes\<close>

definition sync_package_route ::
  "cedar \<Rightarrow> string \<Rightarrow> string list \<Rightarrow> string list \<Rightarrow> string list \<Rightarrow> json app_op" where
  "sync_package_route ce package_id tables extensible_tables custom_actions =
     bindE (unless (trim package_id \<noteq> []) (BadRequest ''packageId is required'')) (\<lambda>_.
     bindE (packages_sync ce package_id tables extensible_tables custom_actions) (\<lambda>_.
       ret (JObj [(''message'', JStr ''Package synced and Cedar schema rebuilt''), (''packageId'', JStr package_id),
         (''tables'', JInt (int (length tables))), (''extensibleTables'', JInt (int (length extensible_tables))),
         (''customActions'', JInt (int (length custom_actions)))])))"

definition strs :: "string list \<Rightarrow> json" where
  "strs xs = JArr (map JStr xs)"

text \<open>The response lists each package once, in the order of the ids; the hash maps leave no trace.\<close>

definition package_entry :: "(string \<times> string) list \<Rightarrow> (string \<times> string) list \<Rightarrow> string \<Rightarrow> json" where
  "package_entry action_pairs table_pairs pkg_id =
     (let own = (\<lambda>ps. sort (map snd (filter (\<lambda>(p, _). p = pkg_id) ps))) in
      JObj [(''packageId'', JStr pkg_id), (''tables'', strs (own table_pairs)), (''actions'', strs (own action_pairs))])"

definition list_actions_route :: "json op" where
  "list_actions_route =
     bindE packages_list_custom_actions (\<lambda>action_pairs.
     bindE packages_list_tables (\<lambda>table_pairs.
       let builtin = (\<lambda>kind a. JObj [(''action'', JStr a), (''resourceType'', JStr kind)]) in
       ret (JObj [
         (''packages'', JArr (map (package_entry action_pairs table_pairs)
            (sort (remdups (map fst action_pairs @ map fst table_pairs))))),
         (''builtinActions'', JArr (map (builtin ''query'') QUERY_ACTIONS @ map (builtin ''view'') VIEW_ACTIONS))])))"

subsection \<open>The registry after a synchronisation\<close>

lemma insert_all:
  assumes "\<And>h w. tab (upd h w) = h (tab w)"
  shows "\<exists>w'. for_each (\<lambda>t. insert_new tab upd (pid, t)) ts w = (Inr (), w') \<and>
    set (tab w') = set (tab w) \<union> Pair pid ` set ts \<and> (distinct (tab w) \<longrightarrow> distinct (tab w'))"
proof (induction ts arbitrary: w)
  case (Cons t ts)
  let ?w = "if (pid, t) \<in> set (tab w) then w else upd (\<lambda>rows. rows @ [(pid, t)]) w"
  have "insert_new tab upd (pid, t) w = (Inr (), ?w)"
    by (simp add: insert_new_def insert_pair_def)
  moreover have "set (tab ?w) = insert (pid, t) (set (tab w))" "distinct (tab w) \<longrightarrow> distinct (tab ?w)"
    by (auto simp: assms)
  ultimately show ?case using Cons.IH [of ?w] by auto
qed simp

lemma insert_all_leaves:
  "(\<And>h w. f (upd h w) = f w) \<Longrightarrow> leaves f (for_each (\<lambda>t. insert_new tab upd (pid, t)) ts)"
  unfolding insert_new_def insert_pair_def by (intro leaves_rules leaves_modify) simp_all

text \<open>The pairs of one package replaced, those of the others kept.\<close>

definition replaced :: "string \<Rightarrow> string set \<Rightarrow> (string \<times> string) list \<Rightarrow> (string \<times> string) list \<Rightarrow> bool" where
  "replaced pid names old new \<longleftrightarrow> (\<forall>p n. (p, n) \<in> set new \<longleftrightarrow> (if p = pid then n \<in> names else (p, n) \<in> set old)) \<and>
     (distinct old \<longrightarrow> distinct new)"

lemma sync_package_run:
  "\<exists>w'. packages_sync_package pid tables actions w = (Inr (), w') \<and> replaced pid (set tables) (t_packages w) (t_packages w') \<and>
     replaced pid (set actions) (t_package_actions w) (t_package_actions w')"
proof -
  let ?ins = "\<lambda>tab upd. for_each (\<lambda>t. insert_new tab upd (pid, t))"
  let ?P = "\<lambda>r. \<not> (case r of (p, t) \<Rightarrow> p = pid)"
  let ?w = "t_package_actions_update (filter ?P) (t_packages_update (filter ?P) w)"
  obtain w1 where w1: "?ins t_packages t_packages_update tables ?w = (Inr (), w1)"
    "set (t_packages w1) = set (t_packages ?w) \<union> Pair pid ` set tables" "distinct (t_packages ?w) \<longrightarrow> distinct (t_packages w1)"
    using insert_all [of t_packages t_packages_update pid tables ?w] by auto
  obtain w2 where w2: "?ins t_package_actions t_package_actions_update actions w1 = (Inr (), w2)"
    "set (t_package_actions w2) = set (t_package_actions w1) \<union> Pair pid ` set actions"
    "distinct (t_package_actions w1) \<longrightarrow> distinct (t_package_actions w2)"
    using insert_all [of t_package_actions t_package_actions_update pid actions w1] by auto
  have l1: "t_package_actions w1 = t_package_actions ?w"
    by (rule leavesD [OF insert_all_leaves w1(1)]) simp
  have l2: "t_packages w2 = t_packages w1"
    by (rule leavesD [OF insert_all_leaves w2(1)]) simp
  have "packages_sync_package pid tables actions w = (Inr (), w2)"
    using w1(1) w2(1) by (simp add: packages_sync_package_def in_tx_def)
  then show ?thesis
    using w1(2,3) w2(2,3) by (intro exI [of _ w2]) (auto simp: replaced_def l1 l2)
qed

lemma set_all_actions: "set (all_actions tables ext custom) =
    (\<Union>t \<in> set tables. set (crud_action_names t)) \<union> (\<Union>t \<in> set ext. set (extensible_action_names t)) \<union> set custom"
  by (simp add: all_actions_def set_dedup_adj_eq Un_assoc)

text \<open>
  C26. Synchronising a package replaces its tables and actions and nothing else in the registry: the
  actions are the seven verbs of each table, the extensible-field verbs of each extensible table and
  the custom ones. On success the schema in force is the one built from the new registry, which the
  library accepts, and every cached policy set is dropped. If the library rejects that schema the
  call reports an internal error and leaves the schema in force as it was, but the registry keeps
  the new content.
\<close>

theorem package_sync_effect:
  assumes "packages_sync ce pid tables ext custom s = (r, s')"
  shows "replaced pid (set tables) (t_packages (ap_world s)) (t_packages (ap_world s')) \<and>
    replaced pid ((\<Union>t \<in> set tables. set (crud_action_names t)) \<union> (\<Union>t \<in> set ext. set (extensible_action_names t)) \<union> set custom)
      (t_package_actions (ap_world s)) (t_package_actions (ap_world s')) \<and>
    (let schema = build_schema_str (by_both (t_packages (ap_world s'))) (by_both (t_package_actions (ap_world s'))) in
     case cd_schema_error ce schema of
       None \<Rightarrow> r = Inr () \<and> ap_schema s' = schema \<and> ap_policy_cache s' = (\<lambda>_. None)
     | Some e \<Rightarrow> r = Inl (Internal (''Cedar schema error: '' @ e)) \<and> ap_schema s' = ap_schema s \<and>
         ap_policy_cache s' = ap_policy_cache s)"
proof -
  obtain w where w: "packages_sync_package pid tables (all_actions tables ext custom) (ap_world s) = (Inr (), w)"
    "replaced pid (set tables) (t_packages (ap_world s)) (t_packages w)"
    "replaced pid (set (all_actions tables ext custom)) (t_package_actions (ap_world s)) (t_package_actions w)"
    using sync_package_run by blast
  have "ap_world s' = w"
    using assms w(1) by (auto simp: packages_sync_def rebuild_schema_def packages_list_tables_def packages_list_custom_actions_def
        on_world_def bindE_run Let_def permissions_evict_all_def split: option.splits)
  moreover have "let schema = build_schema_str (by_both (t_packages w)) (by_both (t_package_actions w)) in
     case cd_schema_error ce schema of
       None \<Rightarrow> r = Inr () \<and> ap_schema s' = schema \<and> ap_policy_cache s' = (\<lambda>_. None)
     | Some e \<Rightarrow> r = Inl (Internal (''Cedar schema error: '' @ e)) \<and> ap_schema s' = ap_schema s \<and>
         ap_policy_cache s' = ap_policy_cache s"
    using assms w(1) by (auto simp: packages_sync_def rebuild_schema_def packages_list_tables_def packages_list_custom_actions_def
        on_world_def bindE_run Let_def permissions_evict_all_def split: option.splits)
  ultimately show ?thesis using w(2,3) by (simp add: set_all_actions)
qed

theorem package_sync_effect_witness:
  "let s = \<lparr>ap_world = world0\<lparr>t_packages := [(''p'', ''old''), (''q'', ''notes'')]\<rparr>, ap_policy_cache = (\<lambda>_. Some []), ap_schema = []\<rparr>;
       s' = snd (packages_sync cedar0 ''p'' [''orders''] [] [''approve''] s)
   in replaced ''p'' {''orders''} [(''p'', ''old''), (''q'', ''notes'')] (t_packages (ap_world s')) \<and> ap_policy_cache s' = (\<lambda>_. None)"
proof -
  define s where "s = \<lparr>ap_world = world0\<lparr>t_packages := [(''p'', ''old''), (''q'', ''notes'')]\<rparr>, ap_policy_cache = (\<lambda>_. Some []), ap_schema = []\<rparr>"
  have "packages_sync cedar0 ''p'' [''orders''] [] [''approve''] s =
      (fst (packages_sync cedar0 ''p'' [''orders''] [] [''approve''] s), snd (packages_sync cedar0 ''p'' [''orders''] [] [''approve''] s))"
    by simp
  from package_sync_effect [OF this] show ?thesis unfolding Let_def s_def by simp
qed

end
