(* ===== verification/Access.thy ===== *)
theory Access
  imports Packages
begin

section \<open>Request guards and authorization\<close>

text \<open>
  \<^verbatim>\<open>src/api/tenant.rs\<close>, \<^verbatim>\<open>src/middleware\<close> (tenant, trace, rbac), \<^verbatim>\<open>src/routes/platform.rs\<close> and the
  permission handlers of \<^verbatim>\<open>src/routes/admin.rs\<close>. A header is its text, \<open>None\<close> when it is absent or
  not printable ASCII (\<^verbatim>\<open>to_str\<close> fails). A middleware that lets the request through returns what it
  attaches to it; one that answers itself returns the error it answers with.
\<close>

subsection \<open>Tenant header\<close>

definition is_lower_snake_case :: "string \<Rightarrow> bool" where
  "is_lower_snake_case s = (case s of [] \<Rightarrow> False
     | c # cs \<Rightarrow> is_ascii_lowercase c \<and>
         list_all (\<lambda>c. is_ascii_lowercase c \<or> is_ascii_digit c \<or> c = CHR ''_'') cs)"

text \<open>The rejection is a status and a text, not an \<open>app_error\<close>.\<close>

definition tenant_from_parts :: "string option \<Rightarrow> (nat \<times> string) + string" where
  "tenant_from_parts header = (case header of
     None \<Rightarrow> Inl (400, ''Missing X-Tenant-ID header'')
   | Some v \<Rightarrow> (let value = trim v in
       if value = [] then Inl (400, ''X-Tenant-ID must be non-empty'')
       else if \<not> is_lower_snake_case value then Inl (400, ''X-Tenant-ID must be lower snake_case (e.g. my_tenant)'')
       else Inr value))"

definition tenant_resolution_middleware :: "string \<Rightarrow> (string \<times> tenant) op" where
  "tenant_resolution_middleware tenant_id =
     bindE (get_or (NotFound ''Tenant not found'') (tenants_get_by_id tenant_id)) (\<lambda>t.
     bindE (unless (tn_status t = ''active'') (Forbidden ''Tenant is not active'')) (\<lambda>_. ret (tn_id t, t)))"

subsection \<open>Trace context\<close>

definition is_hex :: "string \<Rightarrow> nat \<Rightarrow> bool" where
  "is_hex s n \<longleftrightarrow> length s = n \<and> list_all is_ascii_hexdigit s"

definition parse_trace_id :: "string \<Rightarrow> string option" where
  "parse_trace_id traceparent = (case split_on (CHR ''-'') (trim traceparent) of
     [version, trace_id, parent_id, flags] \<Rightarrow>
       (if \<not> is_hex version 2 \<or> \<not> is_hex trace_id 32 \<or> \<not> is_hex parent_id 16 \<or> \<not> is_hex flags 2 then None
        else if to_lowercase version = ''ff'' then None
        else (let tid = to_lowercase trace_id in
          if list_all (\<lambda>b. b = CHR ''0'') tid then None else Some tid))
   | _ \<Rightarrow> None)"

text \<open>The trace id put on the request's span and the header echoed on the response.\<close>

definition trace_id_middleware :: "string option \<Rightarrow> string \<times> string option" where
  "trace_id_middleware header =
     (let trace_id = (case Option.bind header parse_trace_id of None \<Rightarrow> [] | Some t \<Rightarrow> t) in
      (trace_id, if trace_id = [] then None else header))"

subsection \<open>Bearer tokens and sessions\<close>

definition bearer_token :: "string option \<Rightarrow> string result" where
  "bearer_token header =
     bind_res (ok_or (Unauthorized ''Missing Authorization header'') header) (\<lambda>auth.
       ok_or (Unauthorized ''Invalid Authorization header'') (strip_prefix ''Bearer '' auth))"

definition live_session :: "ext \<Rightarrow> time \<Rightarrow> string \<Rightarrow> session_payload op" where
  "live_session x now token = get_or (Unauthorized ''Invalid or expired session'') (store_get x now token)"

definition platform_list_tenants :: "ext \<Rightarrow> time \<Rightarrow> string \<Rightarrow> string list \<Rightarrow> string option \<Rightarrow> tenant list op" where
  "platform_list_tenants x now builder_tenant_id allowed_roles header =
     bindE (lift (bearer_token header)) (\<lambda>token.
     bindE (live_session x now token) (\<lambda>payload.
     bindE (unless (sp_tenant_id payload = builder_tenant_id) (Forbidden ''Access restricted to builder tenant'')) (\<lambda>_.
     bindE (unless (list_ex (\<lambda>r. r \<in> set allowed_roles) (sp_roles payload))
              (Forbidden (''Requires one of the following Builder roles: '' @ join '', '' allowed_roles))) (\<lambda>_.
       tenants_list_all))))"

subsection \<open>Authorization middleware\<close>

definition session_context :: "session_payload \<Rightarrow> json" where
  "session_context session = JObj [(''tenant_id'', JStr (sp_tenant_id session)), (''actor_type'', JStr ''user''),
     (''mfa_verified'', JBool (''mfa_verified'' \<in> set (sp_permissions session)))]"

definition action_for :: "string option \<Rightarrow> string \<Rightarrow> string \<Rightarrow> string result" where
  "action_for action_override http_method resource_path = (case action_override of
     Some a \<Rightarrow> Inr a
   | None \<Rightarrow> ok_or (Internal (''Cannot derive action from method='' @ http_method @ '' resource='' @ resource_path))
       (derive_action_name http_method resource_path))"

definition session_request :: "session_payload \<Rightarrow> string \<Rightarrow> string \<Rightarrow> authz_request" where
  "session_request session action resource_path =
     \<lparr>ar_user_id = sp_user_id session, ar_role_names = sp_roles session, ar_action = action,
      ar_resource = resource_path, ar_context = session_context session\<rparr>"

definition require_permission ::
  "cedar \<Rightarrow> ext \<Rightarrow> time \<Rightarrow> string \<Rightarrow> string option \<Rightarrow> string option \<Rightarrow> string \<Rightarrow> unit app_op" where
  "require_permission ce x now resource_path action_override header http_method =
     bindE (lift (ok_or (Unauthorized ''Missing Bearer token'') (Option.bind header (strip_prefix ''Bearer '')))) (\<lambda>token.
     bindE (on_world (get_or (Unauthorized ''Session not found or expired'') (store_get x now token))) (\<lambda>session.
     bindE (lift (action_for action_override http_method resource_path)) (\<lambda>action.
     bindE (get_policy_set_for_roles ce (sp_tenant_id session) (sp_role_ids session)) (\<lambda>policy_set.
     bindE (gets ap_schema) (\<lambda>schema.
       unless (authorize ce (session_request session action resource_path) policy_set schema = Allow)
         (Forbidden ''Policy evaluation denied this request''))))))"

subsection \<open>Permission handlers\<close>

definition compile_check :: "cedar \<Rightarrow> permission_document \<Rightarrow> unit result" where
  "compile_check ce doc = (case policy_compile ce doc ''validation-pass'' of
     Inl e \<Rightarrow> Inl (BadRequest (''Invalid permission document: '' @ display_error e)) | Inr _ \<Rightarrow> Inr ())"

definition admin_create_permission ::
  "cedar \<Rightarrow> uuid \<Rightarrow> string \<Rightarrow> string \<Rightarrow> string option \<Rightarrow> permission_document \<Rightarrow> bool \<Rightarrow> (uuid \<times> string) app_op" where
  "admin_create_permission ce fresh tenant_id name description document overwrite =
     bindE (on_world (resolve_principals ce tenant_id document)) (\<lambda>resolved_doc.
     bindE (lift (compile_check ce resolved_doc)) (\<lambda>_.
     bindE (on_world (if overwrite then permissions_upsert fresh tenant_id name description resolved_doc
                      else permissions_create fresh tenant_id name description resolved_doc)) (\<lambda>i.
     bindE (permissions_evict tenant_id) (\<lambda>_. ret (i, name)))))"

definition admin_get_permission :: "cedar \<Rightarrow> string \<Rightarrow> uuid \<Rightarrow> (string \<times> string option \<times> permission_document) app_op" where
  "admin_get_permission ce tenant_id pid =
     get_or (NotFound ''Permission not found'') (on_world (permissions_get ce tenant_id pid))"

definition admin_list_permissions ::
  "cedar \<Rightarrow> (string \<Rightarrow> string list \<Rightarrow> (uuid \<times> string \<times> string option \<times> json) list op) \<Rightarrow> string
   \<Rightarrow> string option \<Rightarrow> string option \<Rightarrow> 32 word option \<Rightarrow> 32 word option
   \<Rightarrow> (uuid \<times> string \<times> string option \<times> permission_document) list app_op" where
  "admin_list_permissions ce pg tenant_id q srt limit offset =
     bindE (lift (parse_list_params q srt)) (\<lambda>(filt, sorts).
     let (lim, off) = clamp_pagination limit offset 50 in
       on_world (permissions_list ce pg tenant_id filt sorts lim off))"

definition admin_delete_permission :: "string \<Rightarrow> uuid \<Rightarrow> unit app_op" where
  "admin_delete_permission tenant_id pid =
     bindE (on_world (permissions_delete tenant_id pid)) (\<lambda>deleted.
     bindE (unless deleted (NotFound ''Permission not found'')) (\<lambda>_. permissions_evict tenant_id))"

definition admin_attach_permission_to_role :: "string \<Rightarrow> uuid \<Rightarrow> uuid \<Rightarrow> unit app_op" where
  "admin_attach_permission_to_role tenant_id role_id pid =
     bindE (on_world (permissions_attach_to_role tenant_id role_id pid)) (\<lambda>_. permissions_evict tenant_id)"

definition admin_detach_permission_from_role :: "uuid \<Rightarrow> uuid \<Rightarrow> unit app_op" where
  "admin_detach_permission_from_role role_id pid =
     bindE (on_world (permissions_detach_from_role role_id pid)) (\<lambda>removed.
       unless removed (NotFound ''Permission-role assignment not found''))"

definition admin_delete_role :: "string \<Rightarrow> uuid \<Rightarrow> unit app_op" where
  "admin_delete_role tenant_id role_id =
     bindE (on_world (roles_delete tenant_id role_id)) (\<lambda>deleted.
     bindE (unless deleted (NotFound ''Role not found'')) (\<lambda>_. permissions_evict tenant_id))"

subsection \<open>Permission check\<close>

datatype check_response = OneAction string string bool | AllActions string "string \<Rightarrow> bool option"

text \<open>The user's roles, direct and through groups, ancestors included, as uids and as ids.\<close>

definition check_roles :: "string \<Rightarrow> uuid \<Rightarrow> (string list \<times> uuid list) op" where
  "check_roles tenant_id user_id =
     bindE (roles_get_user_roles tenant_id user_id) (\<lambda>direct_names.
     bindE (roles_get_user_role_ids tenant_id user_id) (\<lambda>direct_ids.
     bindE (groups_get_user_group_role_uids tenant_id user_id) (\<lambda>group_names.
     bindE (groups_get_user_group_role_ids tenant_id user_id) (\<lambda>group_ids.
       ret (dedup_seen {} (direct_names @ group_names), dedup_seen {} (direct_ids @ group_ids))))))"

definition is_allowed :: "cedar \<Rightarrow> authz_request \<Rightarrow> policy list \<Rightarrow> string \<Rightarrow> bool" where
  "is_allowed ce req policy_set schema \<longleftrightarrow> authorize ce req policy_set schema = Allow"

definition admin_check_permission ::
  "cedar \<Rightarrow> string \<Rightarrow> uuid \<Rightarrow> string \<Rightarrow> string option \<Rightarrow> json option \<Rightarrow> check_response app_op" where
  "admin_check_permission ce tenant_id user_id resource action context =
     bindE (on_world (check_roles tenant_id user_id)) (\<lambda>(role_names, role_ids).
     let ctx = (case context of None \<Rightarrow> JObj [] | Some c \<Rightarrow> c);
         request = (\<lambda>a r. \<lparr>ar_user_id = user_id, ar_role_names = role_names, ar_action = a, ar_resource = r, ar_context = ctx\<rparr>) in
     bindE (get_policy_set_for_roles ce tenant_id role_ids) (\<lambda>policy_set.
     case action of
       Some a \<Rightarrow> bindE (gets ap_schema) (\<lambda>schema. ret (OneAction resource a (is_allowed ce (request a resource) policy_set schema)))
     | None \<Rightarrow>
         bindE (on_world (get_actions_for_resource resource)) (\<lambda>action_resources.
         bindE (gets ap_schema) (\<lambda>schema.
           ret (AllActions resource
             (foldl (\<lambda>d (a, r). d(a \<mapsto> is_allowed ce (request a r) policy_set schema)) Map.empty action_resources))))))"

end
