(* ===== verification/Permissions_Loadable.thy ===== *)
theory Permissions_Loadable
  imports Access
begin

section \<open>Stored permissions always load\<close>

text \<open>
  The type discipline of the permissions table: every document in it decodes and compiles. The
  handlers establish it by compiling a document before they store it, every operation keeps it, and
  under it the loaders of the permissions service cannot fail.
\<close>

subsection \<open>When a document compiles\<close>

text \<open>The part of a policy id after the permission's id.\<close>

definition id_suffix :: "permission_statement \<times> string \<times> string \<times> string \<Rightarrow> string" where
  "id_suffix = (\<lambda>(s, p, a, r). ''-'' @ st_sid s @ ''-'' @ a @ ''-'' @ r)"

definition compilable :: "cedar \<Rightarrow> permission_document \<Rightarrow> bool" where
  "compilable ce doc \<longleftrightarrow> distinct (map id_suffix (policy_tuples doc)) \<and>
     (\<forall>(s, p, a, r) \<in> set (policy_tuples doc). \<forall>i. cd_policy_error ce i (build_cedar_json s p a r) = None)"

text \<open>The library's verdict on a policy's body does not depend on the id it is given.\<close>

definition ids_irrelevant :: "cedar \<Rightarrow> bool" where
  "ids_irrelevant ce \<longleftrightarrow> (\<forall>i j est. cd_policy_error ce i est = None \<longrightarrow> cd_policy_error ce j est = None)"

lemma fst_compiled_policy: "fst (compiled_policy db x) = db @ id_suffix x"
  by (simp add: compiled_policy_def policy_id_def id_suffix_def split: prod.split)

lemma distinct_compiled: "distinct (map (fst \<circ> compiled_policy db) xs) \<longleftrightarrow> distinct (map id_suffix xs)"
  by (simp add: distinct_map inj_on_def fst_compiled_policy)

lemma fold_compile_total:
  assumes "\<forall>(s, p, a, r) \<in> set xs. cd_policy_error ce (policy_id db s a r) (build_cedar_json s p a r) = None"
    and "distinct (map fst ps @ map (fst \<circ> compiled_policy db) xs)"
  shows "fold_res (compile_one ce db) xs ps = Inr (ps @ map (compiled_policy db) xs)"
  using assms
proof (induction xs arbitrary: ps)
  case (Cons x xs)
  obtain s p a r where x: "x = (s, p, a, r)" by (cases x)
  have "compile_one ce db x ps = Inr (ps @ [compiled_policy db x])"
    using Cons.prems by (auto simp: compile_one_def x Let_def policy_set_add_def compiled_policy_def)
  moreover have "fold_res (compile_one ce db) xs (ps @ [compiled_policy db x]) = Inr ((ps @ [compiled_policy db x]) @ map (compiled_policy db) xs)"
    using Cons.prems by (intro Cons.IH) auto
  ultimately show ?case by simp
qed simp

lemma fold_add_total:
  "distinct (map fst (ps @ qs)) \<Longrightarrow> fold_res (policy_set_add ce) qs ps = Inr (ps @ qs)"
proof (induction qs arbitrary: ps)
  case (Cons q qs)
  then have "policy_set_add ce q ps = Inr (ps @ [q])" by (auto simp: policy_set_add_def)
  with Cons.IH [of "ps @ [q]"] Cons.prems show ?case by simp
qed simp

lemma compile_total: "compilable ce doc \<Longrightarrow> policy_compile ce doc db = Inr (map (compiled_policy db) (policy_tuples doc))"
  using fold_compile_total [of "policy_tuples doc" ce db "[]"]
  by (fastforce simp: policy_compile_def compilable_def distinct_compiled)

lemma fold_compile_errors:
  "fold_res (compile_one ce db) xs ps = Inr qs \<Longrightarrow> (s, p, a, r) \<in> set xs \<Longrightarrow>
   cd_policy_error ce (policy_id db s a r) (build_cedar_json s p a r) = None"
  by (induction xs arbitrary: ps) (auto simp: bind_res_Inr_iff compile_one_def Let_def split: option.splits)

lemma compile_compilable:
  assumes "policy_compile ce doc db = Inr ps" "ids_irrelevant ce"
  shows "compilable ce doc"
proof -
  have "distinct (map id_suffix (policy_tuples doc))"
    using policy_compile_Inr [OF assms(1)] distinct_compiled [of db "policy_tuples doc"] by simp
  then show ?thesis
    using fold_compile_errors [OF assms(1) [unfolded policy_compile_def]] assms(2)
    unfolding compilable_def ids_irrelevant_def by blast
qed

subsection \<open>The table invariant\<close>

definition document_loads :: "cedar \<Rightarrow> permission \<Rightarrow> bool" where
  "document_loads ce p \<longleftrightarrow> valid_uuid (p_id p) \<and>
     (\<forall>j. p_document p = Some j \<longrightarrow> (\<exists>d. de_document j = Some d \<and> compilable ce d))"

definition permissions_typed :: "cedar \<Rightarrow> permission list \<Rightarrow> bool" where
  "permissions_typed ce ps \<longleftrightarrow> unique_on permission_id_key ps \<and> unique_on permission_name_key ps \<and> (\<forall>p \<in> set ps. document_loads ce p)"

lemma decode_rows_total:
  "\<forall>p \<in> set rows. has_document p \<and> document_loads ce p \<Longrightarrow>
   \<exists>docs. decode_rows ce p_id rows = Inr docs \<and> map fst docs = map p_id rows \<and> (\<forall>(i, d) \<in> set docs. compilable ce d)"
proof (induction rows)
  case (Cons p rows)
  then obtain docs where "decode_rows ce p_id rows = Inr docs" "map fst docs = map p_id rows"
    "\<forall>(i, d) \<in> set docs. compilable ce d" by auto
  moreover obtain j d where "p_document p = Some j" "de_document j = Some d" "compilable ce d"
    using Cons.prems by (auto simp: has_document_def document_loads_def)
  ultimately show ?case
    by (intro exI [of _ "(p_id p, d) # docs"]) (auto simp: decode_rows_def decode_document_def)
qed (simp add: decode_rows_def)

lemma load_total_step:
  assumes "\<forall>(i, d) \<in> set docs. compilable ce d \<and> valid_uuid i" "distinct (map fst docs)"
    and "\<forall>p \<in> set acc. \<forall>i \<in> fst ` set docs. \<not> starts_with (uuid_str i) (fst p)" "distinct (map fst acc)"
  shows "\<exists>ps. fold_res (\<lambda>(i, doc) ps. bind_res (policy_compile ce doc (uuid_str i))
      (\<lambda>compiled. fold_res (policy_set_add ce) compiled ps)) docs acc = Inr ps"
  using assms
proof (induction docs arbitrary: acc)
  case (Cons x docs)
  obtain i d where x: "x = (i, d)" by (cases x)
  let ?new = "map (compiled_policy (uuid_str i)) (policy_tuples d)"
  have d: "compilable ce d" "valid_uuid i" using Cons.prems(1) by (auto simp: x)
  have pre: "starts_with (uuid_str i) (fst q)" if "q \<in> set ?new" for q
    using that by (auto simp: fst_compiled_policy starts_with_iff)
  have other: "\<not> starts_with (uuid_str k) (fst q)" if "q \<in> set ?new" "k \<in> fst ` set docs" for q k
  proof -
    have "k \<noteq> i" "valid_uuid k" using that(2) Cons.prems(1,2) by (auto simp: x)
    then have "uuid_str k \<noteq> uuid_str i" using d(2) by (simp add: uuid_str_inject)
    then show ?thesis using that(1) by (auto simp: fst_compiled_policy starts_with_def)
  qed
  have "distinct (map fst ?new)" using d(1) distinct_compiled [of "uuid_str i" "policy_tuples d"] by (simp add: compilable_def)
  moreover have "set (map fst acc) \<inter> set (map fst ?new) = {}"
  proof -
    have "fst p \<noteq> fst q" if "p \<in> set acc" "q \<in> set ?new" for p q
    proof -
      have "\<not> starts_with (uuid_str i) (fst p)" using Cons.prems(3) that(1) by (simp add: x)
      then show ?thesis using pre [OF that(2)] by metis
    qed
    then show ?thesis unfolding set_map by fast
  qed
  ultimately have dist: "distinct (map fst (acc @ ?new))" unfolding map_append distinct_append using Cons.prems(4) by blast
  have "\<exists>ps. fold_res (\<lambda>(i, doc) ps. bind_res (policy_compile ce doc (uuid_str i))
      (\<lambda>compiled. fold_res (policy_set_add ce) compiled ps)) docs (acc @ ?new) = Inr ps"
  proof (rule Cons.IH)
    show "\<forall>p \<in> set (acc @ ?new). \<forall>k \<in> fst ` set docs. \<not> starts_with (uuid_str k) (fst p)"
    proof (intro ballI)
      fix p k assume p: "p \<in> set (acc @ ?new)" and k: "k \<in> fst ` set docs"
      from p have "p \<in> set acc \<or> p \<in> set ?new" by (simp only: set_append Un_iff)
      then show "\<not> starts_with (uuid_str k) (fst p)"
      proof
        assume "p \<in> set acc"
        moreover have "k \<in> fst ` set (x # docs)" using k by simp
        ultimately show ?thesis by (rule bspec [OF bspec [OF Cons.prems(3)]])
      qed (rule other [OF _ k])
    qed
  qed (use Cons.prems dist in \<open>auto simp: x\<close>)
  then show ?case using fold_add_total [OF dist, of ce] by (simp add: x compile_total [OF d(1)])
qed simp

lemma load_total:
  "\<forall>(i, d) \<in> set docs. compilable ce d \<and> valid_uuid i \<Longrightarrow> distinct (map fst docs) \<Longrightarrow> \<exists>ps. load_policies ce docs = Inr ps"
  using load_total_step [of docs ce "[]"] by (simp add: load_policies_def)

lemma unique_ids: "unique_on permission_id_key ps \<longleftrightarrow> distinct (map p_id ps)"
proof -
  have "keyed permission_id_key ps = map p_id ps" by (induction ps) (simp_all add: permission_id_key_def)
  then show ?thesis by (simp add: unique_on_def)
qed

lemma rows_load:
  assumes "permissions_typed ce (t_permissions w)" "rows = filter (\<lambda>p. P p \<and> has_document p) (t_permissions w)"
  shows "\<exists>ps. bind_res (decode_rows ce p_id rows) (load_policies ce) = Inr ps"
proof -
  obtain docs where docs: "decode_rows ce p_id rows = Inr docs" "map fst docs = map p_id rows" "\<forall>(i, d) \<in> set docs. compilable ce d"
    using decode_rows_total [of rows ce] assms by (auto simp: permissions_typed_def)
  have "distinct (map fst docs)"
    using assms by (simp add: docs(2) permissions_typed_def unique_ids distinct_map_filter)
  moreover have "valid_uuid i" if "(i, d) \<in> set docs" for i d
  proof -
    have "i \<in> set (map p_id rows)" using that docs(2) by (metis fst_conv image_eqI list.set_map)
    then show ?thesis using assms by (auto simp: permissions_typed_def document_loads_def)
  qed
  ultimately obtain ps where "load_policies ce docs = Inr ps" using load_total [of docs ce] docs(3) by fast
  then show ?thesis using docs(1) by simp
qed

subsection \<open>Every operation keeps it\<close>

lemma leaves_on_world: "leaves f m \<Longrightarrow> leaves (\<lambda>s. f (ap_world s)) (on_world m)"
  by (rule leavesI) (auto simp: on_world_Pair dest: leavesD)

lemma leaves_evict [leaves_rules]: "leaves (\<lambda>s. f (ap_world s)) (permissions_evict t)" "leaves (\<lambda>s. f (ap_world s)) permissions_evict_all"
  unfolding permissions_evict_def permissions_evict_all_def by (intro leaves_modify; simp)+

lemma typed_append:
  assumes "permissions_typed ce (t_permissions w)" "permissions_violation (permission_row i t n descr doc) w = None"
    "valid_uuid i" "compilable ce doc"
  shows "permissions_typed ce (t_permissions w @ [permission_row i t n descr doc])"
  using assms by (auto simp: permissions_typed_def permissions_violation_def unique_on_append document_loads_def permission_row_def split: if_splits)

lemma typed_create:
  assumes "permissions_typed ce (t_permissions w)" "valid_uuid i" "compilable ce doc" "permissions_create i t n descr doc w = (r, w')"
  shows "permissions_typed ce (t_permissions w')"
  using typed_append [OF assms(1) _ assms(2,3)] assms(1,4)
  by (auto simp: permissions_create_def Let_def bindE_run split: option.splits)

lemma typed_upsert:
  assumes "permissions_typed ce (t_permissions w)" "valid_uuid i" "compilable ce doc" "permissions_upsert i t n descr doc w = (r, w')"
  shows "permissions_typed ce (t_permissions w')"
proof (cases "find_first (\<lambda>p. p_tenant_id p = t \<and> p_name p = n) (t_permissions w)")
  case None
  then show ?thesis using assms(4) typed_create [OF assms(1-3)] by (simp add: permissions_upsert_def Let_def)
next
  case (Some old)
  let ?P = "\<lambda>p. p_tenant_id p = t \<and> p_name p = n"
  let ?f = "\<lambda>p. p\<lparr>p_description := descr, p_document := Some (ser_document doc)\<rparr>"
  have "w' = t_permissions_update (update_rows ?P ?f) w"
    using assms(4) Some by (simp add: permissions_upsert_def Let_def)
  moreover have "unique_on permission_id_key (update_rows ?P ?f (t_permissions w))"
    "unique_on permission_name_key (update_rows ?P ?f (t_permissions w))"
    using assms(1) by (auto intro!: unique_on_update_rows simp: permissions_typed_def permission_id_key_def permission_name_key_def)
  moreover have "document_loads ce p" if "p \<in> set (update_rows ?P ?f (t_permissions w))" for p
    using that assms(1,3) by (auto simp: set_update_rows permissions_typed_def document_loads_def)
  ultimately show ?thesis by (simp add: permissions_typed_def)
qed

lemma map_io_readonly: "(\<And>x. readonly (f x)) \<Longrightarrow> readonly (map_io f xs)"
  by (induction xs) (auto intro!: readonly_bindE)

lemma resolve_readonly: "readonly (resolve_principals ce t doc)"
  unfolding resolve_principals_def
  by (intro readonly_bindE map_io_readonly readonly_pure)
    (auto simp: resolve_one_principal_def permissions_resolve_role_uid_def permissions_resolve_user_id_def
      intro!: readonly_rules split: prod.split)

lemma typed_create_route:
  assumes "permissions_typed ce (t_permissions (ap_world s))" "valid_uuid i" "ids_irrelevant ce"
    "admin_create_permission ce i t n descr doc ow s = (r, s')"
  shows "permissions_typed ce (t_permissions (ap_world s'))"
proof -
  obtain r1 where r1: "on_world (resolve_principals ce t doc) s = (r1, s)"
    using readonly_run [OF resolve_readonly, of ce t doc "ap_world s"] app_same [of s] unfolding on_world_Pair by metis
  show ?thesis
  proof (cases r1)
    case (Inl e)
    then show ?thesis using assms(1,4) r1 by (simp add: admin_create_permission_def bindE_run)
  next
    case (Inr d)
    show ?thesis
    proof (cases "policy_compile ce d ''validation-pass''")
      case (Inl e)
      then show ?thesis using assms(1,4) r1 Inr by (simp add: admin_create_permission_def bindE_run compile_check_def)
    next
      case (Inr ps)
      let ?m = "if ow then permissions_upsert i t n descr d else permissions_create i t n descr d"
      obtain r2 w2 where m: "?m (ap_world s) = (r2, w2)" by (cases "?m (ap_world s)")
      have "compilable ce d" by (rule compile_compilable [OF Inr assms(3)])
      then have "permissions_typed ce (t_permissions w2)"
        using m typed_create [OF assms(1,2)] typed_upsert [OF assms(1,2)] by (auto split: if_splits)
      moreover have "on_world ?m s = (r2, s\<lparr>ap_world := w2\<rparr>)" using m by (simp add: on_world_Pair)
      ultimately show ?thesis
        using assms(4) r1 \<open>r1 = Inr d\<close> Inr
        by (auto simp: admin_create_permission_def bindE_run compile_check_def permissions_evict_def split: sum.splits)
    qed
  qed
qed

lemma typed_delete_route:
  assumes "permissions_typed ce (t_permissions (ap_world s))" "admin_delete_permission t i s = (r, s')"
  shows "permissions_typed ce (t_permissions (ap_world s'))"
proof -
  have "permissions_typed ce (filter P (t_permissions (ap_world s)))" for P
    using assms(1) by (auto simp: permissions_typed_def intro: unique_on_filter)
  then show ?thesis
    using assms by (auto simp: admin_delete_permission_def permissions_delete_def bindE_run on_world_def unless_def
        cascade_permission_def permissions_evict_def split: if_splits)
qed

text \<open>
  The service's operations as they act on the permissions table: the two handlers that write it,
  and all others, which leave it as it is.
\<close>

inductive permission_step :: "cedar \<Rightarrow> app \<Rightarrow> app \<Rightarrow> bool" for ce where
  created: "valid_uuid fresh \<Longrightarrow> admin_create_permission ce fresh t n descr doc ow s = (r, s') \<Longrightarrow> permission_step ce s s'"
| deleted: "admin_delete_permission t pid s = (r', s') \<Longrightarrow> permission_step ce s s'"
| elsewhere: "t_permissions (ap_world s') = t_permissions (ap_world s) \<Longrightarrow> permission_step ce s s'"

lemma other_permission_handlers:
  "admin_attach_permission_to_role t rid pid s = (r, s') \<Longrightarrow> permission_step ce s s'"
  "admin_detach_permission_from_role rid pid s = (r1, s') \<Longrightarrow> permission_step ce s s'"
  "admin_delete_role t rid s = (r2, s') \<Longrightarrow> permission_step ce s s'"
  by (auto simp: admin_attach_permission_to_role_def permissions_attach_to_role_def admin_detach_permission_from_role_def
      permissions_detach_from_role_def admin_delete_role_def roles_delete_def bindE_run on_world_def unless_def insert_pair_def
      permissions_evict_def cascade_role_def split: if_splits sum.splits prod.splits intro!: permission_step.elsewhere)

lemma typed_step:
  "permission_step ce s s' \<Longrightarrow> ids_irrelevant ce \<Longrightarrow> permissions_typed ce (t_permissions (ap_world s)) \<Longrightarrow>
   permissions_typed ce (t_permissions (ap_world s'))"
  by (induction rule: permission_step.induct) (auto dest: typed_create_route typed_delete_route)

lemma typed_steps:
  "(permission_step ce)\<^sup>*\<^sup>* s s' \<Longrightarrow> ids_irrelevant ce \<Longrightarrow> permissions_typed ce (t_permissions (ap_world s)) \<Longrightarrow>
   permissions_typed ce (t_permissions (ap_world s'))"
  by (induction rule: rtranclp_induct) (auto dest: typed_step)

lemma typed_loads:
  assumes "permissions_typed ce (t_permissions (ap_world s))"
  shows "\<exists>ps. get_policy_set_for_roles ce t ids s = (Inr ps, s)" "\<exists>ps s'. get_policy_set ce t s = (Inr ps, s')"
proof -
  obtain ps where ps: "bind_res (decode_rows ce p_id (permissions_of_role_ids (ap_world s) t ids)) (load_policies ce) = Inr ps"
    using rows_load [OF assms, of _ "\<lambda>p. list_ex (\<lambda>(r, q). r \<in> set ids \<and> q = p_id p) (t_role_permissions (ap_world s)) \<and> p_tenant_id p = t"]
    by (auto simp: permissions_of_role_ids_def conj_assoc)
  then show "\<exists>ps. get_policy_set_for_roles ce t ids s = (Inr ps, s)" by (simp add: get_policy_set_for_roles_run)
  obtain ps where ps: "bind_res (decode_rows ce p_id (filter (\<lambda>p. p_tenant_id p = t \<and> has_document p) (t_permissions (ap_world s))))
      (load_policies ce) = Inr ps"
    using rows_load [OF assms, of _ "\<lambda>p. p_tenant_id p = t"] by auto
  then show "\<exists>ps s'. get_policy_set ce t s = (Inr ps, s')"
    by (auto simp: get_policy_set_def permissions_list_all_for_tenant_def on_world_def bindE_run bind_res_Inr_iff
        split: option.split)
qed

subsection \<open>An example\<close>

text \<open>User 5 of tenant \<^verbatim>\<open>acme\<close> holds role 1; one permission lets that role's users list orders.\<close>

definition doc0 :: permission_document where
  "doc0 = \<lparr>pd_version = ''1.0'', pd_statements = [\<lparr>st_sid = ''s'', st_effect = Allow, st_principals = [''*''],
     st_actions = [''getOrders''], st_resources = [''service:core/*''], st_conditions = []\<rparr>]\<rparr>"

definition app0 :: app where
  "app0 = \<lparr>ap_world = world0\<lparr>
       t_roles := [\<lparr>r_id = 1, r_tenant_id = ''acme'', r_name = ''Admin'', r_uid = ''admin'', r_parent_role_id = None\<rparr>],
       t_user_roles := [(5, 1)]\<rparr>,
     ap_policy_cache = (\<lambda>_. None), ap_schema = build_schema_str [] []\<rparr>"

definition app1 :: app where
  "app1 = app0\<lparr>ap_world := (ap_world app0)\<lparr>t_permissions := [permission_row 2 ''acme'' ''orders'' None doc0]\<rparr>\<rparr>"

definition app2 :: app where
  "app2 = app1\<lparr>ap_world := (ap_world app1)\<lparr>t_role_permissions := [(1, 2)]\<rparr>\<rparr>"

lemma app1_created: "admin_create_permission cedar0 2 ''acme'' ''orders'' None doc0 ow app0 = (Inr (2, ''orders''), app1)"
proof -
  have "resolve_principals cedar0 ''acme'' doc0 w = (Inr doc0, w)" for w
    by (simp add: resolve_principals_def doc0_def resolve_one_principal_def)
  moreover have "policy_compile cedar0 doc0 ''validation-pass'' = Inr (map (compiled_policy ''validation-pass'') (policy_tuples doc0))"
    by (rule compile_total) (simp add: compilable_def policy_tuples_def doc0_def)
  ultimately show ?thesis
    by (simp add: admin_create_permission_def bindE_run on_world_def compile_check_def permissions_create_def permissions_upsert_def
        Let_def permissions_violation_def dup_key_def permission_id_key_def permission_name_key_def app0_def app1_def world0_def
        permission_row_def permissions_evict_def)
qed

lemma app2_attached: "admin_attach_permission_to_role ''acme'' 1 2 app1 = (Inr (), app2)"
  by (simp add: admin_attach_permission_to_role_def permissions_attach_to_role_def insert_pair_def bindE_run on_world_def
      app1_def app0_def app2_def world0_def in_tenant_def permission_in_def permission_row_def permissions_evict_def unless_def)

lemma app0_empty: "t_permissions (ap_world app0) = []"
  by (simp add: app0_def world0_def)

lemma ids_irrelevant0: "ids_irrelevant cedar0"
  by (simp add: ids_irrelevant_def)

subsection \<open>Properties\<close>

text \<open>
  C11. Stored documents are well typed, and well-typed documents do not go wrong: whatever sequence of
  operations the service runs on an empty permissions table, loading the policies of any set of
  roles, or of a whole tenant, succeeds, for every document in the table decodes and compiles and no
  two permissions produce the same policy id. (The library's verdict on a policy must not depend on
  its id, and ids drawn for permissions are UUIDs.)
\<close>

theorem stored_permissions_load:
  assumes "ids_irrelevant ce" "t_permissions (ap_world s0) = []" "(permission_step ce)\<^sup>*\<^sup>* s0 s"
  shows "(\<exists>ps. get_policy_set_for_roles ce t ids s = (Inr ps, s)) \<and> (\<exists>ps s'. get_policy_set ce t s = (Inr ps, s')) \<and>
    (\<forall>p j. p \<in> set (t_permissions (ap_world s)) \<and> p_document p = Some j \<longrightarrow> (\<exists>d. de_document j = Some d))"
proof -
  have "permissions_typed ce (t_permissions (ap_world s))"
    by (rule typed_steps [OF assms(3,1)]) (simp add: assms(2) permissions_typed_def)
  then show ?thesis using typed_loads [of ce s] unfolding permissions_typed_def document_loads_def by blast
qed

theorem stored_permissions_load_witness:
  "\<exists>ps. get_policy_set_for_roles cedar0 ''acme'' [1] app2 = (Inr ps, app2)"
proof -
  have "(permission_step cedar0)\<^sup>*\<^sup>* app0 app1"
    using permission_step.created [OF _ app1_created] by (simp add: valid_uuid_def r_into_rtranclp)
  moreover have "permission_step cedar0 app1 app2" by (rule other_permission_handlers(1) [OF app2_attached])
  ultimately have "(permission_step cedar0)\<^sup>*\<^sup>* app0 app2" by (rule rtranclp.rtrancl_into_rtrancl)
  from stored_permissions_load [OF ids_irrelevant0 app0_empty this] show ?thesis by blast
qed

text \<open>Reading after a write of one row.\<close>

lemma find_first_update_one:
  "(\<And>x. x \<in> set xs \<Longrightarrow> P x \<Longrightarrow> \<not> Q x \<and> \<not> Q (f x)) \<Longrightarrow> find_first Q (update_rows P f xs) = find_first Q xs"
  by (induction xs) auto

lemma permissions_get_run: "permissions_get ce t i w =
    ((case find_first (\<lambda>p. permission_in t i p \<and> has_document p) (t_permissions w) of None \<Rightarrow> Inr None
      | Some p \<Rightarrow> bind_res (decode_document ce (the (p_document p))) (\<lambda>doc. Inr (Some (p_name p, p_description p, doc)))), w)"
  by (simp add: permissions_get_def split: option.split sum.split)

lemma create_then_get:
  assumes "permissions_create fresh t n descr doc w = (Inr i, w')"
  shows "i = fresh" "permissions_get ce t i w' = (Inr (Some (n, descr, doc)), w')"
    and "j \<noteq> i \<Longrightarrow> fst (permissions_get ce t' j w') = fst (permissions_get ce t' j w)"
proof -
  let ?row = "permission_row fresh t n descr doc"
  have c: "i = fresh" "permissions_violation ?row w = None" "t_permissions w' = t_permissions w @ [?row]"
    using assms by (auto simp: permissions_create_def Let_def bindE_run split: option.splits)
  have "find_first (\<lambda>p. permission_in t fresh p \<and> has_document p) (t_permissions w) = None"
    using c(2) by (auto simp: find_first_None_iff permissions_violation_def dup_key_def permission_id_key_def set_keyed
        permission_row_def permission_in_def split: if_splits)
  then show "i = fresh" "permissions_get ce t i w' = (Inr (Some (n, descr, doc)), w')"
    by (simp_all add: permissions_get_run c find_first_append permission_row_def permission_in_def has_document_def decode_document_def)
  show "j \<noteq> i \<Longrightarrow> fst (permissions_get ce t' j w') = fst (permissions_get ce t' j w)"
    by (simp add: permissions_get_run c find_first_append permission_row_def permission_in_def split: option.split)
qed

lemma upsert_then_get:
  assumes "permissions_typed ce (t_permissions w)" "permissions_upsert fresh t n descr doc w = (Inr i, w')"
  shows "permissions_get ce t i w' = (Inr (Some (n, descr, doc)), w')"
    and "j \<noteq> i \<Longrightarrow> fst (permissions_get ce t' j w') = fst (permissions_get ce t' j w)"
proof -
  let ?P = "\<lambda>p. p_tenant_id p = t \<and> p_name p = n"
  let ?f = "\<lambda>p. p\<lparr>p_description := descr, p_document := Some (ser_document doc)\<rparr>"
  have "permissions_get ce t i w' = (Inr (Some (n, descr, doc)), w') \<and>
      (j \<noteq> i \<longrightarrow> fst (permissions_get ce t' j w') = fst (permissions_get ce t' j w))"
  proof (cases "find_first ?P (t_permissions w)")
    case None
    then have "permissions_create fresh t n descr doc w = (Inr i, w')"
      using assms(2) by (simp add: permissions_upsert_def Let_def)
    from create_then_get [OF this] show ?thesis by blast
  next
    case (Some old)
    have w': "i = p_id old" "t_permissions w' = update_rows ?P ?f (t_permissions w)"
      using assms(2) Some by (auto simp: permissions_upsert_def Let_def)
    have old: "old \<in> set (t_permissions w)" "?P old" using find_first_SomeD [OF Some] by blast+
    have only: "p = old" if "p \<in> set (t_permissions w)" "?P p" for p
      using assms(1) old that by (auto simp: permissions_typed_def permission_name_key_def dest: unique_onD)
    have same_id: "p = old" if "p \<in> set (t_permissions w)" "p_id p = i" for p
      using assms(1) old(1) that by (auto simp: permissions_typed_def permission_id_key_def w' dest: unique_onD)
    have "find_first (\<lambda>p. permission_in t i p \<and> has_document p) (t_permissions w') = Some (?f old)"
    proof (rule find_first_unique)
      show "?f old \<in> set (t_permissions w')" using old by (force simp: w' set_update_rows)
      show "permission_in t i (?f old) \<and> has_document (?f old)" using old by (simp add: w' permission_in_def has_document_def)
      show "y = ?f old" if "y \<in> set (t_permissions w')" "permission_in t i y \<and> has_document y" for y
        using that old by (auto simp: w'(2) set_update_rows permission_in_def dest: only same_id split: if_splits)
    qed
    moreover have "find_first (\<lambda>p. permission_in t' j p \<and> has_document p) (t_permissions w') =
        find_first (\<lambda>p. permission_in t' j p \<and> has_document p) (t_permissions w)" if "j \<noteq> i"
      unfolding w'(2) by (rule find_first_update_one) (use that in \<open>auto simp: permission_in_def w'(1) dest: only\<close>)
    ultimately show ?thesis using old by (simp add: permissions_get_run decode_document_def)
  qed
  then show "permissions_get ce t i w' = (Inr (Some (n, descr, doc)), w')"
    "j \<noteq> i \<Longrightarrow> fst (permissions_get ce t' j w') = fst (permissions_get ce t' j w)" by blast+
qed

text \<open>
  C24. A permission is read back as it was stored: after a successful creation or overwrite, reading
  the returned id gives the name, the description and the document with its principals resolved;
  every other permission is read as before; and the tenant's cached policies are dropped.
\<close>

theorem stored_permission_roundtrip:
  assumes "permissions_typed ce (t_permissions (ap_world s))"
    and "admin_create_permission ce fresh t n descr doc ow s = (Inr (i, n'), s')"
  shows "\<exists>resolved. resolve_principals ce t doc (ap_world s) = (Inr resolved, ap_world s) \<and> n' = n \<and>
    permissions_get ce t i (ap_world s') = (Inr (Some (n, descr, resolved)), ap_world s') \<and>
    (\<forall>j. j \<noteq> i \<longrightarrow> fst (permissions_get ce t' j (ap_world s')) = fst (permissions_get ce t' j (ap_world s))) \<and>
    ap_policy_cache s' t = None"
proof -
  from assms(2) obtain d s1 s2 s3
    where r: "on_world (resolve_principals ce t doc) s = (Inr d, s1)"
      and c: "lift (compile_check ce d) s1 = (Inr (), s2)"
      and m: "on_world (if ow then permissions_upsert fresh t n descr d else permissions_create fresh t n descr d) s2 = (Inr i, s3)"
      and e: "s' = s3\<lparr>ap_policy_cache := (ap_policy_cache s3)(t := None)\<rparr>" "n' = n"
    unfolding admin_create_permission_def bindE_Inr_iff permissions_evict_def by auto
  have s1: "s1 = s" "resolve_principals ce t doc (ap_world s) = (Inr d, ap_world s)"
    using r readonlyD [OF resolve_readonly, of ce t doc "ap_world s"] by (auto simp: on_world_Pair)
  have s2: "s2 = s" using c by (auto simp: s1 split: sum.splits)
  obtain w where w: "(if ow then permissions_upsert fresh t n descr d else permissions_create fresh t n descr d) (ap_world s) = (Inr i, w)"
    "ap_world s' = w"
    using m by (auto simp: on_world_Pair s2 e)
  have "permissions_get ce t i w = (Inr (Some (n, descr, d)), w) \<and>
      (\<forall>j. j \<noteq> i \<longrightarrow> fst (permissions_get ce t' j w) = fst (permissions_get ce t' j (ap_world s)))"
  proof (cases ow)
    case True
    then show ?thesis using upsert_then_get [OF assms(1), of fresh t n descr d i w] w(1) by simp
  next
    case False
    then show ?thesis using create_then_get [of fresh t n descr d "ap_world s" i w] w(1) by simp
  qed
  then show ?thesis using s1(2) e w(2) by simp
qed

theorem stored_permission_roundtrip_witness:
  "\<exists>resolved. resolve_principals cedar0 ''acme'' doc0 (ap_world app0) = (Inr resolved, ap_world app0) \<and>
     permissions_get cedar0 ''acme'' 2 (ap_world app1) = (Inr (Some (''orders'', None, resolved)), ap_world app1)"
proof -
  have "permissions_typed cedar0 (t_permissions (ap_world app0))" by (simp add: app0_empty permissions_typed_def)
  from stored_permission_roundtrip [OF this app1_created] show ?thesis by blast
qed

end
