(* ===== verification/Access_Sound.thy ===== *)
theory Access_Sound
  imports Permissions_Loadable
begin

section \<open>Authorization is what the documents say\<close>

text \<open>
  The composition of the stored permissions, the compiler and the engine: a request is allowed
  exactly when a document attached to one of the user's roles allows it and none forbids it; the
  middleware lets only such requests through; stored documents always load; tenants do not see
  each other's permissions.
\<close>

subsection \<open>Loading\<close>

definition compiled_documents :: "(uuid \<times> permission_document) list \<Rightarrow> policy list" where
  "compiled_documents docs = concat (map (\<lambda>(i, d). map (compiled_policy (uuid_str i)) (policy_tuples d)) docs)"

lemma load_policies_step:
  assumes "fold_res (\<lambda>(i, doc) ps. bind_res (policy_compile ce doc (uuid_str i))
      (\<lambda>compiled. fold_res (policy_set_add ce) compiled ps)) docs acc = Inr ps"
  shows "ps = acc @ compiled_documents docs"
  using assms
proof (induction docs arbitrary: acc)
  case (Cons x docs)
  obtain i d where x: "x = (i, d)" by (cases x)
  from Cons.prems obtain compiled acc' where c: "policy_compile ce d (uuid_str i) = Inr compiled"
    "fold_res (policy_set_add ce) compiled acc = Inr acc'"
    and rest: "fold_res (\<lambda>(i, doc) ps. bind_res (policy_compile ce doc (uuid_str i))
      (\<lambda>compiled. fold_res (policy_set_add ce) compiled ps)) docs acc' = Inr ps"
    by (auto simp: x bind_res_Inr_iff)
  have "acc' = acc @ map id compiled"
    using fold_add_Inr(1) [OF c(2), of id] by (simp add: policy_set_add_Inr)
  moreover have "compiled = map (compiled_policy (uuid_str i)) (policy_tuples d)"
    by (rule policy_compile_Inr(1) [OF c(1)])
  ultimately show ?case using Cons.IH [OF rest] by (simp add: compiled_documents_def x)
qed (simp add: compiled_documents_def)

lemma load_policies_Inr: "load_policies ce docs = Inr ps \<Longrightarrow> ps = compiled_documents docs"
  using load_policies_step [of ce docs "[]" ps] by (simp add: load_policies_def)

text \<open>The documents attached to a set of roles of a tenant.\<close>

definition attached_documents :: "world \<Rightarrow> string \<Rightarrow> uuid list \<Rightarrow> permission_document set" where
  "attached_documents w tenant_id role_ids = {d. \<exists>p \<in> set (t_permissions w). \<exists>r \<in> set role_ids. \<exists>j.
     (r, p_id p) \<in> set (t_role_permissions w) \<and> p_tenant_id p = tenant_id \<and> p_document p = Some j \<and> de_document j = Some d}"

lemma decode_rows_Inr:
  assumes "decode_rows ce key rows = Inr docs" "\<forall>p \<in> set rows. has_document p"
  shows "set docs = {(key p, d) |p d. p \<in> set rows \<and> (\<exists>j. p_document p = Some j \<and> de_document j = Some d)}"
  using assms
proof (induction rows arbitrary: docs)
  case (Cons p rows)
  then obtain j where j: "p_document p = Some j" by (auto simp: has_document_def)
  with Cons.prems obtain d docs' where "de_document j = Some d" "decode_rows ce key rows = Inr docs'" "docs = (key p, d) # docs'"
    by (auto simp: decode_rows_def decode_document_def bind_res_Inr_iff split: option.splits)
  with Cons.IH [of docs'] Cons.prems(2) j show ?case by fastforce
qed (simp add: decode_rows_def)

lemma documents_loaded:
  assumes "get_policy_set_for_roles ce t ids s = (Inr ps, s')"
  shows "s' = s" and "\<exists>docs. snd ` set docs = attached_documents (ap_world s) t ids \<and> ps = compiled_documents docs"
proof -
  show "s' = s" using assms by (simp add: get_policy_set_for_roles_run)
  from assms obtain docs where d: "decode_rows ce p_id (permissions_of_role_ids (ap_world s) t ids) = Inr docs"
    "load_policies ce docs = Inr ps"
    by (auto simp: get_policy_set_for_roles_run bind_res_Inr_iff)
  have "snd ` set docs = attached_documents (ap_world s) t ids"
    unfolding decode_rows_Inr [OF d(1), simplified permissions_of_role_ids_def, simplified]
    by (force simp: attached_documents_def has_document_def list_ex_iff)
  then show "\<exists>docs. snd ` set docs = attached_documents (ap_world s) t ids \<and> ps = compiled_documents docs"
    using load_policies_Inr [OF d(2)] by blast
qed

subsection \<open>Deciding\<close>

definition condition_holds ::
  "(json \<Rightarrow> authz_query \<Rightarrow> cedar_entity list \<Rightarrow> bool) \<Rightarrow> cedar \<Rightarrow> authz_request \<Rightarrow> condition \<Rightarrow> bool" where
  "condition_holds cond ce req c \<longleftrightarrow> cond (condition_json c) (request_of req) (request_entities ce req)"

lemma satisfied_by_document:
  assumes "cedar_documented ce cond" "plain_request req"
  shows "(\<exists>p \<in> set (compiled_documents docs). json_field ''effect'' (snd p) = Some (JStr (effect_clause e)) \<and>
       policy_satisfied cond (snd p) (request_of req) (request_entities ce req)) \<longleftrightarrow>
    (\<exists>d \<in> snd ` set docs. \<exists>s \<in> set (pd_statements d). st_effect s = e \<and> statement_applies s req (condition_holds cond ce req))"
    (is "?L \<longleftrightarrow> ?R")
proof -
  have inj: "effect_clause a = effect_clause b \<longleftrightarrow> a = b" for a b by (cases a; cases b) simp_all
  have "?L \<longleftrightarrow> (\<exists>(i, d) \<in> set docs. \<exists>s p a r. (s, p, a, r) \<in> set (policy_tuples d) \<and> st_effect s = e \<and>
      policy_satisfied cond (build_cedar_json s p a r) (request_of req) (request_entities ce req))"
    by (force simp: compiled_documents_def compiled_policy_def inj)
  also have "\<dots> \<longleftrightarrow> ?R"
    unfolding policy_tuples_iff policy_satisfied_iff [OF assms] statement_applies_def condition_holds_def
    by (auto simp: image_iff Bex_def split_def) metis+
  finally show ?thesis .
qed

lemma decision_correct:
  assumes "cedar_documented ce cond" "plain_request req" "cd_entities_ok ce (request_entities ce req) schema"
    and "cd_context_ok ce (ar_context req)" "get_policy_set_for_roles ce t ids s = (Inr ps, s')"
  shows "authorize ce req ps schema = Allow \<longleftrightarrow> cd_request_ok ce (request_of req) schema \<and>
    documents_allow (attached_documents (ap_world s) t ids) req (condition_holds cond ce req)"
proof -
  obtain docs where docs: "snd ` set docs = attached_documents (ap_world s) t ids" "ps = compiled_documents docs"
    using documents_loaded [OF assms(5)] by blast
  have "decide cond ps (request_of req) (request_entities ce req) \<longleftrightarrow>
      documents_allow (attached_documents (ap_world s) t ids) req (condition_holds cond ce req)"
    using satisfied_by_document [OF assms(1,2), of docs Allow] satisfied_by_document [OF assms(1,2), of docs Deny]
    by (simp add: decide_def documents_allow_def docs)
  then show ?thesis using authorize_run [OF assms(1-4)] by simp
qed

subsection \<open>The roles of a permission check\<close>

lemma check_roles_run: "\<exists>names ids. check_roles t u w = (Inr (names, ids), w) \<and>
    set ids = r_id ` (set (effective_roles w t u) \<union> set (effective_group_roles w t u)) \<and>
    set names = r_uid ` (set (effective_roles w t u) \<union> set (effective_group_roles w t u))"
  by (auto simp: check_roles_def roles_get_user_roles_def roles_get_user_role_ids_def groups_get_user_group_role_uids_def
      groups_get_user_group_role_ids_def set_dedup_seen)

text \<open>The roles assigned to the user, or to one of its groups, and all their ancestors.\<close>

definition held_roles :: "world \<Rightarrow> string \<Rightarrow> uuid \<Rightarrow> role set" where
  "held_roles w t u = (parent_edges (t_roles w) t)\<^sup>* `` (set (direct_roles w t u) \<union> set (direct_group_roles w t u))"

lemma held_roles_eq: "set (effective_roles w t u) \<union> set (effective_group_roles w t u) = held_roles w t u"
  by (auto simp: held_roles_def effective_roles_reach effective_group_roles_reach)

lemma readonly_store_get [readonly_rules, simp]: "readonly (store_get x now tok)"
  unfolding store_get_def redis_get_def pg_get_def rd_get_def
  by (intro readonly_if readonly_bindE) (auto split: option.splits sum.splits intro!: readonly_rules)

lemma session_or_fail: "on_world (get_or e (store_get x now tok)) s = (case fst (store_get x now tok (ap_world s)) of
    Inl er \<Rightarrow> (Inl er, s) | Inr None \<Rightarrow> (Inl e, s) | Inr (Some p) \<Rightarrow> (Inr p, s))"
  unfolding on_world_run get_or_def bindE_readonly [OF readonly_store_get] by (simp split: sum.split option.split)

subsection \<open>Properties\<close>

text \<open>
  C7. A permission check answers with what the stored documents say: the answer is \<open>True\<close> exactly
  when the request fits the schema, a document attached to a role the user holds (directly or
  through a group, ancestors included) has an allowing statement that applies to the user, the
  action and the resource, and no such document has a denying one that applies. The check changes
  nothing.
\<close>

theorem check_permission_correct:
  assumes "cedar_documented ce cond"
    and "admin_check_permission ce t u resource (Some action) (Some context) s = (Inr resp, s')"
    and "\<And>req. ar_user_id req = u \<Longrightarrow> ar_action req = action \<Longrightarrow> ar_resource req = resource \<Longrightarrow> ar_context req = context \<Longrightarrow>
      set (ar_role_names req) = r_uid ` held_roles (ap_world s) t u \<Longrightarrow>
      plain_request req \<and> cd_entities_ok ce (request_entities ce req) (ap_schema s) \<and> cd_context_ok ce context"
  shows "s' = s \<and> (\<exists>req ids. ar_user_id req = u \<and> ar_action req = action \<and> ar_resource req = resource \<and>
    set (ar_role_names req) = r_uid ` held_roles (ap_world s) t u \<and> set ids = r_id ` held_roles (ap_world s) t u \<and>
    resp = OneAction resource action (cd_request_ok ce (request_of req) (ap_schema s) \<and>
      documents_allow (attached_documents (ap_world s) t ids) req (condition_holds cond ce req)))"
proof -
  obtain names ids where roles: "check_roles t u (ap_world s) = (Inr (names, ids), ap_world s)"
    "set ids = r_id ` held_roles (ap_world s) t u" "set names = r_uid ` held_roles (ap_world s) t u"
    using check_roles_run [of t u "ap_world s"] unfolding held_roles_eq by blast
  let ?req = "\<lparr>ar_user_id = u, ar_role_names = names, ar_action = action, ar_resource = resource, ar_context = context\<rparr>"
  from assms(2) obtain ps where ps: "get_policy_set_for_roles ce t ids s = (Inr ps, s)"
    and out: "s' = s" "resp = OneAction resource action (authorize ce ?req ps (ap_schema s) = Allow)"
    unfolding admin_check_permission_def Let_def bindE_run on_world_run roles(1)
    by (auto simp: get_policy_set_for_roles_run bindE_Inr_iff is_allowed_def split: sum.splits)
  have "plain_request ?req \<and> cd_entities_ok ce (request_entities ce ?req) (ap_schema s) \<and> cd_context_ok ce context"
    by (rule assms(3)) (simp_all add: roles(3))
  then have "authorize ce ?req ps (ap_schema s) = Allow \<longleftrightarrow> cd_request_ok ce (request_of ?req) (ap_schema s) \<and>
      documents_allow (attached_documents (ap_world s) t ids) ?req (condition_holds cond ce ?req)"
    by (intro decision_correct [OF assms(1) _ _ _ ps]) simp_all
  then show ?thesis using out roles(2,3) by (intro conjI exI [of _ ?req] exI [of _ ids]) simp_all
qed

text \<open>
  C3. The middleware lets a request through only with a bearer token that denotes a session, and
  only if a document attached to one of the session's roles, in the session's tenant, allows the
  session's user the action on the resource and none of them forbids it.
\<close>

theorem require_permission_sound:
  assumes "cedar_documented ce cond"
    and "require_permission ce x now path override header meth s = (Inr (), s')"
    and "\<And>session action. action_for override meth path = Inr action \<Longrightarrow>
      fst (store_get x now (drop 7 (the header)) (ap_world s)) = Inr (Some session) \<Longrightarrow>
      plain_request (session_request session action path) \<and> cd_context_ok ce (session_context session) \<and>
      cd_entities_ok ce (request_entities ce (session_request session action path)) (ap_schema s)"
  shows "\<exists>tok session action. header = Some (''Bearer '' @ tok) \<and>
    fst (store_get x now tok (ap_world s)) = Inr (Some session) \<and> action_for override meth path = Inr action \<and>
    documents_allow (attached_documents (ap_world s) (sp_tenant_id session) (sp_role_ids session))
      (session_request session action path) (condition_holds cond ce (session_request session action path)) \<and> s' = s"
proof -
  from assms(2) obtain tok s1 session s2 action s3 ps s4 schema s5
    where "lift (ok_or (Unauthorized ''Missing Bearer token'') (Option.bind header (strip_prefix ''Bearer ''))) s = (Inr tok, s1)"
      and "on_world (get_or (Unauthorized ''Session not found or expired'') (store_get x now tok)) s1 = (Inr session, s2)"
      and "lift (action_for override meth path) s2 = (Inr action, s3)"
      and ps: "get_policy_set_for_roles ce (sp_tenant_id session) (sp_role_ids session) s3 = (Inr ps, s4)"
      and "gets ap_schema s4 = (Inr schema, s5)"
      and "unless (authorize ce (session_request session action path) ps schema = Allow)
        (Forbidden ''Policy evaluation denied this request'') s5 = (Inr (), s')"
    unfolding require_permission_def bindE_Inr_iff by blast
  moreover from this have "s1 = s" "s4 = s3"
    using documents_loaded(1) [OF ps] by (auto split: sum.splits)
  ultimately have steps: "Option.bind header (strip_prefix ''Bearer '') = Some tok"
    "fst (store_get x now tok (ap_world s)) = Inr (Some session)" "action_for override meth path = Inr action"
    "get_policy_set_for_roles ce (sp_tenant_id session) (sp_role_ids session) s = (Inr ps, s)"
    "authorize ce (session_request session action path) ps (ap_schema s) = Allow" "s' = s"
    unfolding session_or_fail by (auto simp: ok_or_def split: option.splits if_splits sum.splits)
  have header: "header = Some (''Bearer '' @ tok)"
    using steps(1) by (cases header) (auto simp: strip_prefix_Some_iff simp del: strip_prefix.simps)
  let ?req = "session_request session action path"
  have "plain_request ?req \<and> cd_context_ok ce (session_context session) \<and> cd_entities_ok ce (request_entities ce ?req) (ap_schema s)"
    using assms(3) [OF steps(3)] steps(2) by (simp add: header)
  then have "documents_allow (attached_documents (ap_world s) (sp_tenant_id session) (sp_role_ids session)) ?req (condition_holds cond ce ?req)"
    using decision_correct [OF assms(1) _ _ _ steps(4)] steps(5) by (simp add: session_request_def)
  then show ?thesis using header steps(2,3,6) by blast
qed

lemma app2_roles: "held_roles (ap_world app2) ''acme'' 5 =
    {\<lparr>r_id = 1, r_tenant_id = ''acme'', r_name = ''Admin'', r_uid = ''admin'', r_parent_role_id = None\<rparr>}"
proof -
  have "Roles_Repo.parent_edges (t_roles (ap_world app2)) ''acme'' = {}"
    by (auto simp: parent_edges_def app2_def app1_def app0_def)
  then show ?thesis
    by (simp add: held_roles_def direct_roles_def direct_group_roles_def app2_def app1_def app0_def world0_def)
qed

lemma app2_documents: "set ids = {1} \<Longrightarrow> attached_documents (ap_world app2) ''acme'' ids = {doc0}"
  by (auto simp: attached_documents_def app2_def app1_def app0_def permission_row_def)

lemma app2_typed: "permissions_typed cedar0 (t_permissions (ap_world app2))"
proof -
  have "compilable cedar0 doc0" by (simp add: compilable_def policy_tuples_def doc0_def)
  then show ?thesis
    by (simp add: app2_def app1_def permissions_typed_def document_loads_def permission_row_def valid_uuid_def
        unique_on_def permission_id_key_def permission_name_key_def)
qed

lemma doc0_allows:
  "ar_action req = ''getOrders'' \<Longrightarrow> ar_resource req = ''service:core/table:orders'' \<Longrightarrow> documents_allow {doc0} req holds"
proof -
  have "glob ''service:core/*'' ''service:core/table:orders''" by code_simp
  then show "ar_action req = ''getOrders'' \<Longrightarrow> ar_resource req = ''service:core/table:orders'' \<Longrightarrow> ?thesis"
    by (simp add: documents_allow_def statement_applies_def doc0_def principal_covers_def resource_covers_def is_wildcard_def
        del: glob.simps)
qed

theorem check_permission_correct_witness:
  "admin_check_permission cedar0 ''acme'' 5 ''service:core/table:orders'' (Some ''getOrders'') (Some (JObj [])) app2 =
     (Inr (OneAction ''service:core/table:orders'' ''getOrders'' True), app2)"
    (is "?check = _")
proof -
  obtain resp s' where run: "?check = (Inr resp, s')"
  proof -
    obtain names ids where roles: "check_roles ''acme'' 5 (ap_world app2) = (Inr (names, ids), ap_world app2)"
      using check_roles_run by blast
    obtain ps where "get_policy_set_for_roles cedar0 ''acme'' ids app2 = (Inr ps, app2)"
      using typed_loads(1) [OF app2_typed] by blast
    then have "\<exists>resp s'. ?check = (Inr resp, s')"
      by (simp add: admin_check_permission_def Let_def bindE_run on_world_run roles)
    then show ?thesis using that by blast
  qed
  have "plain_request req" if "ar_action req = ''getOrders''" "ar_resource req = ''service:core/table:orders''"
    "set (ar_role_names req) = r_uid ` held_roles (ap_world app2) ''acme'' 5" for req
    using that by (simp add: app2_roles plain_request_def plain_id_def plain_char_def)
  from check_permission_correct [OF cedar0_documented run] this
  obtain req ids where "s' = app2" "ar_action req = ''getOrders''" "ar_resource req = ''service:core/table:orders''"
    "set ids = r_id ` held_roles (ap_world app2) ''acme'' 5"
    "resp = OneAction ''service:core/table:orders'' ''getOrders'' (documents_allow (attached_documents (ap_world app2) ''acme'' ids) req (condition_holds cond0 cedar0 req))"
    by auto
  then show ?thesis using run app2_documents [of ids] doc0_allows [of req] by (simp add: app2_roles)
qed

text \<open>The same service with a live session of user 5.\<close>

definition app3 :: app where
  "app3 = app2\<lparr>ap_world := (ap_world app2)\<lparr>t_sessions := [\<lparr>s_tenant_id = ''acme'', s_user_id = 5, s_session_token = ''tok'',
     s_ip_address = None, s_user_agent = None, s_expires_at = secs 100, s_revoked = False, s_payload = Some ''acme''\<rparr>]\<rparr>\<rparr>"

lemma app3_session: "store_get ext0 0 ''tok'' (ap_world app3) = (Inr (Some (payload0 ''acme'')), ap_world app3)"
  by (simp add: store_get_def pg_get_def app3_def ext0_def secs_def)

lemma app3_documents: "attached_documents (ap_world app3) t ids = attached_documents (ap_world app2) t ids"
  by (simp add: attached_documents_def app3_def)

lemma app3_request: "plain_request (session_request (payload0 ''acme'') ''getOrders'' ''service:core/table:orders'')"
  by (simp add: plain_request_def session_request_def payload0_def plain_id_def plain_char_def)

theorem require_permission_sound_witness:
  "\<exists>session action. require_permission cedar0 ext0 0 ''service:core/table:orders'' None (Some ''Bearer tok'') ''GET'' app3 = (Inr (), app3) \<and>
    action_for None ''GET'' ''service:core/table:orders'' = Inr action \<and>
    documents_allow (attached_documents (ap_world app3) (sp_tenant_id session) (sp_role_ids session))
      (session_request session action ''service:core/table:orders'')
      (condition_holds cond0 cedar0 (session_request session action ''service:core/table:orders''))"
proof -
  let ?path = "''service:core/table:orders''" and ?p = "payload0 ''acme''"
  let ?req = "session_request ?p ''getOrders'' ?path"
  have act: "action_for None ''GET'' ?path = Inr ''getOrders''" by code_simp
  have head: "Option.bind (Some ''Bearer tok'') (strip_prefix ''Bearer '') = Some ''tok''" by simp
  have "permissions_typed cedar0 (t_permissions (ap_world app3))" using app2_typed by (simp add: app3_def)
  then obtain ps where ps: "get_policy_set_for_roles cedar0 (sp_tenant_id ?p) (sp_role_ids ?p) app3 = (Inr ps, app3)"
    using typed_loads(1) by blast
  have "documents_allow (attached_documents (ap_world app3) (sp_tenant_id ?p) (sp_role_ids ?p)) ?req (condition_holds cond0 cedar0 ?req)"
    using doc0_allows [of ?req] app2_documents [of "[1]"] by (simp add: app3_documents session_request_def payload0_def)
  then have "authorize cedar0 ?req ps (ap_schema app3) = Allow"
    using decision_correct [OF cedar0_documented app3_request _ _ ps] by simp
  then have run: "require_permission cedar0 ext0 0 ?path None (Some ''Bearer tok'') ''GET'' app3 = (Inr (), app3)"
    unfolding require_permission_def head bindE_run session_or_fail
    using ps by (simp add: session_or_fail app3_session act ok_or_def bindE_run unless_def)
  from require_permission_sound [OF cedar0_documented run] show ?thesis
    using run app3_session app3_request act by auto
qed

subsection \<open>Tenants are isolated\<close>

lemma tenant_row_ids:
  assumes "unique_on permission_id_key ps" "p \<in> set ps" "q \<in> set ps" "p_tenant_id p \<noteq> p_tenant_id q"
  shows "p_id p \<noteq> p_id q"
  using unique_onD [OF assms(1-3)] assms(4) by (auto simp: permission_id_key_def)

lemma create_isolated:
  assumes "t' \<noteq> t" "permissions_create i t' n descr doc w = (r, w')"
  shows "permissions_of_role_ids w' t ids = permissions_of_role_ids w t ids"
  using assms by (auto simp: permissions_create_def Let_def bindE_run permissions_of_role_ids_def permission_row_def split: option.splits)

lemma filter_update_rows_other:
  "(\<And>x. P x \<Longrightarrow> \<not> Q x \<and> \<not> Q (f x)) \<Longrightarrow> filter Q (update_rows P f xs) = filter Q xs"
  by (induction xs) auto

lemma upsert_isolated:
  assumes "t' \<noteq> t" "permissions_upsert i t' n descr doc w = (r, w')"
  shows "permissions_of_role_ids w' t ids = permissions_of_role_ids w t ids"
proof (cases "find_first (\<lambda>p. p_tenant_id p = t' \<and> p_name p = n) (t_permissions w)")
  case None
  then show ?thesis using assms create_isolated by (simp add: permissions_upsert_def Let_def)
next
  case (Some old)
  then show ?thesis
    using assms by (auto simp: permissions_upsert_def Let_def permissions_of_role_ids_def intro!: filter_update_rows_other)
qed

lemma delete_isolated:
  assumes "t' \<noteq> t" "unique_on permission_id_key (t_permissions w)" "permissions_delete t' pid w = (r, w')"
  shows "permissions_of_role_ids w' t ids = permissions_of_role_ids w t ids"
proof (cases "list_ex (permission_in t' pid) (t_permissions w)")
  case True
  then obtain q where q: "q \<in> set (t_permissions w)" "p_id q = pid" "p_tenant_id q = t'"
    by (auto simp: list_ex_iff permission_in_def)
  have ne: "p_id p \<noteq> pid" if "p \<in> set (t_permissions w)" "p_tenant_id p = t" for p
    using tenant_row_ids [OF assms(2) that(1) q(1)] that(2) q assms(1) by auto
  have "w' = cascade_permission pid w" using assms(3) True by (simp add: permissions_delete_def)
  then show ?thesis
    using ne by (auto simp: permissions_of_role_ids_def cascade_permission_def list_ex_iff intro!: filter_cong)
next
  case False
  then show ?thesis using assms(3) by (simp add: permissions_delete_def)
qed

lemma attach_isolated:
  assumes "t' \<noteq> t" "unique_on permission_id_key (t_permissions w)" "permissions_attach_to_role t' rid pid w = (r, w')"
  shows "permissions_of_role_ids w' t ids = permissions_of_role_ids w t ids"
proof (cases "list_ex (permission_in t' pid) (t_permissions w)")
  case True
  then obtain q where q: "q \<in> set (t_permissions w)" "p_id q = pid" "p_tenant_id q = t'"
    by (auto simp: list_ex_iff permission_in_def)
  have ne: "p_id p \<noteq> pid" if "p \<in> set (t_permissions w)" "p_tenant_id p = t" for p
    using tenant_row_ids [OF assms(2) that(1) q(1)] that(2) q assms(1) by auto
  have "w' = w \<or> w' = w\<lparr>t_role_permissions := t_role_permissions w @ [(rid, pid)]\<rparr>"
    using assms(3) by (auto simp: permissions_attach_to_role_def bindE_run insert_pair_def unless_def split: if_splits)
  then show ?thesis
    using ne by (elim disjE) (auto simp: permissions_of_role_ids_def intro!: filter_cong)
next
  case False
  then have "w' = w" using assms(3) by (auto simp: permissions_attach_to_role_def bindE_run unless_def split: if_splits)
  then show ?thesis by simp
qed

lemma detach_isolated:
  assumes "t' \<noteq> t" "unique_on permission_id_key (t_permissions w)" "q \<in> set (t_permissions w)" "p_id q = pid" "p_tenant_id q = t'"
    and "permissions_detach_from_role rid pid w = (r, w')"
  shows "permissions_of_role_ids w' t ids = permissions_of_role_ids w t ids"
proof -
  have ne: "p_id p \<noteq> pid" if "p \<in> set (t_permissions w)" "p_tenant_id p = t" for p
    using tenant_row_ids [OF assms(2) that(1) assms(3)] that(2) assms(1,4,5) by auto
  have "w' = t_role_permissions_update (filter (\<lambda>p. p \<noteq> (rid, pid))) w"
    using assms(6) by (auto simp: permissions_detach_from_role_def)
  then show ?thesis
    using ne by (auto simp: permissions_of_role_ids_def list_ex_iff intro!: filter_cong)
qed

text \<open>
  An administrator's change to the permissions of tenant \<open>t'\<close>. The handler that detaches a permission takes no tenant;
  the step is the use of it on a permission of the tenant.
\<close>

inductive permission_change :: "cedar \<Rightarrow> string \<Rightarrow> app \<Rightarrow> app \<Rightarrow> bool" for ce t' where
  create: "admin_create_permission ce fresh t' n descr doc ow s = (r, s') \<Longrightarrow> permission_change ce t' s s'"
| delete: "admin_delete_permission t' pid s = (r', s') \<Longrightarrow> permission_change ce t' s s'"
| attach: "admin_attach_permission_to_role t' rid pid s = (r', s') \<Longrightarrow> permission_change ce t' s s'"
| detach: "admin_detach_permission_from_role rid pid s = (r', s') \<Longrightarrow> q \<in> set (t_permissions (ap_world s)) \<Longrightarrow> p_id q = pid \<Longrightarrow>
    p_tenant_id q = t' \<Longrightarrow> permission_change ce t' s s'"

lemma keeps_cache_except:
  "permissions_evict t' s = (r, s') \<Longrightarrow> t \<noteq> t' \<Longrightarrow> ap_world s' = ap_world s \<and> ap_policy_cache s' t = ap_policy_cache s t"
  by (auto simp: permissions_evict_def)

lemma change_isolated:
  assumes "permission_change ce t' s s'" "t' \<noteq> t" "unique_on permission_id_key (t_permissions (ap_world s))"
  shows "permissions_of_role_ids (ap_world s') t ids = permissions_of_role_ids (ap_world s) t ids \<and> ap_policy_cache s' t = ap_policy_cache s t"
  using assms
proof (induction rule: permission_change.induct)
  case (create fresh n descr doc ow s r s')
  let ?m = "\<lambda>d. if ow then permissions_upsert fresh t' n descr d else permissions_create fresh t' n descr d"
  obtain r1 where r1: "on_world (resolve_principals ce t' doc) s = (r1, s)"
    using readonly_run [OF resolve_readonly, of ce t' doc "ap_world s"] app_same [of s] unfolding on_world_Pair by metis
  have iso: "permissions_of_role_ids w' t ids = permissions_of_role_ids (ap_world s) t ids" if "?m d (ap_world s) = (r2, w')" for d r2 w'
    using that create_isolated [OF create.prems(1)] upsert_isolated [OF create.prems(1)] by (auto split: if_splits)
  show ?case
  proof (cases "\<exists>d. r1 = Inr d \<and> compile_check ce d = Inr ()")
    case False
    then have "s' = s" using create.hyps r1
      by (cases r1) (auto simp: admin_create_permission_def bindE_run split: sum.splits)
    then show ?thesis by simp
  next
    case True
    then obtain d where d: "r1 = Inr d" "compile_check ce d = Inr ()" by blast
    obtain r2 w2 where m: "?m d (ap_world s) = (r2, w2)" by (cases "?m d (ap_world s)")
    then have "on_world (?m d) s = (r2, s\<lparr>ap_world := w2\<rparr>)" by (simp add: on_world_Pair)
    then have "ap_world s' = w2" "ap_policy_cache s' t = ap_policy_cache s t"
      using create.hyps r1 d create.prems(1)
      by (auto simp: admin_create_permission_def bindE_run permissions_evict_def split: sum.splits)
    then show ?thesis using iso [OF m] by simp
  qed
next
  case (delete pid s r' s')
  obtain r2 w2 where m: "permissions_delete t' pid (ap_world s) = (r2, w2)" by (cases "permissions_delete t' pid (ap_world s)")
  then have "ap_world s' = w2" "ap_policy_cache s' t = ap_policy_cache s t"
    using delete.hyps delete.prems(1)
    by (auto simp: admin_delete_permission_def on_world_def bindE_run unless_def permissions_evict_def split: sum.splits if_splits)
  then show ?case using delete_isolated [OF delete.prems m] by simp
next
  case (attach rid pid s r' s')
  obtain r2 w2 where m: "permissions_attach_to_role t' rid pid (ap_world s) = (r2, w2)"
    by (cases "permissions_attach_to_role t' rid pid (ap_world s)")
  then have "ap_world s' = w2" "ap_policy_cache s' t = ap_policy_cache s t"
    using attach.hyps attach.prems(1)
    by (auto simp: admin_attach_permission_to_role_def on_world_def bindE_run permissions_evict_def split: sum.splits)
  then show ?case using attach_isolated [OF attach.prems m] by simp
next
  case (detach rid pid s r' s' q)
  obtain r2 w2 where m: "permissions_detach_from_role rid pid (ap_world s) = (r2, w2)"
    by (cases "permissions_detach_from_role rid pid (ap_world s)")
  then have "ap_world s' = w2" "ap_policy_cache s' t = ap_policy_cache s t"
    using detach.hyps(1)
    by (auto simp: admin_detach_permission_from_role_def on_world_def bindE_run unless_def split: sum.splits if_splits)
  then show ?case using detach_isolated [OF detach.prems detach.hyps(2-4) m] by simp
qed

text \<open>
  C13. Tenants are isolated: whatever an administrator of one tenant does to its own permissions (create,
  overwrite, delete, attach to a role, detach from a role), the policies any roles of another tenant load, and that
  tenant's cached policies, stay the same. (That a detached permission is the tenant's own is not checked by the code: see
  \<open>detach_crosses_tenants\<close>.)
\<close>

theorem permission_changes_isolated:
  assumes "permission_change ce t' s s'" "t' \<noteq> t" "permissions_typed ce (t_permissions (ap_world s))"
  shows "fst (get_policy_set_for_roles ce t ids s') = fst (get_policy_set_for_roles ce t ids s) \<and>
    ap_policy_cache s' t = ap_policy_cache s t"
  using change_isolated [OF assms(1,2), of ids] assms(3) by (simp add: get_policy_set_for_roles_run permissions_typed_def)

theorem permission_changes_isolated_witness:
  "fst (get_policy_set_for_roles cedar0 ''other'' [1] app1) = fst (get_policy_set_for_roles cedar0 ''other'' [1] app0)"
proof -
  have "permissions_typed cedar0 (t_permissions (ap_world app0))" by (simp add: app0_empty permissions_typed_def)
  from permission_changes_isolated [OF permission_change.create [OF app1_created] _ this, of "''other''"]
  show ?thesis by simp
qed

text \<open>The handler does the same to a permission of any tenant.\<close>

lemma detach_crosses_tenants:
  assumes "p_tenant_id q = t" "q \<in> set (t_permissions (ap_world s))" "(rid, p_id q) \<in> set (t_role_permissions (ap_world s))"
  shows "\<exists>s'. admin_detach_permission_from_role rid (p_id q) s = (Inr (), s') \<and> q \<notin> set (permissions_of_role_ids (ap_world s') t [rid])"
proof -
  have "rows_affected (\<lambda>p. p = (rid, p_id q)) (t_role_permissions (ap_world s)) \<noteq> 0"
    using assms(3) by (auto simp: rows_affected_def filter_empty_conv)
  then show ?thesis
    by (auto simp: admin_detach_permission_from_role_def on_world_def permissions_detach_from_role_def bindE_run
        permissions_of_role_ids_def list_ex_iff)
qed

end
