(* ===== verification/Auth_Doors.thy ===== *)
theory Auth_Doors
  imports Auth_Accounts
begin

section \<open>The doors: every way to a session\<close>

text \<open>
  The seven operations of \<^verbatim>\<open>src/services/auth.rs\<close> that end in a session after the account's gates
  were checked, what any session obtained through them rests on, what archiving a user means for
  them, and which identity a provider sign-in resolves to.
\<close>

subsection \<open>Gated logins\<close>

inductive login_door :: "ext \<Rightarrow> time \<Rightarrow> string \<Rightarrow> client \<Rightarrow> world \<Rightarrow> login_result \<Rightarrow> world \<Rightarrow> bool" for x now tid c where
  email_password: "login_email_password x now tok tid e pw c w = (Inr r, w') \<Longrightarrow> login_door x now tid c w r w'"
| username_password: "login_username_password x now tok tid n pw c w = (Inr r, w') \<Longrightarrow> login_door x now tid c w r w'"
| otp: "login_with_verified_otp x now tok tid e c w = (Inr r, w') \<Longrightarrow> login_door x now tid c w r w'"
| oauth: "login_oauth x now tok iid uid tid provider p allow c w = (Inr r, w') \<Longrightarrow> login_door x now tid c w r w'"
| select: "select_tenant x now tok iid tid c w = (Inr r, w') \<Longrightarrow> login_door x now tid c w r w'"
| select_token: "select_tenant_with_token x now tok it tid c w = (Inr r, w') \<Longrightarrow> login_door x now tid c w r w'"
| second_factor: "get_challenge now mt w = (Inr (Some ch), w) \<Longrightarrow> mc_tenant_id ch = tid \<Longrightarrow>
    complete_mfa_login x now tok mt code c w = (Inr r, w') \<Longrightarrow> login_door x now tid c w r w'"

text \<open>The session a door creates: whose it is and what that account was like at the time.\<close>

definition session_for :: "ext \<Rightarrow> time \<Rightarrow> string \<Rightarrow> client \<Rightarrow> world \<Rightarrow> login_result \<Rightarrow> world \<Rightarrow> membership \<Rightarrow> identity \<Rightarrow> bool" where
  "session_for x now tid c w r w' m i \<longleftrightarrow> m \<in> set (t_users w') \<and> m_tenant_id m = tid \<and> admissible now m i \<and>
     (i \<in> set (t_identities w) \<or> i_id i \<notin> i_id ` set (t_identities w)) \<and>
     (\<exists>tok w1. do_create_session x now tok tid (row_to_user m i) c w1 = (Inr r, w'))"

lemma finalize_session_for:
  assumes "finalize_login x now tok tid (row_to_user m i) j c w1 = (Inr (LoginSuccess t e), w')"
    and "m \<in> set (t_users w1)" "m_tenant_id m = tid" "admissible now m i"
    and "i \<in> set (t_identities w) \<or> i_id i \<notin> i_id ` set (t_identities w)"
  shows "session_for x now tid c w (LoginSuccess t e) w' m i"
  using assms leavesD [OF session_creation_leaves_accounts(2) assms(1)]
  by (auto simp: session_for_def finalize_login_success accounts_fields)

lemma accounts_effective: "effective_login_methods x now tid u w = (r, w1) \<Longrightarrow> accounts w1 = accounts w"
  by (erule leavesD [OF config_leaves_accounts(5)])

lemma users_cleared [simp]: "t_users (snd (identities_clear_failed_attempts now iid w)) = t_users w"
  by (simp add: identities_clear_failed_attempts_def)

lemma gated_membership:
  assumes "accounts_ok w" "fetch_user P w = (Inr (Some u), w)" "load_identity (u_identity_id u) w = (Inr j, w)"
    and "check_gates now u j = Inr ()"
  obtains m where "m \<in> set (t_users w)" "j \<in> set (t_identities w)" "u = row_to_user m j" "P m j" "admissible now m j"
proof -
  from fetch_user_Some(2) [OF assms(2)] obtain m i where mi: "m \<in> set (t_users w)" "i \<in> set (t_identities w)"
    "i_id i = m_identity_id m" "P m i" "u = row_to_user m i" by blast
  moreover have "j = i"
    using load_identity_member [OF assms(1) mi(2)] assms(3) mi by simp
  ultimately show thesis using that gates_admissible [of now m i i] assms(4) by auto
qed

lemma password_door:
  assumes "accounts_ok w" "fetch_user P w = (Inr (Some u), w)" "\<And>m i. P m i \<Longrightarrow> m_tenant_id m = tid"
    and "do_password_login x now tok tid u pw c meth w = (Inr (LoginSuccess t e), w')" "accounts w = accounts v"
  shows "\<exists>m i. session_for x now tid c v (LoginSuccess t e) w' m i"
proof -
  from assms(4) obtain j h eff w1 where j: "load_identity (u_identity_id u) w = (Inr j, w)" "check_gates now u j = Inr ()"
    "effective_login_methods x now tid u w = (Inr eff, w1)" "db w1 = db w" "meth \<in> set eff" "i_password_hash j = Some h"
    "x_argon2_verify x h pw = Inr True"
    "finalize_login x now tok tid u j c (snd (identities_clear_failed_attempts now (i_id j) w1)) = (Inr (LoginSuccess t e), w')"
    by (rule do_password_login_Inr)
  obtain m where m: "m \<in> set (t_users w)" "j \<in> set (t_identities w)" "u = row_to_user m j" "P m j" "admissible now m j"
    by (rule gated_membership [OF assms(1,2) j(1,2)])
  have "session_for x now tid c v (LoginSuccess t e) w' m j"
    by (rule finalize_session_for [OF j(8) [unfolded m(3)]])
      (use m assms(3,5) accounts_effective [OF j(3)] in \<open>auto simp: accounts_fields\<close>)
  then show ?thesis by blast
qed

lemma finalize_door:
  assumes "accounts_ok w" "fetch_user P w = (Inr (Some u), w)" "\<And>m i. P m i \<Longrightarrow> m_tenant_id m = tid"
    and "load_identity (u_identity_id u) w = (Inr j, w)" "check_gates now u j = Inr ()" "accounts w1 = accounts w"
    and "finalize_login x now tok tid u j c w1 = (Inr (LoginSuccess t e), w')"
  shows "\<exists>m i. session_for x now tid c w (LoginSuccess t e) w' m i"
proof -
  obtain m where m: "m \<in> set (t_users w)" "j \<in> set (t_identities w)" "u = row_to_user m j" "P m j" "admissible now m j"
    by (rule gated_membership [OF assms(1,2,4,5)])
  have "session_for x now tid c w (LoginSuccess t e) w' m j"
    by (rule finalize_session_for [OF assms(7) [unfolded m(3)]])
      (use m assms(3,6) in \<open>auto simp: accounts_fields\<close>)
  then show ?thesis by blast
qed

lemma select_door:
  assumes "accounts_ok w" "select_tenant x now tok iid tid c w = (Inr (LoginSuccess t e), w')"
  shows "\<exists>m i. session_for x now tid c w (LoginSuccess t e) w' m i"
proof -
  obtain uo where uo: "users_get_membership iid tid w = (Inr uo, w)"
    by (auto simp: users_get_membership_def fetch_user_def)
  with assms(2) obtain u where u: "users_get_membership iid tid w = (Inr (Some u), w)"
    by (cases uo) (auto simp: select_tenant_def)
  with assms(2) obtain j where j: "load_identity iid w = (Inr j, w)" "check_gates now u j = Inr ()"
    "finalize_login x now tok tid u j c w = (Inr (LoginSuccess t e), w')"
    by (auto simp: select_tenant_def bindE_Inr_iff case_res_Inr_iff load_identity_Inr)
  have "u_identity_id u = iid"
    using fetch_user_Some(2) u unfolding users_get_membership_def by fastforce
  with u j show ?thesis
    by (intro finalize_door [OF assms(1) u [unfolded users_get_membership_def]]) auto
qed

lemma otp_door:
  assumes "accounts_ok w" "login_with_verified_otp x now tok tid e c w = (Inr (LoginSuccess t e'), w')"
  shows "\<exists>m i. session_for x now tid c w (LoginSuccess t e') w' m i"
proof -
  obtain uo where uo: "users_get_by_email_insensitive tid e w = (Inr uo, w)"
    by (auto simp: users_get_by_email_insensitive_def fetch_user_def)
  with assms(2) obtain u where u: "users_get_by_email_insensitive tid e w = (Inr (Some u), w)"
    by (cases uo) (auto simp: login_with_verified_otp_def)
  with assms(2) obtain j eff w1 where j: "load_identity (u_identity_id u) w = (Inr j, w)" "check_gates now u j = Inr ()"
    "effective_login_methods x now tid u w = (Inr eff, w1)"
    "finalize_login x now tok tid u j c w1 = (Inr (LoginSuccess t e'), w')"
    by (auto simp: login_with_verified_otp_def bindE_Inr_iff case_res_Inr_iff load_identity_Inr split: if_splits)
  show ?thesis
    using u [unfolded users_get_by_email_insensitive_def] accounts_effective [OF j(3)] j
    by (intro finalize_door [OF assms(1), where j = j and ?w1.0 = w1
          and P = "\<lambda>m i. m_tenant_id m = tid \<and> email_key i = Some (to_lowercase e)"]) auto
qed

subsection \<open>Provider sign-ins\<close>

lemma identities_get_by_email_Inr:
  "identities_get_by_email e w = (Inr io, w1) \<longleftrightarrow> w1 = w \<and> find_first (\<lambda>i. email_key i = Some (to_lowercase e)) (t_identities w) = io"
  by (auto simp: identities_get_by_email_def)

lemma identities_create_Inr:
  assumes "identities_create now iid e mob cc fn ln h w = (Inr i, w1)"
  shows "i = new_identity now iid e mob cc fn ln h" "t_identities w1 = t_identities w @ [i]" "t_users w1 = t_users w"
    "t_oauth_accounts w1 = t_oauth_accounts w" "i_id i \<notin> i_id ` set (t_identities w)"
  using assms
  by (auto simp: identities_create_def Let_def bindE_Inr_iff identities_violation_def dup_key_def id_key_def set_keyed
      split: option.splits if_splits)

text \<open>Where the identity of a provider sign-in comes from.\<close>

definition oauth_source :: "world \<Rightarrow> time \<Rightarrow> uuid \<Rightarrow> string \<Rightarrow> oauth_profile \<Rightarrow> bool \<Rightarrow> identity \<Rightarrow> bool" where
  "oauth_source w now iid provider p allow i \<longleftrightarrow>
     (i \<in> set (t_identities w) \<and> oauth_get_linked_identity provider (op_provider_user_id p) w = (Inr (Some (i_id i)), w)) \<or>
     (i \<in> set (t_identities w) \<and> op_email_verified p \<and> op_email p \<noteq> None \<and> email_key i = map_option to_lowercase (op_email p)) \<or>
     (allow \<and> i_id i \<notin> i_id ` set (t_identities w) \<and>
        i = new_identity now iid (verified_email p) None None (op_first_name p) (op_last_name p) None \<and>
        (\<forall>e. op_email p = Some e \<longrightarrow> (\<forall>j \<in> set (t_identities w). email_key j \<noteq> Some (to_lowercase e))))"

lemma oauth_link_Inr:
  assumes "oauth_link iid provider pid em w = (Inr u, w1)"
  shows "t_identities w1 = t_identities w" "t_users w1 = t_users w"
    "\<not> list_ex (\<lambda>r. oa_provider r = provider \<and> oa_provider_user_id r = pid) (t_oauth_accounts w)"
    "t_oauth_accounts w1 = t_oauth_accounts w @ [\<lparr>oa_identity_id = iid, oa_provider = provider,
        oa_provider_user_id = pid, oa_email = em\<rparr>]"
  using assms by (auto simp: oauth_link_def token_violation_def list_ex_iff split: option.splits if_splits)

lemma oauth_resolve_Inr:
  assumes "oauth_resolve_identity now iid provider p allow w = (Inr i, w1)"
  shows "oauth_source w now iid provider p allow i" "i \<in> set (t_identities w1)" "t_users w1 = t_users w"
    "oauth_get_linked_identity provider (op_provider_user_id p) w1 = (Inr (Some (i_id i)), w1)"
proof -
  let ?pid = "op_provider_user_id p"
  obtain l where l: "oauth_get_linked_identity provider ?pid w = (Inr l, w)"
    by (simp add: oauth_get_linked_identity_def)
  have "oauth_source w now iid provider p allow i \<and> i \<in> set (t_identities w1) \<and> t_users w1 = t_users w \<and>
    oauth_get_linked_identity provider ?pid w1 = (Inr (Some (i_id i)), w1)"
  proof (cases l)
    case (Some lid)
    with assms l have "find_first (\<lambda>i. i_id i = lid) (t_identities w) = Some i" "w1 = w"
      by (auto simp: oauth_resolve_identity_def load_identity_Inr)
    with l Some show ?thesis by (auto simp: oauth_source_def dest: find_first_SomeD)
  next
    case None
    from assms l None obtain existing w2 where ex: "(case verified_email p of Some e \<Rightarrow> identities_get_by_email e | None \<Rightarrow> ret None) w = (Inr existing, w)"
      and i: "(case existing of Some i \<Rightarrow> ret i | None \<Rightarrow> oauth_new_identity now iid p allow) w = (Inr i, w2)"
      and link: "oauth_link (i_id i) provider ?pid (op_email p) w2 = (Inr (), w1)"
      by (auto simp: oauth_resolve_identity_def bindE_Inr_iff identities_get_by_email_Inr split: option.splits)
    note lk = oauth_link_Inr [OF link]
    have "oauth_source w now iid provider p allow i \<and> i \<in> set (t_identities w2) \<and> t_users w2 = t_users w"
    proof (cases existing)
      case (Some j)
      with ex i show ?thesis
        by (auto simp: oauth_source_def verified_email_def identities_get_by_email_Inr split: option.splits if_splits dest!: find_first_SomeD)
    next
      case None
      with i obtain w3 where allow: "allow" and w3: "w3 = w"
        and free: "\<And>e. op_email p = Some e \<Longrightarrow> \<not> op_email_verified p \<Longrightarrow> \<not> list_ex (\<lambda>i. email_key i = Some (to_lowercase e)) (t_identities w)"
        and cr: "identities_create now iid (verified_email p) None None (op_first_name p) (op_last_name p) None w3 = (Inr i, w2)"
        by (auto simp: oauth_new_identity_def bindE_Inr_iff identities_exists_by_email_def split: option.splits if_splits)
      have "email_key j \<noteq> Some (to_lowercase e)" if "op_email p = Some e" "j \<in> set (t_identities w)" for e j
        using that free [OF that(1)] ex None
        by (cases "op_email_verified p") (auto simp: verified_email_def identities_get_by_email_Inr list_ex_iff find_first_None_iff)
      with allow identities_create_Inr [OF cr] w3 show ?thesis by (auto simp: oauth_source_def)
    qed
    moreover have "oauth_get_linked_identity provider ?pid w1 = (Inr (Some (i_id i)), w1)"
      using lk(3) by (auto simp: oauth_get_linked_identity_def lk(4) find_first_append find_first_None_iff list_ex_iff split: option.split dest: find_first_SomeD)
    ultimately show ?thesis using lk(1,2) by simp
  qed
  then show "oauth_source w now iid provider p allow i" "i \<in> set (t_identities w1)" "t_users w1 = t_users w"
    "oauth_get_linked_identity provider (op_provider_user_id p) w1 = (Inr (Some (i_id i)), w1)" by blast+
qed

lemma users_create_Inr:
  assumes "users_create now uid i t un w = (Inr u, w1)"
  shows "u = row_to_user (new_membership now uid i t un) i" "t_identities w1 = t_identities w"
    "t_users w1 = t_users w @ [new_membership now uid i t un]"
  using assms by (auto simp: users_create_def Let_def bindE_Inr_iff split: option.splits)

lemma guard_Inr_iff: "(if b then r else (Inl e, s)) = (Inr y, t) \<longleftrightarrow> b \<and> r = (Inr y, t)"
  by simp

lemma oauth_membership:
  assumes "accounts_ok w" "i \<in> set (t_identities w)" "users_get_membership (i_id i) tid w = (Inr mo, v)"
    and "(case mo of Some u \<Rightarrow> ret u
       | None \<Rightarrow> if allow then users_create now uid i tid None else throw e) v = (Inr u, w1)"
  obtains m where "u = row_to_user m i" "m \<in> set (t_users w1)" "m_tenant_id m = tid" "m_identity_id m = i_id i"
proof -
  have mo: "users_get_membership (i_id i) tid w = (Inr mo, w)" "v = w"
    using assms(3) by (auto simp: users_get_membership_def fetch_user_def)
  show thesis
  proof (cases mo)
    case None
    with mo assms(4) have "users_create now uid i tid None w = (Inr u, w1)" by (auto split: if_splits)
    then show thesis
      using users_create_Inr that [of "new_membership now uid i tid None"] by (auto simp: new_membership_def)
  next
    case (Some u')
    with mo assms(4) have "u = u'" "w1 = w" by auto
    with mo Some obtain m j where "m \<in> set (t_users w)" "j \<in> set (t_identities w)" "i_id j = m_identity_id m"
      "m_identity_id m = i_id i" "m_tenant_id m = tid" "u = row_to_user m j"
      using fetch_user_Some(2) unfolding users_get_membership_def by blast
    moreover from this have "j = i"
      using identity_found_by_id [OF accounts_ok_identities [OF assms(1)] assms(2)]
        identity_found_by_id [OF accounts_ok_identities [OF assms(1)], of j] by simp
    ultimately show thesis using that \<open>w1 = w\<close> by blast
  qed
qed

lemma oauth_resolve_keeps_ok:
  "keeps accounts_ok (oauth_resolve_identity now iid provider p allow)"
  unfolding oauth_resolve_identity_def oauth_new_identity_def
  by (intro keeps_rules keeps_accounts_ok leaves_rules; auto)

lemma oauth_door:
  assumes "accounts_ok w" "login_oauth x now tok iid uid tid provider p allow c w = (Inr (LoginSuccess t e), w')"
  shows "\<exists>m i. session_for x now tid c w (LoginSuccess t e) w' m i"
proof -
  from assms(2) obtain w0 i w1 mo v u w2 eff w3 where dom: "oauth_check_domain x now tid p w = (Inr (), w0)"
    and res: "oauth_resolve_identity now iid provider p allow w0 = (Inr i, w1)"
    and mem: "users_get_membership (i_id i) tid w1 = (Inr mo, v)" "(case mo of Some u \<Rightarrow> ret u
       | None \<Rightarrow> if allow then users_create now uid i tid None else throw (Forbidden ''No membership in this tenant'')) v = (Inr u, w2)"
    and g: "check_gates now u i = Inr ()" "effective_login_methods x now tid u w2 = (Inr eff, w3)"
    "finalize_login x now tok tid u i c w3 = (Inr (LoginSuccess t e), w')"
    unfolding login_oauth_def bindE_Inr_iff bindE_lift bindE_unless guard_Inr_iff case_res_Inr_iff by auto
  have "leaves accounts (oauth_check_domain x now tid p)"
    unfolding oauth_check_domain_def by (intro leaves_rules)
  then have acc: "accounts w0 = accounts w" using dom by (rule leavesD)
  then have "accounts_ok w0" using assms(1) by (simp add: accounts_fields accounts_ok_def)
  then have ok: "accounts_ok w1" by (rule keepsD [OF oauth_resolve_keeps_ok _ res])
  obtain m where m: "u = row_to_user m i" "m \<in> set (t_users w2)" "m_tenant_id m = tid" "m_identity_id m = i_id i"
    by (rule oauth_membership [OF ok oauth_resolve_Inr(2) [OF res] mem(1,2)])
  have "i \<in> set (t_identities w) \<or> i_id i \<notin> i_id ` set (t_identities w)"
    using oauth_resolve_Inr(1) [OF res] acc by (auto simp: oauth_source_def accounts_fields)
  then have "session_for x now tid c w (LoginSuccess t e) w' m i"
    using m gates_admissible [of now m i i] g(1) accounts_effective [OF g(2)]
    by (intro finalize_session_for [OF g(3) [unfolded m(1)]]) (auto simp: accounts_fields)
  then show ?thesis by blast
qed

lemma email_door:
  assumes "accounts_ok w" "login_email_password x now tok tid e pw c w = (Inr (LoginSuccess t e'), w')"
  shows "\<exists>m i. session_for x now tid c w (LoginSuccess t e') w' m i"
proof -
  from assms(2) obtain v where v: "ensure_email_domain_allowed x now tid e w = (Inr (), v)"
    "bindE (get_or (Unauthorized ''Invalid email or password'') (users_get_by_email tid e))
       (\<lambda>u. do_password_login x now tok tid u pw c LOGIN_METHOD_EMAIL_PASSWORD) v = (Inr (LoginSuccess t e'), w')"
    by (auto simp: login_email_password_def bindE_Inr_iff)
  then obtain u where u: "fetch_user (\<lambda>m i. m_tenant_id m = tid \<and> i_email i = Some e) v = (Inr (Some u), v)"
    "do_password_login x now tok tid u pw c LOGIN_METHOD_EMAIL_PASSWORD v = (Inr (LoginSuccess t e'), w')"
    by (auto simp: bindE_Inr_iff users_get_by_email_def fetch_user_def split: option.splits)
  have acc: "accounts v = accounts w" by (rule leavesD [OF config_leaves_accounts(6) v(1)])
  then have "accounts_ok v" using assms(1) by (simp add: accounts_fields accounts_ok_def)
  then show ?thesis using acc by (intro password_door [OF _ u(1) _ u(2)]) auto
qed

lemma username_door:
  assumes "accounts_ok w" "login_username_password x now tok tid n pw c w = (Inr (LoginSuccess t e'), w')"
  shows "\<exists>m i. session_for x now tid c w (LoginSuccess t e') w' m i"
proof -
  obtain u where u: "fetch_user (\<lambda>m i. m_tenant_id m = tid \<and> m_username m = Some n) w = (Inr (Some u), w)"
    "do_password_login x now tok tid u pw c LOGIN_METHOD_USERNAME_PASSWORD w = (Inr (LoginSuccess t e'), w')"
    using assms(2) by (auto simp: login_username_password_def bindE_Inr_iff users_get_by_username_def fetch_user_def split: option.splits)
  then show ?thesis by (intro password_door [OF assms(1) u(1) _ u(2)]) auto
qed

lemma second_factor_door:
  assumes "accounts_ok w" "get_challenge now mt w = (Inr (Some ch), w)" "mc_tenant_id ch = tid"
    and "complete_mfa_login x now tok mt code c w = (Inr r, w')"
  shows "\<exists>m i. session_for x now tid c w r w' m i"
proof -
  obtain ch' m i w1 w3 where r: "get_challenge now mt w = (Inr (Some ch'), w)" "mc_attempt_count ch' < 5"
    "m \<in> set (t_users w)" "i \<in> set (t_identities w)" "m_tenant_id m = mc_tenant_id ch'" "m_id m = mc_user_id ch'"
    "admissible now m i" "mfa_verify x now i code w = (Inr True, w1)"
    "t_challenges w' = filter (\<lambda>r. ch_token r \<noteq> mt) (t_challenges w1)"
    "do_create_session x now tok (mc_tenant_id ch') (row_to_user m i) c w3 = (Inr r, w')"
    using assms(1,4) by (rule complete_mfa_accepted)
  have "prefix (t_users w) (t_users w')"
    using open_step_extends [OF open_step.mfa_login [OF assms(4)]] by (simp add: extends_accounts_def)
  then have "m \<in> set (t_users w')" using r(3) set_mono_prefix by blast
  with r assms(2,3) show ?thesis by (auto simp: session_for_def)
qed

lemma door_session:
  assumes "login_door x now tid c w r w'" "accounts_ok w" "r = LoginSuccess t e"
  shows "\<exists>m i. session_for x now tid c w r w' m i"
  using assms
proof (induction rule: login_door.induct)
  case (select_token tok it w r w')
  then obtain iid where "select_tenant x now tok iid tid c w = (Inr r, w')"
    by (auto simp: select_tenant_with_token_def bindE_Inr_iff identity_tokens_get_valid_def split: option.splits)
  then show ?case using select_token by (blast intro: select_door)
qed (blast intro: email_door username_door otp_door oauth_door select_door second_factor_door)+

lemma door_step: "login_door x now tid c w r w' \<Longrightarrow> open_step x w w'"
  by (induction rule: login_door.induct) (blast intro: open_step.intros)+

subsection \<open>Properties\<close>

text \<open>
  C1. Whatever door a session was obtained through (password by e-mail or username, one-time code,
  provider, tenant selection after an identity-first login, second factor), it was created for
  a membership of the tenant that was active, with an active identity that was not locked, within
  the access period, at the instant of the login.
\<close>

theorem every_door_is_gated:
  assumes "accounts_ok w" "login_door x now tid c w (LoginSuccess t e) w'"
  shows "\<exists>m i tok w1. m \<in> set (t_users w') \<and> m_tenant_id m = tid \<and> m_status m = ''active'' \<and> i_id i = m_identity_id m \<and>
    (i \<in> set (t_identities w) \<or> i_id i \<notin> i_id ` set (t_identities w)) \<and> i_status i = ''active'' \<and>
    (\<forall>l. i_locked_until i = Some l \<longrightarrow> l \<le> now) \<and> (\<forall>v. m_access_valid_until m = Some v \<longrightarrow> now \<le> v) \<and>
    do_create_session x now tok tid (row_to_user m i) c w1 = (Inr (LoginSuccess t e), w')"
proof -
  obtain m i where "session_for x now tid c w (LoginSuccess t e) w' m i"
    using door_session [OF assms(2,1) refl] by blast
  then show ?thesis
    by (intro exI [of _ m] exI [of _ i]) (auto simp: session_for_def admissible_def split: option.splits)
qed

theorem every_door_is_gated_witness:
  "\<exists>m. m \<in> set (t_users (snd (login_username_password ext0 0 ''tok'' ''acme'' ''ann'' ''pw'' (None, None) (login_world (login_identity0 0 None 0)))))
     \<and> m_status m = ''active''"
proof -
  let ?w = "login_world (login_identity0 0 None 0)"
  let ?r = "login_username_password ext0 0 ''tok'' ''acme'' ''ann'' ''pw'' (None, None) ?w"
  have "fst ?r = Inr (LoginSuccess ''tok'' (secs 86400))" by code_simp
  then have r: "?r = (Inr (LoginSuccess ''tok'' (secs 86400)), snd ?r)" by (metis prod.collapse)
  have "accounts_ok ?w" by (rule login_world_ok) (simp_all add: login_identity0_def mobile_pair_def)
  from every_door_is_gated [OF this login_door.username_password [OF r]] show ?thesis by blast
qed

lemma unique_on_same: "unique_on f xs \<Longrightarrow> a \<in> set xs \<Longrightarrow> b \<in> set xs \<Longrightarrow> f a = Some k \<Longrightarrow> f b = Some k \<Longrightarrow> a = b"
  by (induction xs) (auto simp: unique_on_def set_keyed split: option.splits)

lemma archive_Inr:
  assumes "admin_archive_user now tid uid w = (Inr (), w')"
  obtains m where "m \<in> set (t_users w')" "m_id m = uid" "m_tenant_id m = tid" "m_status m = ''archived''"
proof -
  obtain uo where uo: "users_get_by_id tid uid w = (Inr uo, w)" by (auto simp: users_get_by_id_def fetch_user_def)
  let ?P = "\<lambda>m. m_tenant_id m = tid \<and> m_id m = uid \<and> m_status m \<noteq> ''archived''"
  from uo assms have n: "0 < rows_affected ?P (t_users w)"
    and w': "w' = t_users_update (update_rows ?P (\<lambda>m. m\<lparr>m_status := ''archived'', m_updated_at := now\<rparr>)) w"
    by (cases uo; auto simp: admin_archive_user_def users_archive_def Let_def counting_def split: if_splits)+
  then obtain m where "m \<in> set (t_users w)" "?P m" by (auto simp: rows_affected_def filter_empty_conv)
  then have "m\<lparr>m_status := ''archived'', m_updated_at := now\<rparr> \<in> set (t_users w')"
    unfolding w' by (auto simp: set_update_rows)
  with \<open>?P m\<close> show thesis using that by auto
qed

text \<open>
  C14. An archived user cannot sign in any more: after an administrator archived a user, and
  whatever sign-ups, logins and invites happen in between, no door of the tenant yields a
  session of that user; every session obtained is another member's.
\<close>

theorem archived_user_cannot_login:
  assumes "accounts_ok w0" "admin_archive_user now0 tid uid w0 = (Inr (), w1)" "(open_step x)\<^sup>*\<^sup>* w1 w2"
    and "login_door x now tid c w2 (LoginSuccess t e) w3"
  shows "\<exists>u tok w4. do_create_session x now tok tid u c w4 = (Inr (LoginSuccess t e), w3) \<and> u_id u \<noteq> uid"
proof -
  obtain a where a: "a \<in> set (t_users w1)" "m_id a = uid" "m_status a = ''archived''"
    using assms(2) by (rule archive_Inr)
  have run: "(account_step x)\<^sup>*\<^sup>* w1 w2"
    using assms(3) by (rule rtranclp_mono [THEN predicate2D, rotated]) (blast intro: account_step.opened)
  have "accounts_ok w1" using assms(1,2) by (blast intro: password_operations_keep [THEN keepsD])
  with run have ok2: "accounts_ok w2" by (induction rule: rtranclp_induct) (auto intro: account_step_ok)
  obtain m i where s: "session_for x now tid c w2 (LoginSuccess t e) w3 m i"
    using door_session [OF assms(4) ok2 refl] by blast
  have "open_step x w2 w3" using assms(4) by (rule door_step)
  then have ok3: "accounts_ok w3" and ext: "extends_accounts w2 w3"
    using ok2 by (blast intro: open_step_ok open_step_extends)+
  have "extends_accounts w1 w2"
    using assms(3) by (induction rule: rtranclp_induct) (auto intro: extends_accounts_refl extends_accounts_trans open_step_extends)
  with ext have "a \<in> set (t_users w3)"
    using a(1) by (auto simp: extends_accounts_def dest!: set_mono_prefix)
  moreover have "m \<in> set (t_users w3)" "m_status m = ''active''" using s by (simp_all add: session_for_def admissible_def)
  ultimately have "m_id m \<noteq> uid"
    using ok3 a(2,3) unique_on_same [of user_id_key "t_users w3" a m uid]
    unfolding accounts_ok_def users_table_ok_def user_id_key_def by fastforce
  moreover obtain tok w4 where "do_create_session x now tok tid (row_to_user m i) c w4 = (Inr (LoginSuccess t e), w3)"
    using s unfolding session_for_def by blast
  ultimately show ?thesis by (intro exI [of _ "row_to_user m i"]) (simp, blast)
qed

theorem archived_user_cannot_login_witness:
  "\<exists>w1 w3 u tok w4. admin_archive_user 0 ''acme'' 6 ((login_world (login_identity0 0 None 0))\<lparr>
        t_users := [hd (t_users (login_world (login_identity0 0 None 0))),
          (hd (t_users (login_world (login_identity0 0 None 0))))\<lparr>m_id := 6, m_identity_id := 8, m_username := None\<rparr>],
        t_identities := [login_identity0 0 None 0, (login_identity0 0 None 0)\<lparr>i_id := 8, i_email := None\<rparr>]\<rparr>) = (Inr (), w1) \<and>
     login_username_password ext0 0 ''tok'' ''acme'' ''ann'' ''pw'' (None, None) w1 = (Inr (LoginSuccess ''tok'' (secs 86400)), w3) \<and>
     do_create_session ext0 0 tok ''acme'' u (None, None) w4 = (Inr (LoginSuccess ''tok'' (secs 86400)), w3) \<and> u_id u \<noteq> 6"
proof -
  let ?m = "hd (t_users (login_world (login_identity0 0 None 0)))"
  let ?w = "(login_world (login_identity0 0 None 0))\<lparr>t_users := [?m, ?m\<lparr>m_id := 6, m_identity_id := 8, m_username := None\<rparr>],
    t_identities := [login_identity0 0 None 0, (login_identity0 0 None 0)\<lparr>i_id := 8, i_email := None\<rparr>]\<rparr>"
  let ?w1 = "snd (admin_archive_user 0 ''acme'' 6 ?w)"
  let ?r = "login_username_password ext0 0 ''tok'' ''acme'' ''ann'' ''pw'' (None, None) ?w1"
  have "fst (admin_archive_user 0 ''acme'' 6 ?w) = Inr ()" by code_simp
  then have a: "admin_archive_user 0 ''acme'' 6 ?w = (Inr (), ?w1)" by (metis prod.collapse)
  have "fst ?r = Inr (LoginSuccess ''tok'' (secs 86400))" by code_simp
  then have r: "?r = (Inr (LoginSuccess ''tok'' (secs 86400)), snd ?r)" by (metis prod.collapse)
  have "accounts_ok ?w"
    by (simp add: accounts_ok_def identity_table_ok_def users_table_ok_def unique_on_def login_identity0_def login_world_def
        id_key_def email_key_def mobile_key_def mobile_pair_def user_id_key_def membership_key_def username_key_def)
  from archived_user_cannot_login [OF this a rtranclp.rtrancl_refl login_door.username_password [OF r]] a r
  show ?thesis by blast
qed

text \<open>
  C18. A provider sign-in never takes over somebody's account: the identity it resolves to was linked to
  this provider account before, or carries the e-mail address that the provider verified, or is
  new (sign-up being allowed, and no identity having the profile's address); and from then on
  the provider account is linked to it.
\<close>

theorem oauth_identity_sound:
  assumes "oauth_resolve_identity now iid provider p allow w = (Inr i, w')"
  shows "(oauth_get_linked_identity provider (op_provider_user_id p) w = (Inr (Some (i_id i)), w) \<or>
      (\<exists>e. i \<in> set (t_identities w) \<and> op_email_verified p \<and> op_email p = Some e \<and> email_key i = Some (to_lowercase e)) \<or>
      (allow \<and> i_id i \<notin> i_id ` set (t_identities w) \<and>
         (\<forall>e. op_email p = Some e \<longrightarrow> (\<forall>j \<in> set (t_identities w). email_key j \<noteq> Some (to_lowercase e))))) \<and>
    i \<in> set (t_identities w') \<and> oauth_get_linked_identity provider (op_provider_user_id p) w' = (Inr (Some (i_id i)), w')"
  using oauth_resolve_Inr [OF assms] unfolding oauth_source_def by (cases "op_email p") auto

theorem oauth_identity_sound_witness:
  "\<exists>w'. oauth_get_linked_identity ''google'' ''g1'' w' = (Inr (Some 7), w')"
proof -
  let ?p = "\<lparr>op_provider_user_id = ''g1'', op_email = Some ''Ann@acme.io'', op_email_verified = True, op_first_name = None,
    op_last_name = None\<rparr>"
  let ?w = "login_world (login_identity0 0 None 0)"
  let ?r = "oauth_resolve_identity 0 9 ''google'' ?p False ?w"
  have "fst ?r = Inr (login_identity0 0 None 0)" by code_simp
  then have "?r = (Inr (login_identity0 0 None 0), snd ?r)" by (metis prod.collapse)
  from oauth_identity_sound [OF this] show ?thesis by (auto simp: login_identity0_def)
qed

text \<open>
  The eighth way to a session, the forced password change, checks the access period only: an
  archived member with a live change token obtains a session through it.
\<close>

lemma forced_change_skips_gates:
  "\<exists>w. m_status (hd (t_users w)) = ''archived'' \<and>
     fst (force_change_password ext0 0 ''tok'' ''s'' ''ct'' ''new'' ''new'' (None, None) w) = Inr (LoginSuccess ''tok'' (secs 86400))"
proof (intro exI conjI)
  let ?w = "(login_world (login_identity0 0 None 0))\<lparr>t_users := [(hd (t_users (login_world (login_identity0 0 None 0))))\<lparr>m_status := ''archived''\<rparr>],
     t_change_tokens := [\<lparr>ct_tenant_id = ''acme'', ct_user_id = 5, ct_token = ''ct'', ct_expires_at = secs 10\<rparr>]\<rparr>"
  show "m_status (hd (t_users ?w)) = ''archived''" by simp
  show "fst (force_change_password ext0 0 ''tok'' ''s'' ''ct'' ''new'' ''new'' (None, None) ?w) = Inr (LoginSuccess ''tok'' (secs 86400))"
    by code_simp
qed

end
