(* ===== verification/Oauth.thy ===== *)
theory Oauth
  imports Auth_Doors
begin

section \<open>Sign-in through a provider\<close>

text \<open>
  \<^verbatim>\<open>src/services/oauth.rs\<close> and the two OAuth handlers of \<^verbatim>\<open>src/routes/auth.rs\<close>. The provider and the
  HTTP, JWT and URL libraries are the record \<open>oidc\<close>: what the token and key endpoints answer to a
  request, what decoding a token under a key and the required claims yields. The service's own state
  is the stored \<open>world\<close> and the cache of signing keys. The tokens drawn at random are arguments.
\<close>

datatype provider = Google | Microsoft

definition provider_parse :: "string \<Rightarrow> provider result" where
  "provider_parse s = (if s = ''google'' then Inr Google else if s = ''microsoft'' then Inr Microsoft
     else Inl (NotFound (''Unsupported OAuth provider '' @ [CHR 0x27] @ s @ [CHR 0x27])))"

fun provider_str :: "provider \<Rightarrow> string" where
  "provider_str Google = ''google''" | "provider_str Microsoft = ''microsoft''"

definition STATE_TTL_MINS :: int where "STATE_TTL_MINS = 10"
definition OIDC_SCOPES :: string where "OIDC_SCOPES = ''openid email profile''"
definition JWKS_CACHE_TTL_SECS :: int where "JWKS_CACHE_TTL_SECS = 3600"
definition JWKS_MIN_REFRESH_SECS :: int where "JWKS_MIN_REFRESH_SECS = 60"
definition GOOGLE_ISSUERS :: "string list" where
  "GOOGLE_ISSUERS = [''https://accounts.google.com'', ''accounts.google.com'']"
definition MICROSOFT_LOGIN_BASE :: string where "MICROSOFT_LOGIN_BASE = ''https://login.microsoftonline.com''"
definition MICROSOFT_DEFAULT_AUTHORITY :: string where "MICROSOFT_DEFAULT_AUTHORITY = ''common''"
definition MICROSOFT_CONSUMERS_TENANT_ID :: string where
  "MICROSOFT_CONSUMERS_TENANT_ID = ''9188040d-6c67-4c5b-b112-36a304b66dad''"

definition microsoft_authority :: "oauth_config \<Rightarrow> string" where
  "microsoft_authority cfg = (case non_empty_trim (oc_tenant cfg) of None \<Rightarrow> MICROSOFT_DEFAULT_AUTHORITY | Some t \<Rightarrow> t)"

record provider_endpoints =
  pe_google_auth_url :: string
  pe_google_token_url :: string
  pe_google_jwks_url :: string
  pe_microsoft_login_base :: string

definition default_endpoints :: provider_endpoints where
  "default_endpoints = \<lparr>pe_google_auth_url = ''https://accounts.google.com/o/oauth2/v2/auth'',
     pe_google_token_url = ''https://oauth2.googleapis.com/token'',
     pe_google_jwks_url = ''https://www.googleapis.com/oauth2/v3/certs'',
     pe_microsoft_login_base = MICROSOFT_LOGIN_BASE\<rparr>"

definition microsoft_url :: "provider_endpoints \<Rightarrow> oauth_config \<Rightarrow> string \<Rightarrow> string" where
  "microsoft_url ep cfg path = pe_microsoft_login_base ep @ ''/'' @ microsoft_authority cfg @ path"

fun auth_url :: "provider_endpoints \<Rightarrow> provider \<Rightarrow> oauth_config \<Rightarrow> string" where
  "auth_url ep Google cfg = pe_google_auth_url ep"
| "auth_url ep Microsoft cfg = microsoft_url ep cfg ''/oauth2/v2.0/authorize''"

fun token_url :: "provider_endpoints \<Rightarrow> provider \<Rightarrow> oauth_config \<Rightarrow> string" where
  "token_url ep Google cfg = pe_google_token_url ep"
| "token_url ep Microsoft cfg = microsoft_url ep cfg ''/oauth2/v2.0/token''"

fun jwks_url :: "provider_endpoints \<Rightarrow> provider \<Rightarrow> oauth_config \<Rightarrow> string" where
  "jwks_url ep Google cfg = pe_google_jwks_url ep"
| "jwks_url ep Microsoft cfg = microsoft_url ep cfg ''/discovery/v2.0/keys''"

subsection \<open>The provider and the libraries\<close>

record id_token_claims =
  cl_iss :: string
  cl_sub :: string
  cl_nonce :: "string option"
  cl_email :: "string option"
  cl_email_verified :: "json option"
  cl_given_name :: "string option"
  cl_family_name :: "string option"
  cl_name :: "string option"
  cl_oid :: "string option"
  cl_tid :: "string option"
  cl_xms_edov :: "json option"

text \<open>An answer of the token endpoint: none, a failure status with its error, a success with a body.\<close>

datatype token_reply =
    SendFailed string
  | Rejected "string option"
  | BadBody string
  | TokenBody "string option"

datatype keys_reply = FetchFailed string | BadKeys string | KeySet "(string \<times> string) list"

record validation =
  va_audience :: string
  va_required :: "string list"
  va_issuers :: "string list option"

record oidc =
  od_b64url :: "string \<Rightarrow> string"
  od_url_with_params :: "string \<Rightarrow> (string \<times> string) list \<Rightarrow> string + string"
  od_post_token :: "string \<Rightarrow> (string \<times> string) list \<Rightarrow> token_reply"
  od_get_keys :: "string \<Rightarrow> time \<Rightarrow> keys_reply"
  od_decode_header :: "string \<Rightarrow> string + bool \<times> string option"
  od_key_of_jwk :: "string \<Rightarrow> string + string"
  od_decode :: "string \<Rightarrow> string \<Rightarrow> validation \<Rightarrow> time \<Rightarrow> string + id_token_claims"
  od_is_uuid :: "string \<Rightarrow> bool"

record oauth_app =
  oa_world :: world
  oa_jwks :: "string \<Rightarrow> ((string \<times> string) list \<times> time) option"

definition on_stores :: "'a op \<Rightarrow> (oauth_app, 'a) io" where
  "on_stores m s = (case m (oa_world s) of (r, w) \<Rightarrow> (r, s\<lparr>oa_world := w\<rparr>))"

subsection \<open>Starting a sign-in\<close>

definition pkce_challenge :: "ext \<Rightarrow> oidc \<Rightarrow> string \<Rightarrow> string" where
  "pkce_challenge x od verifier = od_b64url od (x_sha256 x verifier)"

definition oauth_load_config :: "ext \<Rightarrow> time \<Rightarrow> string \<Rightarrow> provider \<Rightarrow> oauth_config op" where
  "oauth_load_config x now tenant_id provider =
     get_or (BadRequest (''OAuth provider '' @ [CHR 0x27] @ provider_str provider @ [CHR 0x27] @ '' is not configured for this tenant''))
       (get_oauth x now tenant_id (provider_str provider))"

definition authorize_params :: "ext \<Rightarrow> oidc \<Rightarrow> oauth_config \<Rightarrow> string \<Rightarrow> string \<Rightarrow> string \<Rightarrow> (string \<times> string) list" where
  "authorize_params x od cfg state verifier nonce = [
     (''client_id'', oc_client_id cfg), (''response_type'', ''code''), (''redirect_uri'', oc_redirect_url cfg),
     (''scope'', OIDC_SCOPES), (''state'', state), (''nonce'', nonce),
     (''code_challenge'', pkce_challenge x od verifier), (''code_challenge_method'', ''S256''), (''prompt'', ''select_account'')]"

definition authorization_url ::
  "ext \<Rightarrow> oidc \<Rightarrow> provider_endpoints \<Rightarrow> time \<Rightarrow> string \<times> string \<times> string \<Rightarrow> string \<Rightarrow> provider \<Rightarrow> (string \<times> string) op" where
  "authorization_url x od ep now = (\<lambda>(state, verifier, nonce) tenant_id provider.
     bindE (oauth_load_config x now tenant_id provider) (\<lambda>cfg.
     bindE (oauth_create_state now state tenant_id (provider_str provider) verifier nonce (now + minutes STATE_TTL_MINS)) (\<lambda>_.
     bindE (lift (map_err (\<lambda>e. Internal (''Invalid OAuth authorize URL: '' @ e))
              (od_url_with_params od (auth_url ep provider cfg) (authorize_params x od cfg state verifier nonce)))) (\<lambda>url.
       ret (url, state)))))"

subsection \<open>Finishing it\<close>

definition claim_is_true :: "json option \<Rightarrow> bool" where
  "claim_is_true v = (case v of Some (JBool b) \<Rightarrow> b | Some (JStr s) \<Rightarrow> to_lowercase s = ''true'' | _ \<Rightarrow> False)"

definition exchange_code :: "oidc \<Rightarrow> provider_endpoints \<Rightarrow> provider \<Rightarrow> oauth_config \<Rightarrow> string \<Rightarrow> string \<Rightarrow> string result" where
  "exchange_code od ep provider cfg code pkce_verifier =
     (case od_post_token od (token_url ep provider cfg) [
         (''grant_type'', ''authorization_code''), (''code'', code), (''redirect_uri'', oc_redirect_url cfg),
         (''client_id'', oc_client_id cfg), (''client_secret'', oc_client_secret cfg), (''code_verifier'', pkce_verifier)] of
       SendFailed e \<Rightarrow> Inl (Internal (''OAuth token request failed: '' @ e))
     | Rejected e \<Rightarrow> Inl (Unauthorized (''OAuth code exchange failed: '' @ (case e of None \<Rightarrow> ''unknown_error'' | Some e \<Rightarrow> e)))
     | BadBody e \<Rightarrow> Inl (Internal (''Invalid OAuth token response: '' @ e))
     | TokenBody id_token \<Rightarrow> ok_or (Unauthorized ''Provider did not return an ID token'') id_token)"

definition check_microsoft_issuer :: "oidc \<Rightarrow> oauth_config \<Rightarrow> id_token_claims \<Rightarrow> unit result" where
  "check_microsoft_issuer od cfg claims =
     bind_res (ok_or (Unauthorized ''ID token has no tenant id'') (cl_tid claims)) (\<lambda>tid.
     bind_res (ensure (cl_iss claims = MICROSOFT_LOGIN_BASE @ ''/'' @ tid @ ''/v2.0'') (Unauthorized ''Invalid ID token issuer'')) (\<lambda>_.
     let authority = to_lowercase (microsoft_authority cfg);
         allowed = (if authority = ''common'' then True
           else if authority = ''organizations'' then tid \<noteq> MICROSOFT_CONSUMERS_TENANT_ID
           else if authority = ''consumers'' then tid = MICROSOFT_CONSUMERS_TENANT_ID
           else if od_is_uuid od authority then to_lowercase tid = to_lowercase authority else True) in
     ensure allowed (Forbidden ''This Microsoft account is not permitted for this tenant'')))"

text \<open>\<^verbatim>\<open>Instant::elapsed().as_secs()\<close>: whole seconds.\<close>

definition elapsed_secs :: "time \<Rightarrow> time \<Rightarrow> int" where
  "elapsed_secs since now = (now - since) div 1000000"

definition find_jwk :: "oidc \<Rightarrow> time \<Rightarrow> string \<Rightarrow> string \<Rightarrow> (oauth_app, string) io" where
  "find_jwk od now url kid =
     (let unknown = Unauthorized ''Unknown ID token signing key'';
          fetch = (case od_get_keys od url now of
              FetchFailed e \<Rightarrow> throw (Internal (''Failed to fetch provider signing keys: '' @ e))
            | BadKeys e \<Rightarrow> throw (Internal (''Invalid provider signing keys: '' @ e))
            | KeySet keys \<Rightarrow>
                bindE (modify (\<lambda>s. s\<lparr>oa_jwks := (oa_jwks s)(url \<mapsto> (keys, now))\<rparr>)) (\<lambda>_. lift (ok_or unknown (map_of keys kid)))) in
      bindE (gets (\<lambda>s. oa_jwks s url)) (\<lambda>cached. case cached of
        None \<Rightarrow> fetch
      | Some (keys, fetched_at) \<Rightarrow>
          (let age = elapsed_secs fetched_at now in
           case (if age < JWKS_CACHE_TTL_SECS then map_of keys kid else None) of
             Some jwk \<Rightarrow> ret jwk
           | None \<Rightarrow> if age < JWKS_MIN_REFRESH_SECS then throw unknown else fetch)))"

definition token_validation :: "provider \<Rightarrow> oauth_config \<Rightarrow> validation" where
  "token_validation provider cfg = \<lparr>va_audience = oc_client_id cfg, va_required = [''exp'', ''iss'', ''aud'', ''sub''],
     va_issuers = (if provider = Google then Some GOOGLE_ISSUERS else None)\<rparr>"

definition verify_id_token ::
  "oidc \<Rightarrow> provider_endpoints \<Rightarrow> time \<Rightarrow> provider \<Rightarrow> oauth_config \<Rightarrow> string \<Rightarrow> (oauth_app, id_token_claims) io" where
  "verify_id_token od ep now provider cfg id_token =
     (let invalid = (\<lambda>e. Unauthorized (''Invalid ID token: '' @ e)) in
      bindE (lift (map_err invalid (od_decode_header od id_token))) (\<lambda>(rs256, kid0).
      bindE (unless rs256 (Unauthorized ''Unexpected ID token algorithm'')) (\<lambda>_.
      bindE (lift (ok_or (Unauthorized ''ID token has no key id'') kid0)) (\<lambda>kid.
      bindE (find_jwk od now (jwks_url ep provider cfg) kid) (\<lambda>jwk.
      bindE (lift (map_err invalid (od_key_of_jwk od jwk))) (\<lambda>dkey.
      bindE (lift (map_err invalid (od_decode od id_token dkey (token_validation provider cfg) now))) (\<lambda>claims.
      bindE (lift (if provider = Microsoft then check_microsoft_issuer od cfg claims else Inr ())) (\<lambda>_.
        ret claims))))))))"

text \<open>\<^verbatim>\<open>split_once(char::is_whitespace)\<close>.\<close>

fun split_ws :: "string \<Rightarrow> (string \<times> string) option" where
  "split_ws [] = None"
| "split_ws (c # s) = (if is_whitespace c then Some ([], s) else map_option (\<lambda>(a, b). (c # a, b)) (split_ws s))"

definition provider_account :: "provider \<Rightarrow> id_token_claims \<Rightarrow> (string \<times> bool) result" where
  "provider_account provider claims = (case provider of
     Google \<Rightarrow> Inr (cl_sub claims, claim_is_true (cl_email_verified claims))
   | Microsoft \<Rightarrow> (let tid = (case cl_tid claims of None \<Rightarrow> [] | Some t \<Rightarrow> t) in
       bind_res (ok_or (Unauthorized ''ID token has no object id'') (non_empty_trim (cl_oid claims))) (\<lambda>oid.
         Inr (tid @ '':'' @ oid, claim_is_true (cl_xms_edov claims) \<or> tid = MICROSOFT_CONSUMERS_TENANT_ID))))"

definition profile_names :: "id_token_claims \<Rightarrow> string option \<times> string option" where
  "profile_names claims =
     (let first = non_empty_trim (cl_given_name claims); last = non_empty_trim (cl_family_name claims) in
      if first = None \<and> last = None then
        (case non_empty_trim (cl_name claims) of
           None \<Rightarrow> (None, None)
         | Some full \<Rightarrow> (case split_ws full of Some (f, l) \<Rightarrow> (Some f, non_empty_trim (Some l)) | None \<Rightarrow> (Some full, None)))
      else (first, last))"

definition profile_from_claims :: "provider \<Rightarrow> id_token_claims \<Rightarrow> oauth_profile result" where
  "profile_from_claims provider claims =
     (let email = map_option to_lowercase (non_empty_trim (cl_email claims)) in
      bind_res (provider_account provider claims) (\<lambda>(provider_user_id, email_verified).
        Inr \<lparr>op_provider_user_id = provider_user_id, op_email = email, op_email_verified = email_verified \<and> email \<noteq> None,
             op_first_name = fst (profile_names claims), op_last_name = snd (profile_names claims)\<rparr>))"

record oauth_callback_result =
  ocb_tenant_id :: string
  ocb_profile :: oauth_profile
  ocb_allow_signup :: bool

definition oauth_complete ::
  "ext \<Rightarrow> oidc \<Rightarrow> provider_endpoints \<Rightarrow> time \<Rightarrow> provider \<Rightarrow> string \<Rightarrow> string \<Rightarrow> (oauth_app, oauth_callback_result) io" where
  "oauth_complete x od ep now provider code state =
     bindE (on_stores (get_or (Unauthorized ''Invalid or expired OAuth state'') (oauth_take_state now state))) (\<lambda>pending.
     bindE (unless (st_provider pending = provider_str provider) (Unauthorized ''OAuth state does not match provider'')) (\<lambda>_.
     bindE (on_stores (oauth_load_config x now (st_tenant_id pending) provider)) (\<lambda>cfg.
     bindE (lift (exchange_code od ep provider cfg code (st_pkce_verifier pending))) (\<lambda>id_token.
     bindE (verify_id_token od ep now provider cfg id_token) (\<lambda>claims.
     bindE (unless (cl_nonce claims = Some (st_nonce pending)) (Unauthorized ''ID token nonce mismatch'')) (\<lambda>_.
     bindE (lift (profile_from_claims provider claims)) (\<lambda>profile.
       ret \<lparr>ocb_tenant_id = st_tenant_id pending, ocb_profile = profile,
            ocb_allow_signup = (case oc_allow_signup cfg of None \<Rightarrow> True | Some b \<Rightarrow> b)\<rparr>)))))))"

subsection \<open>Handlers\<close>

definition oauth_redirect ::
  "ext \<Rightarrow> oidc \<Rightarrow> provider_endpoints \<Rightarrow> time \<Rightarrow> string \<times> string \<times> string \<Rightarrow> string \<Rightarrow> string \<Rightarrow> (string \<times> string) op" where
  "oauth_redirect x od ep now fresh tenant_id provider_name =
     bindE (lift (provider_parse provider_name)) (authorization_url x od ep now fresh tenant_id)"

record oauth_callback_query =
  cq_code :: "string option"
  cq_state :: "string option"
  cq_error :: "string option"
  cq_error_description :: "string option"

definition callback_params :: "oauth_callback_query \<Rightarrow> (string \<times> string) result" where
  "callback_params query = (case cq_error query of
     Some e \<Rightarrow> Inl (Unauthorized (''OAuth sign-in failed: '' @ (case cq_error_description query of None \<Rightarrow> e | Some d \<Rightarrow> d)))
   | None \<Rightarrow> (case (cq_code query, cq_state query) of
       (Some c, Some s) \<Rightarrow> if c \<noteq> [] \<and> s \<noteq> [] then Inr (c, s) else Inl (BadRequest ''code and state are required'')
     | _ \<Rightarrow> Inl (BadRequest ''code and state are required'')))"

definition oauth_callback ::
  "ext \<Rightarrow> oidc \<Rightarrow> provider_endpoints \<Rightarrow> time \<Rightarrow> string \<Rightarrow> uuid \<Rightarrow> uuid \<Rightarrow> string option \<Rightarrow> string \<Rightarrow> oauth_callback_query
   \<Rightarrow> (oauth_app, login_result) io" where
  "oauth_callback x od ep now tok fresh_identity fresh_user header_tenant provider_name query =
     bindE (lift (provider_parse provider_name)) (\<lambda>provider.
     bindE (lift (callback_params query)) (\<lambda>(code, state).
     bindE (oauth_complete x od ep now provider code state) (\<lambda>callback.
     bindE (unless (case header_tenant of None \<Rightarrow> True | Some t \<Rightarrow> t = ocb_tenant_id callback)
              (Unauthorized ''OAuth state was issued for a different tenant'')) (\<lambda>_.
       on_stores (login_oauth x now tok fresh_identity fresh_user (ocb_tenant_id callback) (provider_str provider)
         (ocb_profile callback) (ocb_allow_signup callback) (None, None))))))"

end
