(* ===== verification/Login_Frames.thy ===== *)
theory Login_Frames
  imports Auth_Doors
begin

section \<open>What logins do not touch\<close>

text \<open>
  Finishing a login writes the sessions, the challenges, the forced-change tokens and the
  configuration cache. A part of the state that ignores those is left alone by every way in.
\<close>

definition login_frame :: "(world \<Rightarrow> 'b) \<Rightarrow> bool" where
  "login_frame f \<longleftrightarrow> (\<forall>h w. f (t_sessions_update h w) = f w) \<and> (\<forall>h w. f (redis_update h w) = f w) \<and>
     (\<forall>h w. f (cfg_cache_update h w) = f w) \<and> (\<forall>h w. f (t_change_tokens_update h w) = f w) \<and>
     (\<forall>h w. f (t_challenges_update h w) = f w)"

lemma login_frame_simps [simp]: "login_frame t_oauth_states" "login_frame t_otp"
  by (simp_all add: login_frame_def)

lemma frame_db: "login_frame f \<Longrightarrow> leaves db m \<Longrightarrow> leaves f m"
  by (rule leavesI) (metis db_def leavesD login_frame_def)

lemma config_frame [leaves_rules]:
  assumes "login_frame f"
  shows "leaves f (get_oauth x now tid p)" "leaves f (effective_login_methods x now tid u)"
    "leaves f (ensure_email_domain_allowed x now tid e)" "leaves f (get_allowed_email_domains x now tid)"
    "leaves f (get_session_policy x now tid)" "leaves f (get_frontend_base_url x now tid)"
proof -
  have base: "leaves db (get_frontend_base_url x now tid)"
    unfolding get_frontend_base_url_def by (intro leaves_rules)
  show "leaves f (get_oauth x now tid p)" "leaves f (effective_login_methods x now tid u)"
    "leaves f (ensure_email_domain_allowed x now tid e)" "leaves f (get_allowed_email_domains x now tid)"
    "leaves f (get_session_policy x now tid)" "leaves f (get_frontend_base_url x now tid)"
    by (intro frame_db [OF assms] config_views_leave effective_login_methods_leaves ensure_email_domain_leaves base)+
qed

lemma session_frame [leaves_rules]:
  assumes "login_frame f"
  shows "leaves f (create_audit x tok tid uid ip ua e pl)" "leaves f (store_set x now tok p ttl)"
proof -
  note f = assms [unfolded login_frame_def]
  have audit: "leaves f (create_audit x tok tid uid ip ua e pl)" for tid uid ip ua e pl
    unfolding create_audit_def by (rule leaves_insert) (simp add: f)
  then show "leaves f (create_audit x tok tid uid ip ua e pl)" .
  show "leaves f (store_set x now tok p ttl)"
    unfolding store_set_def redis_set_def rd_setex_def rd_put_def rd_sadd_expire_def rd_smembers_def rd_put_set_def pg_set_def
    by (intro leaves_rules leaves_modify audit) (simp_all add: f)
qed

lemma finalize_frame [leaves_rules]:
  assumes "login_frame f"
  shows "leaves f (finalize_login x now tok tid u i c)"
proof -
  note f = assms [unfolded login_frame_def]
  have session: "leaves f (do_create_session x now tok tid u c)" for tid u c
    unfolding do_create_session_def Let_def by (intro leaves_rules assms leaves_readonly; simp)
  have change: "leaves f (change_tokens_create s tok e)" for s e
    unfolding change_tokens_create_def by (intro leaves_rules leaves_insert leaves_delete; simp add: f)
  have challenge: "leaves f (create_challenge now tok tid uid e)" for tid uid e
    unfolding create_challenge_def by (intro leaves_rules leaves_insert leaves_delete; simp add: f)
  show ?thesis
    unfolding finalize_login_def issue_force_change_token_def by (intro leaves_rules session change challenge)
qed

lemma otp_login_frame: "login_frame f \<Longrightarrow> leaves f (login_with_verified_otp x now tok tid e c)"
  unfolding login_with_verified_otp_def by (intro leaves_rules)

end
