(* ===== verification/Oauth_Sound.thy ===== *)
theory Oauth_Sound
  imports Oauth Login_Frames
begin

section \<open>What a completed provider sign-in rests on\<close>

text \<open>
  The signing keys in the cache were published by the provider; a completed callback consumed a
  live state of the same provider and tenant, and its ID token was verified under such a key for
  the tenant's client and the state's nonce.
\<close>

subsection \<open>The key cache\<close>

text \<open>The key set fetched less than an hour ago names the key.\<close>

definition published :: "oidc \<Rightarrow> string \<Rightarrow> string \<Rightarrow> string \<Rightarrow> time \<Rightarrow> bool" where
  "published od url kid jwk now \<longleftrightarrow>
     (\<exists>t keys. od_get_keys od url t = KeySet keys \<and> map_of keys kid = Some jwk \<and> now < t + secs 3600)"

definition keys_fetched :: "oidc \<Rightarrow> oauth_app \<Rightarrow> bool" where
  "keys_fetched od s \<longleftrightarrow> (\<forall>url keys t. oa_jwks s url = Some (keys, t) \<longrightarrow> od_get_keys od url t = KeySet keys)"

lemma keys_fetched_world [simp]: "keys_fetched od (s\<lparr>oa_world := w\<rparr>) = keys_fetched od s"
  by (simp add: keys_fetched_def)

lemma keeps_on_stores [keeps_rules, intro]: "keeps (keys_fetched od) (on_stores m)"
  by (rule keepsI) (auto simp: on_stores_def split: prod.splits)

lemma keeps_find_jwk [keeps_rules, intro]: "keeps (keys_fetched od) (find_jwk od now url kid)"
proof -
  have put: "keeps (keys_fetched od) (modify (\<lambda>s. s\<lparr>oa_jwks := (oa_jwks s)(url \<mapsto> (keys, now))\<rparr>))"
    if "od_get_keys od url now = KeySet keys" for keys
    by (rule keeps_modify) (use that in \<open>auto simp: keys_fetched_def\<close>)
  show ?thesis
    unfolding find_jwk_def Let_def by (cases "od_get_keys od url now") (auto intro!: keeps_rules put split: option.split)
qed

lemma keeps_callback: "keeps (keys_fetched od) (oauth_callback x od ep now tok iid uid hdr name q)"
  unfolding oauth_callback_def oauth_complete_def verify_id_token_def Let_def
  by (intro keeps_rules)

lemma elapsed_less: "elapsed_secs t now < 3600 \<Longrightarrow> now < t + secs 3600"
  by (simp add: elapsed_secs_def secs_def)

lemma find_jwk_published:
  assumes "find_jwk od now url kid s = (Inr jwk, s')" "keys_fetched od s"
  shows "published od url kid jwk now"
proof -
  have fetched: ?thesis if "od_get_keys od url now = KeySet keys" "map_of keys kid = Some jwk" for keys
    unfolding published_def by (intro exI conjI, rule that, rule that) (simp add: secs_def)
  have cached: ?thesis if "oa_jwks s url = Some (keys, t)" "elapsed_secs t now < 3600" "map_of keys kid = Some jwk" for keys t
    using that assms(2) elapsed_less unfolding published_def keys_fetched_def by blast
  show ?thesis
    using assms(1) fetched cached
    by (auto simp: find_jwk_def Let_def JWKS_CACHE_TTL_SECS_def split: option.splits if_splits keys_reply.splits sum.splits)
qed

subsection \<open>Verified tokens\<close>

definition token_verified ::
  "oidc \<Rightarrow> provider_endpoints \<Rightarrow> time \<Rightarrow> provider \<Rightarrow> oauth_config \<Rightarrow> string \<Rightarrow> id_token_claims \<Rightarrow> bool" where
  "token_verified od ep now p cfg idt claims \<longleftrightarrow>
     (\<exists>kid jwk key. od_decode_header od idt = Inr (True, Some kid) \<and> published od (jwks_url ep p cfg) kid jwk now \<and>
        od_key_of_jwk od jwk = Inr key \<and>
        od_decode od idt key \<lparr>va_audience = oc_client_id cfg, va_required = [''exp'', ''iss'', ''aud'', ''sub''],
          va_issuers = (if p = Google then Some GOOGLE_ISSUERS else None)\<rparr> now = Inr claims \<and>
        (p = Microsoft \<longrightarrow> (\<exists>tid. cl_tid claims = Some tid \<and>
           cl_iss claims = ''https://login.microsoftonline.com/'' @ tid @ ''/v2.0'')))"

lemma verify_id_token_Inr:
  assumes "verify_id_token od ep now p cfg idt s = (Inr claims, s')" "keys_fetched od s"
  shows "token_verified od ep now p cfg idt claims"
proof -
  obtain kid jwk key where steps: "od_decode_header od idt = Inr (True, Some kid)"
    "find_jwk od now (jwks_url ep p cfg) kid s = (Inr jwk, s')" "od_key_of_jwk od jwk = Inr key"
    "od_decode od idt key (token_validation p cfg) now = Inr claims"
    "p = Microsoft \<Longrightarrow> check_microsoft_issuer od cfg claims = Inr ()"
    using assms(1) unfolding verify_id_token_def Let_def
    by (auto simp: bindE_Inr_iff simp del: bindE_lift bindE_unless split: prod.splits if_splits)
  have "p = Microsoft \<longrightarrow> (\<exists>tid. cl_tid claims = Some tid \<and> cl_iss claims = ''https://login.microsoftonline.com/'' @ tid @ ''/v2.0'')"
    using steps(5) by (auto simp: check_microsoft_issuer_def bind_res_Inr_iff MICROSOFT_LOGIN_BASE_def)
  then show ?thesis
    using steps(1,3,4) find_jwk_published [OF steps(2) assms(2)] unfolding token_verified_def token_validation_def by blast
qed

lemma profile_email_verified:
  "profile_from_claims p claims = Inr profile \<Longrightarrow> op_email_verified profile \<Longrightarrow>
     (case p of Google \<Rightarrow> claim_is_true (cl_email_verified claims)
      | Microsoft \<Rightarrow> claim_is_true (cl_xms_edov claims) \<or> cl_tid claims = Some MICROSOFT_CONSUMERS_TENANT_ID)"
proof -
  have "MICROSOFT_CONSUMERS_TENANT_ID \<noteq> []" by (simp add: MICROSOFT_CONSUMERS_TENANT_ID_def)
  moreover assume "profile_from_claims p claims = Inr profile" "op_email_verified profile"
  then obtain puid v where "provider_account p claims = Inr (puid, v)" v
    by (auto simp: profile_from_claims_def bind_res_Inr_iff Let_def)
  ultimately show ?thesis
    by (cases p; cases "cl_tid claims") (auto simp: provider_account_def bind_res_Inr_iff Let_def)
qed

subsection \<open>The states\<close>

lemma take_state_Inr:
  assumes "oauth_take_state now st w = (Inr (Some pending), w')"
  shows "\<exists>row \<in> set (t_oauth_states w). os_state row = st \<and> now < os_expires_at row \<and> pending =
      \<lparr>st_tenant_id = os_tenant_id row, st_provider = os_provider row, st_pkce_verifier = os_pkce_verifier row, st_nonce = os_nonce row\<rparr>"
    and "\<forall>row \<in> set (t_oauth_states w'). os_state row = st \<longrightarrow> os_expires_at row \<le> now"
  using assms by (auto simp: oauth_take_state_def Let_def bindE_Inr_iff dest!: find_first_SomeD)

lemma login_states_left [leaves_rules]:
  "leaves t_oauth_states (oauth_check_domain x now tid pr)"
  "leaves t_oauth_states (oauth_resolve_identity now iid p pr allow)" "leaves t_oauth_states (users_create now uid i tid nm)"
proof -
  show "leaves t_oauth_states (oauth_check_domain x now tid pr)"
    unfolding oauth_check_domain_def by (intro leaves_rules login_frame_simps)
  show "leaves t_oauth_states (oauth_resolve_identity now iid p pr allow)"
    unfolding oauth_resolve_identity_def oauth_new_identity_def identities_create_def oauth_link_def Let_def
    by (intro leaves_rules leaves_insert; simp)
  show "leaves t_oauth_states (users_create now uid i tid nm)"
    unfolding users_create_def Let_def by (intro leaves_rules leaves_insert; simp)
qed

lemma login_oauth_states: "leaves t_oauth_states (login_oauth x now tok iid uid tid p pr allow c)"
  unfolding login_oauth_def by (intro leaves_rules login_frame_simps)

lemma provider_parse_Inr: "provider_parse s = Inr p \<longleftrightarrow> s = provider_str p"
  by (cases p) (auto simp: provider_parse_def)

lemma find_jwk_world: "find_jwk od now url kid s = (r, t) \<Longrightarrow> oa_world t = oa_world s"
  by (auto simp: find_jwk_def Let_def bindE_run split: option.splits if_splits keys_reply.splits sum.splits)

lemma verify_id_token_world: "verify_id_token od ep now p cfg idt s = (r, t) \<Longrightarrow> oa_world t = oa_world s"
  unfolding verify_id_token_def Let_def
  by (auto simp: bindE_run dest: find_jwk_world split: prod.splits sum.splits if_splits option.splits)

text \<open>What the steps of a successful \<open>oauth_complete\<close> establish.\<close>

lemma oauth_complete_Inr:
  assumes "oauth_complete x od ep now p code st s = (Inr cb, s')" "keys_fetched od s"
  obtains row cfg idt claims w1 where
    "row \<in> set (t_oauth_states (oa_world s))" "os_state row = st" "now < os_expires_at row" "os_provider row = provider_str p"
    "get_oauth x now (os_tenant_id row) (provider_str p) w1 = (Inr (Some cfg), oa_world s')"
    "exchange_code od ep p cfg code (os_pkce_verifier row) = Inr idt" "token_verified od ep now p cfg idt claims"
    "cl_nonce claims = Some (os_nonce row)" "profile_from_claims p claims = Inr (ocb_profile cb)"
    "ocb_tenant_id cb = os_tenant_id row" "ocb_allow_signup cb = (oc_allow_signup cfg \<noteq> Some False)"
    "\<forall>row \<in> set (t_oauth_states (oa_world s')). os_state row = st \<longrightarrow> os_expires_at row \<le> now"
proof -
  obtain pending cfg idt claims s1 s2 where steps:
    "on_stores (get_or (Unauthorized ''Invalid or expired OAuth state'') (oauth_take_state now st)) s = (Inr pending, s1)"
    "st_provider pending = provider_str p" "on_stores (oauth_load_config x now (st_tenant_id pending) p) s1 = (Inr cfg, s2)"
    "exchange_code od ep p cfg code (st_pkce_verifier pending) = Inr idt"
    "verify_id_token od ep now p cfg idt s2 = (Inr claims, s')" "cl_nonce claims = Some (st_nonce pending)"
    "profile_from_claims p claims = Inr (ocb_profile cb)" "ocb_tenant_id cb = st_tenant_id pending"
    "ocb_allow_signup cb = (case oc_allow_signup cfg of None \<Rightarrow> True | Some b \<Rightarrow> b)"
    using assms(1) unfolding oauth_complete_def
    by (auto simp: bindE_Inr_iff simp del: bindE_lift bindE_unless get_or_run split: if_splits)
  obtain w1 where take: "oauth_take_state now st (oa_world s) = (Inr (Some pending), w1)" and s1: "s1 = s\<lparr>oa_world := w1\<rparr>"
    using steps(1) by (auto simp: on_stores_def split: prod.splits sum.splits option.splits)
  obtain w2 where cfg: "get_oauth x now (st_tenant_id pending) (provider_str p) w1 = (Inr (Some cfg), w2)" and s2: "s2 = s\<lparr>oa_world := w2\<rparr>"
    using steps(3) by (auto simp: on_stores_def s1 oauth_load_config_def split: prod.splits sum.splits option.splits)
  have w2: "oa_world s' = w2" using verify_id_token_world [OF steps(5)] s2 by simp
  have "leaves t_oauth_states (get_oauth x now (st_tenant_id pending) (provider_str p))" by (rule config_frame) simp
  then have same: "t_oauth_states w2 = t_oauth_states w1" by (rule leavesD) (rule cfg)
  have "keys_fetched od s2" using assms(2) s2 by simp
  then have ver: "token_verified od ep now p cfg idt claims" by (rule verify_id_token_Inr [OF steps(5)])
  obtain row where row: "row \<in> set (t_oauth_states (oa_world s))" "os_state row = st" "now < os_expires_at row"
    "pending = \<lparr>st_tenant_id = os_tenant_id row, st_provider = os_provider row, st_pkce_verifier = os_pkce_verifier row, st_nonce = os_nonce row\<rparr>"
    using take_state_Inr(1) [OF take] by blast
  show thesis
    by (rule that [of row w1 cfg idt claims])
      (use row steps cfg ver w2 same take_state_Inr(2) [OF take] in \<open>auto split: option.splits\<close>)
qed

subsection \<open>Properties\<close>

text \<open>The states the service runs through: the key cache starts empty, only callbacks fill it.\<close>

inductive oauth_run :: "ext \<Rightarrow> oidc \<Rightarrow> provider_endpoints \<Rightarrow> oauth_app \<Rightarrow> bool" for x od ep where
  start: "oa_jwks s = (\<lambda>_. None) \<Longrightarrow> oauth_run x od ep s"
| elsewhere: "oauth_run x od ep s \<Longrightarrow> oauth_run x od ep (s\<lparr>oa_world := w\<rparr>)"
| callback: "oauth_run x od ep s \<Longrightarrow> oauth_callback x od ep now tok iid uid hdr name q s = (r, s') \<Longrightarrow> oauth_run x od ep s'"

lemma oauth_run_keys: "oauth_run x od ep s \<Longrightarrow> keys_fetched od s"
proof (induction rule: oauth_run.induct)
  case (start s)
  then show ?case by (simp add: keys_fetched_def)
next
  case (callback s now tok iid uid hdr name q r s')
  then show ?case by (metis keeps_callback keepsD)
qed simp

text \<open>
  C15. A provider sign-in that succeeds consumed an unexpired state which this service issued for the
  same provider and, if the request names a tenant, that tenant. The code was exchanged with the
  state's PKCE verifier; the ID token was signed with RS256 under a key the provider published less
  than an hour before, for the tenant's client, by the right issuer, with the state's nonce. The
  e-mail counts as verified only if the provider says so. The state is gone afterwards.
\<close>

theorem oauth_callback_sound:
  assumes "oauth_run x od ep s" "oauth_callback x od ep now tok iid uid hdr name q s = (Inr r, s')"
  shows "\<exists>p row code cfg idt claims profile w1 w2. name = provider_str p \<and> cq_code q = Some code \<and>
    row \<in> set (t_oauth_states (oa_world s)) \<and> cq_state q = Some (os_state row) \<and> now < os_expires_at row \<and>
    os_provider row = name \<and> (\<forall>h. hdr = Some h \<longrightarrow> h = os_tenant_id row) \<and>
    get_oauth x now (os_tenant_id row) name w1 = (Inr (Some cfg), w2) \<and>
    exchange_code od ep p cfg code (os_pkce_verifier row) = Inr idt \<and>
    token_verified od ep now p cfg idt claims \<and> cl_nonce claims = Some (os_nonce row) \<and>
    profile_from_claims p claims = Inr profile \<and>
    (op_email_verified profile \<longrightarrow> (case p of Google \<Rightarrow> claim_is_true (cl_email_verified claims)
       | Microsoft \<Rightarrow> claim_is_true (cl_xms_edov claims) \<or> cl_tid claims = Some MICROSOFT_CONSUMERS_TENANT_ID)) \<and>
    login_oauth x now tok iid uid (os_tenant_id row) name profile (oc_allow_signup cfg \<noteq> Some False) (None, None) w2
      = (Inr r, oa_world s') \<and>
    (\<forall>r \<in> set (t_oauth_states (oa_world s')). os_state r = os_state row \<longrightarrow> os_expires_at r \<le> now)"
proof -
  obtain p code st cb s1 where steps: "provider_parse name = Inr p" "callback_params q = Inr (code, st)"
    "oauth_complete x od ep now p code st s = (Inr cb, s1)" "\<forall>h. hdr = Some h \<longrightarrow> h = ocb_tenant_id cb"
    "on_stores (login_oauth x now tok iid uid (ocb_tenant_id cb) (provider_str p) (ocb_profile cb) (ocb_allow_signup cb) (None, None)) s1
       = (Inr r, s')"
    using assms(2) unfolding oauth_callback_def
    by (auto simp: bindE_Inr_iff simp del: bindE_lift bindE_unless split: if_splits option.splits)
  have q: "cq_code q = Some code" "cq_state q = Some st"
    using steps(2) by (auto simp: callback_params_def split: option.splits if_splits)
  have log: "login_oauth x now tok iid uid (ocb_tenant_id cb) (provider_str p) (ocb_profile cb) (ocb_allow_signup cb) (None, None)
      (oa_world s1) = (Inr r, oa_world s')"
    using steps(5) by (auto simp: on_stores_def split: prod.splits)
  have same: "t_oauth_states (oa_world s') = t_oauth_states (oa_world s1)"
    by (rule leavesD [OF login_oauth_states]) (rule log)
  note name = provider_parse_Inr [THEN iffD1, OF steps(1)]
  from oauth_complete_Inr [OF steps(3) oauth_run_keys [OF assms(1)]]
  obtain row cfg idt claims w1 where f:
    "row \<in> set (t_oauth_states (oa_world s))" "os_state row = st" "now < os_expires_at row" "os_provider row = provider_str p"
    "get_oauth x now (os_tenant_id row) (provider_str p) w1 = (Inr (Some cfg), oa_world s1)"
    "exchange_code od ep p cfg code (os_pkce_verifier row) = Inr idt" "token_verified od ep now p cfg idt claims"
    "cl_nonce claims = Some (os_nonce row)" "profile_from_claims p claims = Inr (ocb_profile cb)"
    "ocb_tenant_id cb = os_tenant_id row" "ocb_allow_signup cb = (oc_allow_signup cfg \<noteq> Some False)"
    "\<forall>row \<in> set (t_oauth_states (oa_world s1)). os_state row = st \<longrightarrow> os_expires_at row \<le> now" .
  show ?thesis
    by (intro exI [of _ p] exI [of _ row] exI [of _ code] exI [of _ cfg] exI [of _ idt] exI [of _ claims]
        exI [of _ "ocb_profile cb"] exI [of _ w1] exI [of _ "oa_world s1"] conjI impI)
      (use f q log same name steps(4) profile_email_verified [OF f(9)] in simp_all)
qed

subsection \<open>A provider to run against\<close>

definition claims0 :: id_token_claims where
  "claims0 = \<lparr>cl_iss = ''https://accounts.google.com'', cl_sub = ''g1'', cl_nonce = Some ''n1'', cl_email = Some ''ann@acme.io'',
     cl_email_verified = Some (JBool True), cl_given_name = Some ''Ann'', cl_family_name = None, cl_name = None, cl_oid = None,
     cl_tid = None, cl_xms_edov = None\<rparr>"

text \<open>It exchanges the code \<open>c1\<close> when the verifier \<open>v1\<close> is shown and signs its one token under \<open>k1\<close>.\<close>

definition oidc0 :: oidc where
  "oidc0 = \<lparr>od_b64url = (\<lambda>s. s), od_url_with_params = (\<lambda>u ps. Inr u),
     od_post_token = (\<lambda>u form. if map_of form ''code'' = Some ''c1'' \<and> map_of form ''code_verifier'' = Some ''v1''
       then TokenBody (Some ''jwt1'') else Rejected (Some ''invalid_grant'')),
     od_get_keys = (\<lambda>u t. KeySet [(''k1'', ''jwk1'')]), od_decode_header = (\<lambda>s. Inr (True, Some ''k1'')), od_key_of_jwk = Inr,
     od_decode = (\<lambda>s key v now. if s = ''jwt1'' \<and> key = ''jwk1'' \<and> va_audience v = ''client'' then Inr claims0
       else Inl ''InvalidSignature''),
     od_is_uuid = (\<lambda>s. False)\<rparr>"

definition oauth_ext0 :: ext where
  "oauth_ext0 = ext0\<lparr>x_json_parse := (\<lambda>s. Inr (JArr [JStr ''client'', JStr ''secret'', JStr s]))\<rparr>"

definition oauth_app0 :: oauth_app where
  "oauth_app0 = \<lparr>oa_world = (login_world (login_identity0 0 None 0))\<lparr>
     t_kv := [\<lparr>kv_tenant_id = ''acme'', kv_group_key = ''oauth'', kv_key = ''google'', kv_value = ''https://app'', kv_sensitive = False\<rparr>],
     t_oauth_states := [\<lparr>os_state = ''s1'', os_tenant_id = ''acme'', os_provider = ''google'', os_pkce_verifier = ''v1'',
       os_nonce = ''n1'', os_expires_at = secs 600\<rparr>]\<rparr>, oa_jwks = (\<lambda>_. None)\<rparr>"

definition callback_query0 :: oauth_callback_query where
  "callback_query0 = \<lparr>cq_code = Some ''c1'', cq_state = Some ''s1'', cq_error = None, cq_error_description = None\<rparr>"

theorem oauth_callback_sound_witness:
  "\<exists>cfg idt claims. token_verified oidc0 default_endpoints 0 Google cfg idt claims \<and> cl_nonce claims = Some ''n1''"
proof -
  let ?r = "oauth_callback oauth_ext0 oidc0 default_endpoints 0 ''tok'' 9 6 (Some ''acme'') ''google'' callback_query0 oauth_app0"
  have "fst ?r = Inr (LoginSuccess ''tok'' (secs 86400))" by code_simp
  then have r: "?r = (Inr (LoginSuccess ''tok'' (secs 86400)), snd ?r)" by (metis prod.collapse)
  have start: "oauth_run oauth_ext0 oidc0 default_endpoints oauth_app0"
    by (rule oauth_run.start) (simp add: oauth_app0_def)
  have p: "p = Google" if "''google'' = provider_str p" for p using that by (cases p) simp_all
  show ?thesis
    using oauth_callback_sound [OF start r] by (auto simp: oauth_app0_def dest!: p)
qed

end
