(* ===== verification/Routes_Auth.thy ===== *)
theory Routes_Auth
  imports Oauth Access
begin

section \<open>Authentication, session and second-factor routes\<close>

text \<open>
  The handlers of \<^verbatim>\<open>src/routes/auth.rs\<close>, \<^verbatim>\<open>session.rs\<close> and \<^verbatim>\<open>mfa.rs\<close>. A handler returns the status
  and the JSON body of its response; an error is an \<open>app_error\<close>, which becomes a response by
  \<open>into_response\<close>. What the handlers take from the application state is the record \<open>front\<close>: the
  mail relay, if one is configured, the fallback base URL and the texts of chrono and sqlx. The three handlers
  that send mail run on the stored \<open>world\<close> and the list of mails handed to the relay.
\<close>

type_synonym response = "nat \<times> json"

datatype mail =
    OtpMail string string
  | ResetMail string string "string option"
  | InviteMail string string "string option"

record front =
  fr_smtp :: "(mail \<Rightarrow> string + unit) option"
  fr_frontend_url :: "string option"
  fr_rfc3339 :: "time \<Rightarrow> string"
  fr_sqlx_text :: "app_error \<Rightarrow> string"

record post_app =
  po_world :: world
  po_sent :: "mail list"

definition on_post :: "'a op \<Rightarrow> (post_app, 'a) io" where
  "on_post m s = (case m (po_world s) of (r, w) \<Rightarrow> (r, s\<lparr>po_world := w\<rparr>))"

definition send_mail :: "(mail \<Rightarrow> string + unit) \<Rightarrow> mail \<Rightarrow> (post_app, string + unit) io" where
  "send_mail smtp m = bindE (modify (\<lambda>s. s\<lparr>po_sent := po_sent s @ [m]\<rparr>)) (\<lambda>_. ret (smtp m))"

text \<open>\<^verbatim>\<open>map_err(|e| AppError::Internal(e.to_string()))\<close> on a repository call.\<close>

definition as_internal :: "front \<Rightarrow> ('s, 'a) io \<Rightarrow> ('s, 'a) io" where
  "as_internal fr m s = (case m s of (Inl e, t) \<Rightarrow> (Inl (Internal (fr_sqlx_text fr e)), t) | (Inr x, t) \<Rightarrow> (Inr x, t))"

subsection \<open>Values in responses\<close>

definition opt_value :: "('a \<Rightarrow> json) \<Rightarrow> 'a option \<Rightarrow> json" where
  "opt_value f v = (case v of None \<Rightarrow> JNull | Some a \<Rightarrow> f a)"

definition uuid_value :: "uuid \<Rightarrow> json" where
  "uuid_value u = JStr (uuid_str u)"

definition message :: "string \<Rightarrow> json" where
  "message m = JObj [(''message'', JStr m)]"

text \<open>The derived serialisation of \<^verbatim>\<open>User\<close>: every field but the tenant.\<close>

definition user_value :: "front \<Rightarrow> user \<Rightarrow> json" where
  "user_value fr u = JObj [(''id'', uuid_value (u_id u)), (''identityId'', uuid_value (u_identity_id u)),
     (''firstName'', opt_value JStr (u_first_name u)), (''lastName'', opt_value JStr (u_last_name u)),
     (''email'', opt_value JStr (u_email u)), (''username'', opt_value JStr (u_username u)),
     (''mobile'', opt_value JStr (u_mobile u)), (''countryCode'', opt_value JStr (u_country_code u)),
     (''status'', JStr (u_status u)), (''mfaEnabled'', JBool (u_mfa_enabled u)),
     (''accessValidUntil'', opt_value (\<lambda>t. JStr (fr_rfc3339 fr t)) (u_access_valid_until u)),
     (''createdAt'', JStr (fr_rfc3339 fr (u_created_at u))), (''updatedAt'', JStr (fr_rfc3339 fr (u_updated_at u)))]"

definition membership_value :: "tenant_membership \<Rightarrow> json" where
  "membership_value m = JObj [(''tenantId'', JStr (tm_tenant_id m)), (''status'', JStr (tm_status m))]"

fun login_result_json :: "front \<Rightarrow> login_result \<Rightarrow> json" where
  "login_result_json fr (LoginSuccess session_token expires_at) =
     JObj [(''sessionToken'', JStr session_token), (''expiresAt'', JStr (fr_rfc3339 fr expires_at))]"
| "login_result_json fr (MfaRequired mfa_token _) = JObj [(''mfaRequired'', JBool True), (''mfaToken'', JStr mfa_token)]"
| "login_result_json fr (PasswordChangeRequired change_token) =
     JObj [(''passwordChangeRequired'', JBool True), (''changeToken'', JStr change_token)]"

subsection \<open>Signing up\<close>

definition mail_link :: "front \<Rightarrow> string \<Rightarrow> string \<Rightarrow> string option \<Rightarrow> string option" where
  "mail_link fr page token base =
     map_option (\<lambda>b. trim_end_matches (CHR ''/'') b @ page @ token)
       (case base of None \<Rightarrow> fr_frontend_url fr | Some b \<Rightarrow> Some b)"

definition signup_created :: "user \<Rightarrow> json" where
  "signup_created u = JObj [(''id'', uuid_value (u_id u)), (''firstName'', opt_value JStr (u_first_name u)),
     (''lastName'', opt_value JStr (u_last_name u)), (''email'', opt_value JStr (u_email u)),
     (''mobile'', opt_value JStr (u_mobile u)), (''countryCode'', opt_value JStr (u_country_code u)),
     (''status'', JStr (u_status u))]"

definition signup_route ::
  "ext \<Rightarrow> front \<Rightarrow> time \<Rightarrow> string \<times> string \<times> uuid \<times> uuid \<Rightarrow> string \<Rightarrow> string \<Rightarrow> string \<Rightarrow> string \<Rightarrow> string option \<Rightarrow> string option
   \<Rightarrow> string \<Rightarrow> string \<Rightarrow> (post_app, response) io" where
  "signup_route x fr now = (\<lambda>(tok, salt, iid, uid) tenant_id first_name last_name email mobile country_code password retype_password.
     bindE (on_post (signup x now tok salt iid uid tenant_id first_name last_name email mobile country_code password retype_password))
       (\<lambda>outcome. case outcome of
         Created u \<Rightarrow> ret (201, signup_created u)
       | VerificationSent to_email token \<Rightarrow>
           bindE (case fr_smtp fr of
               None \<Rightarrow> ret ()
             | Some smtp \<Rightarrow>
                 bindE (on_post (get_frontend_base_url x now tenant_id)) (\<lambda>base.
                 bindE (send_mail smtp (InviteMail to_email token (mail_link fr ''/verify-membership?token='' token base))) (\<lambda>_. ret ())))
             (\<lambda>_. ret (202, message ''Registration received. If further steps are required, we've emailed you instructions.''))))"

definition verify_membership :: "time \<Rightarrow> uuid \<Rightarrow> string \<Rightarrow> response op" where
  "verify_membership now uid token =
     bindE (verify_membership_invite now uid token) (\<lambda>u.
       ret (201, JObj [(''id'', uuid_value (u_id u)), (''tenantId'', JStr (u_tenant_id u)), (''status'', JStr (u_status u))]))"

subsection \<open>Password logins\<close>

definition email_password_route :: "ext \<Rightarrow> front \<Rightarrow> time \<Rightarrow> string \<Rightarrow> string \<Rightarrow> string \<Rightarrow> string \<Rightarrow> response op" where
  "email_password_route x fr now tok tenant_id email password =
     bindE (login_email_password x now tok tenant_id email password (None, None)) (\<lambda>r. ret (200, login_result_json fr r))"

definition username_password_route :: "ext \<Rightarrow> front \<Rightarrow> time \<Rightarrow> string \<Rightarrow> string \<Rightarrow> string \<Rightarrow> string \<Rightarrow> response op" where
  "username_password_route x fr now tok tenant_id username password =
     bindE (login_username_password x now tok tenant_id username password (None, None)) (\<lambda>r. ret (200, login_result_json fr r))"

subsection \<open>One-time passwords\<close>

text \<open>The six random digits and the id of the row are drawn by the handler.\<close>

definition email_otp_request :: "ext \<Rightarrow> front \<Rightarrow> time \<Rightarrow> uuid \<Rightarrow> string \<Rightarrow> string \<Rightarrow> string \<Rightarrow> (post_app, response) io" where
  "email_otp_request x fr now fresh code tenant_id email_arg =
     bindE (lift (ok_or (Internal ''Email OTP is not configured. Set SMTP_HOST and SMTP_FROM.'') (fr_smtp fr))) (\<lambda>smtp.
     let email = to_lowercase (trim email_arg) in
     bindE (unless (email \<noteq> []) (BadRequest ''email is required'')) (\<lambda>_.
     bindE (on_post (ensure_email_domain_allowed x now tenant_id email)) (\<lambda>_.
     bindE (on_post (as_internal fr (otp_create now fresh tenant_id email ''email'' code ''login'' (now + minutes 10)))) (\<lambda>_.
     bindE (send_mail smtp (OtpMail email code)) (\<lambda>sent.
     bindE (case sent of Inl _ \<Rightarrow> throw (Internal ''Failed to send verification email'') | Inr _ \<Rightarrow> ret ()) (\<lambda>_.
       ret (200, message ''If this email is registered, you will receive a verification code shortly.'')))))))"

definition MAX_OTP_ATTEMPTS :: int where "MAX_OTP_ATTEMPTS = 5"

definition otp_verify :: "ext \<Rightarrow> front \<Rightarrow> time \<Rightarrow> string \<Rightarrow> string \<Rightarrow> string \<Rightarrow> string \<Rightarrow> string \<Rightarrow> response op" where
  "otp_verify x fr now tok tenant_id identifier_arg code_arg channel_arg =
     (let identifier = trim identifier_arg; code = trim code_arg; channel = trim channel_arg in
      bindE (unless (identifier \<noteq> [] \<and> code \<noteq> [] \<and> channel \<noteq> []) (BadRequest ''identifier, code, and channel are required'')) (\<lambda>_.
      bindE (unless (channel = ''email'') (BadRequest ''Only channel 'email' is supported'')) (\<lambda>_.
      let identifier_normalized = to_lowercase identifier in
      bindE (get_or (Unauthorized ''Invalid or expired code'')
               (as_internal fr (otp_get_latest now tenant_id identifier_normalized ''email'' ''login''))) (\<lambda>otp.
      bindE (unless (o_attempt_count otp < MAX_OTP_ATTEMPTS) (Unauthorized ''Too many attempts. Request a new code.'')) (\<lambda>_.
      if o_code otp \<noteq> code then
        bindE (as_internal fr (otp_increment_attempts (o_id otp))) (\<lambda>_. throw (Unauthorized ''Invalid or expired code''))
      else
        bindE (login_with_verified_otp x now tok tenant_id identifier_normalized (None, None)) (\<lambda>result.
        bindE (as_internal fr (otp_delete (o_id otp))) (\<lambda>_.
          ret (200, login_result_json fr result))))))))"

subsection \<open>Single sign-on\<close>

definition login_identity_route :: "ext \<Rightarrow> time \<Rightarrow> string \<Rightarrow> string \<Rightarrow> string \<Rightarrow> response op" where
  "login_identity_route x now tok email password =
     bindE (login_identity x now tok email password) (\<lambda>(identity_token, tenants).
       ret (200, JObj [(''identityToken'', JStr identity_token), (''tenants'', JArr (map membership_value tenants))]))"

definition identity_tenants :: "time \<Rightarrow> string option \<Rightarrow> response op" where
  "identity_tenants now header =
     bindE (lift (bearer_token header)) (\<lambda>identity_token.
     bindE (tenants_for_identity_token now identity_token) (\<lambda>tenants.
       ret (200, JObj [(''tenants'', JArr (map membership_value tenants))])))"

definition select_tenant_route :: "ext \<Rightarrow> front \<Rightarrow> time \<Rightarrow> string \<Rightarrow> string option \<Rightarrow> string \<Rightarrow> response op" where
  "select_tenant_route x fr now tok header tenant_id =
     bindE (lift (bearer_token header)) (\<lambda>identity_token.
     bindE (select_tenant_with_token x now tok identity_token tenant_id (None, None)) (\<lambda>r. ret (200, login_result_json fr r)))"

subsection \<open>Forgotten passwords\<close>

definition forgot_password_route :: "ext \<Rightarrow> front \<Rightarrow> time \<Rightarrow> string \<Rightarrow> string \<Rightarrow> string \<Rightarrow> (post_app, response) io" where
  "forgot_password_route x fr now tok tenant_id email =
     bindE (on_post (forgot_password now tok email)) (\<lambda>result.
     bindE (case (result, fr_smtp fr) of
         (Some (to_email, token), Some smtp) \<Rightarrow>
           bindE (on_post (get_frontend_base_url x now tenant_id)) (\<lambda>base.
           bindE (send_mail smtp (ResetMail to_email token (mail_link fr ''/reset-password?token='' token base))) (\<lambda>_. ret ()))
       | _ \<Rightarrow> ret ()) (\<lambda>_.
       ret (200, message ''If this email is registered, you will receive a password reset link shortly.'')))"

definition reset_password_route :: "ext \<Rightarrow> time \<Rightarrow> string \<Rightarrow> string \<Rightarrow> string \<Rightarrow> string \<Rightarrow> string \<Rightarrow> response op" where
  "reset_password_route x now salt tenant_id token new_password retype_password =
     bindE (reset_password x now salt tenant_id token new_password retype_password) (\<lambda>_.
       ret (200, message ''Password has been reset successfully.''))"

subsection \<open>Availability of handles\<close>

definition available :: "bool \<Rightarrow> response op" where
  "available ex = ret (200, JObj [(''available'', JBool (\<not> ex))])"

definition check_email_availability :: "ext \<Rightarrow> time \<Rightarrow> string option \<Rightarrow> string \<Rightarrow> response op" where
  "check_email_availability x now header email_arg =
     bindE (lift (bearer_token header)) (\<lambda>token.
     bindE (live_session x now token) (\<lambda>_.
     let email = to_lowercase (trim email_arg) in
     bindE (unless (email \<noteq> []) (BadRequest ''email is required'')) (\<lambda>_.
     bindE (identities_exists_by_email email) available)))"

definition check_username_availability :: "ext \<Rightarrow> time \<Rightarrow> string \<Rightarrow> string option \<Rightarrow> string \<Rightarrow> response op" where
  "check_username_availability x now tenant_id header username_arg =
     bindE (lift (bearer_token header)) (\<lambda>token.
     bindE (live_session x now token) (\<lambda>_.
     let username = trim username_arg in
     bindE (unless (username \<noteq> []) (BadRequest ''username is required'')) (\<lambda>_.
     bindE (users_exists_by_username tenant_id username) available)))"

definition check_mobile_availability :: "ext \<Rightarrow> time \<Rightarrow> string option \<Rightarrow> string \<Rightarrow> string \<Rightarrow> response op" where
  "check_mobile_availability x now header mobile_arg country_arg =
     bindE (lift (bearer_token header)) (\<lambda>token.
     bindE (live_session x now token) (\<lambda>_.
     let mobile = trim mobile_arg; country_code = trim country_arg in
     bindE (unless (mobile \<noteq> []) (BadRequest ''mobile is required'')) (\<lambda>_.
     bindE (unless (country_code \<noteq> []) (BadRequest ''countryCode is required'')) (\<lambda>_.
     bindE (identities_exists_by_mobile country_code mobile) available))))"

end
