(* ===== verification/Routes_Admin.thy ===== *)
theory Routes_Admin
  imports Routes_Auth Access_Sound
begin

section \<open>Administration routes\<close>

text \<open>
  The handlers of \<^verbatim>\<open>src/routes/admin.rs\<close> for users, roles and groups (those for permissions are in
  \<open>Access\<close>). \<open>Path\<close> and \<open>Json\<close> extraction is done: a handler takes the parsed ids and fields.
\<close>

subsection \<open>Lists\<close>

record list_query =
  lq_q :: "string option"
  lq_sort :: "string option"
  lq_limit :: "32 word option"
  lq_offset :: "32 word option"

text \<open>What every list endpoint does with its query before it reaches the repository.\<close>

definition list_params :: "list_query \<Rightarrow> ((filter_node option \<times> sort_spec list) \<times> 32 word \<times> 32 word) result" where
  "list_params ps = bind_res (parse_list_params (lq_q ps) (lq_sort ps)) (\<lambda>fs.
     Inr (fs, clamp_pagination (lq_limit ps) (lq_offset ps) 50))"

definition named_rows :: "string \<Rightarrow> (uuid \<times> string \<times> string) list \<Rightarrow> json" where
  "named_rows what rows = JObj [(what, JArr (map (\<lambda>(i, name, uid).
     JObj [(''id'', uuid_value i), (''name'', JStr name), (''uid'', JStr uid)]) rows))]"

definition list_roles ::
  "(string \<Rightarrow> string list \<Rightarrow> (uuid \<times> string \<times> string \<times> uuid option) list op) \<Rightarrow> string \<Rightarrow> filter_node option \<Rightarrow> sort_spec list
   \<Rightarrow> 32 word \<Rightarrow> 32 word \<Rightarrow> (uuid \<times> string \<times> string \<times> uuid option) list op" where
  "list_roles pg tenant_id filt sorts limit offset =
     bindE (lift (list_roles_query tenant_id filt sorts limit offset)) (\<lambda>(sql, binds). pg sql binds)"

definition groups_list ::
  "(string \<Rightarrow> string list \<Rightarrow> (uuid \<times> string \<times> string \<times> string option) list op) \<Rightarrow> string \<Rightarrow> filter_node option \<Rightarrow> sort_spec list
   \<Rightarrow> 32 word \<Rightarrow> 32 word \<Rightarrow> (uuid \<times> string \<times> string \<times> string option) list op" where
  "groups_list pg tenant_id filt sorts limit offset =
     bindE (lift (groups_list_query tenant_id filt sorts limit offset)) (\<lambda>(sql, binds). pg sql binds)"

subsection \<open>Users\<close>

definition admin_create_user_route ::
  "ext \<Rightarrow> front \<Rightarrow> time \<Rightarrow> string \<times> uuid \<times> uuid \<Rightarrow> string \<Rightarrow> string option \<Rightarrow> string option \<Rightarrow> string option \<Rightarrow> string option
   \<Rightarrow> string option \<Rightarrow> string option \<Rightarrow> string option \<Rightarrow> string option \<Rightarrow> response op" where
  "admin_create_user_route x fr now = (\<lambda>(salt, iid, uid) tenant_id first_name last_name email username mobile country_code password retype.
     bindE (admin_create_user x now salt iid uid tenant_id first_name last_name email username mobile country_code password retype)
       (\<lambda>u. ret (201, user_value fr u)))"

definition admin_list_users ::
  "front \<Rightarrow> (string \<Rightarrow> string list \<Rightarrow> user list op) \<Rightarrow> string \<Rightarrow> bool \<Rightarrow> list_query \<Rightarrow> response op" where
  "admin_list_users fr pg tenant_id include_archived ps =
     bindE (lift (list_params ps)) (\<lambda>((filt, sorts), limit, offset).
     bindE (users_list pg tenant_id include_archived filt sorts limit offset) (\<lambda>us.
       ret (200, JObj [(''users'', JArr (map (user_value fr) us))])))"

definition admin_archive_user_route :: "time \<Rightarrow> string \<Rightarrow> uuid \<Rightarrow> response op" where
  "admin_archive_user_route now tenant_id user_id =
     bindE (admin_archive_user now tenant_id user_id) (\<lambda>_. ret (200, message ''User archived successfully.''))"

definition admin_reset_password_route ::
  "ext \<Rightarrow> time \<Rightarrow> string \<Rightarrow> string \<Rightarrow> uuid \<Rightarrow> string \<Rightarrow> string \<Rightarrow> bool \<Rightarrow> response op" where
  "admin_reset_password_route x now salt tenant_id user_id new_password retype_password force =
     bindE (admin_reset_password x now salt tenant_id user_id new_password retype_password force) (\<lambda>_.
       ret (200, message ''Password reset successfully.''))"

definition admin_set_access_validity :: "time \<Rightarrow> string \<Rightarrow> uuid \<Rightarrow> time option \<Rightarrow> response op" where
  "admin_set_access_validity now tenant_id user_id access_valid_until =
     bindE (admin_set_access_valid_until now tenant_id user_id access_valid_until) (\<lambda>_. ret (200, message ''Access validity updated.''))"

subsection \<open>Roles\<close>

definition admin_list_user_roles :: "string \<Rightarrow> uuid \<Rightarrow> response op" where
  "admin_list_user_roles tenant_id user_id =
     bindE (roles_get_user_roles_detail tenant_id user_id) (\<lambda>roles. ret (200, named_rows ''roles'' roles))"

definition admin_assign_role_to_user :: "string \<Rightarrow> uuid \<Rightarrow> uuid \<Rightarrow> response op" where
  "admin_assign_role_to_user tenant_id user_id role_id =
     bindE (roles_assign_role_to_user tenant_id user_id role_id) (\<lambda>_. ret (201, message ''Role assigned to user''))"

definition admin_remove_role_from_user :: "uuid \<Rightarrow> uuid \<Rightarrow> response op" where
  "admin_remove_role_from_user user_id role_id =
     bindE (roles_remove_role_from_user user_id role_id) (\<lambda>removed.
     bindE (unless removed (NotFound ''User role assignment not found'')) (\<lambda>_. ret (200, message ''Role removed from user'')))"

definition admin_create_role :: "uuid \<Rightarrow> string \<Rightarrow> string \<Rightarrow> uuid option \<Rightarrow> response op" where
  "admin_create_role fresh tenant_id name parent_role_id =
     bindE (roles_create fresh tenant_id name parent_role_id) (\<lambda>(i, name, uid).
       ret (201, JObj [(''id'', uuid_value i), (''name'', JStr name), (''uid'', JStr uid),
         (''parentRoleId'', opt_value uuid_value parent_role_id)]))"

definition admin_list_roles ::
  "(string \<Rightarrow> string list \<Rightarrow> (uuid \<times> string \<times> string \<times> uuid option) list op) \<Rightarrow> string \<Rightarrow> list_query \<Rightarrow> response op" where
  "admin_list_roles pg tenant_id ps =
     bindE (lift (list_params ps)) (\<lambda>((filt, sorts), limit, offset).
     bindE (list_roles pg tenant_id filt sorts limit offset) (\<lambda>roles.
       ret (200, JObj [(''roles'', JArr (map (\<lambda>(i, name, uid, parent_role_id). JObj [(''id'', uuid_value i), (''name'', JStr name),
         (''uid'', JStr uid), (''parentRoleId'', opt_value uuid_value parent_role_id)]) roles))])))"

definition admin_set_role_parent :: "string \<Rightarrow> uuid \<Rightarrow> uuid option \<Rightarrow> response op" where
  "admin_set_role_parent tenant_id role_id parent_role_id =
     bindE (roles_set_parent tenant_id role_id parent_role_id) (\<lambda>_. ret (200, message ''Role parent updated.''))"

definition admin_get_role_hierarchy :: "string \<Rightarrow> uuid \<Rightarrow> response op" where
  "admin_get_role_hierarchy tenant_id role_id =
     bindE (roles_get_role_ancestors tenant_id role_id) (\<lambda>ancestors. ret (200, named_rows ''ancestors'' ancestors))"

definition admin_list_role_permissions :: "cedar \<Rightarrow> string \<Rightarrow> uuid \<Rightarrow> response op" where
  "admin_list_role_permissions ce tenant_id role_id =
     bindE (permissions_list_for_role ce tenant_id role_id) (\<lambda>perms.
       ret (200, JObj [(''permissions'', JArr (map (\<lambda>((i, name), doc).
         JObj [(''id'', uuid_value i), (''name'', JStr name), (''document'', ser_document doc)]) perms))]))"

subsection \<open>Groups\<close>

definition group_body :: "uuid \<Rightarrow> string \<times> string \<times> string option \<Rightarrow> json" where
  "group_body gid = (\<lambda>(name, uid, desc). JObj [(''id'', uuid_value gid), (''name'', JStr name), (''uid'', JStr uid),
     (''description'', opt_value JStr desc)])"

definition admin_create_group :: "uuid \<Rightarrow> string \<Rightarrow> string \<Rightarrow> string option \<Rightarrow> response op" where
  "admin_create_group fresh tenant_id name description =
     bindE (groups_create fresh tenant_id name description) (\<lambda>(i, name, uid).
       ret (201, JObj [(''id'', uuid_value i), (''name'', JStr name), (''uid'', JStr uid)]))"

definition admin_list_groups ::
  "(string \<Rightarrow> string list \<Rightarrow> (uuid \<times> string \<times> string \<times> string option) list op) \<Rightarrow> string \<Rightarrow> list_query \<Rightarrow> response op" where
  "admin_list_groups pg tenant_id ps =
     bindE (lift (list_params ps)) (\<lambda>((filt, sorts), limit, offset).
     bindE (groups_list pg tenant_id filt sorts limit offset) (\<lambda>gs.
       ret (200, JObj [(''groups'', JArr (map (\<lambda>(i, view). group_body i view) gs))])))"

definition admin_get_group :: "string \<Rightarrow> uuid \<Rightarrow> response op" where
  "admin_get_group tenant_id gid =
     bindE (get_or (NotFound ''Group not found'') (groups_get tenant_id gid)) (\<lambda>g. ret (200, group_body gid g))"

definition admin_update_group :: "string \<Rightarrow> uuid \<Rightarrow> string option \<Rightarrow> string option option \<Rightarrow> response op" where
  "admin_update_group tenant_id gid name description =
     bindE (get_or (NotFound ''Group not found'') (groups_update tenant_id gid name description)) (\<lambda>g. ret (200, group_body gid g))"

definition admin_delete_group :: "string \<Rightarrow> uuid \<Rightarrow> response op" where
  "admin_delete_group tenant_id gid =
     bindE (groups_delete tenant_id gid) (\<lambda>deleted.
     bindE (unless deleted (NotFound ''Group not found'')) (\<lambda>_. ret (200, message ''Group deleted'')))"

definition admin_add_user_to_group :: "string \<Rightarrow> uuid \<Rightarrow> uuid \<Rightarrow> response op" where
  "admin_add_user_to_group tenant_id gid user_id =
     bindE (groups_add_user tenant_id gid user_id) (\<lambda>_. ret (201, message ''User added to group''))"

definition admin_list_group_members ::
  "front \<Rightarrow> (string \<Rightarrow> string list \<Rightarrow> user list op) \<Rightarrow> string \<Rightarrow> uuid \<Rightarrow> list_query \<Rightarrow> response op" where
  "admin_list_group_members fr pg tenant_id gid ps =
     bindE (lift (list_params ps)) (\<lambda>((filt, sorts), limit, offset).
     bindE (users_list_by_group pg tenant_id (uuid_str gid) filt sorts limit offset) (\<lambda>us.
       ret (200, JObj [(''users'', JArr (map (user_value fr) us))])))"

definition admin_remove_user_from_group :: "uuid \<Rightarrow> uuid \<Rightarrow> response op" where
  "admin_remove_user_from_group gid user_id =
     bindE (groups_remove_user gid user_id) (\<lambda>removed.
     bindE (unless removed (NotFound ''User is not a member of this group'')) (\<lambda>_. ret (200, message ''User removed from group'')))"

definition admin_list_user_groups :: "string \<Rightarrow> uuid \<Rightarrow> response op" where
  "admin_list_user_groups tenant_id user_id =
     bindE (groups_get_user_groups tenant_id user_id) (\<lambda>gs. ret (200, named_rows ''groups'' gs))"

definition admin_assign_role_to_group :: "string \<Rightarrow> uuid \<Rightarrow> uuid \<Rightarrow> response op" where
  "admin_assign_role_to_group tenant_id gid role_id =
     bindE (groups_assign_role tenant_id gid role_id) (\<lambda>_. ret (201, message ''Role assigned to group''))"

definition admin_list_group_roles :: "string \<Rightarrow> uuid \<Rightarrow> response op" where
  "admin_list_group_roles tenant_id gid =
     bindE (groups_list_group_roles tenant_id gid) (\<lambda>roles. ret (200, named_rows ''roles'' roles))"

definition admin_remove_role_from_group :: "uuid \<Rightarrow> uuid \<Rightarrow> response op" where
  "admin_remove_role_from_group gid role_id =
     bindE (groups_remove_role gid role_id) (\<lambda>removed.
     bindE (unless removed (NotFound ''Role is not assigned to this group'')) (\<lambda>_. ret (200, message ''Role removed from group'')))"

end
