(* ===== verification/Routes_Session.thy ===== *)
theory Routes_Session
  imports Routes_Auth
begin

section \<open>Session and second-factor routes\<close>

text \<open>
  The handlers of \<^verbatim>\<open>src/routes/session.rs\<close> and \<^verbatim>\<open>src/routes/mfa.rs\<close>: each starts from the session of
  the bearer token, except the forced password change and the completion of a login by second
  factor, which have tokens of their own in the body.
\<close>

subsection \<open>Sessions\<close>

definition bearer_session :: "ext \<Rightarrow> time \<Rightarrow> string option \<Rightarrow> session_payload op" where
  "bearer_session x now header = bindE (lift (bearer_token header)) (live_session x now)"

definition strs_value :: "string list \<Rightarrow> json" where
  "strs_value xs = JArr (map JStr xs)"

definition session_validate :: "ext \<Rightarrow> front \<Rightarrow> time \<Rightarrow> string option \<Rightarrow> response op" where
  "session_validate x fr now header =
     bindE (bearer_session x now header) (\<lambda>payload.
       ret (200, JObj [(''tenantId'', JStr (sp_tenant_id payload)), (''userId'', uuid_value (sp_user_id payload)),
         (''identityId'', uuid_value (sp_identity_id payload)), (''roles'', strs_value (sp_roles payload)),
         (''permissions'', strs_value (sp_permissions payload)), (''expiresAt'', JStr (fr_rfc3339 fr (sp_expires_at payload)))]))"

definition session_me :: "ext \<Rightarrow> front \<Rightarrow> time \<Rightarrow> string option \<Rightarrow> response op" where
  "session_me x fr now header =
     bindE (bearer_session x now header) (\<lambda>payload.
     bindE (get_or (NotFound ''User not found'') (users_get_by_id (sp_tenant_id payload) (sp_user_id payload))) (\<lambda>u.
       ret (200, JObj [(''userId'', uuid_value (sp_user_id payload)), (''identityId'', uuid_value (sp_identity_id payload)),
         (''roles'', strs_value (sp_roles payload)), (''permissions'', strs_value (sp_permissions payload)),
         (''expiresAt'', JStr (fr_rfc3339 fr (sp_expires_at payload))), (''user'', user_value fr u)])))"

definition session_tenants :: "ext \<Rightarrow> time \<Rightarrow> string option \<Rightarrow> response op" where
  "session_tenants x now header =
     bindE (bearer_session x now header) (\<lambda>payload.
     bindE (tenants_for_identity (sp_identity_id payload)) (\<lambda>tenants.
       ret (200, JObj [(''currentTenantId'', JStr (sp_tenant_id payload)), (''tenants'', JArr (map membership_value tenants))])))"

definition change_password_route ::
  "ext \<Rightarrow> time \<Rightarrow> string \<Rightarrow> string option \<Rightarrow> string \<Rightarrow> string \<Rightarrow> string \<Rightarrow> response op" where
  "change_password_route x now salt header current_password new_password retype_password =
     bindE (bearer_session x now header) (\<lambda>payload.
     bindE (change_password x now salt (sp_tenant_id payload) (sp_user_id payload) current_password new_password retype_password)
       (\<lambda>_. ret (200, message ''Password changed successfully.'')))"

definition logout :: "ext \<Rightarrow> time \<Rightarrow> string option \<Rightarrow> response op" where
  "logout x now header =
     bindE (lift (bearer_token header)) (\<lambda>session_token.
     bindE (store_delete x now session_token) (\<lambda>_.
     bindE (catch_default False (revoke_by_session_token session_token)) (\<lambda>_.
       ret (200, JObj [(''ok'', JBool True)]))))"

definition sessions_revoked :: "nat \<Rightarrow> json" where
  "sessions_revoked n = JObj [(''ok'', JBool True), (''sessionsRevoked'', JInt (int n))]"

definition logout_all :: "ext \<Rightarrow> time \<Rightarrow> string \<Rightarrow> string option \<Rightarrow> response op" where
  "logout_all x now tenant_id header =
     bindE (bearer_session x now header) (\<lambda>payload.
     bindE (store_delete_all_for_user x now tenant_id (sp_user_id payload)) (\<lambda>count.
     bindE (catch_default 0 (revoke_all_for_user tenant_id (sp_user_id payload))) (\<lambda>_.
       ret (200, sessions_revoked count))))"

definition forced_login_json :: "front \<Rightarrow> login_result \<Rightarrow> json result" where
  "forced_login_json fr r = (case r of
     PasswordChangeRequired _ \<Rightarrow> Inl (Internal ''Unexpected login state after password change'')
   | _ \<Rightarrow> Inr (login_result_json fr r))"

definition force_change_password_route ::
  "ext \<Rightarrow> front \<Rightarrow> time \<Rightarrow> string \<Rightarrow> string \<Rightarrow> string \<Rightarrow> string \<Rightarrow> string \<Rightarrow> response op" where
  "force_change_password_route x fr now tok salt change_token new_password retype_password =
     bindE (force_change_password x now tok salt change_token new_password retype_password (None, None)) (\<lambda>r.
     bindE (lift (forced_login_json fr r)) (\<lambda>j. ret (200, j)))"

definition switch_tenant :: "ext \<Rightarrow> front \<Rightarrow> time \<Rightarrow> string \<Rightarrow> string option \<Rightarrow> string \<Rightarrow> response op" where
  "switch_tenant x fr now tok header tenant_id =
     bindE (bearer_session x now header) (\<lambda>payload.
     bindE (select_tenant x now tok (sp_identity_id payload) tenant_id (None, None)) (\<lambda>r. ret (200, login_result_json fr r)))"

text \<open>The loop of \<^verbatim>\<open>logout_global\<close> over the memberships, with the count so far.\<close>

fun revoke_memberships :: "ext \<Rightarrow> time \<Rightarrow> user list \<Rightarrow> nat \<Rightarrow> nat op" where
  "revoke_memberships x now [] revoked = ret revoked"
| "revoke_memberships x now (m # ms) revoked =
     bindE (store_delete_all_for_user x now (u_tenant_id m) (u_id m)) (\<lambda>n.
     bindE (catch_default 0 (revoke_all_for_user (u_tenant_id m) (u_id m))) (\<lambda>_.
       revoke_memberships x now ms (revoked + n)))"

definition logout_global :: "ext \<Rightarrow> time \<Rightarrow> string option \<Rightarrow> response op" where
  "logout_global x now header =
     bindE (bearer_session x now header) (\<lambda>payload.
     bindE (users_get_memberships_for_identity (sp_identity_id payload)) (\<lambda>memberships.
     bindE (revoke_memberships x now memberships 0) (\<lambda>revoked. ret (200, sessions_revoked revoked))))"

subsection \<open>Second factor\<close>

definition session_identity :: "ext \<Rightarrow> time \<Rightarrow> string option \<Rightarrow> (session_payload \<times> identity) op" where
  "session_identity x now header =
     bindE (bearer_session x now header) (\<lambda>payload.
     bindE (get_or (Unauthorized ''Invalid or expired session'') (identities_get_by_id (sp_identity_id payload))) (\<lambda>i.
       ret (payload, i)))"

definition mfa_status_route :: "ext \<Rightarrow> time \<Rightarrow> string option \<Rightarrow> response op" where
  "mfa_status_route x now header =
     bindE (session_identity x now header) (\<lambda>(_, i).
     bindE (backup_codes_remaining i) (\<lambda>remaining.
       ret (200, JObj [(''enabled'', JBool (i_mfa_enabled i)), (''backupCodesRemaining'', JInt (int remaining))])))"

definition identity_handle :: "identity \<Rightarrow> string option" where
  "identity_handle i = (case i_email i of
     Some e \<Rightarrow> Some e
   | None \<Rightarrow> (case (i_mobile i, i_country_code i) of (Some m, Some c) \<Rightarrow> Some (c @ m) | _ \<Rightarrow> None))"

definition mfa_enable_route :: "ext \<Rightarrow> time \<Rightarrow> string \<Rightarrow> string \<Rightarrow> string option \<Rightarrow> response op" where
  "mfa_enable_route x now bytes nonce header =
     bindE (session_identity x now header) (\<lambda>(payload, i).
     bindE (case identity_handle i of
         Some handle \<Rightarrow> ret handle
       | None \<Rightarrow> bindE (users_get_by_id (sp_tenant_id payload) (sp_user_id payload)) (\<lambda>u.
           ret (case Option.bind u u_username of None \<Rightarrow> ''user'' | Some n \<Rightarrow> n))) (\<lambda>label.
     bindE (begin_enrollment x now bytes nonce i label) (\<lambda>enrollment.
       ret (200, JObj [(''secret'', JStr (me_secret enrollment)), (''otpauthUrl'', JStr (me_otpauth_url enrollment))]))))"

definition mfa_verify_route ::
  "ext \<Rightarrow> time \<Rightarrow> (nat \<Rightarrow> nat \<Rightarrow> nat) \<Rightarrow> (nat \<Rightarrow> uuid) \<Rightarrow> string option \<Rightarrow> string \<Rightarrow> response op" where
  "mfa_verify_route x now rnd ids header code =
     bindE (session_identity x now header) (\<lambda>(_, i).
     bindE (confirm_enrollment x now rnd ids i code) (\<lambda>backup_codes.
       ret (200, JObj [(''enabled'', JBool True), (''backupCodes'', strs_value backup_codes)])))"

definition mfa_validate_route :: "ext \<Rightarrow> front \<Rightarrow> time \<Rightarrow> string \<Rightarrow> string \<Rightarrow> string \<Rightarrow> response op" where
  "mfa_validate_route x fr now tok mfa_token code =
     bindE (complete_mfa_login x now tok (trim mfa_token) code (None, None)) (\<lambda>r. ret (200, login_result_json fr r))"

definition mfa_disable_route :: "ext \<Rightarrow> time \<Rightarrow> string option \<Rightarrow> string \<Rightarrow> response op" where
  "mfa_disable_route x now header code =
     bindE (session_identity x now header) (\<lambda>(_, i).
     bindE (mfa_disable x now i code) (\<lambda>_. ret (200, JObj [(''enabled'', JBool False)])))"

definition mfa_regenerate_route ::
  "ext \<Rightarrow> time \<Rightarrow> (nat \<Rightarrow> nat \<Rightarrow> nat) \<Rightarrow> (nat \<Rightarrow> uuid) \<Rightarrow> string option \<Rightarrow> string \<Rightarrow> response op" where
  "mfa_regenerate_route x now rnd ids header code =
     bindE (session_identity x now header) (\<lambda>(_, i).
     bindE (regenerate_backup_codes x now rnd ids i code) (\<lambda>backup_codes.
       ret (200, JObj [(''backupCodes'', strs_value backup_codes)])))"

end
