(* ===== verification/Session_Sound.thy ===== *)
theory Session_Sound
  imports Routes_Session
begin

section \<open>What the session routes do to the sessions\<close>

text \<open>
  Logging out ends exactly the sessions it names, with either store, at every later time. The store
  is reached through the interface of \<open>Session_Store\<close>; the audit rows the handlers revoke besides
  are the sessions themselves with PostgreSQL and independent of them with Redis.
\<close>

definition without :: "(session_payload \<Rightarrow> bool) \<Rightarrow> (string \<Rightarrow> session_payload option) \<Rightarrow> string \<Rightarrow> session_payload option" where
  "without P sessions tok = (case sessions tok of Some p \<Rightarrow> if P p then None else Some p | None \<Rightarrow> None)"

definition of_user :: "string \<Rightarrow> uuid \<Rightarrow> session_payload \<Rightarrow> bool" where
  "of_user tid u p \<longleftrightarrow> sp_tenant_id p = tid \<and> sp_user_id p = u"

lemma without_twice [simp]: "without P (without Q f) = without (\<lambda>p. P p \<or> Q p) f"
  by (rule ext) (auto simp: without_def split: option.splits)

lemma without_none [simp]: "without (\<lambda>_. False) f = f"
  by (rule ext) (auto simp: without_def split: option.splits)

lemma audit_rows_only:
  assumes "c_uses_redis x"
  shows "valid_sessions x t (t_sessions_update h w) = valid_sessions x t w"
    "store_ok x now (t_sessions_update h w) = store_ok x now w"
  using assms
  by (simp_all add: fun_eq_iff valid_sessions_def store_get_def redis_get_def rd_get_def bindE_run store_ok_def redis_ok_def
      listed_def own_only_def entry_def members_def
      split: option.splits)

lemma revoke_user_sessions:
  assumes "store_ok x now w" "valid_uuid u" "now \<le> t" "store_delete_all_for_user x now tid u w = (r, w1)"
    "catch_default 0 (revoke_all_for_user tid u) w1 = (r', w')"
  shows "store_ok x now w' \<and> valid_sessions x t w' = without (of_user tid u) (valid_sessions x t w)"
proof -
  have d: "store_ok x now w1" "valid_sessions x t w1 = without (of_user tid u) (valid_sessions x t w)"
    using store_refines(4) [OF assms(1-4)] by (simp_all add: fun_eq_iff without_def of_user_def cong: option.case_cong)
  obtain n where rev: "revoke_all_for_user tid u w1 = (Inr n, w')"
    using assms(5) by (auto simp: catch_default_def revoke_all_for_user_def counting_def bindE_run)
  show ?thesis
  proof (cases "c_uses_redis x")
    case True
    with rev d audit_rows_only show ?thesis
      by (auto simp: revoke_all_for_user_def counting_def bindE_run)
  next
    case False
    then have "store_delete_all_for_user x now tid u w1 = (Inr n, w')"
      using rev by (simp add: store_delete_all_for_user_def pg_delete_all_for_user_def)
    from store_refines(4) [OF d(1) assms(2,3) this] d(2) show ?thesis
      by (auto simp: fun_eq_iff without_def of_user_def split: option.splits)
  qed
qed

lemma revoke_token:
  assumes "store_ok x now w" "store_delete x now tok w = (r, w1)" "catch_default False (revoke_by_session_token tok) w1 = (r', w')"
  shows "store_ok x now w' \<and> valid_sessions x t w' = (valid_sessions x t w)(tok := None)"
proof -
  note d = store_refines(3) [OF assms(1,2)]
  obtain n where rev: "revoke_by_session_token tok w1 = (Inr n, w')"
    using assms(3) by (auto simp: catch_default_def revoke_by_session_token_def counting_def bindE_run)
  show ?thesis
  proof (cases "c_uses_redis x")
    case True
    with rev d audit_rows_only show ?thesis
      by (auto simp: revoke_by_session_token_def counting_def bindE_run)
  next
    case False
    then have "store_delete x now tok w1 = (Inr n, w')"
      using rev by (simp add: store_delete_def pg_delete_def)
    from store_refines(3) [OF conjunct1 [OF d] this] d show ?thesis by auto
  qed
qed

lemma revoke_memberships_sessions:
  assumes "store_ok x now w" "now \<le> t" "list_all (\<lambda>u. valid_uuid (u_id u)) ms" "revoke_memberships x now ms k w = (Inr n, w')"
  shows "store_ok x now w' \<and>
    valid_sessions x t w' = without (\<lambda>p. \<exists>u \<in> set ms. of_user (u_tenant_id u) (u_id u) p) (valid_sessions x t w)"
  using assms
proof (induction ms arbitrary: k w)
  case (Cons u ms)
  obtain n1 w1 r2 w2 where steps: "store_delete_all_for_user x now (u_tenant_id u) (u_id u) w = (Inr n1, w1)"
    "catch_default 0 (revoke_all_for_user (u_tenant_id u) (u_id u)) w1 = (Inr r2, w2)"
    "revoke_memberships x now ms (k + n1) w2 = (Inr n, w')"
    using Cons.prems(4) by (auto simp: bindE_Inr_iff)
  have "store_ok x now w2 \<and> valid_sessions x t w2 = without (of_user (u_tenant_id u) (u_id u)) (valid_sessions x t w)"
    by (rule revoke_user_sessions [OF Cons.prems(1) _ Cons.prems(2) steps(1,2)]) (use Cons.prems(3) in simp)
  then show ?case
    using Cons.IH [OF _ Cons.prems(2) _ steps(3)] Cons.prems(3) by (simp add: disj_commute)
qed simp

lemma bearer_session_Inr:
  assumes "store_ok x now w" "bearer_session x now (Some (''Bearer '' @ tok)) w = (Inr p, w')"
  shows "w' = w" "valid_sessions x now w tok = Some p"
proof -
  have "bearer_token (Some (''Bearer '' @ tok)) = Inr tok"
    unfolding bearer_token_def by (simp only: ok_or_simps bind_res_simps strip_prefix_append)
  then show "w' = w" "valid_sessions x now w tok = Some p"
    using assms(2) store_refines(1) [OF assms(1), of now tok]
    by (auto simp: bearer_session_def live_session_def split: option.splits)
qed

lemma memberships_run:
  "users_get_memberships_for_identity iid w = (r, w') \<Longrightarrow> w' = w \<and> (\<exists>us. r = Inr us \<and>
     set us = {row_to_user m i | m i. m \<in> set (t_users w) \<and> i \<in> set (t_identities w) \<and> i_id i = m_identity_id m \<and>
       m_identity_id m = iid \<and> m_status m \<noteq> ''archived''})"
  by (clarsimp simp: users_get_memberships_for_identity_def set_eq_iff image_iff in_from_join) (blast | metis)

text \<open>
  The global logout reaches the tenants where the membership is not archived; the comment of the handler
  says all tenants.
\<close>

lemma logout_global_exact:
  assumes "store_ok x now w" "now \<le> t" "\<forall>m \<in> set (t_users w). valid_uuid (m_id m)"
    and "logout_global x now (Some (''Bearer '' @ tok)) w = (Inr r, w')"
  obtains p where "valid_sessions x now w tok = Some p"
    "valid_sessions x t w' = without (\<lambda>q. \<exists>m \<in> set (t_users w). \<exists>i \<in> set (t_identities w). i_id i = sp_identity_id p \<and>
        m_identity_id m = sp_identity_id p \<and> m_status m \<noteq> ''archived'' \<and> of_user (m_tenant_id m) (m_id m) q) (valid_sessions x t w)"
proof -
  obtain p us n where steps: "bearer_session x now (Some (''Bearer '' @ tok)) w = (Inr p, w)"
    "users_get_memberships_for_identity (sp_identity_id p) w = (Inr us, w)" "revoke_memberships x now us 0 w = (Inr n, w')"
    using assms(4) bearer_session_Inr(1) [OF assms(1)] memberships_run unfolding logout_global_def bindE_Inr_iff by fastforce
  have us: "set us = {row_to_user m i | m i. m \<in> set (t_users w) \<and> i \<in> set (t_identities w) \<and> i_id i = m_identity_id m \<and>
       m_identity_id m = sp_identity_id p \<and> m_status m \<noteq> ''archived''}"
    using memberships_run [OF steps(2)] by simp
  have "list_all (\<lambda>u. valid_uuid (u_id u)) us" using us assms(3) by (auto simp: list_all_iff)
  from revoke_memberships_sessions [OF assms(1,2) this steps(3)]
  have "valid_sessions x t w' = without (\<lambda>q. \<exists>u \<in> set us. of_user (u_tenant_id u) (u_id u) q) (valid_sessions x t w)" ..
  moreover have "(\<exists>u \<in> set us. of_user (u_tenant_id u) (u_id u) q) \<longleftrightarrow> (\<exists>m \<in> set (t_users w). \<exists>i \<in> set (t_identities w).
      i_id i = sp_identity_id p \<and> m_identity_id m = sp_identity_id p \<and> m_status m \<noteq> ''archived'' \<and> of_user (m_tenant_id m) (m_id m) q)" for q
    unfolding us by (auto; fastforce)
  ultimately show thesis
    using that bearer_session_Inr(2) [OF assms(1) steps(1)] by simp
qed

text \<open>The identity exists and none of its memberships is archived.\<close>

definition all_memberships_active :: "uuid \<Rightarrow> world \<Rightarrow> bool" where
  "all_memberships_active iid w \<longleftrightarrow> (\<exists>i \<in> set (t_identities w). i_id i = iid) \<and>
     (\<forall>m \<in> set (t_users w). m_identity_id m = iid \<longrightarrow> m_status m \<noteq> ''archived'')"



end
