(* ===== verification/Otp_Sound.thy ===== *)
theory Otp_Sound
  imports Routes_Session Login_Frames
begin

section \<open>One-time passwords: soundness and the bound on guesses\<close>

text \<open>
  What \<open>otp_verify\<close> of \<^verbatim>\<open>src/routes/auth.rs\<close> accepts, and how often a code can be guessed at however
  verifications, requests for new codes and the rest of the service interleave.
\<close>

text \<open>The row a verification looks at.\<close>

definition otp_for :: "time \<Rightarrow> string \<Rightarrow> string \<Rightarrow> world \<Rightarrow> otp_row option" where
  "otp_for now tenant_id identifier w =
     latest_row o_created_at (filter (otp_matches now tenant_id (to_lowercase (trim identifier)) ''email'' ''login'') (t_otp w))"

lemma otp_get_latest_run:
  "otp_get_latest now tid (to_lowercase (trim ident)) ''email'' ''login'' w = (Inr (otp_for now tid ident w), w)"
  by (simp add: otp_get_latest_def otp_for_def)

lemma as_internal_run [simp]:
  "m s = (Inr v, t) \<Longrightarrow> as_internal fr m s = (Inr v, t)"
  by (simp add: as_internal_def)

lemma otp_for_SomeD:
  "otp_for now tid ident w = Some r \<Longrightarrow> r \<in> set (t_otp w) \<and> otp_matches now tid (to_lowercase (trim ident)) ''email'' ''login'' r"
  by (auto simp: otp_for_def dest: latest_row_SomeD)

text \<open>Comparing a code with the row \<open>oid\<close> and finding it wrong.\<close>

definition wrong_code :: "time \<Rightarrow> string \<Rightarrow> string \<Rightarrow> string \<Rightarrow> string \<Rightarrow> uuid \<Rightarrow> world \<Rightarrow> bool" where
  "wrong_code now tid ident code channel oid w \<longleftrightarrow> trim ident \<noteq> [] \<and> trim code \<noteq> [] \<and> trim channel = ''email'' \<and>
     (case otp_for now tid ident w of None \<Rightarrow> False
      | Some r \<Rightarrow> o_id r = oid \<and> o_attempt_count r < 5 \<and> o_code r \<noteq> trim code)"

text \<open>What a verification does to the table: nothing, count one attempt, or consume the row.\<close>

lemma otp_verify_table:
  assumes "otp_verify x fr now tok tid ident code channel w = (res, w')"
  obtains (same) "t_otp w' = t_otp w" "\<And>oid. \<not> wrong_code now tid ident code channel oid w" "isl res"
    | (counted) r where "wrong_code now tid ident code channel (o_id r) w" "otp_for now tid ident w = Some r"
      "t_otp w' = update_rows (\<lambda>q. o_id q = o_id r) (\<lambda>q. q\<lparr>o_attempt_count := o_attempt_count q + 1\<rparr>) (t_otp w)"
      "res = Inl (Unauthorized ''Invalid or expired code'')"
    | (accepted) r result w1 where "otp_for now tid ident w = Some r" "o_code r = trim code" "o_attempt_count r < 5"
      "login_with_verified_otp x now tok tid (to_lowercase (trim ident)) (None, None) w = (Inr result, w1)"
      "w' = t_otp_update (filter (\<lambda>q. o_id q \<noteq> o_id r)) w1" "res = Inr (200, login_result_json fr result)"
      "\<And>oid. \<not> wrong_code now tid ident code channel oid w"
proof -
  let ?guard = "trim ident \<noteq> [] \<and> trim code \<noteq> [] \<and> trim channel = ''email''"
  note run = assms [unfolded otp_verify_def Let_def]
  note frame = leavesD [OF otp_login_frame [OF login_frame_simps(2)]]
  show thesis
  proof (cases "?guard")
    case False
    then show thesis using run by (intro same) (auto simp: wrong_code_def split: if_splits)
  next
    case True
    show thesis
    proof (cases "otp_for now tid ident w")
      case None
      then show thesis using run True by (intro same) (auto simp: otp_get_latest_run wrong_code_def)
    next
      case (Some r)
      show thesis
      proof (cases "o_attempt_count r < 5")
        case False
        then show thesis using run True Some
          by (intro same) (auto simp: otp_get_latest_run wrong_code_def MAX_OTP_ATTEMPTS_def)
      next
        case att: True
        show thesis
        proof (cases "o_code r = trim code")
          case False
          then show thesis using run True Some att
            by (intro counted [of r]) (auto simp: otp_get_latest_run wrong_code_def MAX_OTP_ATTEMPTS_def otp_increment_attempts_def)
        next
          case eq: True
          obtain l w1 where l: "login_with_verified_otp x now tok tid (to_lowercase (trim ident)) (None, None) w = (l, w1)"
            by (cases "login_with_verified_otp x now tok tid (to_lowercase (trim ident)) (None, None) w")
          show thesis
          proof (cases l)
            case (Inl e)
            then show thesis using run True Some att eq l frame [OF l]
              by (intro same) (auto simp: otp_get_latest_run wrong_code_def MAX_OTP_ATTEMPTS_def)
          next
            case (Inr result)
            then show thesis using run True Some att eq l
              by (intro accepted [of r result w1])
                (auto simp: otp_get_latest_run wrong_code_def MAX_OTP_ATTEMPTS_def otp_delete_def)
          qed
        qed
      qed
    qed
  qed
qed

subsection \<open>The bound on guesses\<close>

text \<open>
  A run of the service: verifications by anyone at any time, new codes, and steps elsewhere. The
  number counts the wrong codes that were compared with the row \<open>oid\<close>.
\<close>

inductive otp_run :: "ext \<Rightarrow> front \<Rightarrow> uuid \<Rightarrow> world \<Rightarrow> nat \<Rightarrow> world \<Rightarrow> bool" for x fr oid w0 where
  start: "otp_run x fr oid w0 0 w0"
| guess: "otp_run x fr oid w0 k w \<Longrightarrow> otp_verify x fr now tok tid ident code channel w = (res, w') \<Longrightarrow>
    otp_run x fr oid w0 (if wrong_code now tid ident code channel oid w then Suc k else k) w'"
| request: "otp_run x fr oid w0 k w \<Longrightarrow> fresh \<noteq> oid \<Longrightarrow>
    otp_create now fresh tid ident channel code purpose expires w = (r, w') \<Longrightarrow> otp_run x fr oid w0 k w'"
| elsewhere: "otp_run x fr oid w0 k w \<Longrightarrow> t_otp w' = t_otp w \<Longrightarrow> otp_run x fr oid w0 k w'"

definition attempts_from :: "uuid \<Rightarrow> int \<Rightarrow> world \<Rightarrow> bool" where
  "attempts_from oid n w \<longleftrightarrow> (\<forall>r \<in> set (t_otp w). o_id r = oid \<longrightarrow> n \<le> o_attempt_count r)"

lemma otp_verify_counts:
  assumes "otp_verify x fr now tok tid ident code channel w = (res, w')" "attempts_from oid n w"
  shows "attempts_from oid (if wrong_code now tid ident code channel oid w then n + 1 else n) w'"
  using assms(1)
proof (cases rule: otp_verify_table)
  case same
  then show ?thesis using assms(2) by (simp add: attempts_from_def)
next
  case (counted r)
  have "(wrong_code now tid ident code channel oid w) = (o_id r = oid)"
    using counted(1,2) by (auto simp: wrong_code_def)
  then show ?thesis using counted(3) assms(2) by (auto simp: attempts_from_def set_update_rows)
next
  case (accepted r result w1)
  have "t_otp w1 = t_otp w" by (rule leavesD [OF otp_login_frame [OF login_frame_simps(2)] accepted(4)])
  then show ?thesis using accepted(5,7) assms(2) by (auto simp: attempts_from_def)
qed

lemma otp_run_counts:
  assumes "otp_run x fr oid w0 k w" "attempts_from oid 0 w0"
  shows "attempts_from oid (int k) w \<and> k \<le> 5"
  using assms
proof (induction rule: otp_run.induct)
  case (guess k w now tok tid ident code channel res w')
  then have "attempts_from oid (if wrong_code now tid ident code channel oid w then int k + 1 else int k) w'"
    by (intro otp_verify_counts [OF guess.hyps(2)]) simp
  moreover have "k < 5" if "wrong_code now tid ident code channel oid w"
    using that guess by (fastforce simp: wrong_code_def attempts_from_def dest: otp_for_SomeD split: option.splits)
  ultimately show ?case using guess by (auto simp: add.commute)
next
  case (request k w fresh now tid ident channel code purpose expires r w')
  then show ?case
    by (auto simp: otp_create_def attempts_from_def Let_def bindE_run sql_insert_run split: option.splits)
qed (auto simp: attempts_from_def)

text \<open>
  C19. However verifications, new requests and other operations interleave, at most five wrong codes
  are ever compared with one stored one-time password, and once five were, a verification that
  would look at it is refused whatever the code.
\<close>

theorem otp_guess_bound:
  assumes "otp_run x fr oid w0 k w" "\<forall>r \<in> set (t_otp w0). o_id r = oid \<longrightarrow> 0 \<le> o_attempt_count r"
  shows "k \<le> 5 \<and> (\<forall>r now tok tid ident code. k = 5 \<and> otp_for now tid ident w = Some r \<and> o_id r = oid \<and> trim ident \<noteq> [] \<and> trim code \<noteq> [] \<longrightarrow>
    otp_verify x fr now tok tid ident code ''email'' w = (Inl (Unauthorized ''Too many attempts. Request a new code.''), w))"
proof (intro conjI allI impI)
  have c: "attempts_from oid (int k) w \<and> k \<le> 5"
    by (rule otp_run_counts [OF assms(1)]) (use assms(2) in \<open>simp add: attempts_from_def\<close>)
  then show "k \<le> 5" by simp
  fix r now tok tid ident code
  assume a: "k = 5 \<and> otp_for now tid ident w = Some r \<and> o_id r = oid \<and> trim ident \<noteq> [] \<and> trim code \<noteq> []"
  then have "5 \<le> o_attempt_count r" using c otp_for_SomeD by (fastforce simp: attempts_from_def)
  moreover have "trim ''email'' = ''email''" by code_simp
  ultimately show "otp_verify x fr now tok tid ident code ''email'' w = (Inl (Unauthorized ''Too many attempts. Request a new code.''), w)"
    using a by (simp add: otp_verify_def Let_def otp_get_latest_run MAX_OTP_ATTEMPTS_def)
qed

definition front0 :: front where
  "front0 = \<lparr>fr_smtp = None, fr_frontend_url = None, fr_rfc3339 = (\<lambda>t. ''-''), fr_sqlx_text = display_error\<rparr>"

definition otp_row0 :: "int \<Rightarrow> otp_row" where
  "otp_row0 n = \<lparr>o_id = 3, o_tenant_id = ''acme'', o_identifier = ''ann@acme.io'', o_channel = ''email'', o_code = ''123456'',
     o_purpose = ''login'', o_expires_at = secs 600, o_attempt_count = n, o_created_at = 0\<rparr>"

definition otp_world :: "int \<Rightarrow> world" where
  "otp_world n = (login_world (login_identity0 0 None 0))\<lparr>t_otp := [otp_row0 n]\<rparr>"

lemma otp_world_row: "otp_for 0 ''acme'' ''ann@acme.io'' (otp_world n) = Some (otp_row0 n)"
proof -
  have "trim ''ann@acme.io'' = ''ann@acme.io''" by code_simp
  then show ?thesis
    by (simp add: otp_for_def otp_world_def otp_matches_def otp_row0_def secs_def)
qed

lemma otp_world_guess:
  assumes "n < 5"
  shows "otp_verify ext0 front0 0 ''tok'' ''acme'' ''ann@acme.io'' ''000000'' ''email'' (otp_world n)
      = (Inl (Unauthorized ''Invalid or expired code''), otp_world (n + 1))"
    and "wrong_code 0 ''acme'' ''ann@acme.io'' ''000000'' ''email'' 3 (otp_world n)"
proof -
  have t: "trim ''ann@acme.io'' = ''ann@acme.io''" "trim ''000000'' = ''000000''" "trim ''email'' = ''email''" by code_simp+
  have "otp_get_latest 0 ''acme'' (to_lowercase ''ann@acme.io'') ''email'' ''login'' (otp_world n) = (Inr (Some (otp_row0 n)), otp_world n)"
    using otp_get_latest_run [of 0 "''acme''" "''ann@acme.io''" "otp_world n"] by (simp add: t otp_world_row)
  then show "otp_verify ext0 front0 0 ''tok'' ''acme'' ''ann@acme.io'' ''000000'' ''email'' (otp_world n)
      = (Inl (Unauthorized ''Invalid or expired code''), otp_world (n + 1))"
    using assms by (simp add: otp_verify_def Let_def t MAX_OTP_ATTEMPTS_def otp_increment_attempts_def del: to_lowercase_simps)
      (simp add: otp_row0_def otp_world_def)
  show "wrong_code 0 ''acme'' ''ann@acme.io'' ''000000'' ''email'' 3 (otp_world n)"
    using assms by (simp add: wrong_code_def t otp_world_row) (simp add: otp_row0_def)
qed

lemma otp_world_run: "k \<le> 5 \<Longrightarrow> otp_run ext0 front0 3 (otp_world 0) k (otp_world (int k))"
proof (induction k)
  case 0
  then show ?case using otp_run.start by simp
next
  case (Suc k)
  then have k: "int k < 5" by simp
  show ?case
    using otp_run.guess [OF Suc.IH otp_world_guess(1) [OF k]] otp_world_guess(2) [OF k] Suc.prems by (simp add: add.commute)
qed

theorem otp_guess_bound_witness:
  "otp_verify ext0 front0 0 ''tok'' ''acme'' ''ann@acme.io'' ''123456'' ''email'' (otp_world 5)
     = (Inl (Unauthorized ''Too many attempts. Request a new code.''), otp_world 5)"
proof -
  have "\<forall>r \<in> set (t_otp (otp_world 0)). o_id r = 3 \<longrightarrow> 0 \<le> o_attempt_count r" by (simp add: otp_world_def otp_row0_def)
  from otp_guess_bound [OF otp_world_run [of 5] this] have "otp_for 0 ''acme'' ''ann@acme.io'' (otp_world 5) = Some (otp_row0 5) \<Longrightarrow>
      o_id (otp_row0 5) = 3 \<Longrightarrow> trim ''ann@acme.io'' \<noteq> [] \<Longrightarrow> trim ''123456'' \<noteq> [] \<Longrightarrow> ?thesis" by simp
  moreover have "trim ''ann@acme.io'' \<noteq> []" "trim ''123456'' \<noteq> []" by code_simp+
  ultimately show ?thesis by (simp add: otp_world_row) (simp add: otp_row0_def)
qed

subsection \<open>What an accepted code proves\<close>

text \<open>
  C21. A one-time password login that answers consumed a stored, unexpired row of this tenant, for
  this e-mail and for logging in, the most recent such row, with the code given and fewer than five wrong
  guesses. If it answers with a session, that session is for an active, unlocked member of the
  tenant whose access has not ended.
\<close>

theorem otp_login_sound:
  assumes "accounts_ok w" "otp_verify x fr now tok tid ident code channel w = (Inr resp, w')"
  shows "\<exists>r \<in> set (t_otp w). \<exists>result w1. o_tenant_id r = tid \<and> to_lowercase (o_identifier r) = to_lowercase (trim ident) \<and>
    o_channel r = ''email'' \<and> o_purpose r = ''login'' \<and> now < o_expires_at r \<and> o_attempt_count r < 5 \<and> o_code r = trim code \<and>
    (\<forall>q \<in> set (t_otp w). otp_matches now tid (to_lowercase (trim ident)) ''email'' ''login'' q \<longrightarrow> o_created_at q \<le> o_created_at r) \<and>
    login_with_verified_otp x now tok tid (to_lowercase (trim ident)) (None, None) w = (Inr result, w1) \<and>
    resp = (200, login_result_json fr result) \<and> t_otp w' = filter (\<lambda>q. o_id q \<noteq> o_id r) (t_otp w) \<and>
    (\<forall>t e. result = LoginSuccess t e \<longrightarrow> (\<exists>m i. session_for x now tid (None, None) w result w1 m i))"
  using assms(2)
proof (cases rule: otp_verify_table)
  case (accepted r result w1)
  note latest = latest_row_SomeD [OF accepted(1) [unfolded otp_for_def]]
  have "t_otp w1 = t_otp w" by (rule leavesD [OF otp_login_frame [OF login_frame_simps(2)] accepted(4)])
  then show ?thesis
    using accepted(2-6) latest otp_door [OF assms(1), of x now tok tid "to_lowercase (trim ident)" "(None, None)"]
    by (intro bexI [of _ r] exI [of _ result] exI [of _ w1]) (auto simp: otp_matches_def)
qed auto

theorem otp_login_sound_witness:
  "\<exists>w1 m i. session_for ext0 0 ''acme'' (None, None) (otp_world 0) (LoginSuccess ''tok'' (secs 86400)) w1 m i"
proof -
  let ?r = "otp_verify ext0 front0 0 ''tok'' ''acme'' ''ann@acme.io'' ''123456'' ''email'' (otp_world 0)"
  let ?l = "login_with_verified_otp ext0 0 ''tok'' ''acme'' (to_lowercase (trim ''ann@acme.io'')) (None, None) (otp_world 0)"
  have "fst ?r = Inr (200, JObj [(''sessionToken'', JStr ''tok''), (''expiresAt'', JStr ''-'')])" by code_simp
  then have r: "?r = (Inr (200, JObj [(''sessionToken'', JStr ''tok''), (''expiresAt'', JStr ''-'')]), snd ?r)" by (metis prod.collapse)
  have l: "fst ?l = Inr (LoginSuccess ''tok'' (secs 86400))" by code_simp
  have "accounts_ok (otp_world 0) = accounts_ok (login_world (login_identity0 0 None 0))"
    by (simp add: otp_world_def accounts_ok_def)
  moreover have "accounts_ok (login_world (login_identity0 0 None 0))"
    by (rule login_world_ok) (simp_all add: login_identity0_def mobile_pair_def)
  ultimately have "accounts_ok (otp_world 0)" by simp
  from otp_login_sound [OF this r] l show ?thesis by auto
qed

end
