(* ===== verification/Routes_Sound.thy ===== *)
theory Routes_Sound
  imports Session_Sound Otp_Sound
begin

section \<open>What the open routes reveal\<close>

text \<open>
  Asking for a password reset answers the same whether the e-mail is registered or not, as long as the tenant's base
  URL can be read; the link goes only to the stored address of the identity it resets. Asking for a one-time password neither
  reads nor writes an account.
\<close>

lemma expired_or_new:
  assumes "tok \<notin> rt_token ` set rows"
  shows "find_first (\<lambda>r. rt_token r = tok \<and> t < rt_expires_at r)
     (filter P rows @ [\<lparr>rt_identity_id = iid, rt_token = tok, rt_expires_at = ex\<rparr>])
   = (if t < ex then Some \<lparr>rt_identity_id = iid, rt_token = tok, rt_expires_at = ex\<rparr> else None)"
proof -
  have "find_first (\<lambda>r. rt_token r = tok \<and> t < rt_expires_at r) (filter P rows) = None"
    using assms by (auto simp: find_first_None_iff)
  then show ?thesis by (simp add: find_first_append)
qed

text \<open>What the service does when the address belongs to an identity.\<close>

lemma forgot_password_known:
  assumes "to_lowercase (trim email) \<noteq> []" "tok \<notin> rt_token ` set (t_reset_tokens w)"
    and "find_first (\<lambda>i. email_key i = Some (to_lowercase (trim email))) (t_identities w) = Some i"
  shows "\<exists>a. i_email i = Some a \<and> forgot_password now tok email w = (Inr (Some (a, tok)),
      t_reset_tokens_update (\<lambda>rows. filter (\<lambda>r. rt_identity_id r \<noteq> i_id i) rows @
        [\<lparr>rt_identity_id = i_id i, rt_token = tok, rt_expires_at = now + minutes 60\<rparr>]) w)"
proof -
  obtain a where a: "i_email i = Some a" "i \<in> set (t_identities w)"
    using find_first_SomeD [OF assms(3)] by (auto simp: email_key_def)
  have "identity_exists (i_id i) w" using a(2) by (auto simp: identity_exists_def list_ex_iff)
  then show ?thesis
    using assms a by (intro exI [of _ a])
      (auto simp: forgot_password_def Let_def identities_get_by_email_def reset_tokens_delete_for_identity_def
        reset_tokens_create_def sql_insert_run token_violation_def identity_exists_def PASSWORD_RESET_TOKEN_TTL_MINS_def
        comp_def bindE_run)
qed

lemma forgot_password_unknown:
  "to_lowercase (trim email) \<noteq> [] \<Longrightarrow>
   find_first (\<lambda>i. email_key i = Some (to_lowercase (trim email))) (t_identities w) = None \<Longrightarrow>
   forgot_password now tok email w = (Inr None, w)"
  by (simp add: forgot_password_def Let_def identities_get_by_email_def)

lemma on_post_run: "on_post m s = (fst (m (po_world s)), s\<lparr>po_world := snd (m (po_world s))\<rparr>)"
  by (simp add: on_post_def split: prod.split)

lemma base_url_accounts: "get_frontend_base_url x now tid w = (r, w') \<Longrightarrow> accounts w' = accounts w \<and> t_reset_tokens w' = t_reset_tokens w"
proof -
  assume r: "get_frontend_base_url x now tid w = (r, w')"
  have f: "login_frame t_reset_tokens" "login_frame accounts" by (simp_all add: login_frame_def accounts_def)
  have "accounts w' = accounts w" by (rule leavesD [OF config_frame(6) r]) (rule f)
  moreover have "t_reset_tokens w' = t_reset_tokens w" by (rule leavesD [OF config_frame(6) r]) (rule f)
  ultimately show ?thesis ..
qed

definition reset_answer :: response where
  "reset_answer = (200, message ''If this email is registered, you will receive a password reset link shortly.'')"

text \<open>The identity the address of a request belongs to.\<close>

definition identity_of :: "string \<Rightarrow> world \<Rightarrow> identity option" where
  "identity_of email w = find_first (\<lambda>i. email_key i = Some (to_lowercase (trim email))) (t_identities w)"

text \<open>The base URL of the tenant can be read; that does not depend on the reset tokens.\<close>

definition base_url_readable :: "ext \<Rightarrow> time \<Rightarrow> string \<Rightarrow> world \<Rightarrow> bool" where
  "base_url_readable x now tid w \<longleftrightarrow> \<not> isl (fst (get_frontend_base_url x now tid w))"

lemma base_url_readable_tokens: "base_url_readable x now tid (t_reset_tokens_update h w) = base_url_readable x now tid w"
  by (simp add: base_url_readable_def get_frontend_base_url_def config_get_def config_load_def kv_get_def bindE_run Let_def
      split: option.split sum.split prod.split)

text \<open>
  C25. A request for a password reset gets the same response whether or not the e-mail belongs to an account, but for one
  case: with a mail relay configured and a base URL of the tenant that cannot be read, a registered address gets an
  error. Without an account nothing is stored or sent. With one, a token valid for 60 minutes and
  resetting that identity only replaces its earlier ones, at most one mail is sent, to the address
  stored for the identity, and no account changes. (The token is new.)
\<close>

theorem forgot_password_reveals_nothing:
  assumes "trim email \<noteq> []" "tok \<notin> rt_token ` set (t_reset_tokens (po_world s))"
  shows "\<exists>r s'. forgot_password_route x fr now tok tid email s = (r, s') \<and>
    (r = Inr reset_answer \<longleftrightarrow>
      identity_of email (po_world s) = None \<or> fr_smtp fr = None \<or> base_url_readable x now tid (po_world s)) \<and>
    accounts (po_world s') = accounts (po_world s) \<and>
    (case identity_of email (po_world s) of
       None \<Rightarrow> s' = s
     | Some i \<Rightarrow>
         (\<forall>t. fst (reset_tokens_get_valid t tok (po_world s')) = Inr (if t < now + minutes 60 then Some (i_id i) else None)) \<and>
         (\<forall>r \<in> set (t_reset_tokens (po_world s')). rt_identity_id r = i_id i \<longrightarrow> rt_token r = tok) \<and>
         (\<exists>link a. i_email i = Some a \<and>
            po_sent s' = po_sent s @ (if fr_smtp fr = None \<or> isl r then [] else [ResetMail a tok link])))"
proof -
  have e: "to_lowercase (trim email) \<noteq> []" using assms(1) by simp
  show ?thesis
  proof (cases "identity_of email (po_world s)")
    case None
    then have "forgot_password now tok email (po_world s) = (Inr None, po_world s)"
      using forgot_password_unknown [OF e] by (simp add: identity_of_def)
    with None show ?thesis
      by (simp add: forgot_password_route_def bindE_run on_post_run reset_answer_def)
  next
    case (Some i)
    define w1 where "w1 = t_reset_tokens_update (\<lambda>rows. filter (\<lambda>r. rt_identity_id r \<noteq> i_id i) rows @
        [\<lparr>rt_identity_id = i_id i, rt_token = tok, rt_expires_at = now + minutes 60\<rparr>]) (po_world s)"
    obtain a where a: "i_email i = Some a" "forgot_password now tok email (po_world s) = (Inr (Some (a, tok)), w1)"
      using forgot_password_known [OF e assms(2)] Some unfolding identity_of_def w1_def by blast
    obtain b w2 where url: "get_frontend_base_url x now tid w1 = (b, w2)" by fastforce
    have readable: "base_url_readable x now tid (po_world s) \<longleftrightarrow> \<not> isl b"
    proof -
      have "base_url_readable x now tid w1 = base_url_readable x now tid (po_world s)"
        unfolding w1_def by (rule base_url_readable_tokens)
      then show ?thesis using url by (simp add: base_url_readable_def)
    qed
    have w1: "accounts w1 = accounts (po_world s)"
      "\<And>t. fst (reset_tokens_get_valid t tok w1) = Inr (if t < now + minutes 60 then Some (i_id i) else None)"
      "\<forall>r \<in> set (t_reset_tokens w1). rt_identity_id r = i_id i \<longrightarrow> rt_token r = tok"
      using expired_or_new [OF assms(2)] by (auto simp: w1_def accounts_def reset_tokens_get_valid_def)
    note w2 = base_url_accounts [OF url]
    note run = forgot_password_route_def bindE_run on_post_run reset_answer_def send_mail_def reset_tokens_get_valid_def
    show ?thesis
    proof (cases "fr_smtp fr")
      case None
      then show ?thesis using Some a w1 by (simp add: run)
    next
      case (Some smtp)
      then show ?thesis using \<open>identity_of email (po_world s) = Some i\<close> a w1 w2 url readable
        by (cases b) (simp_all add: run)
    qed
  qed
qed

theorem forgot_password_reveals_nothing_witness:
  "fst (forgot_password_route ext0 (front0\<lparr>fr_smtp := Some (\<lambda>m. Inr ())\<rparr>) 0 ''tok'' ''acme'' '' Ann@acme.io ''
       \<lparr>po_world = login_world (login_identity0 0 None 0), po_sent = []\<rparr>) = Inr reset_answer \<and>
   fst (forgot_password_route ext0 (front0\<lparr>fr_smtp := Some (\<lambda>m. Inr ())\<rparr>) 0 ''tok'' ''acme'' ''bob@acme.io''
       \<lparr>po_world = login_world (login_identity0 0 None 0), po_sent = []\<rparr>) = Inr reset_answer"
proof -
  let ?s = "\<lparr>po_world = login_world (login_identity0 0 None 0), po_sent = []\<rparr>"
  have t: "trim '' Ann@acme.io '' \<noteq> []" "trim ''bob@acme.io'' \<noteq> []" by code_simp+
  have tok: "''tok'' \<notin> rt_token ` set (t_reset_tokens (po_world ?s))" by (simp add: login_world_def world0_def)
  have url: "base_url_readable ext0 0 ''acme'' (po_world ?s)"
    by (simp add: base_url_readable_def get_frontend_base_url_def config_get_def config_load_def kv_get_def login_world_def
        world0_def bindE_run)
  from forgot_password_reveals_nothing [OF t(1) tok, of ext0 "front0\<lparr>fr_smtp := Some (\<lambda>m. Inr ())\<rparr>" 0 "''acme''"]
    forgot_password_reveals_nothing [OF t(2) tok, of ext0 "front0\<lparr>fr_smtp := Some (\<lambda>m. Inr ())\<rparr>" 0 "''acme''"] url
  show ?thesis by force
qed

end
