(* ===== verification/Lock_Expiry.thy ===== *)
theory Lock_Expiry
  imports Login_Frames
begin

section \<open>A lock ends\<close>

text \<open>
  The counterpart of the spacing of guesses: a locked account is not locked out for good. Fifteen
  minutes after the last wrong guess the right password signs in again, and the counter is reset.
\<close>

text \<open>Every setting of the tenant can be read (decrypted and parsed).\<close>

definition settings_readable :: "ext \<Rightarrow> string \<Rightarrow> world \<Rightarrow> bool" where
  "settings_readable x tid w \<longleftrightarrow> (\<forall>g k. \<not> isl (kv_lookup x tid g k w))"

lemma kv_lookup_kv: "t_kv w' = t_kv w \<Longrightarrow> kv_lookup x tid g k w' = kv_lookup x tid g k w"
  by (simp add: kv_lookup_def)

lemma config_get_readable:
  "settings_readable x tid w \<Longrightarrow> t_kv w' = t_kv w \<Longrightarrow> \<exists>v w2. config_get x now tid g k w' = (Inr v, w2)"
proof -
  assume a: "settings_readable x tid w" "t_kv w' = t_kv w"
  obtain r w2 where r: "config_get x now tid g k w' = (r, w2)" by (cases "config_get x now tid g k w'")
  then show ?thesis
  proof (cases rule: config_get_cases)
    case miss
    then have "\<not> isl r" using a kv_lookup_kv [OF a(2)] by (simp add: settings_readable_def)
    with r show ?thesis by (cases r) auto
  qed (use r in auto)
qed

lemma settings_read:
  assumes "settings_readable x tid w" "t_kv w' = t_kv w"
  shows "\<exists>p w2. get_session_policy x now tid w' = (Inr p, w2)" "\<exists>ms w2. effective_login_methods x now tid u w' = (Inr ms, w2)"
proof -
  obtain v w2 where "config_get x now tid ''session_policy'' ''default'' w' = (Inr v, w2)"
    using config_get_readable [OF assms] by blast
  then show "\<exists>p w2. get_session_policy x now tid w' = (Inr p, w2)"
    by (simp add: get_session_policy_def config_view_def)
  obtain v w2 where "config_get x now tid ''login_methods'' ''allowed'' w' = (Inr v, w2)"
    using config_get_readable [OF assms] by blast
  then show "\<exists>ms w2. effective_login_methods x now tid u w' = (Inr ms, w2)"
    by (simp add: effective_login_methods_def get_login_methods_def config_view_def bindE_run)
qed

text \<open>A token that none of the tables of the last step of a login holds.\<close>

definition token_new :: "string \<Rightarrow> world \<Rightarrow> bool" where
  "token_new tok w \<longleftrightarrow> tok \<notin> s_session_token ` set (t_sessions w) \<and> tok \<notin> ct_token ` set (t_change_tokens w) \<and>
     tok \<notin> ch_token ` set (t_challenges w)"

lemma not_image_filter: "v \<notin> f ` set xs \<Longrightarrow> v \<notin> f ` {a \<in> set xs. P a}"
  by blast

lemma finalize_returns:
  assumes "\<not> c_uses_redis x" "settings_readable x tid w" "tenant_exists tid w" "user_exists (u_id u) w" "token_new tok w"
  shows "\<exists>r w'. finalize_login x now tok tid u i c w = (Inr r, w') \<and>
     (\<not> i_force_password_change i \<longrightarrow> \<not> i_mfa_enabled i \<longrightarrow> (\<exists>e. r = LoginSuccess tok e))"
proof -
  note nd = assms(5) [unfolded token_new_def]
  obtain pol w1 where pol: "get_session_policy x now tid w = (Inr pol, w1)"
    using settings_read(1) [OF assms(2) refl] by blast
  have "db w1 = db w" by (rule leavesD [OF config_views_leave(3) pol])
  then have w1: "t_sessions w1 = t_sessions w" "tenant_exists tid w1 = tenant_exists tid w" "user_exists (u_id u) w1 = user_exists (u_id u) w"
    by (simp_all add: same_db [of w1 w] tenant_exists_def user_exists_def)
  obtain e wa where session: "do_create_session x now tok tid u c w = (Inr (LoginSuccess tok e), wa)"
    using assms(1,3,4) nd w1
    by (simp add: do_create_session_run pol Let_def store_set_def pg_set_def create_audit_def writes_audit_row_def
        sql_insert_run token_violation_def bindE_run session_payload_of_def)
  obtain wb where change: "change_tokens_create (tid, u_id u) tok (now + minutes FORCE_CHANGE_TOKEN_TTL_MINS) w = (Inr (), wb)"
    using assms(3,4) nd
    by (simp add: change_tokens_create_def bindE_run sql_insert_run token_violation_def tenant_exists_def user_exists_def
        not_image_filter)
  obtain wc where challenge: "create_challenge now tok tid (u_id u) (now + minutes MFA_CHALLENGE_TTL_MINS) w = (Inr (), wc)"
    using assms(4) nd
    by (simp add: create_challenge_def bindE_run sql_insert_run token_violation_def user_exists_def not_image_filter)
  show ?thesis
    using session change challenge by (simp add: finalize_login_def issue_force_change_token_def)
qed

lemma login_frame_lock: "login_frame (lock_state iid)"
  by (simp add: login_frame_def lock_state_def)

lemma cleared_lock:
  assumes "identities_clear_failed_attempts now iid w = (Inr (), w')" "lock_state iid w = Some l"
  shows "lock_state iid w' = Some (0, None)"
proof -
  obtain z where z: "find_first (\<lambda>i. i_id i = iid) (t_identities w) = Some z" "i_id z = iid"
    using assms(2) by (auto simp: lock_state_def dest: find_first_SomeD)
  then show ?thesis
    using assms(1) by (auto simp: identities_clear_failed_attempts_def lock_state_def find_first_update_rows)
qed

text \<open>
  C28. However many wrong guesses were made against an identity, fifteen minutes after the last one its member
  signs in with the right password: the login answers with a session (or asks for the second factor
  or the new password, where those are due) and the counter of wrong guesses is back to zero.
\<close>

theorem locked_account_recovers:
  assumes "guess_run x (u_identity_id u) w0 ts w" "lock_state (u_identity_id u) w0 = Some (0, None)"
    and "\<forall>t \<in> set ts. t + minutes 15 \<le> now"
    and "users_get_by_username tid name w = (Inr (Some u), w)" "load_identity (u_identity_id u) w = (Inr i, w)"
    and "u_status u = ''active''" "i_status i = ''active''" "\<forall>v. u_access_valid_until u = Some v \<longrightarrow> now \<le> v"
    and "i_password_hash i = Some h" "x_argon2_verify x h pw = Inr True"
    and "\<forall>ms w'. effective_login_methods x now tid u w = (Inr ms, w') \<longrightarrow> LOGIN_METHOD_USERNAME_PASSWORD \<in> set ms"
    and "\<not> c_uses_redis x" "settings_readable x tid w" "tenant_exists tid w" "user_exists (u_id u) w" "token_new tok w"
  shows "\<exists>r w'. login_username_password x now tok tid name pw c w = (Inr r, w') \<and>
    lock_state (u_identity_id u) w' = Some (0, None) \<and>
    (\<not> i_force_password_change i \<longrightarrow> \<not> i_mfa_enabled i \<longrightarrow> (\<exists>e. r = LoginSuccess tok e))"
proof -
  have id: "find_first (\<lambda>j. i_id j = u_identity_id u) (t_identities w) = Some i" "i_id i = u_identity_id u"
    using assms(5) by (auto simp: load_identity_Inr dest: find_first_SomeD)
  have lock: "lock_state (u_identity_id u) w = Some (i_failed_attempts i, i_locked_until i)"
    using id(1) by (simp add: lock_state_def)
  have "i_locked_until i = (if ts \<noteq> [] \<and> 5 \<le> int (length ts) then Some (last ts + minutes 15) else None)"
    using guess_run_locks [OF assms(1,2)] lock by simp
  then have "\<forall>l. i_locked_until i = Some l \<longrightarrow> l \<le> now" using assms(3) by (auto split: if_splits)
  then have gates: "check_gates now u i = Inr ()" using assms(6-8) by (simp add: check_gates_ok)
  obtain ms w1 where ms: "effective_login_methods x now tid u w = (Inr ms, w1)" using settings_read(2) [OF assms(13) refl] by blast
  have "db w1 = db w" by (rule leavesD [OF effective_login_methods_leaves ms])
  note db = same_db [OF this]
  define w2 where "w2 = snd (identities_clear_failed_attempts now (i_id i) w1)"
  have clear: "identities_clear_failed_attempts now (i_id i) w1 = (Inr (), w2)"
    by (simp add: w2_def identities_clear_failed_attempts_def)
  have "lock_state (u_identity_id u) w1 = lock_state (u_identity_id u) w" by (simp add: lock_state_def db)
  then have zero: "lock_state (u_identity_id u) w2 = Some (0, None)" using cleared_lock [OF clear] lock id(2) by simp
  have kept: "t_kv w2 = t_kv w" "tenant_exists tid w2" "user_exists (u_id u) w2" "token_new tok w2"
    using assms(14-16) db
    by (simp_all add: w2_def identities_clear_failed_attempts_def tenant_exists_def user_exists_def token_new_def)
  have "settings_readable x tid w2" using assms(13) kv_lookup_kv [OF kept(1)] by (simp add: settings_readable_def)
  from finalize_returns [OF assms(12) this kept(2-4)] obtain r w' where
    fin: "finalize_login x now tok tid u i c w2 = (Inr r, w')"
      "\<not> i_force_password_change i \<longrightarrow> \<not> i_mfa_enabled i \<longrightarrow> (\<exists>e. r = LoginSuccess tok e)" by blast
  have "lock_state (u_identity_id u) w' = Some (0, None)"
    using leavesD [OF finalize_frame [OF login_frame_lock] fin(1)] zero by metis
  moreover have "login_username_password x now tok tid name pw c w = (Inr r, w')"
    using assms(4,5,9-11) gates ms clear fin(1)
    by (simp add: login_username_password_def do_password_login_def verify_password_def)
  ultimately show ?thesis using fin(2) by blast
qed

text \<open>Five wrong guesses at time 0 lock the account; at minute 15 the right password signs in.\<close>

lemma five_guesses:
  "guess_run ext0 7 (login_world (login_identity0 0 None 0)) [0, 0, 0, 0, 0] (login_world (login_identity0 5 (Some (minutes 15)) 0))"
proof -
  let ?w = "\<lambda>n l. login_world (login_identity0 n l 0)"
  have "guess_run ext0 7 (?w 0 None) (ts @ [0]) (?w (n + 1) (if 5 \<le> n + 1 then Some (minutes 15) else None))"
    if "guess_run ext0 7 (?w 0 None) ts (?w n None)" for ts n
    using guess_run.guess [OF that login_world_guess [of None 0 n 0]] by (simp cong: if_cong)
  from this [of "[]" 0] this [of "[0]" 1] this [of "[0, 0]" 2] this [of "[0, 0, 0]" 3] this [of "[0, 0, 0, 0]" 4]
  show ?thesis using guess_run.start by simp
qed

theorem locked_account_recovers_witness:
  "\<exists>w' e. login_username_password ext0 (minutes 15) ''tok'' ''acme'' ''ann'' ''pw'' (None, None)
      (login_world (login_identity0 5 (Some (minutes 15)) 0)) = (Inr (LoginSuccess ''tok'' e), w') \<and> lock_state 7 w' = Some (0, None)"
proof -
  let ?w = "login_world (login_identity0 5 (Some (minutes 15)) 0)"
  let ?i = "login_identity0 5 (Some (minutes 15)) 0"
  let ?u = "row_to_user (hd (t_users ?w)) ?i"
  have u: "u_identity_id ?u = 7" "u_id ?u = 5" "u_status ?u = ''active''" "u_access_valid_until ?u = None"
    by (simp_all add: login_world_def)
  have lock: "lock_state (u_identity_id ?u) (login_world (login_identity0 0 None 0)) = Some (0, None)"
    by (simp add: lock_state_def login_world_def login_identity0_def)
  have get: "users_get_by_username ''acme'' ''ann'' ?w = (Inr (Some ?u), ?w)"
    by (simp add: users_get_by_username_def fetch_user_def from_join_def login_world_def login_identity0_def)
  have load: "load_identity (u_identity_id ?u) ?w = (Inr ?i, ?w)"
    by (simp add: load_identity_Inr login_world_def login_identity0_def)
  have i: "i_status ?i = ''active''" "i_password_hash ?i = Some ''$pw''" "\<not> i_force_password_change ?i" "\<not> i_mfa_enabled ?i"
    by (simp_all add: login_identity0_def)
  have x: "x_argon2_verify ext0 ''$pw'' ''pw'' = Inr True" "\<not> c_uses_redis ext0" by (simp_all add: ext0_def)
  have eff: "\<forall>ms w'. effective_login_methods ext0 (minutes 15) ''acme'' ?u ?w = (Inr ms, w') \<longrightarrow> LOGIN_METHOD_USERNAME_PASSWORD \<in> set ms"
    by (simp add: effective_login_methods_def get_login_methods_def config_view_def config_get_def config_load_def kv_get_def
        login_world_def world0_def bindE_run Let_def user_supported_methods_def row_to_user_def LOGIN_METHOD_USERNAME_PASSWORD_def)
  have w: "settings_readable ext0 ''acme'' ?w" "tenant_exists ''acme'' ?w" "user_exists (u_id ?u) ?w" "token_new ''tok'' ?w"
    by (simp_all add: settings_readable_def kv_lookup_def tenant_exists_def user_exists_def token_new_def login_world_def world0_def)
  have run: "guess_run ext0 (u_identity_id ?u) (login_world (login_identity0 0 None 0)) [0, 0, 0, 0, 0] ?w"
    using five_guesses u(1) by simp
  from locked_account_recovers [OF run lock _ get load u(3) i(1) _ i(2) x(1) eff x(2) w, of "(None, None)"] i(3,4) u(1,4)
  show ?thesis by auto
qed

end
