(* ===== verification/Login_Errors.thy ===== *)
theory Login_Errors
  imports Lock_Expiry Auth_Accounts
begin

section \<open>Refused logins\<close>

text \<open>
  What a password login leaves behind when it answers with an error: the counters of wrong guesses,
  expired tokens and the configuration cache may change, sessions, memberships and credentials do
  not. \<open>failing f m\<close>: when \<open>m\<close> fails, it has left \<open>f\<close> alone (while on success it may change it).
\<close>

definition failing :: "('s \<Rightarrow> 'b) \<Rightarrow> ('s, 'a) io \<Rightarrow> bool" where
  "failing f m \<longleftrightarrow> (\<forall>s e t. m s = (Inl e, t) \<longrightarrow> f t = f s)"

definition never_fails :: "('s, 'a) io \<Rightarrow> bool" where
  "never_fails m \<longleftrightarrow> (\<forall>s. \<not> isl (fst (m s)))"

named_theorems failing_rules "operations that leave a part of the state alone when they fail"

lemma failing_leaves: "leaves f m \<Longrightarrow> failing f m"
  unfolding failing_def by (blast dest: leavesD)

lemma failing_bindE [failing_rules]:
  "leaves f m \<Longrightarrow> (\<And>a. failing f (k a)) \<Longrightarrow> failing f (bindE m k)"
  unfolding failing_def bindE_Inl_iff by (metis leavesD)

lemma failing_last: "failing f m \<Longrightarrow> (\<And>a. never_fails (k a)) \<Longrightarrow> failing f (bindE m k)"
  unfolding failing_def never_fails_def bindE_Inl_iff by (metis fst_conv isl_def)

lemma failing_insert [failing_rules]: "failing f (sql_insert upd viol row)"
  by (auto simp: failing_def sql_insert_run split: option.splits)

lemma never_fails_ret [simp]: "never_fails (ret v)"
  by (simp add: never_fails_def)

text \<open>What no failing login changes.\<close>

definition login_kept :: "world \<Rightarrow> session_row list \<times> redis_state \<times> membership list \<times>
    (uuid \<times> string option \<times> (string option \<times> string option) \<times> string option \<times> string \<times> bool \<times> string option \<times> bool) list" where
  "login_kept w = (t_sessions w, redis w, t_users w,
     map (\<lambda>i. (i_id i, i_email i, (i_country_code i, i_mobile i), i_password_hash i, i_status i,
       i_mfa_enabled i, i_mfa_secret i, i_force_password_change i)) (t_identities w))"

lemma kept_db: "leaves db m \<Longrightarrow> leaves login_kept m"
proof (rule leavesI)
  fix s r t assume m: "leaves db m" "m s = (r, t)"
  have "db t = db s" by (rule leavesD [OF m])
  from same_db(1,2,6,11) [OF this] show "login_kept t = login_kept s" by (simp add: login_kept_def)
qed

lemma kept_counters:
  "leaves login_kept (identities_clear_failed_attempts now iid)" "leaves login_kept (register_failed_attempt now i)"
  unfolding identities_clear_failed_attempts_def register_failed_attempt_def identities_increment_failed_attempts_def
  by (auto simp: login_kept_def update_rows_def intro!: leavesI split: option.splits)

lemma kept_tokens:
  "leaves login_kept (change_tokens_create s tok e)" "leaves login_kept (create_challenge now tok tid uid e)"
  unfolding change_tokens_create_def create_challenge_def
  by (intro leaves_rules leaves_insert leaves_delete; simp add: login_kept_def)+

lemma failing_session:
  assumes "\<not> c_uses_redis x"
  shows "failing login_kept (do_create_session x now tok tid u c)"
proof -
  have set: "failing login_kept (store_set x now tok p ttl)" for p ttl
    using assms by (simp add: store_set_def pg_set_def create_audit_def failing_insert)
  have policy: "leaves login_kept (get_session_policy x now tid)"
    by (intro kept_db config_views_leave)
  show ?thesis
    unfolding failing_def
  proof (intro allI impI)
    fix w e t assume f: "do_create_session x now tok tid u c w = (Inl e, t)"
    have fixed: "failing login_kept (bindE (get_session_policy x now tid) (\<lambda>pol.
        let ttl = session_ttl x pol; e = now + secs (sint ttl) in
        bindE (store_set x now tok (session_payload_of w tid u c e) ttl) (\<lambda>_. bindE (ret ()) (\<lambda>_. ret (LoginSuccess tok e)))))"
      unfolding Let_def by (intro failing_bindE [OF policy] failing_last [OF set]) (simp add: never_fails_def)
    show "login_kept t = login_kept w"
      using f [unfolded do_create_session_run] fixed assms unfolding failing_def by (simp add: writes_audit_row_def)
  qed
qed

lemma failing_finalize:
  assumes "\<not> c_uses_redis x"
  shows "failing login_kept (finalize_login x now tok tid u i c)"
  unfolding finalize_login_def issue_force_change_token_def
  using failing_session [OF assms] by (auto intro!: failing_leaves leaves_bindE kept_tokens leaves_pure)

lemma failing_password_login:
  assumes "\<not> c_uses_redis x"
  shows "failing login_kept (do_password_login x now tok tid u pw c meth)"
proof -
  have rejected: "failing login_kept (bindE (register_failed_attempt now i) (\<lambda>_. throw e))" for i and e :: app_error
    by (intro failing_leaves leaves_bindE kept_counters leaves_pure)
  have accepted: "failing login_kept (bindE (identities_clear_failed_attempts now iid) (\<lambda>_. finalize_login x now tok tid u i c))" for iid i
    by (intro failing_bindE kept_counters failing_finalize assms)
  show ?thesis
    unfolding do_password_login_def
    by (intro failing_bindE leaves_pure lookups_leave_accounts kept_db effective_login_methods_leaves) (simp add: rejected accepted)
qed

text \<open>The errors a password login can answer with.\<close>

definition login_statuses :: "nat list" where
  "login_statuses = [401, 403, 404, 409, 423, 500]"

definition login_error :: "app_error \<Rightarrow> bool" where
  "login_error e \<longleftrightarrow> fst (into_response e) \<in> set login_statuses"

lemma store_login_error: "store_error e \<Longrightarrow> login_error e"
  by (cases e) (simp_all add: login_error_def login_statuses_def into_response_def)

lemma login_error_simps [simp]:
  "login_error (Unauthorized m)" "login_error (Forbidden m)" "login_error (Locked m)" "login_error (AccessExpired m)"
  by (simp_all add: login_error_def login_statuses_def into_response_def)

lemma fails_login_error: "fails_only store_error m \<Longrightarrow> fails_only login_error m"
  by (erule fails_weaken) (rule store_login_error)

lemma password_login_errors: "fails_only login_error (do_password_login x now tok tid u pw c meth)"
proof -
  have store: "fails_only login_error (load_identity iid)" "fails_only login_error (effective_login_methods x now tid u)"
    "fails_only login_error (finalize_login x now tok tid u i c)" "fails_only login_error (identities_clear_failed_attempts now iid)"
    "fails_only login_error (register_failed_attempt now i)" for iid i
  proof -
    show "fails_only login_error (load_identity iid)"
      by (rule fails_onlyI) (rule store_login_error, rule load_identity_error)
    show "fails_only login_error (effective_login_methods x now tid u)" "fails_only login_error (finalize_login x now tok tid u i c)"
      by (intro fails_login_error fails_rules)+
    show "fails_only login_error (identities_clear_failed_attempts now iid)" "fails_only login_error (register_failed_attempt now i)"
      unfolding register_failed_attempt_def identities_clear_failed_attempts_def identities_increment_failed_attempts_def
      by (intro fails_rules)+
  qed
  have gates: "login_error e" if "check_gates now u i = Inl e" for i e
    using that by (auto simp: check_gates_def split: if_splits)
  have verify: "login_error e" if "verify_password x h pw = Inl e" for h e
    using that by (intro store_login_error) (rule verify_password_error)
  show ?thesis
    unfolding do_password_login_def by (intro fails_rules store) (auto dest: gates verify)
qed

lemma domain_refused:
  "fails_only login_error (ensure_email_domain_allowed x now tid e)"
proof -
  have "fails_only login_error (get_allowed_email_domains x now tid)" by (intro fails_login_error fails_rules)
  then show ?thesis unfolding ensure_email_domain_allowed_def by (intro fails_rules) simp_all
qed

text \<open>
  C29. A password login that is refused, for whatever reason and at whatever point, creates or ends no
  session and changes no membership and no handle, password, status or second-factor setting of any
  identity; its status is 401, 403, 404, 409, 423 or 500, never 400, 422 or 429. (Sessions are in PostgreSQL;
  with Redis a session stored before the audit row fails would remain.)
\<close>

theorem refused_login_effects:
  assumes "\<not> c_uses_redis x"
    and "login_email_password x now tok tid name pw c w = (Inl e, w') \<or> login_username_password x now tok tid name pw c w = (Inl e, w')"
  shows "t_sessions w' = t_sessions w \<and> redis w' = redis w \<and> t_users w' = t_users w \<and>
    map credentials (t_identities w') = map credentials (t_identities w) \<and> fst (into_response e) \<in> {401, 403, 404, 409, 423, 500}"
proof -
  have get: "leaves login_kept (get_or er (fetch_user P))" "fails_only login_error (get_or (Unauthorized msg) (fetch_user P))"
    for er P msg
    by (auto intro!: leaves_rules leavesI fails_onlyI simp: get_or_run fetch_user_def split: option.splits)
  note login = failing_password_login [OF assms(1)] password_login_errors
  have domain: "leaves login_kept (ensure_email_domain_allowed x now tid name)"
    by (intro kept_db ensure_email_domain_leaves)
  have "failing login_kept (login_email_password x now tok tid name pw c)" "fails_only login_error (login_email_password x now tok tid name pw c)"
    unfolding login_email_password_def users_get_by_email_def
    by (intro failing_bindE domain get login fails_bindE domain_refused)+
  moreover have "failing login_kept (login_username_password x now tok tid name pw c)"
    "fails_only login_error (login_username_password x now tok tid name pw c)"
    unfolding login_username_password_def users_get_by_username_def
    by (intro failing_bindE get login fails_bindE)+
  ultimately have "login_kept w' = login_kept w" "login_error e"
    using assms(2) unfolding failing_def by (blast dest: fails_onlyD)+
  then show ?thesis
    by (simp add: login_kept_def credentials_def [abs_def] login_error_def login_statuses_def)
qed

theorem refused_login_effects_witness:
  "\<exists>w'. login_username_password ext0 0 ''tok'' ''acme'' ''ann'' ''bad'' (None, None) (login_world (login_identity0 4 None 0))
      = (Inl (Unauthorized ''Invalid email or password''), w') \<and> t_sessions w' = t_sessions (login_world (login_identity0 4 None 0))"
proof -
  let ?r = "login_username_password ext0 0 ''tok'' ''acme'' ''ann'' ''bad'' (None, None) (login_world (login_identity0 4 None 0))"
  have "fst ?r = Inl (Unauthorized ''Invalid email or password'')" by code_simp
  then have r: "?r = (Inl (Unauthorized ''Invalid email or password''), snd ?r)" by (metis prod.collapse)
  have "\<not> c_uses_redis ext0" by (simp add: ext0_def)
  from refused_login_effects [OF this disjI2 [OF r]] r show ?thesis by blast
qed

text \<open>
  The message tells an unknown user name from a wrong password, although both are answered with 401.
\<close>

lemma username_login_reveals_existence:
  "fst (login_username_password ext0 0 ''tok'' ''acme'' ''ann'' ''bad'' (None, None) (login_world (login_identity0 0 None 0)))
     = Inl (Unauthorized ''Invalid email or password'')"
  "fst (login_username_password ext0 0 ''tok'' ''acme'' ''bob'' ''bad'' (None, None) (login_world (login_identity0 0 None 0)))
     = Inl (Unauthorized ''Invalid username or password'')"
  by code_simp+

end
