(* ===== verification/Startup.thy ===== *)
theory Startup
  imports Routes_Auth
begin

section \<open>Configuration and seeding\<close>

text \<open>
  \<^verbatim>\<open>src/config.rs\<close> (the settings read from the environment) and \<^verbatim>\<open>src/seed.rs\<close> (a tenant, a role
  and an administrator created from the environment). The environment is a partial map from names to
  texts. The seeder's errors are texts; they are the arguments of \<open>Internal\<close> here.
\<close>

type_synonym env = "string \<Rightarrow> string option"

subsection \<open>Settings\<close>

text \<open>\<^verbatim>\<open>str::parse\<close> for the unsigned integers: an optional plus sign and digits, in range.\<close>

definition parse_unsigned :: "nat \<Rightarrow> string \<Rightarrow> nat option" where
  "parse_unsigned bits s =
     (let digits = (case s of c # cs \<Rightarrow> if c = CHR ''+'' then cs else s | [] \<Rightarrow> []) in
      if digits \<noteq> [] \<and> list_all is_ascii_digit digits \<and> str_nat_aux 0 digits < 2 ^ bits
      then Some (str_nat_aux 0 digits) else None)"

definition parse_bool :: "string \<Rightarrow> bool option" where
  "parse_bool s = (if s = ''true'' then Some True else if s = ''false'' then Some False else None)"

definition non_empty_var :: "env \<Rightarrow> string \<Rightarrow> string option" where
  "non_empty_var e name = (case e name of Some v \<Rightarrow> if v = [] then None else Some v | None \<Rightarrow> None)"

definition var_or :: "env \<Rightarrow> string \<Rightarrow> string \<Rightarrow> string" where
  "var_or e name dflt = (case e name of Some v \<Rightarrow> v | None \<Rightarrow> dflt)"

record config =
  cf_database_url :: string
  cf_redis_url :: "string option"
  cf_redis_enabled :: bool
  cf_log_level :: string
  cf_server_host :: string
  cf_server_port :: nat
  cf_kv_store_encryption_key :: "string option"
  cf_smtp_host :: "string option"
  cf_smtp_port :: "nat option"
  cf_smtp_secure :: bool
  cf_smtp_user :: "string option"
  cf_smtp_pass :: "string option"
  cf_smtp_from :: "string option"
  cf_frontend_url :: "string option"
  cf_builder_tenant_id :: string
  cf_allowed_roles :: "string list"
  cf_default_session_ttl_secs :: nat
  cf_mfa_issuer :: string

text \<open>\<^verbatim>\<open>ALLOWED_ROLES\<close>: the non-blank parts between the commas.\<close>

definition parse_roles :: "string \<Rightarrow> string list" where
  "parse_roles s = filter (\<lambda>r. r \<noteq> []) (map trim (split_on (CHR '','') s))"

text \<open>\<^verbatim>\<open>None\<close> is the error \<^verbatim>\<open>VarError::NotPresent\<close>.\<close>

definition from_env :: "env \<Rightarrow> config option" where
  "from_env e =
     Option.bind (e ''DATABASE_URL'') (\<lambda>database_url.
     let smtp_host = non_empty_var e ''SMTP_HOST'' in
     Option.bind (e ''BUILDER_TENANT_ID'') (\<lambda>builder_tenant_id.
     Option.bind (e ''ALLOWED_ROLES'') (\<lambda>roles.
     let allowed_roles = parse_roles roles in
     if allowed_roles = [] then None else
     Some \<lparr>cf_database_url = database_url, cf_redis_url = e ''REDIS_URL'',
       cf_redis_enabled = (case parse_bool (var_or e ''REDIS_ENABLED'' ''true'') of None \<Rightarrow> True | Some b \<Rightarrow> b),
       cf_log_level = var_or e ''RUST_LOG'' ''info'', cf_server_host = var_or e ''SERVER_HOST'' ''0.0.0.0'',
       cf_server_port = (case parse_unsigned 16 (var_or e ''SERVER_PORT'' ''3000'') of None \<Rightarrow> 3000 | Some n \<Rightarrow> n),
       cf_kv_store_encryption_key = e ''KV_STORE_ENCRYPTION_KEY'', cf_smtp_host = smtp_host,
       cf_smtp_port = (case Option.bind (e ''SMTP_PORT'') (parse_unsigned 16) of
          Some n \<Rightarrow> Some n | None \<Rightarrow> map_option (\<lambda>_. 587) smtp_host),
       cf_smtp_secure = (case parse_bool (var_or e ''SMTP_SECURE'' ''true'') of None \<Rightarrow> True | Some b \<Rightarrow> b),
       cf_smtp_user = non_empty_var e ''SMTP_USER'', cf_smtp_pass = non_empty_var e ''SMTP_PASS'',
       cf_smtp_from = non_empty_var e ''SMTP_FROM'', cf_frontend_url = non_empty_var e ''FRONTEND_URL'',
       cf_builder_tenant_id = builder_tenant_id, cf_allowed_roles = allowed_roles,
       cf_default_session_ttl_secs = (case Option.bind (e ''DEFAULT_SESSION_TTL_SECS'') (parse_unsigned 64) of
          Some n \<Rightarrow> if 0 < n then n else 3600 | None \<Rightarrow> 3600),
       cf_mfa_issuer = (case non_empty_trim (e ''MFA_ISSUER'') of None \<Rightarrow> ''Authrs'' | Some s \<Rightarrow> s)\<rparr>)))"

record smtp_config =
  sm_host :: string
  sm_port :: nat
  sm_secure :: bool
  sm_user :: "string option"
  sm_pass :: "string option"
  sm_from :: string

definition config_smtp :: "config \<Rightarrow> smtp_config option" where
  "config_smtp c =
     Option.bind (cf_smtp_host c) (\<lambda>host. Option.bind (cf_smtp_from c) (\<lambda>sender.
       if host = [] \<or> sender = [] then None
       else Some \<lparr>sm_host = host, sm_port = (case cf_smtp_port c of None \<Rightarrow> 587 | Some n \<Rightarrow> n), sm_secure = cf_smtp_secure c,
         sm_user = cf_smtp_user c, sm_pass = cf_smtp_pass c, sm_from = sender\<rparr>))"

definition smtp_configured :: "config \<Rightarrow> bool" where
  "smtp_configured c \<longleftrightarrow> (case cf_smtp_host c of None \<Rightarrow> False | Some h \<Rightarrow> h \<noteq> []) \<and>
     (case cf_smtp_from c of None \<Rightarrow> False | Some f \<Rightarrow> f \<noteq> [])"

definition redis_configured :: "config \<Rightarrow> bool" where
  "redis_configured c \<longleftrightarrow> cf_redis_enabled c \<and> (case cf_redis_url c of None \<Rightarrow> False | Some u \<Rightarrow> u \<noteq> [])"

subsection \<open>Seeding\<close>

record seed_input =
  si_tenant_id :: string
  si_tenant_name :: string
  si_role_name :: string
  si_admin_email :: "string option"
  si_admin_password :: "string option"
  si_admin_first_name :: "string option"
  si_admin_last_name :: "string option"
  si_app_url :: "string option"

definition seed_from_env :: "env \<Rightarrow> string + seed_input option" where
  "seed_from_env e = (case non_empty_var e ''SEED_TENANT_ID'' of
     None \<Rightarrow> Inr None
   | Some tenant_id \<Rightarrow>
       (let admin_email = non_empty_var e ''SEED_ADMIN_EMAIL''; admin_password = non_empty_var e ''SEED_ADMIN_PASSWORD'' in
        if admin_email \<noteq> None \<and> (case admin_password of None \<Rightarrow> True | Some p \<Rightarrow> p = []) then
          Inl ''SEED_ADMIN_PASSWORD is required when SEED_ADMIN_EMAIL is set''
        else Inr (Some \<lparr>si_tenant_id = tenant_id,
          si_tenant_name = var_or e ''SEED_TENANT_NAME'' (map (\<lambda>c. if c = CHR ''_'' then CHR '' '' else c) tenant_id),
          si_role_name = var_or e ''SEED_ROLE_NAME'' ''Launchpad Admin'', si_admin_email = admin_email,
          si_admin_password = admin_password, si_admin_first_name = non_empty_var e ''SEED_ADMIN_FIRST_NAME'',
          si_admin_last_name = non_empty_var e ''SEED_ADMIN_LAST_NAME'',
          si_app_url = (case e ''SEED_APP_URL'' of None \<Rightarrow> None
            | Some s \<Rightarrow> (let u = trim_end_matches (CHR ''/'') (trim s) in if u = [] then None else Some u))\<rparr>)))"

text \<open>The constraints of \<^verbatim>\<open>tenants\<close>: the form of the id and the unique name.\<close>

definition tenants_violation :: "string \<Rightarrow> string \<Rightarrow> world \<Rightarrow> sqlx_error option" where
  "tenants_violation tid name w =
     (if \<not> is_lower_snake_case tid then Some (OtherSqlError ''tenants_id_check'')
      else if list_ex (\<lambda>t. tn_id t \<noteq> tid \<and> tn_name t = name) (t_tenants w) then Some UniqueViolation else None)"

definition seed_tenant :: "time \<Rightarrow> string \<Rightarrow> string \<Rightarrow> unit op" where
  "seed_tenant now tid name =
     bindE (gets (tenants_violation tid name)) (\<lambda>v. case v of
       Some e \<Rightarrow> throw (from_sqlx e)
     | None \<Rightarrow> bindE (sql_exists t_tenants (\<lambda>t. tn_id t = tid)) (\<lambda>ex.
         if ex then sql_update t_tenants_update (\<lambda>t. tn_id t = tid) (\<lambda>t. t\<lparr>tn_name := name\<rparr>)
         else sql_insert t_tenants_update (\<lambda>_. None)
           \<lparr>tn_id = tid, tn_name = name, tn_status = ''active'', tn_created_at = now\<rparr>))"

definition seed_role :: "uuid \<Rightarrow> string \<Rightarrow> string \<Rightarrow> unit op" where
  "seed_role rid tid role_name =
     (let uid = to_uid role_name;
          row = \<lparr>r_id = rid, r_tenant_id = tid, r_name = role_name, r_uid = uid, r_parent_role_id = None\<rparr> in
      bindE (sql_exists t_roles (\<lambda>r. r_tenant_id r = tid \<and> r_uid r = uid)) (\<lambda>ex.
        if ex then ret () else sql_insert t_roles_update (roles_violation row) row))"

definition seed_identity :: "time \<Rightarrow> uuid \<Rightarrow> string \<Rightarrow> string \<Rightarrow> string \<Rightarrow> string \<Rightarrow> uuid op" where
  "seed_identity now iid email first_name last_name pw_hash =
     bindE (identities_get_by_email email) (\<lambda>found. case found of
         Some i \<Rightarrow> ret (i_id i)
       | None \<Rightarrow> bindE (identities_create now iid (Some email) None None (Some first_name) (Some last_name) (Some pw_hash)) (\<lambda>i. ret (i_id i)))"

definition seed_membership :: "time \<Rightarrow> uuid \<Rightarrow> string \<Rightarrow> uuid \<Rightarrow> unit op" where
  "seed_membership now uid tid iid =
     (let row = \<lparr>m_id = uid, m_tenant_id = tid, m_identity_id = iid, m_username = None, m_status = ''active'',
                 m_access_valid_until = None, m_created_at = now, m_updated_at = now\<rparr> in
      bindE (sql_exists t_users (\<lambda>m. m_tenant_id m = tid \<and> m_identity_id m = iid)) (\<lambda>ex.
        if ex then ret () else sql_insert t_users_update (users_violation row) row))"

definition seed_assign :: "string \<Rightarrow> uuid \<Rightarrow> string \<Rightarrow> unit op" where
  "seed_assign tid iid role_name =
     bindE (sql_fetch t_users (\<lambda>m. m_tenant_id m = tid \<and> m_identity_id m = iid)) (\<lambda>existing. case existing of
         None \<Rightarrow> ret ()
       | Some m \<Rightarrow>
           bindE (get_or (from_sqlx RowNotFound) (sql_fetch t_roles (\<lambda>r. r_tenant_id r = tid \<and> r_name r = role_name))) (\<lambda>r.
           bindE (gets (\<lambda>w. (m_id m, r_id r) \<in> set (t_user_roles w))) (\<lambda>ex.
             if ex then ret () else sql_insert t_user_roles_update (\<lambda>_. None) (m_id m, r_id r))))"

definition seed_admin :: "ext \<Rightarrow> time \<Rightarrow> string \<times> uuid \<times> uuid \<Rightarrow> seed_input \<Rightarrow> string \<Rightarrow> string \<Rightarrow> unit op" where
  "seed_admin x now = (\<lambda>(salt, iid, uid) input email_arg password.
     (let email = to_lowercase (trim email_arg) in
      bindE (unless (email \<noteq> []) (Internal ''SEED_ADMIN_EMAIL cannot be empty'')) (\<lambda>_.
      bindE (lift (hash_password x salt password)) (\<lambda>hash.
      bindE (seed_identity now iid email (case si_admin_first_name input of None \<Rightarrow> ''Admin'' | Some n \<Rightarrow> n)
               (case si_admin_last_name input of None \<Rightarrow> ''User'' | Some n \<Rightarrow> n) hash) (\<lambda>i.
      bindE (seed_membership now uid (si_tenant_id input) i) (\<lambda>_.
        seed_assign (si_tenant_id input) i (si_role_name input)))))))"

definition seed_run :: "ext \<Rightarrow> time \<Rightarrow> uuid \<Rightarrow> string \<times> uuid \<times> uuid \<Rightarrow> seed_input \<Rightarrow> unit op" where
  "seed_run x now rid fresh input =
     bindE (seed_tenant now (si_tenant_id input) (si_tenant_name input)) (\<lambda>_.
     bindE (case si_app_url input of None \<Rightarrow> ret ()
            | Some app_url \<Rightarrow> kv_upsert (si_tenant_id input) ''frontend_config'' ''base_url'' (x_json_print x (JStr app_url)) False) (\<lambda>_.
     bindE (seed_role rid (si_tenant_id input) (si_role_name input)) (\<lambda>_.
       case (si_admin_email input, si_admin_password input) of
         (Some email, Some password) \<Rightarrow> seed_admin x now fresh input email password
       | _ \<Rightarrow> ret ())))"

subsection \<open>Seeding twice\<close>

definition tenant_done :: "string \<Rightarrow> string \<Rightarrow> world \<Rightarrow> bool" where
  "tenant_done tid name w \<longleftrightarrow> tenants_violation tid name w = None \<and> list_ex (\<lambda>t. tn_id t = tid) (t_tenants w) \<and>
     (\<forall>t \<in> set (t_tenants w). tn_id t = tid \<longrightarrow> tn_name t = name)"

definition kv_done :: "string \<Rightarrow> string \<Rightarrow> world \<Rightarrow> bool" where
  "kv_done tid v w \<longleftrightarrow> list_ex (kv_at tid ''frontend_config'' ''base_url'') (t_kv w) \<and>
     (\<forall>r \<in> set (t_kv w). kv_at tid ''frontend_config'' ''base_url'' r \<longrightarrow> kv_value r = v \<and> \<not> kv_sensitive r)"

definition role_done :: "string \<Rightarrow> string \<Rightarrow> world \<Rightarrow> bool" where
  "role_done tid role_name w \<longleftrightarrow> list_ex (\<lambda>r. r_tenant_id r = tid \<and> r_uid r = to_uid role_name) (t_roles w)"

definition admin_done :: "string \<Rightarrow> string \<Rightarrow> string \<Rightarrow> world \<Rightarrow> bool" where
  "admin_done tid email role_name w \<longleftrightarrow> (\<exists>i m r. find_first (\<lambda>i. email_key i = Some (to_lowercase email)) (t_identities w) = Some i \<and>
     find_first (\<lambda>m. m_tenant_id m = tid \<and> m_identity_id m = i_id i) (t_users w) = Some m \<and>
     find_first (\<lambda>r. r_tenant_id r = tid \<and> r_name r = role_name) (t_roles w) = Some r \<and> (m_id m, r_id r) \<in> set (t_user_roles w))"

lemma list_ex_iff_find: "list_ex P xs \<longleftrightarrow> find_first P xs \<noteq> None"
  by (induction xs) auto

lemma list_ex_update_rows: "(\<And>r. P r \<Longrightarrow> Q (f r) \<longleftrightarrow> Q r) \<Longrightarrow> list_ex Q (update_rows P f xs) \<longleftrightarrow> list_ex Q xs"
  by (induction xs) (auto simp: update_rows_def simp del: list_ex_iff)

lemma in_update_rows: "r \<in> set (update_rows P f xs) \<Longrightarrow> P r \<Longrightarrow> \<exists>x \<in> set xs. r = f x"
  by (auto simp: update_rows_def split: if_splits)

lemma seed_tenant_done:
  assumes "seed_tenant now tid name w = (Inr (), w1)"
  shows "tenant_done tid name w1"
proof (cases "list_ex (\<lambda>t. tn_id t = tid) (t_tenants w)")
  case True
  let ?rows = "update_rows (\<lambda>t. tn_id t = tid) (\<lambda>t. t\<lparr>tn_name := name\<rparr>) (t_tenants w)"
  have ok: "tenants_violation tid name w = None" and w1: "t_tenants w1 = ?rows"
    using assms True by (auto simp: seed_tenant_def bindE_run split: option.splits)
  have "list_ex (\<lambda>t. tn_id t = tid) ?rows"
    using True by (subst list_ex_update_rows) simp_all
  moreover have "list_ex (\<lambda>t. tn_id t \<noteq> tid \<and> tn_name t = name) ?rows \<longleftrightarrow> list_ex (\<lambda>t. tn_id t \<noteq> tid \<and> tn_name t = name) (t_tenants w)"
    by (rule list_ex_update_rows) simp
  moreover have "\<forall>t \<in> set ?rows. tn_id t = tid \<longrightarrow> tn_name t = name"
    by (auto dest: in_update_rows)
  ultimately show ?thesis
    using ok w1 by (simp add: tenant_done_def tenants_violation_def split: if_splits)
next
  case False
  let ?row = "\<lparr>tn_id = tid, tn_name = name, tn_status = ''active'', tn_created_at = now\<rparr>"
  have ok: "tenants_violation tid name w = None" and w1: "t_tenants w1 = t_tenants w @ [?row]"
    using assms False by (auto simp: seed_tenant_def bindE_run sql_insert_run split: option.splits)
  have "tn_id t \<noteq> tid" if "t \<in> set (t_tenants w)" for t
    using False that by (auto simp: list_ex_iff)
  with ok w1 show ?thesis
    by (simp add: tenant_done_def tenants_violation_def ball_Un split: if_splits)
qed

lemma seed_tenant_again:
  assumes "tenant_done tid name w"
  shows "seed_tenant now tid name w = (Inr (), w)"
proof -
  have "update_rows (\<lambda>t. tn_id t = tid) (\<lambda>t. t\<lparr>tn_name := name\<rparr>) (t_tenants w) = t_tenants w"
    using assms by (auto simp: tenant_done_def update_rows_def map_idI)
  then show ?thesis using assms by (simp add: seed_tenant_def tenant_done_def list_ex_iff)
qed

lemma kv_upsert_done:
  assumes "kv_upsert tid ''frontend_config'' ''base_url'' v False w = (Inr (), w1)"
  shows "kv_done tid v w1"
proof (cases "list_ex (kv_at tid ''frontend_config'' ''base_url'') (t_kv w)")
  case True
  let ?P = "kv_at tid ''frontend_config'' ''base_url''" and ?f = "\<lambda>r. r\<lparr>kv_value := v, kv_sensitive := False\<rparr>"
  have w1: "t_kv w1 = update_rows ?P ?f (t_kv w)"
    using assms True by (auto simp: kv_upsert_def bindE_run)
  have "list_ex ?P (update_rows ?P ?f (t_kv w))"
    using True by (subst list_ex_update_rows) (simp_all add: kv_at_def)
  moreover have "\<forall>r \<in> set (update_rows ?P ?f (t_kv w)). ?P r \<longrightarrow> kv_value r = v \<and> \<not> kv_sensitive r"
    by (auto dest: in_update_rows)
  ultimately show ?thesis unfolding kv_done_def w1 by blast
next
  case False
  let ?row = "\<lparr>kv_tenant_id = tid, kv_group_key = ''frontend_config'', kv_key = ''base_url'', kv_value = v, kv_sensitive = False\<rparr>"
  have "t_kv w1 = t_kv w @ [?row]"
    using assms False by (auto simp: kv_upsert_def bindE_run sql_insert_run split: option.splits)
  moreover have "\<not> kv_at tid ''frontend_config'' ''base_url'' r" if "r \<in> set (t_kv w)" for r
    using False that by (auto simp: list_ex_iff)
  ultimately show ?thesis by (auto simp: kv_done_def kv_at_def)
qed

lemma kv_upsert_again:
  assumes "kv_done tid v w"
  shows "kv_upsert tid ''frontend_config'' ''base_url'' v False w = (Inr (), w)"
proof -
  have "update_rows (kv_at tid ''frontend_config'' ''base_url'') (\<lambda>r. r\<lparr>kv_value := v, kv_sensitive := False\<rparr>) (t_kv w) = t_kv w"
    using assms by (auto simp: kv_done_def update_rows_def map_idI)
  then show ?thesis using assms by (simp add: kv_upsert_def kv_done_def list_ex_iff)
qed

lemma seed_role_done: "seed_role rid tid name w = (Inr (), w1) \<Longrightarrow> role_done tid name w1"
  by (auto simp: seed_role_def role_done_def Let_def bindE_run sql_insert_run list_ex_iff split: option.splits if_splits)

lemma seed_role_again: "role_done tid name w \<Longrightarrow> seed_role rid tid name w = (Inr (), w)"
  by (simp add: seed_role_def role_done_def list_ex_iff Let_def bindE_run)

lemma seed_identity_Inr:
  assumes "seed_identity now iid email first_name last_name pw_hash w = (Inr i, w1)"
  shows "\<exists>j. i_id j = i \<and> find_first (\<lambda>i. email_key i = Some (to_lowercase email)) (t_identities w1) = Some j"
  using assms
  by (auto simp: seed_identity_def identities_get_by_email_def identities_create_def Let_def bindE_run sql_insert_run
      find_first_append email_key_def new_identity_def split: option.splits)

lemma seed_membership_Inr:
  assumes "seed_membership now uid tid iid w = (Inr (), w1)"
  shows "t_identities w1 = t_identities w" "find_first (\<lambda>m. m_tenant_id m = tid \<and> m_identity_id m = iid) (t_users w1) \<noteq> None"
  using assms
  by (auto simp: seed_membership_def Let_def bindE_run sql_insert_run list_ex_iff find_first_None_iff split: option.splits if_splits)

lemma seed_admin_done:
  assumes "seed_admin x now fresh input email pw w = (Inr (), w1)"
  shows "admin_done (si_tenant_id input) (to_lowercase (trim email)) (si_role_name input) w1"
proof -
  obtain salt iid uid where fresh: "fresh = (salt, iid, uid)" by (cases fresh)
  obtain pw_hash i v1 v2 where steps: "seed_identity now iid (to_lowercase (trim email))
      (case si_admin_first_name input of None \<Rightarrow> ''Admin'' | Some n \<Rightarrow> n)
      (case si_admin_last_name input of None \<Rightarrow> ''User'' | Some n \<Rightarrow> n) pw_hash w = (Inr i, v1)"
    "seed_membership now uid (si_tenant_id input) i v1 = (Inr (), v2)" "seed_assign (si_tenant_id input) i (si_role_name input) v2 = (Inr (), w1)"
    using assms by (auto simp: seed_admin_def fresh bindE_Inr_iff simp del: bindE_lift bindE_unless split: if_splits)
  obtain j where j: "i_id j = i" "find_first (\<lambda>i. email_key i = Some (to_lowercase (to_lowercase (trim email)))) (t_identities v1) = Some j"
    using seed_identity_Inr [OF steps(1)] by blast
  obtain m where m: "find_first (\<lambda>m. m_tenant_id m = si_tenant_id input \<and> m_identity_id m = i) (t_users v2) = Some m"
    using seed_membership_Inr(2) [OF steps(2)] by blast
  show ?thesis
    using steps(3) m j seed_membership_Inr(1) [OF steps(2)]
    by (auto simp: seed_assign_def admin_done_def bindE_run sql_insert_run split: option.splits if_splits)
qed

lemma seed_admin_again:
  assumes "admin_done (si_tenant_id input) (to_lowercase (trim email)) (si_role_name input) w"
    and "to_lowercase (trim email) \<noteq> []" "hash_password x salt pw = Inr h"
  shows "seed_admin x now (salt, iid, uid) input email pw w = (Inr (), w)"
proof -
  obtain i m r where d: "find_first (\<lambda>i. email_key i = Some (to_lowercase (to_lowercase (trim email)))) (t_identities w) = Some i"
     "find_first (\<lambda>m. m_tenant_id m = si_tenant_id input \<and> m_identity_id m = i_id i) (t_users w) = Some m"
     "find_first (\<lambda>r. r_tenant_id r = si_tenant_id input \<and> r_name r = si_role_name input) (t_roles w) = Some r"
     "(m_id m, r_id r) \<in> set (t_user_roles w)"
    using assms(1) unfolding admin_done_def by blast
  have "list_ex (\<lambda>m. m_tenant_id m = si_tenant_id input \<and> m_identity_id m = i_id i) (t_users w)"
    using d(2) by (simp add: list_ex_iff_find)
  then show ?thesis
    using assms(2,3) d
    by (simp add: seed_admin_def Let_def seed_identity_def identities_get_by_email_def seed_membership_def seed_assign_def bindE_run)
qed

lemma seed_leaves:
  "leaves t_tenants (kv_upsert tid g k v b)" "leaves t_tenants (seed_role rid tid name)" "leaves t_kv (seed_role rid tid name)"
  "leaves (\<lambda>w. (t_tenants w, t_kv w, t_roles w)) (seed_admin x now fresh input email pw)"
  unfolding kv_upsert_def seed_role_def Let_def
     apply (intro leaves_rules leaves_update leaves_insert; simp)+
  apply (cases fresh)
  apply (simp only: seed_admin_def prod.case Let_def seed_identity_def seed_membership_def seed_assign_def
      identities_get_by_email_def identities_create_def)
  apply (intro leaves_rules leaves_update leaves_insert; simp)
  done

definition seeded :: "ext \<Rightarrow> seed_input \<Rightarrow> world \<Rightarrow> bool" where
  "seeded x input w \<longleftrightarrow> tenant_done (si_tenant_id input) (si_tenant_name input) w \<and>
     (case si_app_url input of None \<Rightarrow> True | Some u \<Rightarrow> kv_done (si_tenant_id input) (x_json_print x (JStr u)) w) \<and>
     role_done (si_tenant_id input) (si_role_name input) w \<and>
     (case (si_admin_email input, si_admin_password input) of
        (Some email, Some pw) \<Rightarrow> to_lowercase (trim email) \<noteq> [] \<and>
           admin_done (si_tenant_id input) (to_lowercase (trim email)) (si_role_name input) w
      | _ \<Rightarrow> True)"

lemma done_cong:
  "t_tenants w = t_tenants v \<Longrightarrow> tenant_done tid name w \<longleftrightarrow> tenant_done tid name v"
  "t_kv w = t_kv v \<Longrightarrow> kv_done tid u w \<longleftrightarrow> kv_done tid u v"
  "t_roles w = t_roles v \<Longrightarrow> role_done tid r w \<longleftrightarrow> role_done tid r v"
  by (simp_all add: tenant_done_def tenants_violation_def kv_done_def role_done_def)

lemma seed_admin_email: "seed_admin x now fresh input email pw w = (Inr (), w1) \<Longrightarrow> to_lowercase (trim email) \<noteq> []"
  by (cases fresh) (auto simp: seed_admin_def Let_def bindE_run split: if_splits)

lemma seed_run_seeded:
  assumes "seed_run x now rid fresh input w = (Inr (), w1)"
  shows "seeded x input w1"
proof -
  let ?tid = "si_tenant_id input"
  let ?kv = "case si_app_url input of None \<Rightarrow> ret ()
    | Some app_url \<Rightarrow> kv_upsert ?tid ''frontend_config'' ''base_url'' (x_json_print x (JStr app_url)) False"
  let ?admin = "case (si_admin_email input, si_admin_password input) of
    (Some email, Some password) \<Rightarrow> seed_admin x now fresh input email password | _ \<Rightarrow> ret ()"
  obtain v1 v2 v3 where steps: "seed_tenant now ?tid (si_tenant_name input) w = (Inr (), v1)" "?kv v1 = (Inr (), v2)"
    "seed_role rid ?tid (si_role_name input) v2 = (Inr (), v3)" "?admin v3 = (Inr (), w1)"
    using assms unfolding seed_run_def bindE_Inr_iff by auto
  have kv: "leaves t_tenants ?kv" and admin: "leaves (\<lambda>w. (t_tenants w, t_kv w, t_roles w)) ?admin"
    by (auto split: option.split intro: leaves_rules seed_leaves)
  have kept: "t_tenants v2 = t_tenants v1" "t_tenants v3 = t_tenants v2" "t_kv v3 = t_kv v2"
    by (rule leavesD [OF kv steps(2)], rule leavesD [OF seed_leaves(2) steps(3)], rule leavesD [OF seed_leaves(3) steps(3)])
  have kept': "t_tenants w1 = t_tenants v3" "t_kv w1 = t_kv v3" "t_roles w1 = t_roles v3"
    using leavesD [OF admin steps(4)] by auto
  have "tenant_done ?tid (si_tenant_name input) w1"
    using seed_tenant_done [OF steps(1)] kept(1,2) kept'(1) by (simp add: done_cong(1) [of w1 v1])
  moreover have "kv_done ?tid (x_json_print x (JStr u)) w1" if "si_app_url input = Some u" for u
    using kv_upsert_done steps(2) that kept(3) kept'(2) by (auto simp: done_cong(2) [of w1 v2])
  moreover have "role_done ?tid (si_role_name input) w1"
    using seed_role_done [OF steps(3)] kept'(3) by (simp add: done_cong(3) [of w1 v3])
  ultimately show ?thesis
    using steps(4) by (auto simp: seeded_def dest: seed_admin_done seed_admin_email split: option.splits)
qed

text \<open>After a successful run of the seeder the tenant has the given name, the base URL and the role are
  in place and the administrator is a member holding the role; a further run with the same input, at another
  time and with other fresh ids and salt, succeeds and leaves the database exactly as it is.\<close>

theorem seed_idempotent:
  assumes "seed_run x now rid fresh input w = (Inr (), w1)"
    and "fresh' = (salt, iid, uid)"
    and "\<And>pw. si_admin_password input = Some pw \<Longrightarrow> \<exists>h. hash_password x salt pw = Inr h"
  shows "seeded x input w1 \<and> seed_run x now' rid' fresh' input w1 = (Inr (), w1)"
proof (intro conjI seed_run_seeded [OF assms(1)])
  let ?tid = "si_tenant_id input"
  note sd = seed_run_seeded [OF assms(1), unfolded seeded_def]
  have kv: "(case si_app_url input of None \<Rightarrow> ret ()
      | Some u \<Rightarrow> kv_upsert ?tid ''frontend_config'' ''base_url'' (x_json_print x (JStr u)) False) w1 = (Inr (), w1)"
    using sd by (cases "si_app_url input") (simp_all add: kv_upsert_again)
  have admin: "(case (si_admin_email input, si_admin_password input) of
      (Some email, Some pw) \<Rightarrow> seed_admin x now' fresh' input email pw | _ \<Rightarrow> ret ()) w1 = (Inr (), w1)"
  proof (cases "si_admin_email input = None \<or> si_admin_password input = None")
    case True
    then show ?thesis by (cases "si_admin_email input") auto
  next
    case False
    then obtain email pw where ep: "si_admin_email input = Some email" "si_admin_password input = Some pw" by auto
    moreover obtain h where "hash_password x salt pw = Inr h" using assms(3) [OF ep(2)] by blast
    ultimately show ?thesis using sd by (simp add: assms(2) seed_admin_again)
  qed
  show "seed_run x now' rid' fresh' input w1 = (Inr (), w1)"
    unfolding seed_run_def bindE_run using sd admin by (simp add: seed_tenant_again seed_role_again kv)
qed

definition seed_input0 :: seed_input where
  "seed_input0 = \<lparr>si_tenant_id = ''beta_corp'', si_tenant_name = ''Beta'', si_role_name = ''Admin'', si_admin_email = Some ''Root@b.io'',
     si_admin_password = Some ''pw'', si_admin_first_name = None, si_admin_last_name = None, si_app_url = Some ''https://b.io''\<rparr>"

theorem seed_idempotent_witness:
  "\<exists>w1. seed_run ext0 0 1 (''s'', 9, 5) seed_input0 world0 = (Inr (), w1) \<and> length (t_user_roles w1) = 1 \<and>
     seeded ext0 seed_input0 w1 \<and> seed_run ext0 7 2 (''t'', 10, 6) seed_input0 w1 = (Inr (), w1)"
proof -
  obtain w1 where run: "seed_run ext0 0 1 (''s'', 9, 5) seed_input0 world0 = (Inr (), w1)" "length (t_user_roles w1) = 1"
  proof -
    have "case seed_run ext0 0 1 (''s'', 9, 5) seed_input0 world0 of (r, w1) \<Rightarrow> (case r of Inl e \<Rightarrow> False | Inr u \<Rightarrow> length (t_user_roles w1) = 1)"
      by code_simp
    then show ?thesis using that by (auto split: prod.splits sum.splits)
  qed
  have "\<exists>h. hash_password ext0 ''t'' pw = Inr h" if "si_admin_password seed_input0 = Some pw" for pw
    using that by (simp add: hash_password_def ext0_def seed_input0_def)
  from seed_idempotent [OF run(1) refl this, of 7 2 10 6] run show ?thesis by blast
qed

text \<open>A role that has the slug of the seeded one under another name makes the administrator's step fail.\<close>

lemma seed_role_renamed:
  assumes "role_done (si_tenant_id input) (si_role_name input) w"
    and "\<not> list_ex (\<lambda>r. r_tenant_id r = si_tenant_id input \<and> r_name r = si_role_name input) (t_roles w)"
    and "list_ex (\<lambda>m. m_tenant_id m = si_tenant_id input \<and> m_identity_id m = iid) (t_users w)"
  shows "seed_role rid (si_tenant_id input) (si_role_name input) w = (Inr (), w)"
    "fst (seed_assign (si_tenant_id input) iid (si_role_name input) w) = Inl (from_sqlx RowNotFound)"
  using assms by (auto simp: seed_role_again seed_assign_def bindE_run list_ex_iff_find split: option.splits)

end
