(* ===== verification/Http_Bodies.thy ===== *)
theory Http_Bodies
  imports Routes_Admin Startup
begin

section \<open>Bodies and queries of requests\<close>

text \<open>
  The structs that \<^verbatim>\<open>Json\<close> and \<^verbatim>\<open>Query\<close> extract in \<^verbatim>\<open>src/routes\<close>: for each the list of its fields, and
  the decoding its derived \<^verbatim>\<open>Deserialize\<close> does, to the tuple of the fields in their order. The value decoded is
  the parsed text of the body; a key is rejected when it names a field twice and ignored when it names none.
  The texts of ids and times are parsed by the libraries (the record \<open>formats\<close>).
\<close>

subsection \<open>Derived deserialisation\<close>

record formats =
  fm_uuid :: "string \<Rightarrow> uuid option"
  fm_time :: "string \<Rightarrow> time option"

fun de_uuid :: "formats \<Rightarrow> json \<Rightarrow> uuid option" where
  "de_uuid fm (JStr t) = fm_uuid fm t" | "de_uuid fm _ = None"

fun de_time :: "formats \<Rightarrow> json \<Rightarrow> time option" where
  "de_time fm (JStr t) = fm_time fm t" | "de_time fm _ = None"

text \<open>A field must be present, may be absent in an object (an option), or has a default.\<close>

datatype presence = Required | Optional | Defaulted

type_synonym body_struct = "(string \<times> presence) list"

text \<open>The number of elements an array must have: up to the last field without a default.\<close>

definition least_elems :: "body_struct \<Rightarrow> nat" where
  "least_elems fs = length (dropWhile (\<lambda>(n, p). p = Defaulted) (rev fs))"

definition required_names :: "body_struct \<Rightarrow> string list" where
  "required_names fs = map fst (filter (\<lambda>(n, p). p = Required) fs)"

fun no_duplicates :: "string list \<Rightarrow> json \<Rightarrow> bool" where
  "no_duplicates names (JObj kvs) \<longleftrightarrow> distinct (filter (\<lambda>k. k \<in> set names) (map fst kvs))"
| "no_duplicates names _ \<longleftrightarrow> True"

definition open_struct :: "body_struct \<Rightarrow> json \<Rightarrow> (string \<Rightarrow> json option) option" where
  "open_struct fs j =
     (if \<not> no_duplicates (map fst fs) j then None
      else Option.bind (struct_fields (map fst fs) (least_elems fs) j) (\<lambda>f.
        if list_all (\<lambda>n. f n \<noteq> None) (required_names fs) then Some f else None))"

definition str_at :: "(string \<Rightarrow> json option) \<Rightarrow> string \<Rightarrow> string option" where
  "str_at f n = Option.bind (f n) de_string"

definition defaulted :: "(json \<Rightarrow> 'a option) \<Rightarrow> 'a \<Rightarrow> json option \<Rightarrow> 'a option" where
  "defaulted de d v = (case v of None \<Rightarrow> Some d | Some j \<Rightarrow> de j)"

text \<open>An explicit null is told from an absent field.\<close>

definition deserialize_some :: "(json option \<Rightarrow> 'a option) \<Rightarrow> json option \<Rightarrow> 'a option option" where
  "deserialize_some de v = (case v of None \<Rightarrow> Some None | Some j \<Rightarrow> map_option Some (de v))"

subsection \<open>Accounts and logins\<close>

definition signup_body_fields :: body_struct where
  "signup_body_fields = [(''firstName'', Required), (''lastName'', Required), (''email'', Required), (''mobile'', Defaulted), (''countryCode'', Defaulted), (''password'', Required), (''retypePassword'', Required)]"

definition signup_body :: "json \<Rightarrow> (string \<times> string \<times> string \<times> string option \<times> string option \<times> string \<times> string) option" where
  "signup_body j = Option.bind (open_struct signup_body_fields j) (\<lambda>f.
     Option.bind (str_at f ''firstName'') (\<lambda>first_name.
     Option.bind (str_at f ''lastName'') (\<lambda>last_name.
     Option.bind (str_at f ''email'') (\<lambda>email.
     Option.bind (opt_field de_string (f ''mobile'')) (\<lambda>mobile.
     Option.bind (opt_field de_string (f ''countryCode'')) (\<lambda>country_code.
     Option.bind (str_at f ''password'') (\<lambda>password.
     Option.bind (str_at f ''retypePassword'') (\<lambda>retype_password.
       Some (first_name, last_name, email, mobile, country_code, password, retype_password)))))))))"

definition verify_membership_body_fields :: body_struct where
  "verify_membership_body_fields = [(''token'', Required)]"

definition verify_membership_body :: "json \<Rightarrow> string option" where
  "verify_membership_body j = Option.bind (open_struct verify_membership_body_fields j) (\<lambda>f.
     Option.bind (str_at f ''token'') (\<lambda>token.
       Some token))"

definition email_password_body_fields :: body_struct where
  "email_password_body_fields = [(''email'', Required), (''password'', Required)]"

definition email_password_body :: "json \<Rightarrow> (string \<times> string) option" where
  "email_password_body j = Option.bind (open_struct email_password_body_fields j) (\<lambda>f.
     Option.bind (str_at f ''email'') (\<lambda>email.
     Option.bind (str_at f ''password'') (\<lambda>password.
       Some (email, password))))"

definition username_password_body_fields :: body_struct where
  "username_password_body_fields = [(''username'', Required), (''password'', Required)]"

definition username_password_body :: "json \<Rightarrow> (string \<times> string) option" where
  "username_password_body j = Option.bind (open_struct username_password_body_fields j) (\<lambda>f.
     Option.bind (str_at f ''username'') (\<lambda>username.
     Option.bind (str_at f ''password'') (\<lambda>password.
       Some (username, password))))"

definition email_otp_request_body_fields :: body_struct where
  "email_otp_request_body_fields = [(''email'', Required)]"

definition email_otp_request_body :: "json \<Rightarrow> string option" where
  "email_otp_request_body j = Option.bind (open_struct email_otp_request_body_fields j) (\<lambda>f.
     Option.bind (str_at f ''email'') (\<lambda>email.
       Some email))"

definition otp_verify_body_fields :: body_struct where
  "otp_verify_body_fields = [(''identifier'', Required), (''code'', Required), (''channel'', Required)]"

definition otp_verify_body :: "json \<Rightarrow> (string \<times> string \<times> string) option" where
  "otp_verify_body j = Option.bind (open_struct otp_verify_body_fields j) (\<lambda>f.
     Option.bind (str_at f ''identifier'') (\<lambda>identifier.
     Option.bind (str_at f ''code'') (\<lambda>code.
     Option.bind (str_at f ''channel'') (\<lambda>channel.
       Some (identifier, code, channel)))))"

definition forgot_password_body_fields :: body_struct where
  "forgot_password_body_fields = [(''email'', Required)]"

definition forgot_password_body :: "json \<Rightarrow> string option" where
  "forgot_password_body j = Option.bind (open_struct forgot_password_body_fields j) (\<lambda>f.
     Option.bind (str_at f ''email'') (\<lambda>email.
       Some email))"

definition reset_password_body_fields :: body_struct where
  "reset_password_body_fields = [(''token'', Required), (''newPassword'', Required), (''retypePassword'', Required)]"

definition reset_password_body :: "json \<Rightarrow> (string \<times> string \<times> string) option" where
  "reset_password_body j = Option.bind (open_struct reset_password_body_fields j) (\<lambda>f.
     Option.bind (str_at f ''token'') (\<lambda>token.
     Option.bind (str_at f ''newPassword'') (\<lambda>new_password.
     Option.bind (str_at f ''retypePassword'') (\<lambda>retype_password.
       Some (token, new_password, retype_password)))))"

definition identity_login_body_fields :: body_struct where
  "identity_login_body_fields = [(''email'', Required), (''password'', Required)]"

definition identity_login_body :: "json \<Rightarrow> (string \<times> string) option" where
  "identity_login_body j = Option.bind (open_struct identity_login_body_fields j) (\<lambda>f.
     Option.bind (str_at f ''email'') (\<lambda>email.
     Option.bind (str_at f ''password'') (\<lambda>password.
       Some (email, password))))"

definition select_tenant_body_fields :: body_struct where
  "select_tenant_body_fields = [(''tenantId'', Required)]"

definition select_tenant_body :: "json \<Rightarrow> string option" where
  "select_tenant_body j = Option.bind (open_struct select_tenant_body_fields j) (\<lambda>f.
     Option.bind (str_at f ''tenantId'') (\<lambda>tenant_id.
       Some tenant_id))"

definition check_email_body_fields :: body_struct where
  "check_email_body_fields = [(''email'', Required)]"

definition check_email_body :: "json \<Rightarrow> string option" where
  "check_email_body j = Option.bind (open_struct check_email_body_fields j) (\<lambda>f.
     Option.bind (str_at f ''email'') (\<lambda>email.
       Some email))"

definition check_username_body_fields :: body_struct where
  "check_username_body_fields = [(''username'', Required)]"

definition check_username_body :: "json \<Rightarrow> string option" where
  "check_username_body j = Option.bind (open_struct check_username_body_fields j) (\<lambda>f.
     Option.bind (str_at f ''username'') (\<lambda>username.
       Some username))"

definition check_mobile_body_fields :: body_struct where
  "check_mobile_body_fields = [(''mobile'', Required), (''countryCode'', Required)]"

definition check_mobile_body :: "json \<Rightarrow> (string \<times> string) option" where
  "check_mobile_body j = Option.bind (open_struct check_mobile_body_fields j) (\<lambda>f.
     Option.bind (str_at f ''mobile'') (\<lambda>mobile.
     Option.bind (str_at f ''countryCode'') (\<lambda>country_code.
       Some (mobile, country_code))))"

subsection \<open>Sessions\<close>

definition change_password_body_fields :: body_struct where
  "change_password_body_fields = [(''currentPassword'', Required), (''newPassword'', Required), (''retypePassword'', Required)]"

definition change_password_body :: "json \<Rightarrow> (string \<times> string \<times> string) option" where
  "change_password_body j = Option.bind (open_struct change_password_body_fields j) (\<lambda>f.
     Option.bind (str_at f ''currentPassword'') (\<lambda>current_password.
     Option.bind (str_at f ''newPassword'') (\<lambda>new_password.
     Option.bind (str_at f ''retypePassword'') (\<lambda>retype_password.
       Some (current_password, new_password, retype_password)))))"

definition force_change_password_body_fields :: body_struct where
  "force_change_password_body_fields = [(''changeToken'', Required), (''newPassword'', Required), (''retypePassword'', Required)]"

definition force_change_password_body :: "json \<Rightarrow> (string \<times> string \<times> string) option" where
  "force_change_password_body j = Option.bind (open_struct force_change_password_body_fields j) (\<lambda>f.
     Option.bind (str_at f ''changeToken'') (\<lambda>change_token.
     Option.bind (str_at f ''newPassword'') (\<lambda>new_password.
     Option.bind (str_at f ''retypePassword'') (\<lambda>retype_password.
       Some (change_token, new_password, retype_password)))))"

definition switch_tenant_body_fields :: body_struct where
  "switch_tenant_body_fields = [(''tenantId'', Required)]"

definition switch_tenant_body :: "json \<Rightarrow> string option" where
  "switch_tenant_body j = Option.bind (open_struct switch_tenant_body_fields j) (\<lambda>f.
     Option.bind (str_at f ''tenantId'') (\<lambda>tenant_id.
       Some tenant_id))"

subsection \<open>Second factor\<close>

definition code_body_fields :: body_struct where
  "code_body_fields = [(''code'', Required)]"

definition code_body :: "json \<Rightarrow> string option" where
  "code_body j = Option.bind (open_struct code_body_fields j) (\<lambda>f.
     Option.bind (str_at f ''code'') (\<lambda>code.
       Some code))"

definition validate_body_fields :: body_struct where
  "validate_body_fields = [(''mfaToken'', Required), (''code'', Required)]"

definition validate_body :: "json \<Rightarrow> (string \<times> string) option" where
  "validate_body j = Option.bind (open_struct validate_body_fields j) (\<lambda>f.
     Option.bind (str_at f ''mfaToken'') (\<lambda>mfa_token.
     Option.bind (str_at f ''code'') (\<lambda>code.
       Some (mfa_token, code))))"

subsection \<open>Administration\<close>

definition admin_create_user_body_fields :: body_struct where
  "admin_create_user_body_fields = [(''firstName'', Defaulted), (''lastName'', Defaulted), (''email'', Defaulted), (''username'', Defaulted), (''mobile'', Defaulted), (''countryCode'', Defaulted), (''password'', Defaulted), (''retypePassword'', Defaulted)]"

definition admin_create_user_body :: "json \<Rightarrow> (string option \<times> string option \<times> string option \<times> string option \<times> string option \<times> string option \<times> string option \<times> string option) option" where
  "admin_create_user_body j = Option.bind (open_struct admin_create_user_body_fields j) (\<lambda>f.
     Option.bind (opt_field de_string (f ''firstName'')) (\<lambda>first_name.
     Option.bind (opt_field de_string (f ''lastName'')) (\<lambda>last_name.
     Option.bind (opt_field de_string (f ''email'')) (\<lambda>email.
     Option.bind (opt_field de_string (f ''username'')) (\<lambda>username.
     Option.bind (opt_field de_string (f ''mobile'')) (\<lambda>mobile.
     Option.bind (opt_field de_string (f ''countryCode'')) (\<lambda>country_code.
     Option.bind (opt_field de_string (f ''password'')) (\<lambda>password.
     Option.bind (opt_field de_string (f ''retypePassword'')) (\<lambda>retype_password.
       Some (first_name, last_name, email, username, mobile, country_code, password, retype_password))))))))))"

definition admin_set_access_validity_body_fields :: body_struct where
  "admin_set_access_validity_body_fields = [(''accessValidUntil'', Optional)]"

definition admin_set_access_validity_body :: "formats \<Rightarrow> json \<Rightarrow> time option option" where
  "admin_set_access_validity_body fm j = Option.bind (open_struct admin_set_access_validity_body_fields j) (\<lambda>f.
     Option.bind (opt_field (de_time fm) (f ''accessValidUntil'')) (\<lambda>access_valid_until.
       Some access_valid_until))"

definition admin_reset_password_body_fields :: body_struct where
  "admin_reset_password_body_fields = [(''newPassword'', Required), (''retypePassword'', Required), (''forcePasswordChange'', Defaulted)]"

definition admin_reset_password_body :: "json \<Rightarrow> (string \<times> string \<times> bool) option" where
  "admin_reset_password_body j = Option.bind (open_struct admin_reset_password_body_fields j) (\<lambda>f.
     Option.bind (str_at f ''newPassword'') (\<lambda>new_password.
     Option.bind (str_at f ''retypePassword'') (\<lambda>retype_password.
     Option.bind (defaulted de_bool False (f ''forcePasswordChange'')) (\<lambda>force_password_change.
       Some (new_password, retype_password, force_password_change)))))"

definition assign_role_body_fields :: body_struct where
  "assign_role_body_fields = [(''roleId'', Required)]"

definition assign_role_body :: "formats \<Rightarrow> json \<Rightarrow> uuid option" where
  "assign_role_body fm j = Option.bind (open_struct assign_role_body_fields j) (\<lambda>f.
     Option.bind (Option.bind (f ''roleId'') (de_uuid fm)) (\<lambda>role_id.
       Some role_id))"

definition admin_create_role_body_fields :: body_struct where
  "admin_create_role_body_fields = [(''name'', Required), (''parentRoleId'', Defaulted)]"

definition admin_create_role_body :: "formats \<Rightarrow> json \<Rightarrow> (string \<times> uuid option) option" where
  "admin_create_role_body fm j = Option.bind (open_struct admin_create_role_body_fields j) (\<lambda>f.
     Option.bind (str_at f ''name'') (\<lambda>name.
     Option.bind (opt_field (de_uuid fm) (f ''parentRoleId'')) (\<lambda>parent_role_id.
       Some (name, parent_role_id))))"

definition admin_set_role_parent_body_fields :: body_struct where
  "admin_set_role_parent_body_fields = [(''parentRoleId'', Optional)]"

definition admin_set_role_parent_body :: "formats \<Rightarrow> json \<Rightarrow> uuid option option" where
  "admin_set_role_parent_body fm j = Option.bind (open_struct admin_set_role_parent_body_fields j) (\<lambda>f.
     Option.bind (opt_field (de_uuid fm) (f ''parentRoleId'')) (\<lambda>parent_role_id.
       Some parent_role_id))"

definition create_permission_body_fields :: body_struct where
  "create_permission_body_fields = [(''name'', Required), (''description'', Defaulted), (''document'', Required), (''overwrite'', Defaulted)]"

definition create_permission_body :: "json \<Rightarrow> (string \<times> string option \<times> permission_document \<times> bool) option" where
  "create_permission_body j = Option.bind (open_struct create_permission_body_fields j) (\<lambda>f.
     Option.bind (str_at f ''name'') (\<lambda>name.
     Option.bind (opt_field de_string (f ''description'')) (\<lambda>description.
     Option.bind (Option.bind (f ''document'') de_document) (\<lambda>document.
     Option.bind (defaulted de_bool False (f ''overwrite'')) (\<lambda>overwrite.
       Some (name, description, document, overwrite))))))"

definition attach_permission_body_fields :: body_struct where
  "attach_permission_body_fields = [(''permissionId'', Required)]"

definition attach_permission_body :: "formats \<Rightarrow> json \<Rightarrow> uuid option" where
  "attach_permission_body fm j = Option.bind (open_struct attach_permission_body_fields j) (\<lambda>f.
     Option.bind (Option.bind (f ''permissionId'') (de_uuid fm)) (\<lambda>permission_id.
       Some permission_id))"

definition create_group_body_fields :: body_struct where
  "create_group_body_fields = [(''name'', Required), (''description'', Defaulted)]"

definition create_group_body :: "json \<Rightarrow> (string \<times> string option) option" where
  "create_group_body j = Option.bind (open_struct create_group_body_fields j) (\<lambda>f.
     Option.bind (str_at f ''name'') (\<lambda>name.
     Option.bind (opt_field de_string (f ''description'')) (\<lambda>description.
       Some (name, description))))"

definition update_group_body_fields :: body_struct where
  "update_group_body_fields = [(''name'', Defaulted), (''description'', Defaulted)]"

definition update_group_body :: "json \<Rightarrow> (string option \<times> string option option) option" where
  "update_group_body j = Option.bind (open_struct update_group_body_fields j) (\<lambda>f.
     Option.bind (opt_field de_string (f ''name'')) (\<lambda>name.
     Option.bind (deserialize_some (opt_field de_string) (f ''description'')) (\<lambda>description.
       Some (name, description))))"

definition add_user_to_group_body_fields :: body_struct where
  "add_user_to_group_body_fields = [(''userId'', Required)]"

definition add_user_to_group_body :: "formats \<Rightarrow> json \<Rightarrow> uuid option" where
  "add_user_to_group_body fm j = Option.bind (open_struct add_user_to_group_body_fields j) (\<lambda>f.
     Option.bind (Option.bind (f ''userId'') (de_uuid fm)) (\<lambda>user_id.
       Some user_id))"

definition assign_role_to_group_body_fields :: body_struct where
  "assign_role_to_group_body_fields = [(''roleId'', Required)]"

definition assign_role_to_group_body :: "formats \<Rightarrow> json \<Rightarrow> uuid option" where
  "assign_role_to_group_body fm j = Option.bind (open_struct assign_role_to_group_body_fields j) (\<lambda>f.
     Option.bind (Option.bind (f ''roleId'') (de_uuid fm)) (\<lambda>role_id.
       Some role_id))"

definition check_permission_body_fields :: body_struct where
  "check_permission_body_fields = [(''userId'', Required), (''resource'', Required), (''action'', Defaulted), (''context'', Defaulted)]"

definition check_permission_body :: "formats \<Rightarrow> json \<Rightarrow> (uuid \<times> string \<times> string option \<times> json option) option" where
  "check_permission_body fm j = Option.bind (open_struct check_permission_body_fields j) (\<lambda>f.
     Option.bind (Option.bind (f ''userId'') (de_uuid fm)) (\<lambda>user_id.
     Option.bind (str_at f ''resource'') (\<lambda>resource.
     Option.bind (opt_field de_string (f ''action'')) (\<lambda>action.
     Option.bind (opt_field Some (f ''context'')) (\<lambda>context.
       Some (user_id, resource, action, context))))))"

subsection \<open>Packages\<close>

definition sync_package_body_fields :: body_struct where
  "sync_package_body_fields = [(''packageId'', Required), (''tables'', Required), (''extensibleTables'', Defaulted), (''customActions'', Defaulted)]"

definition sync_package_body :: "json \<Rightarrow> (string \<times> string list \<times> string list \<times> string list) option" where
  "sync_package_body j = Option.bind (open_struct sync_package_body_fields j) (\<lambda>f.
     Option.bind (str_at f ''packageId'') (\<lambda>package_id.
     Option.bind (Option.bind (f ''tables'') (de_vec de_string)) (\<lambda>tables.
     Option.bind (defaulted (de_vec de_string) [] (f ''extensibleTables'')) (\<lambda>extensible_tables.
     Option.bind (defaulted (de_vec de_string) [] (f ''customActions'')) (\<lambda>custom_actions.
       Some (package_id, tables, extensible_tables, custom_actions))))))"

subsection \<open>Queries\<close>

text \<open>The decoded pairs of the query string; an integer or a truth value is parsed from its text.\<close>

type_synonym query = "(string \<times> string) list"

definition query_fields :: "string list \<Rightarrow> query \<Rightarrow> (string \<Rightarrow> string option) option" where
  "query_fields names q =
     (if distinct (filter (\<lambda>k. k \<in> set names) (map fst q)) then Some (map_of q) else None)"

definition opt_parsed :: "(string \<Rightarrow> 'a option) \<Rightarrow> string option \<Rightarrow> 'a option option" where
  "opt_parsed parse v = (case v of None \<Rightarrow> Some None | Some t \<Rightarrow> map_option Some (parse t))"

definition parse_u32 :: "string \<Rightarrow> 32 word option" where
  "parse_u32 t = map_option of_nat (parse_unsigned 32 t)"

definition list_query_rest :: "(string \<Rightarrow> string option) \<Rightarrow> list_query option" where
  "list_query_rest f =
     Option.bind (opt_parsed parse_u32 (f ''limit'')) (\<lambda>limit.
     Option.bind (opt_parsed parse_u32 (f ''offset'')) (\<lambda>offset.
       Some \<lparr>lq_q = f ''q'', lq_sort = f ''sort'', lq_limit = limit, lq_offset = offset\<rparr>))"

definition list_query_of :: "query \<Rightarrow> list_query option" where
  "list_query_of q = Option.bind (query_fields [''q'', ''sort'', ''limit'', ''offset''] q) list_query_rest"

definition list_users_query :: "query \<Rightarrow> (bool \<times> list_query) option" where
  "list_users_query q =
     Option.bind (query_fields [''includeArchived'', ''q'', ''sort'', ''limit'', ''offset''] q) (\<lambda>f.
     Option.bind (case f ''includeArchived'' of None \<Rightarrow> Some False | Some t \<Rightarrow> parse_bool t) (\<lambda>archived.
     Option.bind (list_query_rest f) (\<lambda>lq. Some (archived, lq))))"

definition oauth_callback_query_of :: "query \<Rightarrow> oauth_callback_query option" where
  "oauth_callback_query_of q =
     Option.bind (query_fields [''code'', ''state'', ''error'', ''error_description''] q) (\<lambda>f.
       Some \<lparr>cq_code = f ''code'', cq_state = f ''state'', cq_error = f ''error'', cq_error_description = f ''error_description''\<rparr>)"

subsection \<open>What a decoded body shows\<close>

text \<open>A value without one of the fields that must be present is no body.\<close>

lemma open_struct_required:
  "open_struct fs j = Some f \<Longrightarrow> n \<in> set (required_names fs) \<Longrightarrow> f n \<noteq> None"
  by (auto simp: open_struct_def list_all_iff Option.bind_eq_Some_conv split: if_splits)

lemma open_struct_object:
  "open_struct fs (JObj kvs) = Some f \<longleftrightarrow>
   f = map_of kvs \<and> distinct (filter (\<lambda>k. k \<in> set (map fst fs)) (map fst kvs)) \<and> set (required_names fs) \<subseteq> fst ` set kvs"
proof -
  have "list_all (\<lambda>n. map_of kvs n \<noteq> None) ns \<longleftrightarrow> set ns \<subseteq> dom (map_of kvs)" for ns
    by (auto simp: list_all_iff)
  then show ?thesis by (auto simp: open_struct_def struct_fields_def dom_map_of_conv_image_fst)
qed

end
