(* ===== verification/Server.thy ===== *)
theory Server
  imports Startup
begin

section \<open>Mail and the assembly of the server\<close>

text \<open>
  \<^verbatim>\<open>src/email.rs\<close> (the three mails and how they reach the relay), \<^verbatim>\<open>AppState::new\<close> of
  \<^verbatim>\<open>src/api/state.rs\<close> and the start of \<^verbatim>\<open>src/main.rs\<close> up to the point where requests are served.
  The library lettre is the record \<open>lettre\<close>; a failing \<^verbatim>\<open>expect\<close> is an \<open>Internal\<close> error with its text.
\<close>

subsection \<open>Mail\<close>

record mail_message =
  mg_from :: string
  mg_to :: string
  mg_subject :: string
  mg_body :: string

record relay =
  re_host :: string
  re_tls :: bool
  re_port :: nat
  re_timeout_secs :: nat
  re_credentials :: "(string \<times> string) option"

record lettre =
  lt_parse :: "string \<Rightarrow> string + string"
  lt_message_error :: "mail_message \<Rightarrow> string option"
  lt_relay_error :: "bool \<Rightarrow> string \<Rightarrow> string option"
  lt_send :: "relay \<Rightarrow> mail_message \<Rightarrow> string + unit"

definition smtp_send :: "lettre \<Rightarrow> smtp_config \<Rightarrow> string \<Rightarrow> string \<Rightarrow> string \<Rightarrow> string + unit" where
  "smtp_send lt smtp to_email subject body =
     bind_res (lt_parse lt (sm_from smtp)) (\<lambda>from_addr.
     bind_res (lt_parse lt to_email) (\<lambda>to_addr.
     let msg = \<lparr>mg_from = from_addr, mg_to = to_addr, mg_subject = subject, mg_body = body\<rparr> in
     case lt_message_error lt msg of Some e \<Rightarrow> Inl e | None \<Rightarrow>
     (let tls = (sm_port smtp = 465) in
      case lt_relay_error lt tls (sm_host smtp) of Some e \<Rightarrow> Inl e | None \<Rightarrow>
        lt_send lt \<lparr>re_host = sm_host smtp, re_tls = tls, re_port = sm_port smtp, re_timeout_secs = 30,
            re_credentials = (case (sm_user smtp, sm_pass smtp) of (Some u, Some p) \<Rightarrow> Some (u, p) | _ \<Rightarrow> None)\<rparr> msg)))"

definition send_otp_email :: "lettre \<Rightarrow> smtp_config \<Rightarrow> string \<Rightarrow> string \<Rightarrow> string + unit" where
  "send_otp_email lt smtp to_email code = smtp_send lt smtp to_email ''Your login verification code''
     (''Your login verification code is: '' @ code @ ''.'' @ nl @ nl @
      ''This code expires in 10 minutes. If you did not request this, please ignore this email.'')"

definition send_membership_invite_email :: "lettre \<Rightarrow> smtp_config \<Rightarrow> string \<Rightarrow> string \<Rightarrow> string option \<Rightarrow> string + unit" where
  "send_membership_invite_email lt smtp to_email token invite_link = smtp_send lt smtp to_email ''Confirm joining a new workspace''
     (case invite_link of
        Some link \<Rightarrow> ''Someone requested to add your account to a new workspace. If this was you, click the link below to confirm and join:''
          @ nl @ nl @ link @ nl @ nl @ ''This link expires in 1 hour. If you did not request this, you can safely ignore this email.''
      | None \<Rightarrow> ''Someone requested to add your account to a new workspace. If this was you, use the following token to confirm:''
          @ nl @ nl @ token @ nl @ nl @ ''This token expires in 1 hour. If you did not request this, you can safely ignore this email.'')"

definition send_password_reset_email :: "lettre \<Rightarrow> smtp_config \<Rightarrow> string \<Rightarrow> string \<Rightarrow> string option \<Rightarrow> string + unit" where
  "send_password_reset_email lt smtp to_email token reset_link = smtp_send lt smtp to_email ''Password reset''
     (case reset_link of
        Some link \<Rightarrow> ''You requested a password reset. Click the link below to set a new password:''
          @ nl @ nl @ link @ nl @ nl @ ''This link expires in 1 hour. If you did not request this, please ignore this email.''
      | None \<Rightarrow> ''You requested a password reset. Use the following token to set a new password:''
          @ nl @ nl @ token @ nl @ nl @ ''This token expires in 1 hour. If you did not request this, please ignore this email.'')"

text \<open>What the handlers call when they send a \<open>mail\<close>.\<close>

fun post :: "lettre \<Rightarrow> smtp_config \<Rightarrow> mail \<Rightarrow> string + unit" where
  "post lt smtp (OtpMail to_email code) = send_otp_email lt smtp to_email code"
| "post lt smtp (ResetMail to_email token link) = send_password_reset_email lt smtp to_email token link"
| "post lt smtp (InviteMail to_email token link) = send_membership_invite_email lt smtp to_email token link"

subsection \<open>Assembly\<close>

record server =
  sv_ext :: ext
  sv_front :: front
  sv_builder_tenant_id :: string
  sv_allowed_roles :: "string list"

record startup_errors =
  su_redis_open :: "string \<Rightarrow> string option"
  su_http_client :: "string option"

text \<open>
  \<^verbatim>\<open>AppState::new\<close> takes the settings; the functions of the libraries, which the code links in, are
  those of \<open>x\<close>, \<open>fr\<close> and \<open>lt\<close>.
\<close>

definition app_state_new ::
  "ext \<Rightarrow> front \<Rightarrow> lettre \<Rightarrow> cedar \<Rightarrow> startup_errors \<Rightarrow> string option \<Rightarrow> string option \<Rightarrow> smtp_config option \<Rightarrow> string option
   \<Rightarrow> string \<Rightarrow> string list \<Rightarrow> 64 word \<Rightarrow> string \<Rightarrow> (app, server) io" where
  "app_state_new x fr lt ce su kv_encryption_key redis_url smtp frontend_url builder_tenant_id allowed_roles default_ttl mfa_issuer =
     bindE (case Option.bind redis_url (su_redis_open su) of Some e \<Rightarrow> throw (Internal e) | None \<Rightarrow> ret ()) (\<lambda>_.
     bindE (case su_http_client su of Some e \<Rightarrow> throw (Internal (''HTTP client init: '' @ e)) | None \<Rightarrow> ret ()) (\<lambda>_.
     let empty_schema = build_schema_str [] [] in
     bindE (case cd_schema_error ce empty_schema of Some e \<Rightarrow> throw (Internal (''Cedar schema init: '' @ e)) | None \<Rightarrow> ret ()) (\<lambda>_.
     bindE (modify (\<lambda>s. s\<lparr>ap_schema := empty_schema, ap_policy_cache := (\<lambda>_. None), ap_world := (ap_world s)\<lparr>cfg_cache := (\<lambda>_. None)\<rparr>\<rparr>)) (\<lambda>_.
     ret \<lparr>sv_ext = x\<lparr>c_kv_encryption_key := kv_encryption_key, c_uses_redis := redis_url \<noteq> None,
            c_default_session_ttl_secs := default_ttl, c_mfa_issuer := mfa_issuer\<rparr>,
          sv_front = fr\<lparr>fr_smtp := map_option (post lt) smtp, fr_frontend_url := frontend_url\<rparr>,
          sv_builder_tenant_id = builder_tenant_id, sv_allowed_roles = allowed_roles\<rparr>))))"

definition server_start :: "ext \<Rightarrow> front \<Rightarrow> lettre \<Rightarrow> cedar \<Rightarrow> startup_errors \<Rightarrow> env \<Rightarrow> (app, server) io" where
  "server_start x fr lt ce su e =
     bindE (lift (ok_or (Internal ''Invalid config'') (from_env e))) (\<lambda>c.
     let redis_url = (if redis_configured c then cf_redis_url c else None) in
     bindE (app_state_new x fr lt ce su (cf_kv_store_encryption_key c) redis_url (config_smtp c) (cf_frontend_url c)
        (cf_builder_tenant_id c) (cf_allowed_roles c) (of_nat (cf_default_session_ttl_secs c)) (cf_mfa_issuer c)) (\<lambda>sv.
     bindE (rebuild_schema ce) (\<lambda>_. ret sv)))"

subsection \<open>What a started server rests on\<close>

text \<open>Settings accepted from the environment are usable: no default is ever zero or empty.\<close>

lemma from_env_sound:
  assumes "from_env e = Some c"
  shows "cf_allowed_roles c \<noteq> []" "[] \<notin> set (cf_allowed_roles c)"
    "0 < cf_default_session_ttl_secs c" "cf_default_session_ttl_secs c < 2 ^ 64" "cf_server_port c < 2 ^ 16" "cf_mfa_issuer c \<noteq> []"
    "smtp_configured c \<longleftrightarrow> config_smtp c \<noteq> None"
proof -
  have unsigned: "parse_unsigned b s = Some n \<Longrightarrow> n < 2 ^ b" for b s n
    by (auto simp: parse_unsigned_def Let_def split: if_splits)
  have fields: "cf_allowed_roles c \<noteq> []" "\<exists>s. cf_allowed_roles c = parse_roles s"
    "cf_default_session_ttl_secs c = (case Option.bind (e ''DEFAULT_SESSION_TTL_SECS'') (parse_unsigned 64) of
       Some n \<Rightarrow> if 0 < n then n else 3600 | None \<Rightarrow> 3600)"
    "cf_server_port c = (case parse_unsigned 16 (var_or e ''SERVER_PORT'' ''3000'') of None \<Rightarrow> 3000 | Some n \<Rightarrow> n)"
    "cf_mfa_issuer c = (case non_empty_trim (e ''MFA_ISSUER'') of None \<Rightarrow> ''Authrs'' | Some s \<Rightarrow> s)"
    using assms unfolding from_env_def Let_def Option.bind_eq_Some_conv by (clarsimp split: if_splits; blast)+
  show "cf_allowed_roles c \<noteq> []" "[] \<notin> set (cf_allowed_roles c)" "cf_mfa_issuer c \<noteq> []"
    using fields(1,2,5) by (auto simp: parse_roles_def non_empty_trim_def split: option.splits if_splits)
  show "0 < cf_default_session_ttl_secs c" "cf_default_session_ttl_secs c < 2 ^ 64"
    unfolding fields(3) by (auto split: option.split dest: unsigned simp: Option.bind_eq_Some_conv)
  show "cf_server_port c < 2 ^ 16"
    unfolding fields(4) by (auto split: option.split dest: unsigned)
  show "smtp_configured c \<longleftrightarrow> config_smtp c \<noteq> None"
    by (auto simp: smtp_configured_def config_smtp_def split: option.splits)
qed

text \<open>A server that started holds the schema of the registered packages, an empty policy cache and usable settings.\<close>

lemma server_start_sound:
  assumes "server_start x fr lt ce su e s = (Inr sv, s')"
  shows "ap_schema s' = build_schema_str (by_both (t_packages (ap_world s))) (by_both (t_package_actions (ap_world s)))"
    "cd_schema_error ce (ap_schema s') = None" "ap_policy_cache s' = (\<lambda>_. None)"
    "ap_world s' = (ap_world s)\<lparr>cfg_cache := (\<lambda>_. None)\<rparr>"
    "0 < c_default_session_ttl_secs (sv_ext sv)" "sv_allowed_roles sv \<noteq> []"
    "\<exists>c. from_env e = Some c \<and> (c_uses_redis (sv_ext sv) \<longleftrightarrow> redis_configured c) \<and>
       sv_builder_tenant_id sv = cf_builder_tenant_id c \<and> (fr_smtp (sv_front sv) \<noteq> None \<longleftrightarrow> smtp_configured c)"
proof -
  obtain c where c: "from_env e = Some c"
    using assms by (cases "from_env e") (auto simp: server_start_def bindE_run)
  note run = assms [unfolded server_start_def c]
  have redis: "(if redis_configured c then cf_redis_url c else None) \<noteq> None \<longleftrightarrow> redis_configured c"
    by (auto simp: redis_configured_def split: option.splits)
  have ttl: "(0::64 word) < of_nat (cf_default_session_ttl_secs c)"
    using from_env_sound(3,4) [OF c] by (simp add: word_less_nat_alt unat_of_nat)
  note steps = app_state_new_def rebuild_schema_def packages_list_tables_def packages_list_custom_actions_def on_world_def
    bindE_run Let_def
  show "ap_schema s' = build_schema_str (by_both (t_packages (ap_world s))) (by_both (t_package_actions (ap_world s)))"
    "cd_schema_error ce (ap_schema s') = None" "ap_policy_cache s' = (\<lambda>_. None)"
    "ap_world s' = (ap_world s)\<lparr>cfg_cache := (\<lambda>_. None)\<rparr>"
    using run by (auto simp: steps split: option.splits prod.splits sum.splits)
  have sv: "sv_allowed_roles sv = cf_allowed_roles c" "sv_builder_tenant_id sv = cf_builder_tenant_id c"
    "c_default_session_ttl_secs (sv_ext sv) = of_nat (cf_default_session_ttl_secs c)"
    "c_uses_redis (sv_ext sv) \<longleftrightarrow> (if redis_configured c then cf_redis_url c else None) \<noteq> None"
    "fr_smtp (sv_front sv) = map_option (post lt) (config_smtp c)"
    using run by (auto simp: steps split: option.splits prod.splits sum.splits)
  show "0 < c_default_session_ttl_secs (sv_ext sv)" "sv_allowed_roles sv \<noteq> []"
    using sv(1,3) ttl from_env_sound(1) [OF c] by simp_all
  show "\<exists>c. from_env e = Some c \<and> (c_uses_redis (sv_ext sv) \<longleftrightarrow> redis_configured c) \<and>
       sv_builder_tenant_id sv = cf_builder_tenant_id c \<and> (fr_smtp (sv_front sv) \<noteq> None \<longleftrightarrow> smtp_configured c)"
    using sv(2,4,5) redis c from_env_sound(7) [OF c] by (intro exI [of _ c]) simp
qed

end
