(* ===== verification/Http_Routes.thy ===== *)
theory Http_Routes
  imports Domain
begin

section \<open>Route tables\<close>

text \<open>
  The routers of \<^verbatim>\<open>src/routes\<close> as the lists of their registrations, merged and nested as
  \<^verbatim>\<open>src/routes/mod.rs\<close> does it, and what a request path is dispatched to. Finding the registered
  pattern for a path is axum's: a parameter, which is required to pick a pattern that matches and to prefer
  literal segments to parameters from left to right. Percent-encoding in paths and the answers
  to \<^verbatim>\<open>HEAD\<close> and \<^verbatim>\<open>OPTIONS\<close> are left out.
\<close>

datatype http_method = GET | POST | PUT | PATCH | DELETE

text \<open>One constructor per handler, by the module or the group of routes it belongs to.\<close>

datatype meta_endpoint = SpecHandler | HealthHandler | MetricsHandler

datatype account_endpoint = Signup | VerifyMembership | ForgotPassword | ResetPassword | CheckEmailAvailability
    | CheckUsernameAvailability | CheckMobileAvailability | IdentityTenants

datatype login_endpoint = LoginEmailPassword | LoginUsernamePassword | EmailOtpRequest | MobileOtpRequest
    | MobileWhatsappOtpRequest | OtpVerify | LoginIdentity | SelectTenant

datatype oauth_endpoint = OauthRedirect | OauthCallback

datatype mfa_endpoint = MfaStatus | MfaEnable | MfaVerify | MfaValidate | MfaDisable | MfaRegenerateBackupCodes

datatype session_endpoint = SessionValidate | SessionMe | SessionTenants | ChangePassword | ForceChangePassword
    | Logout | LogoutAll | LogoutGlobal | SwitchTenant

datatype user_endpoint = AdminCreateUser | AdminListUsers | AdminListUserRoles | AdminAssignRoleToUser
    | AdminRemoveRoleFromUser | AdminListUserGroups | AdminArchiveUser | AdminResetPassword
    | AdminSetAccessValidity

datatype role_endpoint = AdminCreateRole | AdminListRoles | AdminDeleteRole | AdminSetRoleParent
    | AdminGetRoleHierarchy | AdminAttachPermissionToRole | AdminListRolePermissions
    | AdminDetachPermissionFromRole

datatype group_endpoint = AdminCreateGroup | AdminListGroups | AdminGetGroup | AdminUpdateGroup
    | AdminDeleteGroup | AdminAddUserToGroup | AdminListGroupMembers | AdminRemoveUserFromGroup
    | AdminAssignRoleToGroup | AdminListGroupRoles | AdminRemoveRoleFromGroup

datatype permission_endpoint = AdminCreatePermission | AdminListPermissions | AdminCheckPermission
    | AdminGetPermission | AdminDeletePermission

datatype kv_endpoint = AdminKvList | AdminKvGet | AdminKvPut | AdminKvDelete

datatype package_endpoint = SyncPackage | ListActions

datatype platform_endpoint = ListTenants

datatype endpoint = Meta meta_endpoint | Account account_endpoint | Login login_endpoint | Oauth oauth_endpoint
    | Mfa mfa_endpoint | Session session_endpoint | Users user_endpoint | Roles role_endpoint
    | Groups group_endpoint | Permissions permission_endpoint | KvStore kv_endpoint | Packages package_endpoint
    | Platform platform_endpoint

type_synonym route = "http_method \<times> string \<times> endpoint"

subsection \<open>The routers\<close>

definition spec_router :: "route list" where
  "spec_router = [(GET, ''/spec'', Meta SpecHandler)]"

definition health_router :: "route list" where
  "health_router = [(GET, ''/health'', Meta HealthHandler), (GET, ''/metrics'', Meta MetricsHandler)]"

definition signup_router :: "route list" where
  "signup_router = [(POST, ''/signup'', Account Signup), (POST, ''/signup/verify'', Account VerifyMembership)]"

definition password_router :: "route list" where
  "password_router = [(POST, ''/forgot-password'', Account ForgotPassword), (POST, ''/reset-password'', Account ResetPassword)]"

definition availability_router :: "route list" where
  "availability_router = [(POST, ''/check-availability/email'', Account CheckEmailAvailability),
     (POST, ''/check-availability/username'', Account CheckUsernameAvailability),
     (POST, ''/check-availability/mobile'', Account CheckMobileAvailability)]"

definition identity_router :: "route list" where
  "identity_router = [(GET, ''/identity/tenants'', Account IdentityTenants)]"

definition login_router :: "route list" where
  "login_router = [(POST, ''/email-password'', Login LoginEmailPassword), (POST, ''/username-password'', Login LoginUsernamePassword),
     (POST, ''/email-otp/request'', Login EmailOtpRequest), (POST, ''/mobile-otp/request'', Login MobileOtpRequest),
     (POST, ''/mobile-whatsapp-otp/request'', Login MobileWhatsappOtpRequest), (POST, ''/otp/verify'', Login OtpVerify),
     (POST, ''/identity'', Login LoginIdentity), (POST, ''/select-tenant'', Login SelectTenant)]"

definition oauth_router :: "route list" where
  "oauth_router = [(GET, ''/:provider'', Oauth OauthRedirect), (GET, ''/:provider/callback'', Oauth OauthCallback)]"

definition mfa_router :: "route list" where
  "mfa_router = [(GET, ''/status'', Mfa MfaStatus), (POST, ''/enable'', Mfa MfaEnable), (POST, ''/verify'', Mfa MfaVerify),
     (POST, ''/validate'', Mfa MfaValidate), (POST, ''/disable'', Mfa MfaDisable),
     (POST, ''/backup-codes'', Mfa MfaRegenerateBackupCodes)]"

definition session_router :: "route list" where
  "session_router = [(GET, ''/validate'', Session SessionValidate), (GET, ''/me'', Session SessionMe), (GET, ''/tenants'', Session SessionTenants),
     (POST, ''/change-password'', Session ChangePassword), (POST, ''/force-change-password'', Session ForceChangePassword),
     (POST, ''/logout'', Session Logout), (POST, ''/logout/all'', Session LogoutAll), (POST, ''/logout/global'', Session LogoutGlobal),
     (POST, ''/switch'', Session SwitchTenant)]"

definition admin_router :: "route list" where
  "admin_router = [(POST, ''/users'', Users AdminCreateUser), (GET, ''/users'', Users AdminListUsers),
     (GET, ''/users/:user_id/roles'', Users AdminListUserRoles), (POST, ''/users/:user_id/roles'', Users AdminAssignRoleToUser),
     (DELETE, ''/users/:user_id/roles/:role_id'', Users AdminRemoveRoleFromUser),
     (GET, ''/users/:user_id/groups'', Users AdminListUserGroups), (POST, ''/users/:user_id/archive'', Users AdminArchiveUser),
     (POST, ''/users/:user_id/reset-password'', Users AdminResetPassword),
     (PATCH, ''/users/:user_id/access-validity'', Users AdminSetAccessValidity), (POST, ''/roles'', Roles AdminCreateRole),
     (GET, ''/roles'', Roles AdminListRoles), (DELETE, ''/roles/:role_id'', Roles AdminDeleteRole),
     (PUT, ''/roles/:role_id/parent'', Roles AdminSetRoleParent), (GET, ''/roles/:role_id/hierarchy'', Roles AdminGetRoleHierarchy),
     (POST, ''/roles/:role_id/permissions'', Roles AdminAttachPermissionToRole),
     (GET, ''/roles/:role_id/permissions'', Roles AdminListRolePermissions),
     (DELETE, ''/roles/:role_id/permissions/:permission_id'', Roles AdminDetachPermissionFromRole),
     (POST, ''/groups'', Groups AdminCreateGroup), (GET, ''/groups'', Groups AdminListGroups),
     (GET, ''/groups/:group_id'', Groups AdminGetGroup), (PATCH, ''/groups/:group_id'', Groups AdminUpdateGroup),
     (DELETE, ''/groups/:group_id'', Groups AdminDeleteGroup), (POST, ''/groups/:group_id/users'', Groups AdminAddUserToGroup),
     (GET, ''/groups/:group_id/users'', Groups AdminListGroupMembers),
     (DELETE, ''/groups/:group_id/users/:user_id'', Groups AdminRemoveUserFromGroup),
     (POST, ''/groups/:group_id/roles'', Groups AdminAssignRoleToGroup), (GET, ''/groups/:group_id/roles'', Groups AdminListGroupRoles),
     (DELETE, ''/groups/:group_id/roles/:role_id'', Groups AdminRemoveRoleFromGroup),
     (POST, ''/permissions'', Permissions AdminCreatePermission), (GET, ''/permissions'', Permissions AdminListPermissions),
     (POST, ''/permissions/check'', Permissions AdminCheckPermission), (GET, ''/permissions/:permission_id'', Permissions AdminGetPermission),
     (DELETE, ''/permissions/:permission_id'', Permissions AdminDeletePermission), (GET, ''/kv_store'', KvStore AdminKvList),
     (GET, ''/kv_store/:group_key/:key'', KvStore AdminKvGet), (PUT, ''/kv_store/:group_key/:key'', KvStore AdminKvPut),
     (DELETE, ''/kv_store/:group_key/:key'', KvStore AdminKvDelete)]"

definition packages_router :: "route list" where
  "packages_router = [(POST, ''/packages/sync'', Packages SyncPackage), (GET, ''/packages/actions'', Packages ListActions)]"

definition platform_router :: "route list" where
  "platform_router = [(GET, ''/tenants'', Platform ListTenants)]"

definition nest :: "string \<Rightarrow> route list \<Rightarrow> route list" where
  "nest pre rs = map (\<lambda>(m, p, e). (m, pre @ p, e)) rs"

definition router :: "route list" where
  "router = spec_router @ health_router @ signup_router @ password_router @ availability_router @ identity_router
     @ nest ''/login'' login_router @ nest ''/oauth'' oauth_router @ nest ''/mfa'' mfa_router
     @ nest ''/session'' session_router @ nest ''/admin'' admin_router @ nest ''/admin'' packages_router @ platform_router"

subsection \<open>Patterns\<close>

datatype seg = Lit string | Param string

definition seg_of :: "string \<Rightarrow> seg" where
  "seg_of s = (case s of c # n \<Rightarrow> if c = CHR '':'' then Param n else Lit s | [] \<Rightarrow> Lit [])"

definition path_segs :: "string \<Rightarrow> string list" where
  "path_segs path = split_on (CHR ''/'') (drop 1 path)"

definition pattern_segs :: "string \<Rightarrow> seg list" where
  "pattern_segs p = map seg_of (path_segs p)"

fun match_segs :: "seg list \<Rightarrow> string list \<Rightarrow> string list option" where
  "match_segs [] [] = Some []"
| "match_segs (Lit l # ps) (s # ss) = (if s = l then match_segs ps ss else None)"
| "match_segs (Param n # ps) (s # ss) = (if s \<noteq> [] then map_option (Cons s) (match_segs ps ss) else None)"
| "match_segs _ _ = None"

definition matches :: "string \<Rightarrow> string \<Rightarrow> string list option" where
  "matches p path = (if starts_with ''/'' path then match_segs (pattern_segs p) (path_segs path) else None)"

text \<open>The first place where two patterns differ has a literal on the left.\<close>

fun beats :: "seg list \<Rightarrow> seg list \<Rightarrow> bool" where
  "beats (Lit a # ps) (Param b # qs) \<longleftrightarrow> True"
| "beats (Lit a # ps) (Lit b # qs) \<longleftrightarrow> beats ps qs"
| "beats (Param a # ps) (Param b # qs) \<longleftrightarrow> beats ps qs"
| "beats _ _ \<longleftrightarrow> False"

text \<open>Two patterns axum accepts beside each other: they differ in a literal before any difference in a parameter's name.\<close>

fun compatible :: "seg list \<Rightarrow> seg list \<Rightarrow> bool" where
  "compatible (Lit a # ps) (Lit b # qs) \<longleftrightarrow> a \<noteq> b \<or> compatible ps qs"
| "compatible (Param a # ps) (Param b # qs) \<longleftrightarrow> a = b \<and> compatible ps qs"
| "compatible (Lit a # ps) (Param b # qs) \<longleftrightarrow> True"
| "compatible (Param a # ps) (Lit b # qs) \<longleftrightarrow> True"
| "compatible [] [] \<longleftrightarrow> False"
| "compatible _ _ \<longleftrightarrow> True"

definition patterns :: "route list \<Rightarrow> string list" where
  "patterns rs = remdups (map (\<lambda>(m, p, e). p) rs)"

fun pairwise_ok :: "('a \<Rightarrow> 'a \<Rightarrow> bool) \<Rightarrow> 'a list \<Rightarrow> bool" where
  "pairwise_ok P [] \<longleftrightarrow> True"
| "pairwise_ok P (x # xs) \<longleftrightarrow> list_all (P x) xs \<and> pairwise_ok P xs"

text \<open>Registering the routes does not panic: a method at most once at a path, no conflicting patterns.\<close>

definition route_ok :: "http_method \<times> seg list \<Rightarrow> http_method \<times> seg list \<Rightarrow> bool" where
  "route_ok r r' \<longleftrightarrow> compatible (snd r) (snd r') \<or> snd r = snd r' \<and> fst r \<noteq> fst r'"

definition route_keys :: "route list \<Rightarrow> (http_method \<times> seg list) list" where
  "route_keys rs = map (\<lambda>(m, p, e). (m, pattern_segs p)) rs"

definition registers :: "route list \<Rightarrow> bool" where
  "registers rs \<longleftrightarrow> pairwise_ok route_ok (route_keys rs)"

subsection \<open>Dispatch\<close>

type_synonym finder = "string list \<Rightarrow> string \<Rightarrow> (string \<times> string list) option"

definition finder_ok :: "finder \<Rightarrow> bool" where
  "finder_ok pick \<longleftrightarrow> (\<forall>ps path. (\<forall>p \<in> set ps. \<forall>q \<in> set ps. p = q \<or> compatible (pattern_segs p) (pattern_segs q)) \<longrightarrow> (case pick ps path of
      None \<Rightarrow> \<forall>p \<in> set ps. matches p path = None
    | Some (p, vs) \<Rightarrow> p \<in> set ps \<and> matches p path = Some vs \<and>
        (\<forall>q \<in> set ps. matches q path \<noteq> None \<longrightarrow> \<not> beats (pattern_segs q) (pattern_segs p))))"

datatype routed = NotRouted | WrongMethod | To endpoint "string list"

definition dispatch :: "finder \<Rightarrow> route list \<Rightarrow> http_method \<Rightarrow> string \<Rightarrow> routed" where
  "dispatch pick rs m path = (case pick (patterns rs) path of
     None \<Rightarrow> NotRouted
   | Some (p, vs) \<Rightarrow> (case map_of (map (\<lambda>(m, p, e). ((m, p), e)) rs) (m, p) of
        None \<Rightarrow> WrongMethod | Some e \<Rightarrow> To e vs))"

text \<open>The path of a pattern with values for its parameters.\<close>

fun instantiate :: "seg list \<Rightarrow> string list \<Rightarrow> string list" where
  "instantiate (Lit l # ps) vs = l # instantiate ps vs"
| "instantiate (Param n # ps) (v # vs) = v # instantiate ps vs"
| "instantiate _ _ = []"

definition fill :: "string \<Rightarrow> string list \<Rightarrow> string" where
  "fill p vs = CHR ''/'' # join ''/'' (instantiate (pattern_segs p) vs)"

definition params :: "string \<Rightarrow> string list" where
  "params p = concat (map (\<lambda>s. case s of Param n \<Rightarrow> [n] | Lit l \<Rightarrow> []) (pattern_segs p))"

subsection \<open>Every route is reached\<close>

text \<open>Of two compatible patterns that match a path, one beats the other.\<close>

lemma matching_beats:
  "match_segs ps ss \<noteq> None \<Longrightarrow> match_segs qs ss \<noteq> None \<Longrightarrow> compatible ps qs \<Longrightarrow> beats ps qs \<or> beats qs ps"
proof (induction ps ss arbitrary: qs rule: match_segs.induct)
  case 1
  then show ?case by (cases qs) auto
next
  case (2 l ps s ss)
  then show ?case by (cases qs; cases "hd qs") (auto split: if_splits)
next
  case (3 n ps s ss)
  then show ?case by (cases qs; cases "hd qs") (auto split: if_splits)
qed auto

definition literals :: "seg list \<Rightarrow> string set" where
  "literals ps = {l. Lit l \<in> set ps}"

lemma literals_simps [simp]:
  "literals [] = {}" "literals (Lit l # ps) = insert l (literals ps)" "literals (Param n # ps) = literals ps"
  by (auto simp: literals_def)

lemma match_segs_Nil: "match_segs qs [] = (if qs = [] then Some [] else None)"
  by (cases qs; cases "hd qs") auto

lemma filled_not_beaten:
  "match_segs qs (instantiate ps vs) \<noteq> None \<Longrightarrow> set vs \<inter> literals qs = {} \<Longrightarrow> \<not> beats qs ps"
proof (induction ps vs arbitrary: qs rule: instantiate.induct)
  case (1 l ps vs)
  then show ?case by (cases qs; cases "hd qs") (auto split: if_splits)
next
  case (2 n ps v vs)
  then show ?case by (cases qs; cases "hd qs") (auto split: if_splits)
qed (auto simp: match_segs_Nil split: if_splits)

definition holes :: "seg list \<Rightarrow> nat" where
  "holes ps = length (filter (\<lambda>s. case s of Param n \<Rightarrow> True | Lit l \<Rightarrow> False) ps)"

lemma match_instantiate: "length vs = holes ps \<Longrightarrow> [] \<notin> set vs \<Longrightarrow> match_segs ps (instantiate ps vs) = Some vs"
  by (induction ps vs rule: instantiate.induct) (auto simp: holes_def)

lemma instantiate_no_slash:
  "(\<And>l. l \<in> literals ps \<Longrightarrow> CHR ''/'' \<notin> set l) \<Longrightarrow> (\<And>v. v \<in> set vs \<Longrightarrow> CHR ''/'' \<notin> set v) \<Longrightarrow>
   s \<in> set (instantiate ps vs) \<Longrightarrow> CHR ''/'' \<notin> set s"
  by (induction ps vs rule: instantiate.induct) auto

lemma literal_no_slash: "l \<in> literals (pattern_segs p) \<Longrightarrow> CHR ''/'' \<notin> set l"
  by (auto simp: literals_def pattern_segs_def path_segs_def seg_of_def split: list.splits if_splits dest!: split_on_no_sep)

lemma instantiate_Nil: "length vs = holes ps \<Longrightarrow> instantiate ps vs = [] \<longleftrightarrow> ps = []"
  by (induction ps vs rule: instantiate.induct) (auto simp: holes_def)

lemma path_segs_fill:
  assumes "length vs = holes (pattern_segs p)" "\<And>v. v \<in> set vs \<Longrightarrow> CHR ''/'' \<notin> set v"
  shows "path_segs (fill p vs) = instantiate (pattern_segs p) vs"
proof -
  have "instantiate (pattern_segs p) vs \<noteq> []"
    using assms(1) by (simp add: instantiate_Nil pattern_segs_def path_segs_def)
  then show ?thesis
    using instantiate_no_slash [OF literal_no_slash assms(2)] by (simp add: path_segs_def fill_def split_on_join)
qed

lemma pairwise_okD: "pairwise_ok P xs \<Longrightarrow> x \<in> set xs \<Longrightarrow> y \<in> set xs \<Longrightarrow> x = y \<or> P x y \<or> P y x"
  by (induction xs) (auto simp: list_all_iff)

lemma compatible_sym: "compatible ps qs \<longleftrightarrow> compatible qs ps"
  by (induction ps qs rule: compatible.induct) (auto)

lemma router_registers: "registers router"
  by code_simp

lemma pattern_segs_inject: "starts_with ''/'' p \<Longrightarrow> starts_with ''/'' q \<Longrightarrow> pattern_segs p = pattern_segs q \<Longrightarrow> p = q"
proof -
  have seg: "seg_of s = seg_of t \<Longrightarrow> s = t" for s t
    by (auto simp: seg_of_def split: list.splits if_splits)
  assume "pattern_segs p = pattern_segs q"
  then have "path_segs p = path_segs q"
    using inj_onI [of UNIV seg_of] seg by (auto simp: pattern_segs_def dest!: map_inj_on [OF _ inj_on_subset])
  then have "drop 1 p = drop 1 q"
    unfolding path_segs_def by (metis join_split_on)
  moreover assume "starts_with ''/'' p" "starts_with ''/'' q"
  ultimately show "p = q" by (cases p; cases q) (auto simp: starts_with_def)
qed

lemma compatible_irrefl [simp]: "\<not> compatible ps ps"
proof (induction ps)
  case (Cons s ps)
  then show ?case by (cases s) auto
qed simp

lemma pairwise_ok_distinct: "pairwise_ok P xs \<Longrightarrow> (\<And>x. \<not> P x x) \<Longrightarrow> distinct xs"
  by (induction xs) (auto simp: list_all_iff)

lemma registers_distinct:
  assumes "registers rs"
  shows "distinct (map (\<lambda>(m, p, e). (m, p)) rs)"
proof -
  have "distinct (route_keys rs)"
    using assms unfolding registers_def by (rule pairwise_ok_distinct) (simp add: route_ok_def)
  moreover have "route_keys rs = map (\<lambda>(m, p). (m, pattern_segs p)) (map (\<lambda>(m, p, e). (m, p)) rs)"
    by (simp add: route_keys_def case_prod_unfold)
  ultimately show ?thesis by (simp only: distinct_map)
qed

lemma router_absolute: "list_all (\<lambda>(m, p, e). starts_with ''/'' p) router"
  by code_simp

lemma registers_compatible:
  assumes "registers rs" "list_all (\<lambda>(m, p, e). starts_with ''/'' p) rs" "q \<in> set (patterns rs)" "q' \<in> set (patterns rs)"
  shows "q = q' \<or> compatible (pattern_segs q) (pattern_segs q')"
proof -
  have slash: "starts_with ''/'' r" if "r \<in> set (patterns rs)" for r
    using that assms(2) by (auto simp: patterns_def list_all_iff)
  obtain a b where "(a, pattern_segs q) \<in> set (route_keys rs)" "(b, pattern_segs q') \<in> set (route_keys rs)"
    using assms(3,4) by (force simp: patterns_def route_keys_def)
  from pairwise_okD [OF assms(1) [unfolded registers_def] this]
  have "pattern_segs q = pattern_segs q' \<or> compatible (pattern_segs q) (pattern_segs q') \<or> compatible (pattern_segs q') (pattern_segs q)"
    by (auto simp: route_ok_def)
  then show ?thesis
    using pattern_segs_inject [OF slash [OF assms(3)] slash [OF assms(4)]] compatible_sym [of "pattern_segs q'"] by blast
qed

lemma picked:
  assumes "finder_ok pick" "registers rs" "list_all (\<lambda>(m, p, e). starts_with ''/'' p) rs"
  shows "case pick (patterns rs) path of
      None \<Rightarrow> \<forall>p \<in> set (patterns rs). matches p path = None
    | Some (p, vs) \<Rightarrow> p \<in> set (patterns rs) \<and> matches p path = Some vs \<and>
        (\<forall>q \<in> set (patterns rs). matches q path \<noteq> None \<longrightarrow> \<not> beats (pattern_segs q) (pattern_segs p))"
  using assms(1) registers_compatible [OF assms(2,3)] unfolding finder_ok_def by blast

text \<open>A dispatched request goes to a registered route whose pattern matches the path.\<close>

lemma dispatch_registered:
  assumes "finder_ok pick" "registers rs" "list_all (\<lambda>(m, p, e). starts_with ''/'' p) rs" "dispatch pick rs m path = To e vs"
  shows "\<exists>p. (m, p, e) \<in> set rs \<and> matches p path = Some vs"
proof -
  obtain p where p: "pick (patterns rs) path = Some (p, vs)" "map_of (map (\<lambda>(m, p, e). ((m, p), e)) rs) (m, p) = Some e"
    using assms(4) by (auto simp: dispatch_def split: option.splits)
  have "matches p path = Some vs" using picked [OF assms(1-3), of path] p(1) by simp
  moreover have "(m, p, e) \<in> set rs" using map_of_SomeD [OF p(2)] by auto
  ultimately show ?thesis by blast
qed

lemma dispatch_fill:
  assumes "finder_ok pick" "registers rs" "list_all (\<lambda>(m, p, e). starts_with ''/'' p) rs"
    and route: "(m, p, e) \<in> set rs" and "length vs = holes (pattern_segs p)"
    and vs: "\<And>v. v \<in> set vs \<Longrightarrow> v \<noteq> [] \<and> CHR ''/'' \<notin> set v \<and> (\<forall>(m', q, e') \<in> set rs. v \<notin> literals (pattern_segs q))"
  shows "dispatch pick rs m (fill p vs) = To e vs"
proof -
  note compat = registers_compatible [OF assms(2,3)]
  have p: "p \<in> set (patterns rs)" using route by (force simp: patterns_def)
  have segs: "path_segs (fill p vs) = instantiate (pattern_segs p) vs"
    using assms(5) vs by (intro path_segs_fill) auto
  have match: "matches p (fill p vs) = Some vs"
  proof -
    have "starts_with ''/'' (fill p vs)" by (simp add: fill_def starts_with_def)
    moreover have "match_segs (pattern_segs p) (instantiate (pattern_segs p) vs) = Some vs"
      using match_instantiate [OF assms(5)] vs by blast
    ultimately show ?thesis by (simp add: matches_def segs)
  qed
  obtain q us where pick: "pick (patterns rs) (fill p vs) = Some (q, us)" "q \<in> set (patterns rs)" "matches q (fill p vs) = Some us"
    "\<not> beats (pattern_segs p) (pattern_segs q)"
  proof -
    note best = picked [OF assms(1-3), of "fill p vs"]
    show thesis
    proof (cases "pick (patterns rs) (fill p vs)")
      case None
      then show ?thesis using best p match by simp
    next
      case (Some x)
      then show ?thesis using best p match that by (cases x) simp
    qed
  qed
  have "q = p"
  proof (rule ccontr)
    assume "q \<noteq> p"
    have q: "match_segs (pattern_segs q) (instantiate (pattern_segs p) vs) \<noteq> None"
      using pick(3) by (simp add: matches_def segs split: if_splits)
    have r: "match_segs (pattern_segs p) (instantiate (pattern_segs p) vs) \<noteq> None"
      using match by (simp add: matches_def segs split: if_splits)
    have "beats (pattern_segs q) (pattern_segs p)"
      using matching_beats [OF r q] compat [OF p pick(2)] pick(4) \<open>q \<noteq> p\<close> by blast
    moreover have "set vs \<inter> literals (pattern_segs q) = {}"
      using vs pick(2) by (fastforce simp: patterns_def)
    ultimately show False using filled_not_beaten [OF q] by simp
  qed
  moreover have "map_of (map (\<lambda>(m, p, e). ((m, p), e)) rs) (m, p) = Some e"
    using registers_distinct [OF assms(2)] route by (intro map_of_is_SomeI) (auto simp: case_prod_unfold o_def rev_image_eqI)
  ultimately show ?thesis using pick match by (simp add: dispatch_def)
qed

text \<open>C36. Building the router cannot panic: no method is registered twice at a path and no two patterns
  conflict. Every registered route is reached: the path of its pattern, with any non-empty
  values without a slash that are not words of the table for its parameters, is dispatched to exactly its handler with
  these values, whatever else is registered.\<close>

theorem every_route_reached:
  assumes "finder_ok pick" "(m, p, e) \<in> set router" "length vs = holes (pattern_segs p)"
    and "\<And>v. v \<in> set vs \<Longrightarrow> v \<noteq> [] \<and> CHR ''/'' \<notin> set v \<and> (\<forall>(m', q, e') \<in> set router. v \<notin> literals (pattern_segs q))"
  shows "registers router \<and> dispatch pick router m (fill p vs) = To e vs"
  using dispatch_fill [OF assms(1) router_registers router_absolute assms(2-4)] router_registers by simp

text \<open>A finder: the first matching pattern that no other matching one beats.\<close>

definition finder0 :: finder where
  "finder0 ps path = (case find_first (\<lambda>p. matches p path \<noteq> None \<and>
      list_all (\<lambda>q. matches q path = None \<or> \<not> beats (pattern_segs q) (pattern_segs p)) ps) ps of
     None \<Rightarrow> None | Some p \<Rightarrow> map_option (\<lambda>vs. (p, vs)) (matches p path))"

lemma beats_irrefl: "\<not> beats ps ps"
proof (induction ps)
  case (Cons s ps)
  then show ?case by (cases s) auto
qed simp

lemma beats_trans: "beats ps qs \<Longrightarrow> beats qs rs \<Longrightarrow> beats ps rs"
proof (induction ps arbitrary: qs rs)
  case (Cons x ps)
  obtain y qs' where qs: "qs = y # qs'" using Cons.prems(1) by (cases qs; cases x) auto
  obtain z rs' where rs: "rs = z # rs'" using Cons.prems(2) qs by (cases rs; cases y) auto
  show ?case using Cons qs rs by (cases x; cases y; cases z) auto
qed simp

lemma unbeaten_exists:
  assumes "xs \<noteq> []" "\<And>x. \<not> R x x" "\<And>x y z. R x y \<Longrightarrow> R y z \<Longrightarrow> R x z"
  shows "\<exists>x \<in> set xs. \<forall>y \<in> set xs. \<not> R y x"
  using assms(1)
proof (induction xs rule: list_nonempty_induct)
  case (single x)
  then show ?case using assms(2) by simp
next
  case (cons x xs)
  then obtain u where u: "u \<in> set xs" "\<forall>y \<in> set xs. \<not> R y u" by blast
  show ?case
  proof (cases "R x u")
    case True
    then have "\<not> R y x" if "y \<in> set xs" for y using u(2) that assms(3) by blast
    then show ?thesis using assms(2) by auto
  next
    case False
    then show ?thesis using u by auto
  qed
qed

lemma finder0_ok: "finder_ok finder0"
  unfolding finder_ok_def
proof (intro allI impI)
  fix ps path
  let ?best = "\<lambda>p. matches p path \<noteq> None \<and>
      list_all (\<lambda>q. matches q path = None \<or> \<not> beats (pattern_segs q) (pattern_segs p)) ps"
  let ?Goal = "case finder0 ps path of None \<Rightarrow> \<forall>p \<in> set ps. matches p path = None
    | Some (p, vs) \<Rightarrow> p \<in> set ps \<and> matches p path = Some vs \<and>
        (\<forall>q \<in> set ps. matches q path \<noteq> None \<longrightarrow> \<not> beats (pattern_segs q) (pattern_segs p))"
  show ?Goal
  proof (cases "find_first ?best ps")
    case None
    have "filter (\<lambda>p. matches p path \<noteq> None) ps = []"
    proof (rule ccontr)
      assume "filter (\<lambda>p. matches p path \<noteq> None) ps \<noteq> []"
      then obtain p where "p \<in> set (filter (\<lambda>p. matches p path \<noteq> None) ps)"
        "\<forall>q \<in> set (filter (\<lambda>p. matches p path \<noteq> None) ps). \<not> beats (pattern_segs q) (pattern_segs p)"
        using unbeaten_exists [where R = "\<lambda>q p. beats (pattern_segs q) (pattern_segs p)"] beats_irrefl beats_trans by blast
      then have "p \<in> set ps" "?best p" by (auto simp: list_all_iff)
      then show False using None unfolding find_first_None_iff by blast
    qed
    then show ?thesis using None by (simp add: finder0_def filter_empty_conv)
  next
    case (Some p)
    from find_first_SomeD [OF this] have p: "p \<in> set ps" "?best p" by blast+
    then obtain vs where vs: "matches p path = Some vs" by blast
    have "finder0 ps path = Some (p, vs)" unfolding finder0_def Some by (simp add: vs)
    moreover have "\<forall>q \<in> set ps. matches q path \<noteq> None \<longrightarrow> \<not> beats (pattern_segs q) (pattern_segs p)"
      using p(2) by (simp add: list_all_iff disj_imp)
    ultimately show ?thesis using p(1) vs by simp
  qed
qed

theorem every_route_reached_witness:
  "registers router \<and> dispatch finder0 router DELETE
     (fill ''/admin/users/:user_id/roles/:role_id'' [''u1'', ''r1'']) = To (Users AdminRemoveRoleFromUser) [''u1'', ''r1'']"
proof (rule every_route_reached [OF finder0_ok])
  show "(DELETE, ''/admin/users/:user_id/roles/:role_id'', Users AdminRemoveRoleFromUser) \<in> set router" by code_simp
  show "length [''u1'', ''r1''] = holes (pattern_segs ''/admin/users/:user_id/roles/:role_id'')" by code_simp
  have "list_all (\<lambda>v. v \<noteq> [] \<and> CHR ''/'' \<notin> set v \<and>
      list_all (\<lambda>(m, q, e). Lit v \<notin> set (pattern_segs q)) router) [''u1'', ''r1'']" by code_simp
  then show "v \<noteq> [] \<and> CHR ''/'' \<notin> set v \<and> (\<forall>(m', q, e') \<in> set router. v \<notin> literals (pattern_segs q))"
    if "v \<in> set [''u1'', ''r1'']" for v
    using that by (auto simp: list_all_iff literals_def)
qed

end
