(* ===== verification/Api_Doc.thy ===== *)
theory Api_Doc
  imports Http_Routes "HOL-Library.Multiset"
begin

section \<open>The API document\<close>

text \<open>
  The OpenAPI document that \<^verbatim>\<open>spec\<close> of \<^verbatim>\<open>src/openapi.rs\<close> builds, as the list of the calls that add a path to
  it, in their order, with the servers, the security schemes and the title. Its rendering as JSON is utoipa's. The
  document is compared with the routes of the service, as the tests in the file mean to do with
  their own list of the paths.
\<close>

subsection \<open>Parameters and bodies\<close>

datatype location = HeaderParam | PathParam | QueryParam

datatype schema = TString | TInteger | TObject | TArray schema

record parameter =
  pa_name :: string
  pa_in :: location
  pa_required :: bool
  pa_description :: string
  pa_schema :: schema

record request_body =
  rb_fields :: "(string \<times> schema) list"
  rb_required :: "string list"

record operation =
  op_summary :: string
  op_description :: string
  op_params :: "parameter list"
  op_body :: "request_body option"

type_synonym path_item = "string \<times> http_method \<times> operation"

definition tenant_id_param :: parameter where
  "tenant_id_param = \<lparr>pa_name = ''X-Tenant-ID'', pa_in = HeaderParam, pa_required = True,
     pa_description = ''Tenant identifier (lower snake_case, e.g. my_tenant)'', pa_schema = TString\<rparr>"

definition path_param :: "string \<Rightarrow> string \<Rightarrow> parameter" where
  "path_param name description = \<lparr>pa_name = name, pa_in = PathParam, pa_required = True,
     pa_description = description, pa_schema = TString\<rparr>"

definition str_schema :: schema where
  "str_schema = TString"

definition s_arr :: schema where
  "s_arr = TArray str_schema"

definition query_param :: "string \<Rightarrow> string \<Rightarrow> parameter" where
  "query_param name description = \<lparr>pa_name = name, pa_in = QueryParam, pa_required = False,
     pa_description = description, pa_schema = TString\<rparr>"

definition int_query_param :: "string \<Rightarrow> string \<Rightarrow> parameter" where
  "int_query_param name description = \<lparr>pa_name = name, pa_in = QueryParam, pa_required = False,
     pa_description = description, pa_schema = TInteger\<rparr>"

definition operation_of :: "string \<Rightarrow> string \<Rightarrow> parameter list \<Rightarrow> request_body option \<Rightarrow> operation" where
  "operation_of summary description ps b = \<lparr>op_summary = summary, op_description = description, op_params = ps, op_body = b\<rparr>"

definition add_list_params :: "operation \<Rightarrow> operation" where
  "add_list_params d = d\<lparr>op_params := op_params d @
     [query_param ''q'' (''RSQL filter expression, e.g. status==active;createdAt=ge=2024-01-01T00:00:00Z. '' @
        ''Operators: == != =gt= =ge= =lt= =le= =in= =out= =like= =ilike= =contains= =starts= =ends= =between= =null=. '' @
        ''Combine with ; (AND) and , (OR); group with (). Filtering is rejected on unknown or sensitive fields (HTTP 422).''),
      query_param ''sort'' ''Comma-separated sort fields; prefix a field with - for descending, e.g. -createdAt,name.'',
      int_query_param ''limit'' ''Max rows to return (default 50, max 1000).'',
      int_query_param ''offset'' ''Rows to skip for pagination (default 0).'']\<rparr>"

definition json_body :: "(string \<times> schema) list \<Rightarrow> string list \<Rightarrow> request_body option" where
  "json_body fs required = Some \<lparr>rb_fields = fs, rb_required = required\<rparr>"

subsection \<open>The operations\<close>

definition spec_meta :: "path_item list" where
  "spec_meta =
    [(''/spec'', GET, operation_of ''OpenAPI spec''
       ''Returns this OpenAPI (Swagger) specification as JSON.''
       [] None),
     (''/health'', GET, operation_of ''Health check''
       ''Returns OK if the service is running.''
       [] None),
     (''/metrics'', GET, operation_of ''Prometheus metrics''
       ''Returns metrics in Prometheus exposition format.''
       [] None)]"

definition spec_account :: "path_item list" where
  "spec_account =
    [(''/signup'', POST, operation_of ''Register a new user''
       ''Requires X-Tenant-ID header. Body: firstName, lastName, email, mobile?, countryCode?, password, retypePassword.''
       [tenant_id_param] (json_body [(''firstName'', TString), (''lastName'', TString), (''email'', TString), (''mobile'', TString), (''countryCode'', TString), (''password'', TString), (''retypePassword'', TString)] [''firstName'', ''lastName'', ''email'', ''password'', ''retypePassword''])),
     (''/forgot-password'', POST, operation_of ''Request password reset''
       ''Requires X-Tenant-ID. Body: email. Sends reset link if email is registered.''
       [tenant_id_param] (json_body [(''email'', TString)] [''email''])),
     (''/reset-password'', POST, operation_of ''Reset password with token''
       ''Requires X-Tenant-ID. Body: token, newPassword, retypePassword.''
       [tenant_id_param] (json_body [(''token'', TString), (''newPassword'', TString), (''retypePassword'', TString)] [''token'', ''newPassword'', ''retypePassword'']))]"

definition spec_login :: "path_item list" where
  "spec_login =
    [(''/login/email-password'', POST, operation_of ''Login with email and password''
       ''Requires X-Tenant-ID. Body: email, password. Returns sessionToken or mfaRequired.''
       [tenant_id_param] (json_body [(''email'', TString), (''password'', TString)] [''email'', ''password''])),
     (''/login/username-password'', POST, operation_of ''Login with username and password''
       ''Requires X-Tenant-ID. Body: username, password.''
       [tenant_id_param] (json_body [(''username'', TString), (''password'', TString)] [''username'', ''password''])),
     (''/login/email-otp/request'', POST, operation_of ''Request email OTP''
       ''Requires X-Tenant-ID. Body: email. Sends 6-digit code via email.''
       [tenant_id_param] (json_body [(''email'', TString)] [''email''])),
     (''/login/mobile-otp/request'', POST, operation_of ''Request mobile OTP''
       ''Placeholder.''
       [tenant_id_param] None),
     (''/login/mobile-whatsapp-otp/request'', POST, operation_of ''Request WhatsApp OTP''
       ''Placeholder.''
       [tenant_id_param] None),
     (''/login/otp/verify'', POST, operation_of ''Verify OTP and complete login''
       ''Requires X-Tenant-ID. Body: identifier, code, channel (e.g. email).''
       [tenant_id_param] (json_body [(''identifier'', TString), (''code'', TString), (''channel'', TString)] [''identifier'', ''code'', ''channel'']))]"

definition spec_oauth :: "path_item list" where
  "spec_oauth =
    [(''/oauth/{provider}'', GET, operation_of ''Start OAuth sign-in''
       ''Starts an authorization-code + PKCE sign-in for the tenant in X-Tenant-ID. Returns { authorizationUrl, state }: navigate the browser to authorizationUrl and keep state to compare when the provider redirects to the tenant's configured redirectUrl. Provider config lives in the tenant kv_store (group \"oauth\", key = provider): { clientId, clientSecret, redirectUrl, tenant?, allowSignup? }.''
       [tenant_id_param, path_param ''provider'' ''OAuth provider: google, microsoft''] None),
     (''/oauth/{provider}/callback'', GET, operation_of ''Complete OAuth sign-in''
       ''Called by the frontend page at redirectUrl with the provider's code and state. The tenant is taken from the stored state (an X-Tenant-ID header, if sent, must match). Verifies the ID token, links or provisions the identity/membership, and returns the standard login response: { sessionToken, expiresAt } | { mfaRequired, mfaToken } | { passwordChangeRequired, changeToken }.''
       [path_param ''provider'' ''OAuth provider: google, microsoft'', query_param ''code'' ''Authorization code from the provider redirect'', query_param ''state'' ''State from the provider redirect (single-use, 10 min TTL)'', query_param ''error'' ''Provider error, if the user cancelled or sign-in failed''] None)]"

definition spec_mfa :: "path_item list" where
  "spec_mfa =
    [(''/mfa/status'', GET, operation_of ''MFA status''
       ''Requires Authorization: Bearer <sessionToken>. Returns { enabled, backupCodesRemaining } for the session's identity (MFA is global across tenants).''
       [] None),
     (''/mfa/enable'', POST, operation_of ''Start authenticator enrollment''
       ''Requires Bearer session. Generates a TOTP secret (SHA-1, 6 digits, 30 s) and returns { secret, otpauthUrl }. Render otpauthUrl as a QR code for Google/Microsoft Authenticator, Authy, 1Password etc. MFA is not active until /mfa/verify succeeds. 409 if already enabled.''
       [] None),
     (''/mfa/verify'', POST, operation_of ''Confirm authenticator enrollment''
       (''Requires Bearer session. Body: { code } '' @ [CHR 0xE2, CHR 0x80, CHR 0x94] @ '' the current 6-digit code from the app. Enables MFA and returns { enabled: true, backupCodes: [...] } (10 single-use codes, shown only once).'')
       [] (json_body [(''code'', str_schema)] [''code''])),
     (''/mfa/validate'', POST, operation_of ''Complete MFA login''
       ''No auth. Body: { mfaToken, code } where mfaToken comes from a login response { mfaRequired: true, mfaToken } (valid 5 min, 5 attempts). code is a 6-digit TOTP code or a backup code. Returns { sessionToken, expiresAt }.''
       [] (json_body [(''mfaToken'', str_schema), (''code'', str_schema)] [''mfaToken'', ''code''])),
     (''/mfa/disable'', POST, operation_of ''Disable MFA''
       ''Requires Bearer session. Body: { code } (TOTP or backup code). Removes the authenticator and backup codes. Returns { enabled: false }.''
       [] (json_body [(''code'', str_schema)] [''code''])),
     (''/mfa/backup-codes'', POST, operation_of ''Regenerate backup codes''
       ''Requires Bearer session. Body: { code } (TOTP or backup code). Replaces all backup codes; returns { backupCodes: [...] }.''
       [] (json_body [(''code'', str_schema)] [''code'']))]"

definition spec_session :: "path_item list" where
  "spec_session =
    [(''/session/validate'', GET, operation_of ''Validate session''
       ''Requires Authorization: Bearer <sessionToken>. Returns tenantId, userId, roles, permissions, expiresAt.''
       [tenant_id_param] None),
     (''/session/me'', GET, operation_of ''Current user''
       ''Requires Bearer token. Returns session info and user profile.''
       [tenant_id_param] None),
     (''/session/change-password'', POST, operation_of ''Change password''
       ''Requires Bearer. Body: currentPassword, newPassword, retypePassword.''
       [tenant_id_param] (json_body [(''currentPassword'', TString), (''newPassword'', TString), (''retypePassword'', TString)] [''currentPassword'', ''newPassword'', ''retypePassword''])),
     (''/session/logout'', POST, operation_of ''Logout current session''
       ''Requires Bearer token.''
       [tenant_id_param] None),
     (''/session/logout/all'', POST, operation_of ''Logout all sessions for user''
       ''Requires Bearer and X-Tenant-ID.''
       [tenant_id_param] None)]"

definition spec_admin_users :: "path_item list" where
  "spec_admin_users =
    [(''/admin/users'', POST, operation_of ''Create user (admin)''
       ''Requires admin. Placeholder.''
       [tenant_id_param] None),
     (''/admin/users'', GET, add_list_params (operation_of ''List users (admin)''
       ''Requires admin. Supports RSQL filtering (q), sort, and limit/offset. Filterable fields: id, identityId, firstName, lastName, email, username, mobile, countryCode, status, mfaEnabled, accessValidUntil, createdAt, updatedAt. Also accepts includeArchived=true to include archived memberships.''
       [tenant_id_param, query_param ''includeArchived'' ''Set true to include archived memberships (default false).''] None)),
     (''/admin/users/{user_id}/roles'', GET, operation_of ''List user roles''
       ''Requires admin. Returns roles for the user.''
       [tenant_id_param, path_param ''user_id'' ''User UUID''] None),
     (''/admin/users/{user_id}/roles'', POST, operation_of ''Assign role to user''
       ''Requires admin. Body: roleId.''
       [tenant_id_param, path_param ''user_id'' ''User UUID''] (json_body [(''roleId'', TString)] [''roleId''])),
     (''/admin/users/{user_id}/roles/{role_id}'', DELETE, operation_of ''Remove role from user''
       ''Requires admin.''
       [tenant_id_param, path_param ''user_id'' ''User UUID'', path_param ''role_id'' ''Role UUID''] None),
     (''/admin/users/{user_id}/reset-password'', POST, operation_of ''Admin reset user password''
       ''Requires admin. Body: newPassword, retypePassword.''
       [tenant_id_param, path_param ''user_id'' ''User UUID''] (json_body [(''newPassword'', TString), (''retypePassword'', TString)] [''newPassword'', ''retypePassword'']))]"

definition spec_admin_roles :: "path_item list" where
  "spec_admin_roles =
    [(''/admin/roles'', POST, operation_of ''Create role''
       ''Requires admin. Placeholder.''
       [tenant_id_param] None),
     (''/admin/roles'', GET, add_list_params (operation_of ''List roles''
       ''Requires admin. Returns roles for tenant. Supports RSQL filtering (q), sort, and limit/offset. Filterable fields: id, name, uid, parentRoleId.''
       [tenant_id_param] None)),
     (''/admin/permissions'', POST, operation_of ''Create permission''
       ''Requires admin. Placeholder.''
       [tenant_id_param] None),
     (''/admin/permissions'', GET, add_list_params (operation_of ''List permissions''
       ''Requires admin. Supports RSQL filtering (q), sort, and limit/offset. Filterable fields: id, name, description.''
       [tenant_id_param] None))]"

definition spec_groups :: "path_item list" where
  "spec_groups =
    [(''/admin/users/{user_id}/groups'', GET, operation_of ''List user groups''
       ''Requires admin. Returns groups the user is a member of.''
       [tenant_id_param, path_param ''user_id'' ''User UUID''] None),
     (''/admin/groups'', POST, operation_of ''Create group''
       ''Requires admin. Body: name, description?.''
       [tenant_id_param] (json_body [(''name'', TString), (''description'', TString)] [''name''])),
     (''/admin/groups'', GET, add_list_params (operation_of ''List groups''
       ''Requires admin. Returns groups for tenant. Supports RSQL filtering (q), sort, and limit/offset. Filterable fields: id, name, uid, description.''
       [tenant_id_param] None)),
     (''/admin/groups/{group_id}'', GET, operation_of ''Get group''
       ''Requires admin. Returns group by id.''
       [tenant_id_param, path_param ''group_id'' ''Group UUID''] None),
     (''/admin/groups/{group_id}'', PATCH, operation_of ''Update group''
       ''Requires admin. Partial update. Body: name?, description?. Omitted fields are unchanged; description: null clears it. The group's uid is not changed on rename.''
       [tenant_id_param, path_param ''group_id'' ''Group UUID''] (json_body [(''name'', TString), (''description'', TString)] [])),
     (''/admin/groups/{group_id}'', DELETE, operation_of ''Delete group''
       ''Requires admin.''
       [tenant_id_param, path_param ''group_id'' ''Group UUID''] None)]"

definition spec_group_members :: "path_item list" where
  "spec_group_members =
    [(''/admin/groups/{group_id}/users'', POST, operation_of ''Add user to group''
       ''Requires admin. Body: userId.''
       [tenant_id_param, path_param ''group_id'' ''Group UUID''] (json_body [(''userId'', TString)] [''userId''])),
     (''/admin/groups/{group_id}/users'', GET, operation_of ''List group members''
       ''Requires admin. Returns user IDs in the group.''
       [tenant_id_param, path_param ''group_id'' ''Group UUID''] None),
     (''/admin/groups/{group_id}/users/{user_id}'', DELETE, operation_of ''Remove user from group''
       ''Requires admin.''
       [tenant_id_param, path_param ''group_id'' ''Group UUID'', path_param ''user_id'' ''User UUID''] None),
     (''/admin/groups/{group_id}/roles'', POST, operation_of ''Assign role to group''
       ''Requires admin. Body: roleId.''
       [tenant_id_param, path_param ''group_id'' ''Group UUID''] (json_body [(''roleId'', TString)] [''roleId''])),
     (''/admin/groups/{group_id}/roles'', GET, operation_of ''List group roles''
       ''Requires admin. Returns roles assigned to the group.''
       [tenant_id_param, path_param ''group_id'' ''Group UUID''] None),
     (''/admin/groups/{group_id}/roles/{role_id}'', DELETE, operation_of ''Remove role from group''
       ''Requires admin.''
       [tenant_id_param, path_param ''group_id'' ''Group UUID'', path_param ''role_id'' ''Role UUID''] None)]"

definition spec_kv_store :: "path_item list" where
  "spec_kv_store =
    [(''/admin/kv_store'', GET, operation_of ''List KV store keys''
       ''Requires admin. Placeholder.''
       [tenant_id_param] None),
     (''/admin/kv_store/{group_key}/{key}'', GET, operation_of ''Get KV value''
       ''Requires admin. Placeholder.''
       [tenant_id_param, path_param ''group_key'' ''KV group key'', path_param ''key'' ''KV key''] None),
     (''/admin/kv_store/{group_key}/{key}'', PUT, operation_of ''Set KV value''
       ''Requires admin. Placeholder.''
       [tenant_id_param, path_param ''group_key'' ''KV group key'', path_param ''key'' ''KV key''] (json_body [(''value'', TString)] [])),
     (''/admin/kv_store/{group_key}/{key}'', DELETE, operation_of ''Delete KV value''
       ''Requires admin. Placeholder.''
       [tenant_id_param, path_param ''group_key'' ''KV group key'', path_param ''key'' ''KV key''] None)]"

definition spec_identity :: "path_item list" where
  "spec_identity =
    [(''/signup/verify'', POST, operation_of ''Accept a tenant membership invite''
       ''Redeems a verify-to-join email token to create the membership for an existing global identity. Body: token.''
       [] (json_body [(''token'', str_schema)] [''token''])),
     (''/login/identity'', POST, operation_of ''Tenant-less SSO identity login''
       ''Authenticates an identity by email/password and returns a short-lived identity token plus the tenants it belongs to. Body: email, password.''
       [] (json_body [(''email'', str_schema), (''password'', str_schema)] [''email'', ''password''])),
     (''/login/select-tenant'', POST, operation_of ''Exchange identity token for a tenant session''
       ''Requires Authorization: Bearer <identityToken>. Mints a tenant-scoped session for the chosen tenant. Body: tenantId.''
       [] (json_body [(''tenantId'', str_schema)] [''tenantId''])),
     (''/identity/tenants'', GET, operation_of ''List tenants for an identity token''
       ''Requires Authorization: Bearer <identityToken>. Returns the tenants the identity can select (the SSO tenant picker).''
       [] None),
     (''/check-availability/email'', POST, operation_of ''Check if an email is available''
       ''Requires X-Tenant-ID and a valid Bearer session. Returns whether the email is unused as a global identity handle across all tenants. Body: email.''
       [tenant_id_param] (json_body [(''email'', str_schema)] [''email''])),
     (''/check-availability/username'', POST, operation_of ''Check if a username is available''
       ''Requires X-Tenant-ID and a valid Bearer session. Returns whether the username is unused within the tenant. Body: username.''
       [tenant_id_param] (json_body [(''username'', str_schema)] [''username''])),
     (''/check-availability/mobile'', POST, operation_of ''Check if a mobile number is available''
       ''Requires X-Tenant-ID and a valid Bearer session. Returns whether the mobile+countryCode is unused as a global identity handle across all tenants. Body: mobile, countryCode.''
       [tenant_id_param] (json_body [(''mobile'', str_schema), (''countryCode'', str_schema)] [''mobile'', ''countryCode'']))]"

definition spec_session_identity :: "path_item list" where
  "spec_session_identity =
    [(''/session/tenants'', GET, operation_of ''List tenants for the current session''
       ''Requires Bearer session token. Returns the current tenant plus all tenants the session's identity belongs to (for a tenant switcher).''
       [] None),
     (''/session/force-change-password'', POST, operation_of ''Complete a forced password change''
       ''Authorized by the change token in the body (no Bearer). Sets a new password and returns a new session. Body: changeToken, newPassword, retypePassword.''
       [] (json_body [(''changeToken'', str_schema), (''newPassword'', str_schema), (''retypePassword'', str_schema)] [''changeToken'', ''newPassword'', ''retypePassword''])),
     (''/session/logout/global'', POST, operation_of ''Global logout across all tenants''
       ''Requires Bearer session token. Revokes every session of the current identity across all of its tenant memberships.''
       [] None),
     (''/session/switch'', POST, operation_of ''Switch to another tenant''
       ''Requires Bearer session token. Mints a new session for the target tenant using the current session's identity (no re-authentication). Body: tenantId.''
       [] (json_body [(''tenantId'', str_schema)] [''tenantId'']))]"

definition spec_user_lifecycle :: "path_item list" where
  "spec_user_lifecycle =
    [(''/admin/users/{user_id}/archive'', POST, operation_of ''Archive a user''
       ''Requires admin. Marks the specified tenant user as archived.''
       [tenant_id_param, path_param ''user_id'' ''User UUID''] None),
     (''/admin/users/{user_id}/access-validity'', PATCH, operation_of ''Set a user's access-validity expiry''
       ''Requires admin. Updates (or clears) the ISO-8601 timestamp until which the user's access remains valid. Body: accessValidUntil (null clears it).''
       [tenant_id_param, path_param ''user_id'' ''User UUID''] (json_body [(''accessValidUntil'', str_schema)] []))]"

definition spec_role_tree :: "path_item list" where
  "spec_role_tree =
    [(''/admin/roles/{role_id}'', DELETE, operation_of ''Delete a role''
       ''Requires admin. Deletes the role, removes its permission links, and evicts cached permission state.''
       [tenant_id_param, path_param ''role_id'' ''Role UUID''] None),
     (''/admin/roles/{role_id}/parent'', PUT, operation_of ''Set or clear a role's parent''
       ''Requires admin. Updates the role's parent in the hierarchy. Body: parentRoleId (null/omitted detaches the parent).''
       [tenant_id_param, path_param ''role_id'' ''Role UUID''] (json_body [(''parentRoleId'', str_schema)] [])),
     (''/admin/roles/{role_id}/hierarchy'', GET, operation_of ''Get a role's ancestor hierarchy''
       ''Requires admin. Returns the ordered list of ancestor roles for the given role.''
       [tenant_id_param, path_param ''role_id'' ''Role UUID''] None),
     (''/admin/roles/{role_id}/permissions'', POST, operation_of ''Attach a permission to a role''
       ''Requires admin. Links an existing permission to the role and evicts cached permission state. Body: permissionId.''
       [tenant_id_param, path_param ''role_id'' ''Role UUID''] (json_body [(''permissionId'', str_schema)] [''permissionId''])),
     (''/admin/roles/{role_id}/permissions'', GET, operation_of ''List a role's permissions''
       ''Requires admin. Returns the permissions attached to the role (id, name, document).''
       [tenant_id_param, path_param ''role_id'' ''Role UUID''] None),
     (''/admin/roles/{role_id}/permissions/{permission_id}'', DELETE, operation_of ''Detach a permission from a role''
       ''Requires admin. Removes the permission-role link; 404 if the assignment does not exist.''
       [path_param ''role_id'' ''Role UUID'', path_param ''permission_id'' ''Permission UUID''] None)]"

definition spec_permissions :: "path_item list" where
  "spec_permissions =
    [(''/admin/permissions/check'', POST, operation_of ''Evaluate a user's permission for a resource''
       ''Requires admin. Resolves the user's direct and group roles and runs the Cedar policy check. Body: userId, resource, action?, context?.''
       [tenant_id_param] (json_body [(''userId'', str_schema), (''resource'', str_schema), (''action'', str_schema), (''context'', TObject)] [''userId'', ''resource''])),
     (''/admin/permissions/{permission_id}'', GET, operation_of ''Get a permission''
       ''Requires admin. Returns the permission's name, description, and Cedar document; 404 if not found.''
       [tenant_id_param, path_param ''permission_id'' ''Permission UUID''] None),
     (''/admin/permissions/{permission_id}'', DELETE, operation_of ''Delete a permission''
       ''Requires admin. Deletes the permission and evicts cached permission state; 404 if not found.''
       [tenant_id_param, path_param ''permission_id'' ''Permission UUID''] None)]"

definition spec_packages :: "path_item list" where
  "spec_packages =
    [(''/admin/packages/sync'', POST, operation_of ''Sync a package's schema and actions''
       ''Registers a package's tables, extensible-field tables, and custom actions, then rebuilds the Cedar schema. Body: packageId, tables[], extensibleTables?[], customActions?[].''
       [] (json_body [(''packageId'', str_schema), (''tables'', s_arr), (''extensibleTables'', s_arr), (''customActions'', s_arr)] [''packageId'', ''tables''])),
     (''/admin/packages/actions'', GET, operation_of ''List packages with tables and actions''
       ''Returns every registered package grouped with its sorted tables and actions, plus builtinActions: actions declared for every tenant without a package sync (e.g. `run` on query resources, `get`/`refresh` on view resources).''
       [] None)]"

definition spec_platform :: "path_item list" where
  "spec_platform =
    [(''/tenants'', GET, operation_of ''List all tenants (builder-only)''
       ''Requires a Bearer session in the builder tenant holding an allowed builder role. Returns all tenants.''
       [] None)]"

definition spec_paths :: "path_item list" where
  "spec_paths = spec_meta @ spec_account @ spec_login @ spec_oauth @ spec_mfa @ spec_session @ spec_admin_users @ spec_admin_roles @ spec_groups
     @ spec_group_members @ spec_kv_store @ spec_identity @ spec_session_identity @ spec_user_lifecycle @ spec_role_tree @ spec_permissions @ spec_packages @ spec_platform"

subsection \<open>The document\<close>

datatype security_scheme = HttpBearer string string | ApiKeyHeader string string

record open_api =
  oa_title :: string
  oa_version :: string
  oa_description :: string
  oa_server :: string
  oa_variables :: "(string \<times> string \<times> string) list"
  oa_schemes :: "(string \<times> security_scheme) list"
  oa_security :: "(string \<times> string list) list list"
  oa_paths :: "path_item list"

definition security_schemes :: "(string \<times> security_scheme) list" where
  "security_schemes =
    [(''bearer'', HttpBearer ''JWT''
        (''Session token sent as Authorization: Bearer {sessionToken}. '' @
         ''To obtain a token: 1) Set X-Tenant-ID (tenant_id below). '' @
         ''2) Call POST /login/email-password with body {\"email\", \"password\"}. '' @
         ''3) Copy sessionToken from the response and paste it here.'')),
     (''tenant_id'', ApiKeyHeader ''X-Tenant-ID''
        ''Tenant identifier (lower snake_case, e.g. my_tenant). Required for tenant-scoped endpoints.'')]"

definition api_spec :: "string \<Rightarrow> open_api" where
  "api_spec package_version =
    \<lparr>oa_title = ''Authrs API'', oa_version = package_version,
     oa_description = ''Multi-tenant authentication service. Use X-Tenant-ID header for tenant context; use Authorization: Bearer <sessionToken> for authenticated endpoints. Try it out: set server URL, authorize with tenant_id and/or bearer, then execute requests.'',
     oa_server = ''http://{host}:{port}'',
     oa_variables = [(''host'', ''localhost'', ''API host (e.g. localhost or your deployment host)''), (''port'', ''3000'', ''API port'')],
     oa_schemes = security_schemes, oa_security = [[(''tenant_id'', []), (''bearer'', [])]],
     oa_paths = spec_paths\<rparr>"

subsection \<open>The document covers the routes\<close>

text \<open>A registered pattern as the document writes it: the parameters in braces.\<close>

definition template :: "string \<Rightarrow> string" where
  "template p = CHR ''/'' # join ''/'' (map (\<lambda>x. case x of Lit l \<Rightarrow> l | Param n \<Rightarrow> CHR ''{'' # n @ ''}'') (pattern_segs p))"

definition path_params :: "operation \<Rightarrow> string list" where
  "path_params d = map pa_name (filter (\<lambda>p. pa_in p = PathParam) (op_params d))"

definition item_key :: "path_item \<Rightarrow> string \<times> http_method \<times> string list" where
  "item_key i = (fst i, fst (snd i), path_params (snd (snd i)))"

lemma item_key_pair: "item_key (p, m, d) = (p, m, path_params d)"
  by (simp add: item_key_def)

lemma path_params_simps:
  "path_params (operation_of a b ps c) = map pa_name (filter (\<lambda>p. pa_in p = PathParam) ps)"
  "path_params (add_list_params d) = path_params d"
  by (simp_all add: path_params_def operation_of_def add_list_params_def query_param_def int_query_param_def)

lemma parameter_simps:
  "pa_in tenant_id_param = HeaderParam" "pa_in (path_param a b) = PathParam" "pa_name (path_param a b) = a"
  "pa_in (query_param a b) = QueryParam"
  by (simp_all add: tenant_id_param_def path_param_def query_param_def)

lemmas item_key_simps = item_key_pair path_params_simps parameter_simps

lemma spec_meta_keys: "map item_key spec_meta = [(''/spec'', GET, []), (''/health'', GET, []), (''/metrics'', GET, [])]"
  by (simp add: spec_meta_def item_key_simps)

lemma spec_account_keys: "map item_key spec_account = [(''/signup'', POST, []), (''/forgot-password'', POST, []), (''/reset-password'', POST, [])]"
  by (simp add: spec_account_def item_key_simps)

lemma spec_login_keys: "map item_key spec_login = [(''/login/email-password'', POST, []), (''/login/username-password'', POST, []), (''/login/email-otp/request'', POST, []), (''/login/mobile-otp/request'', POST, []), (''/login/mobile-whatsapp-otp/request'', POST, []), (''/login/otp/verify'', POST, [])]"
  by (simp add: spec_login_def item_key_simps)

lemma spec_oauth_keys: "map item_key spec_oauth = [(''/oauth/{provider}'', GET, [''provider'']), (''/oauth/{provider}/callback'', GET, [''provider''])]"
  by (simp add: spec_oauth_def item_key_simps)

lemma spec_mfa_keys: "map item_key spec_mfa = [(''/mfa/status'', GET, []), (''/mfa/enable'', POST, []), (''/mfa/verify'', POST, []), (''/mfa/validate'', POST, []), (''/mfa/disable'', POST, []), (''/mfa/backup-codes'', POST, [])]"
  by (simp add: spec_mfa_def item_key_simps)

lemma spec_session_keys: "map item_key spec_session = [(''/session/validate'', GET, []), (''/session/me'', GET, []), (''/session/change-password'', POST, []), (''/session/logout'', POST, []), (''/session/logout/all'', POST, [])]"
  by (simp add: spec_session_def item_key_simps)

lemma spec_admin_users_keys: "map item_key spec_admin_users = [(''/admin/users'', POST, []), (''/admin/users'', GET, []), (''/admin/users/{user_id}/roles'', GET, [''user_id'']), (''/admin/users/{user_id}/roles'', POST, [''user_id'']), (''/admin/users/{user_id}/roles/{role_id}'', DELETE, [''user_id'', ''role_id'']), (''/admin/users/{user_id}/reset-password'', POST, [''user_id''])]"
  by (simp add: spec_admin_users_def item_key_simps)

lemma spec_admin_roles_keys: "map item_key spec_admin_roles = [(''/admin/roles'', POST, []), (''/admin/roles'', GET, []), (''/admin/permissions'', POST, []), (''/admin/permissions'', GET, [])]"
  by (simp add: spec_admin_roles_def item_key_simps)

lemma spec_groups_keys: "map item_key spec_groups = [(''/admin/users/{user_id}/groups'', GET, [''user_id'']), (''/admin/groups'', POST, []), (''/admin/groups'', GET, []), (''/admin/groups/{group_id}'', GET, [''group_id'']), (''/admin/groups/{group_id}'', PATCH, [''group_id'']), (''/admin/groups/{group_id}'', DELETE, [''group_id''])]"
  by (simp add: spec_groups_def item_key_simps)

lemma spec_group_members_keys: "map item_key spec_group_members = [(''/admin/groups/{group_id}/users'', POST, [''group_id'']), (''/admin/groups/{group_id}/users'', GET, [''group_id'']), (''/admin/groups/{group_id}/users/{user_id}'', DELETE, [''group_id'', ''user_id'']), (''/admin/groups/{group_id}/roles'', POST, [''group_id'']), (''/admin/groups/{group_id}/roles'', GET, [''group_id'']), (''/admin/groups/{group_id}/roles/{role_id}'', DELETE, [''group_id'', ''role_id''])]"
  by (simp add: spec_group_members_def item_key_simps)

lemma spec_kv_store_keys: "map item_key spec_kv_store = [(''/admin/kv_store'', GET, []), (''/admin/kv_store/{group_key}/{key}'', GET, [''group_key'', ''key'']), (''/admin/kv_store/{group_key}/{key}'', PUT, [''group_key'', ''key'']), (''/admin/kv_store/{group_key}/{key}'', DELETE, [''group_key'', ''key''])]"
  by (simp add: spec_kv_store_def item_key_simps)

lemma spec_identity_keys: "map item_key spec_identity = [(''/signup/verify'', POST, []), (''/login/identity'', POST, []), (''/login/select-tenant'', POST, []), (''/identity/tenants'', GET, []), (''/check-availability/email'', POST, []), (''/check-availability/username'', POST, []), (''/check-availability/mobile'', POST, [])]"
  by (simp add: spec_identity_def item_key_simps)

lemma spec_session_identity_keys: "map item_key spec_session_identity = [(''/session/tenants'', GET, []), (''/session/force-change-password'', POST, []), (''/session/logout/global'', POST, []), (''/session/switch'', POST, [])]"
  by (simp add: spec_session_identity_def item_key_simps)

lemma spec_user_lifecycle_keys: "map item_key spec_user_lifecycle = [(''/admin/users/{user_id}/archive'', POST, [''user_id'']), (''/admin/users/{user_id}/access-validity'', PATCH, [''user_id''])]"
  by (simp add: spec_user_lifecycle_def item_key_simps)

lemma spec_role_tree_keys: "map item_key spec_role_tree = [(''/admin/roles/{role_id}'', DELETE, [''role_id'']), (''/admin/roles/{role_id}/parent'', PUT, [''role_id'']), (''/admin/roles/{role_id}/hierarchy'', GET, [''role_id'']), (''/admin/roles/{role_id}/permissions'', POST, [''role_id'']), (''/admin/roles/{role_id}/permissions'', GET, [''role_id'']), (''/admin/roles/{role_id}/permissions/{permission_id}'', DELETE, [''role_id'', ''permission_id''])]"
  by (simp add: spec_role_tree_def item_key_simps)

lemma spec_permissions_keys: "map item_key spec_permissions = [(''/admin/permissions/check'', POST, []), (''/admin/permissions/{permission_id}'', GET, [''permission_id'']), (''/admin/permissions/{permission_id}'', DELETE, [''permission_id''])]"
  by (simp add: spec_permissions_def item_key_simps)

lemma spec_packages_keys: "map item_key spec_packages = [(''/admin/packages/sync'', POST, []), (''/admin/packages/actions'', GET, [])]"
  by (simp add: spec_packages_def item_key_simps)

lemma spec_platform_keys: "map item_key spec_platform = [(''/tenants'', GET, [])]"
  by (simp add: spec_platform_def item_key_simps)

lemmas spec_group_keys = spec_meta_keys spec_account_keys spec_login_keys spec_oauth_keys spec_mfa_keys spec_session_keys spec_admin_users_keys spec_admin_roles_keys spec_groups_keys spec_group_members_keys spec_kv_store_keys spec_identity_keys spec_session_identity_keys spec_user_lifecycle_keys spec_role_tree_keys spec_permissions_keys spec_packages_keys spec_platform_keys

definition route_key :: "route \<Rightarrow> string \<times> http_method \<times> string list" where
  "route_key r = (case r of (m, p, e) \<Rightarrow> (template p, m, params p))"

text \<open>The path and the method of an operation.\<close>

definition doc_keys :: "path_item list \<Rightarrow> (string \<times> http_method) list" where
  "doc_keys ds = map (\<lambda>(p, m, d). (p, m)) ds"

lemma router_keys: "map route_key router =
    [(''/spec'', GET, []), (''/health'', GET, []), (''/metrics'', GET, []),
     (''/signup'', POST, []), (''/signup/verify'', POST, []), (''/forgot-password'', POST, []),
     (''/reset-password'', POST, []), (''/check-availability/email'', POST, []), (''/check-availability/username'', POST, []),
     (''/check-availability/mobile'', POST, []), (''/identity/tenants'', GET, []), (''/login/email-password'', POST, []),
     (''/login/username-password'', POST, []), (''/login/email-otp/request'', POST, []), (''/login/mobile-otp/request'', POST, []),
     (''/login/mobile-whatsapp-otp/request'', POST, []), (''/login/otp/verify'', POST, []), (''/login/identity'', POST, []),
     (''/login/select-tenant'', POST, []), (''/oauth/{provider}'', GET, [''provider'']), (''/oauth/{provider}/callback'', GET, [''provider'']),
     (''/mfa/status'', GET, []), (''/mfa/enable'', POST, []), (''/mfa/verify'', POST, []),
     (''/mfa/validate'', POST, []), (''/mfa/disable'', POST, []), (''/mfa/backup-codes'', POST, []),
     (''/session/validate'', GET, []), (''/session/me'', GET, []), (''/session/tenants'', GET, []),
     (''/session/change-password'', POST, []), (''/session/force-change-password'', POST, []), (''/session/logout'', POST, []),
     (''/session/logout/all'', POST, []), (''/session/logout/global'', POST, []), (''/session/switch'', POST, []),
     (''/admin/users'', POST, []), (''/admin/users'', GET, []), (''/admin/users/{user_id}/roles'', GET, [''user_id'']),
     (''/admin/users/{user_id}/roles'', POST, [''user_id'']), (''/admin/users/{user_id}/roles/{role_id}'', DELETE, [''user_id'', ''role_id'']), (''/admin/users/{user_id}/groups'', GET, [''user_id'']),
     (''/admin/users/{user_id}/archive'', POST, [''user_id'']), (''/admin/users/{user_id}/reset-password'', POST, [''user_id'']), (''/admin/users/{user_id}/access-validity'', PATCH, [''user_id'']),
     (''/admin/roles'', POST, []), (''/admin/roles'', GET, []), (''/admin/roles/{role_id}'', DELETE, [''role_id'']),
     (''/admin/roles/{role_id}/parent'', PUT, [''role_id'']), (''/admin/roles/{role_id}/hierarchy'', GET, [''role_id'']), (''/admin/roles/{role_id}/permissions'', POST, [''role_id'']),
     (''/admin/roles/{role_id}/permissions'', GET, [''role_id'']), (''/admin/roles/{role_id}/permissions/{permission_id}'', DELETE, [''role_id'', ''permission_id'']), (''/admin/groups'', POST, []),
     (''/admin/groups'', GET, []), (''/admin/groups/{group_id}'', GET, [''group_id'']), (''/admin/groups/{group_id}'', PATCH, [''group_id'']),
     (''/admin/groups/{group_id}'', DELETE, [''group_id'']), (''/admin/groups/{group_id}/users'', POST, [''group_id'']), (''/admin/groups/{group_id}/users'', GET, [''group_id'']),
     (''/admin/groups/{group_id}/users/{user_id}'', DELETE, [''group_id'', ''user_id'']), (''/admin/groups/{group_id}/roles'', POST, [''group_id'']), (''/admin/groups/{group_id}/roles'', GET, [''group_id'']),
     (''/admin/groups/{group_id}/roles/{role_id}'', DELETE, [''group_id'', ''role_id'']), (''/admin/permissions'', POST, []), (''/admin/permissions'', GET, []),
     (''/admin/permissions/check'', POST, []), (''/admin/permissions/{permission_id}'', GET, [''permission_id'']), (''/admin/permissions/{permission_id}'', DELETE, [''permission_id'']),
     (''/admin/kv_store'', GET, []), (''/admin/kv_store/{group_key}/{key}'', GET, [''group_key'', ''key'']), (''/admin/kv_store/{group_key}/{key}'', PUT, [''group_key'', ''key'']),
     (''/admin/kv_store/{group_key}/{key}'', DELETE, [''group_key'', ''key'']), (''/admin/packages/sync'', POST, []), (''/admin/packages/actions'', GET, []),
     (''/tenants'', GET, [])]"
  by code_simp

text \<open>Where the documented operations stand in the router.\<close>

definition doc_order :: "nat list" where
  "doc_order = [0, 1, 2, 3, 5, 6, 11, 12, 13, 14, 15, 16, 19, 20, 21, 22, 23, 24, 25, 26, 27, 28, 30, 32, 33, 36, 37, 38, 39, 40, 43, 45, 46, 64, 65, 41, 53, 54, 55, 56, 57, 58, 59, 60, 61, 62, 63, 69, 70, 71, 72, 4, 17, 18, 10, 7, 8, 9, 29, 31, 34, 35, 42, 44, 47, 48, 49, 50, 51, 52, 66, 67, 68, 73, 74, 75]"

lemma doc_order_sorted: "sort doc_order = [0..<length router]"
  by code_simp

lemma doc_order_perm: "mset doc_order = mset [0..<length router]"
  unfolding doc_order_sorted [symmetric] by simp

lemma spec_keys: "map item_key spec_paths = map (\<lambda>i. map route_key router ! i) doc_order"
  unfolding spec_paths_def map_append spec_group_keys router_keys doc_order_def by simp

lemma spec_is_router: "mset (map item_key spec_paths) = mset (map route_key router)"
proof -
  have "mset (map item_key spec_paths) = image_mset (\<lambda>i. map route_key router ! i) (mset [0..<length router])"
    unfolding spec_keys mset_map doc_order_perm by simp
  also have "\<dots> = mset (map (\<lambda>i. map route_key router ! i) [0..<length (map route_key router)])"
    by (simp only: mset_map length_map)
  also have "\<dots> = mset (map route_key router)" by (simp only: map_nth)
  finally show ?thesis .
qed

text \<open>Different patterns are documented at different paths.\<close>

definition seg_text :: "seg \<Rightarrow> string" where
  "seg_text x = (case x of Lit l \<Rightarrow> l | Param n \<Rightarrow> CHR ''{'' # n @ ''}'')"

lemma template_alt: "template p = CHR ''/'' # join ''/'' (map seg_text (pattern_segs p))"
  by (simp add: template_def seg_text_def [abs_def])

lemma seg_text_no_slash: "x \<in> set (pattern_segs p) \<Longrightarrow> CHR ''/'' \<notin> set (seg_text x)"
  by (auto simp: seg_text_def pattern_segs_def path_segs_def seg_of_def split: list.splits if_splits seg.splits
      dest!: split_on_no_sep)

definition braced :: "string \<Rightarrow> bool" where
  "braced p \<longleftrightarrow> list_ex (\<lambda>x. case x of Lit l \<Rightarrow> starts_with ''{'' l | Param n \<Rightarrow> False) (pattern_segs p)"

lemma seg_text_inject:
  "seg_text x = seg_text y \<Longrightarrow> (\<And>l. x = Lit l \<or> y = Lit l \<Longrightarrow> \<not> starts_with ''{'' l) \<Longrightarrow> x = y"
  by (cases x; cases y) (auto simp: seg_text_def starts_with_def)

lemma template_inject:
  assumes "template p = template q" "\<not> braced p" "\<not> braced q"
  shows "pattern_segs p = pattern_segs q"
proof -
  have "path_segs (template r) = map seg_text (pattern_segs r)" for r
    using seg_text_no_slash [of _ r]
    by (auto simp: path_segs_def template_alt pattern_segs_def intro!: split_on_join)
  then have eq: "map seg_text (pattern_segs p) = map seg_text (pattern_segs q)" using assms(1) by metis
  have "inj_on seg_text (set (pattern_segs p) \<union> set (pattern_segs q))"
    using assms(2,3) by (auto simp: braced_def list_ex_iff split: seg.splits intro!: inj_onI seg_text_inject)
  then show ?thesis using eq by (rule map_inj_on [rotated])
qed

lemma router_unbraced: "list_all (\<lambda>(m, p, e). \<not> braced p) router"
  by code_simp

lemma routed_once: "distinct (map (\<lambda>(m, p, e). (template p, m)) router)"
proof -
  have "distinct (route_keys router)"
    using router_registers unfolding registers_def by (rule pairwise_ok_distinct) (simp add: route_ok_def)
  then have d: "distinct (map (\<lambda>(m, p, e). (m, pattern_segs p)) router)" by (simp add: route_keys_def)
  then have "distinct router" unfolding distinct_map by blast
  moreover have "inj_on (\<lambda>(m, p, e). (template p, m)) (set router)"
  proof (rule inj_onI)
    fix r r' assume r: "r \<in> set router" "r' \<in> set router"
      and eq: "(case r of (m, p, e) \<Rightarrow> (template p, m)) = (case r' of (m, p, e) \<Rightarrow> (template p, m))"
    obtain m p e m' p' e' where rr: "r = (m, p, e)" "r' = (m', p', e')" by (cases r; cases r') auto
    have "pattern_segs p = pattern_segs p'"
      using eq r router_unbraced by (intro template_inject) (auto simp: rr list_all_iff)
    then show "r = r'"
      using d r eq unfolding distinct_map inj_on_def by (fastforce simp: rr)
  qed
  ultimately show ?thesis by (simp add: distinct_map)
qed

text \<open>C37. The document covers the service: it describes each pair of a path and a method once, the described pairs are
  exactly those the router registers, and the path parameters of each operation are the parameters of its route
  in their order.\<close>

theorem spec_covers_routes:
  "distinct (doc_keys (oa_paths (api_spec v))) \<and>
   mset (map item_key (oa_paths (api_spec v))) = mset (map route_key router)"
proof -
  have paths: "oa_paths (api_spec v) = spec_paths" by (simp add: api_spec_def)
  have "mset (doc_keys spec_paths) = image_mset (\<lambda>(p, m, ps). (p, m)) (mset (map item_key spec_paths))"
    by (simp add: doc_keys_def item_key_def image_mset.compositionality o_def case_prod_unfold)
  also have "\<dots> = mset (map (\<lambda>(m, p, e). (template p, m)) router)"
    unfolding spec_is_router by (simp add: route_key_def image_mset.compositionality o_def case_prod_unfold)
  finally have "distinct (doc_keys spec_paths)"
    using routed_once by (rule mset_eq_imp_distinct_iff [THEN iffD2])
  then show ?thesis unfolding paths using spec_is_router by blast
qed

text \<open>The list endpoints describe the parameters of the query language.\<close>

definition list_params_shown :: "operation \<Rightarrow> bool" where
  "list_params_shown d \<longleftrightarrow> {''q'', ''sort'', ''limit'', ''offset''} \<subseteq> set (map pa_name (op_params d))"

lemma add_list_params_shown: "list_params_shown (add_list_params d)"
  by (simp add: list_params_shown_def add_list_params_def query_param_def int_query_param_def)

lemma list_endpoints_expose_rsql_params:
  "\<exists>d. (''/admin/users'', GET, d) \<in> set spec_paths \<and> list_params_shown d"
  "\<exists>d. (''/admin/roles'', GET, d) \<in> set spec_paths \<and> list_params_shown d"
  "\<exists>d. (''/admin/permissions'', GET, d) \<in> set spec_paths \<and> list_params_shown d"
  "\<exists>d. (''/admin/groups'', GET, d) \<in> set spec_paths \<and> list_params_shown d"
proof -
  have "\<exists>d. (''/admin/users'', GET, d) \<in> set spec_admin_users \<and> list_params_shown d"
    by (simp add: spec_admin_users_def add_list_params_shown)
  then show "\<exists>d. (''/admin/users'', GET, d) \<in> set spec_paths \<and> list_params_shown d"
    by (auto simp: spec_paths_def)
  have "\<exists>d. (''/admin/roles'', GET, d) \<in> set spec_admin_roles \<and> list_params_shown d"
    by (simp add: spec_admin_roles_def add_list_params_shown)
  then show "\<exists>d. (''/admin/roles'', GET, d) \<in> set spec_paths \<and> list_params_shown d"
    by (auto simp: spec_paths_def)
  have "\<exists>d. (''/admin/permissions'', GET, d) \<in> set spec_admin_roles \<and> list_params_shown d"
    by (simp add: spec_admin_roles_def add_list_params_shown)
  then show "\<exists>d. (''/admin/permissions'', GET, d) \<in> set spec_paths \<and> list_params_shown d"
    by (auto simp: spec_paths_def)
  have "\<exists>d. (''/admin/groups'', GET, d) \<in> set spec_groups \<and> list_params_shown d"
    by (simp add: spec_groups_def add_list_params_shown)
  then show "\<exists>d. (''/admin/groups'', GET, d) \<in> set spec_paths \<and> list_params_shown d"
    by (auto simp: spec_paths_def)
qed

end
