(* ===== verification/Http.thy ===== *)
theory Http
  imports Http_Bodies Routes_Session Server Api_Doc
begin

section \<open>Serving a request\<close>

text \<open>
  A request goes through the router of \<^verbatim>\<open>src/routes/mod.rs\<close> to its handler, whose arguments are extracted from it in
  their order (tenant header, path, query, body last), and the handler's result or error becomes
  the response. What axum does itself is the finder of patterns (\<open>finder\<close>), the decoding
  of the query string into pairs and the texts of its own rejections; parsing texts of JSON, ids and times are
  functions of the record \<open>service\<close>. No layer that \<^verbatim>\<open>src/main.rs\<close> puts around the router
  decides about a request: they are the CORS headers and the trace span.
\<close>

subsection \<open>Requests and answers\<close>

record request =
  rq_query :: query
  rq_tenant :: "string option"
  rq_auth :: "string option"
  rq_is_json :: bool
  rq_body :: string

text \<open>The text of a rejection by axum itself is not modelled.\<close>

datatype payload = JsonBody json | TextBody string | LibraryBody

type_synonym answer = "nat \<times> payload"

text \<open>The whole state: stores, policy cache and schema, signing-key cache, mails handed to the relay.\<close>

record site =
  si_app :: app
  si_jwks :: "string \<Rightarrow> ((string \<times> string) list \<times> time) option"
  si_sent :: "mail list"

type_synonym action = "site \<Rightarrow> answer \<times> site"

type_synonym 'r pg = "string \<Rightarrow> string list \<Rightarrow> 'r list op"

record service =
  sc_server :: server
  sc_cedar :: cedar
  sc_oidc :: oidc
  sc_endpoints :: provider_endpoints
  sc_formats :: formats
  sc_json :: "string \<Rightarrow> json option"
  sc_users :: "user pg"
  sc_roles :: "(uuid \<times> string \<times> string \<times> uuid option) pg"
  sc_groups :: "(uuid \<times> string \<times> string \<times> string option) pg"
  sc_permissions :: "(uuid \<times> string \<times> string option \<times> json) pg"
  sc_decisions :: "(string \<Rightarrow> bool option) \<Rightarrow> json"
  sc_document :: "open_api \<Rightarrow> json"
  sc_version :: string

abbreviation sc_ext :: "service \<Rightarrow> ext" where "sc_ext sc \<equiv> sv_ext (sc_server sc)"

abbreviation sc_front :: "service \<Rightarrow> front" where "sc_front sc \<equiv> sv_front (sc_server sc)"

text \<open>The fresh values one request draws.\<close>

record draws =
  dr_token :: string
  dr_salt :: string
  dr_id :: uuid
  dr_id2 :: uuid
  dr_code :: string
  dr_bytes :: string
  dr_nonce :: string
  dr_oauth :: "string \<times> string \<times> string"
  dr_rnd :: "nat \<Rightarrow> nat \<Rightarrow> nat"
  dr_ids :: "nat \<Rightarrow> uuid"

subsection \<open>Handlers on the whole state\<close>

definition on_app :: "'a app_op \<Rightarrow> (site, 'a) io" where
  "on_app m s = (case m (si_app s) of (r, a) \<Rightarrow> (r, s\<lparr>si_app := a\<rparr>))"

definition on_site :: "'a op \<Rightarrow> (site, 'a) io" where
  "on_site m = on_app (on_world m)"

definition on_mailer :: "(post_app, 'a) io \<Rightarrow> (site, 'a) io" where
  "on_mailer m s = (case m \<lparr>po_world = ap_world (si_app s), po_sent = si_sent s\<rparr> of
     (r, p) \<Rightarrow> (r, s\<lparr>si_app := (si_app s)\<lparr>ap_world := po_world p\<rparr>, si_sent := po_sent p\<rparr>))"

definition on_keys :: "(oauth_app, 'a) io \<Rightarrow> (site, 'a) io" where
  "on_keys m s = (case m \<lparr>oa_world = ap_world (si_app s), oa_jwks = si_jwks s\<rparr> of
     (r, p) \<Rightarrow> (r, s\<lparr>si_app := (si_app s)\<lparr>ap_world := oa_world p\<rparr>, si_jwks := oa_jwks p\<rparr>))"

definition error_value :: "error_body \<Rightarrow> json" where
  "error_value b = JObj [(''error'', JStr (eb_error b)), (''message'', JStr (eb_message b))]"

definition reply :: "(site, response) io \<Rightarrow> action" where
  "reply m s = (case m s of
     (Inr (status, j), t) \<Rightarrow> ((status, JsonBody j), t)
   | (Inl e, t) \<Rightarrow> (case into_response e of (status, b) \<Rightarrow> ((status, JsonBody (error_value b)), t)))"

definition refuse :: "nat \<Rightarrow> payload \<Rightarrow> action" where
  "refuse status p s = ((status, p), s)"

definition text_reply :: "string \<Rightarrow> action" where
  "text_reply t s = ((200, TextBody t), s)"

subsection \<open>Extraction\<close>

definition with_tenant :: "request \<Rightarrow> (string \<Rightarrow> action) \<Rightarrow> action" where
  "with_tenant rq k = (case tenant_from_parts (rq_tenant rq) of
     Inl (status, t) \<Rightarrow> refuse status (TextBody t) | Inr tenant_id \<Rightarrow> k tenant_id)"

definition with_id :: "service \<Rightarrow> string list \<Rightarrow> (uuid \<Rightarrow> action) \<Rightarrow> action" where
  "with_id sc vs k = (case vs of
     [v] \<Rightarrow> (case fm_uuid (sc_formats sc) v of None \<Rightarrow> refuse 400 LibraryBody | Some u \<Rightarrow> k u)
   | _ \<Rightarrow> refuse 500 LibraryBody)"

definition with_ids :: "service \<Rightarrow> string list \<Rightarrow> (uuid \<Rightarrow> uuid \<Rightarrow> action) \<Rightarrow> action" where
  "with_ids sc vs k = (case vs of
     [v, w] \<Rightarrow> (case (fm_uuid (sc_formats sc) v, fm_uuid (sc_formats sc) w) of
         (Some a, Some b) \<Rightarrow> k a b | _ \<Rightarrow> refuse 400 LibraryBody)
   | _ \<Rightarrow> refuse 500 LibraryBody)"

definition with_text :: "string list \<Rightarrow> (string \<Rightarrow> action) \<Rightarrow> action" where
  "with_text vs k = (case vs of [v] \<Rightarrow> k v | _ \<Rightarrow> refuse 500 LibraryBody)"

definition with_query :: "(query \<Rightarrow> 'a option) \<Rightarrow> request \<Rightarrow> ('a \<Rightarrow> action) \<Rightarrow> action" where
  "with_query de rq k = (case de (rq_query rq) of None \<Rightarrow> refuse 400 LibraryBody | Some q \<Rightarrow> k q)"

definition with_body :: "service \<Rightarrow> (json \<Rightarrow> 'a option) \<Rightarrow> request \<Rightarrow> ('a \<Rightarrow> action) \<Rightarrow> action" where
  "with_body sc de rq k =
     (if \<not> rq_is_json rq then refuse 415 LibraryBody
      else case sc_json sc (rq_body rq) of
        None \<Rightarrow> refuse 400 LibraryBody
      | Some j \<Rightarrow> (case de j of None \<Rightarrow> refuse 422 LibraryBody | Some b \<Rightarrow> k b))"

subsection \<open>Open endpoints\<close>

definition spec_handler :: "service \<Rightarrow> action" where
  "spec_handler sc s = ((200, JsonBody (sc_document sc (api_spec (sc_version sc)))), s)"

definition health_handler :: action where
  "health_handler = text_reply ''OK''"

definition metrics_handler :: action where
  "metrics_handler = text_reply (''# Metrics placeholder'' @ nl)"

fun meta_action :: "service \<Rightarrow> meta_endpoint \<Rightarrow> action" where
  "meta_action sc SpecHandler = spec_handler sc"
| "meta_action sc HealthHandler = health_handler"
| "meta_action sc MetricsHandler = metrics_handler"

fun account_action :: "service \<Rightarrow> draws \<Rightarrow> time \<Rightarrow> request \<Rightarrow> account_endpoint \<Rightarrow> action" where
  "account_action sc d now rq Signup =
     with_tenant rq (\<lambda>tenant_id. with_body sc signup_body rq
       (\<lambda>(first_name, last_name, email, mobile, country_code, password, retype_password).
          reply (on_mailer (signup_route (sc_ext sc) (sc_front sc) now (dr_token d, dr_salt d, dr_id d, dr_id2 d)
            tenant_id first_name last_name email mobile country_code password retype_password))))"
| "account_action sc d now rq VerifyMembership =
     with_body sc verify_membership_body rq (\<lambda>token. reply (on_site (verify_membership now (dr_id d) token)))"
| "account_action sc d now rq ForgotPassword =
     with_tenant rq (\<lambda>tenant_id. with_body sc forgot_password_body rq (\<lambda>email.
       reply (on_mailer (forgot_password_route (sc_ext sc) (sc_front sc) now (dr_token d) tenant_id email))))"
| "account_action sc d now rq ResetPassword =
     with_tenant rq (\<lambda>tenant_id. with_body sc reset_password_body rq (\<lambda>(token, new_password, retype_password).
       reply (on_site (reset_password_route (sc_ext sc) now (dr_salt d) tenant_id token new_password retype_password))))"
| "account_action sc d now rq CheckEmailAvailability =
     with_tenant rq (\<lambda>tenant_id. with_body sc check_email_body rq (\<lambda>email.
       reply (on_site (check_email_availability (sc_ext sc) now (rq_auth rq) email))))"
| "account_action sc d now rq CheckUsernameAvailability =
     with_tenant rq (\<lambda>tenant_id. with_body sc check_username_body rq (\<lambda>username.
       reply (on_site (check_username_availability (sc_ext sc) now tenant_id (rq_auth rq) username))))"
| "account_action sc d now rq CheckMobileAvailability =
     with_tenant rq (\<lambda>tenant_id. with_body sc check_mobile_body rq (\<lambda>(mobile, country_code).
       reply (on_site (check_mobile_availability (sc_ext sc) now (rq_auth rq) mobile country_code))))"
| "account_action sc d now rq IdentityTenants = reply (on_site (identity_tenants now (rq_auth rq)))"

definition mobile_otp_request :: action where
  "mobile_otp_request = text_reply ''mobile otp request placeholder''"

definition mobile_whatsapp_otp_request :: action where
  "mobile_whatsapp_otp_request = text_reply ''mobile whatsapp otp request placeholder''"

fun login_action :: "service \<Rightarrow> draws \<Rightarrow> time \<Rightarrow> request \<Rightarrow> login_endpoint \<Rightarrow> action" where
  "login_action sc d now rq LoginEmailPassword =
     with_tenant rq (\<lambda>tenant_id. with_body sc email_password_body rq (\<lambda>(email, password).
       reply (on_site (email_password_route (sc_ext sc) (sc_front sc) now (dr_token d) tenant_id email password))))"
| "login_action sc d now rq LoginUsernamePassword =
     with_tenant rq (\<lambda>tenant_id. with_body sc username_password_body rq (\<lambda>(username, password).
       reply (on_site (username_password_route (sc_ext sc) (sc_front sc) now (dr_token d) tenant_id username password))))"
| "login_action sc d now rq EmailOtpRequest =
     with_tenant rq (\<lambda>tenant_id. with_body sc email_otp_request_body rq (\<lambda>email.
       reply (on_mailer (email_otp_request (sc_ext sc) (sc_front sc) now (dr_id d) (dr_code d) tenant_id email))))"
| "login_action sc d now rq MobileOtpRequest = mobile_otp_request"
| "login_action sc d now rq MobileWhatsappOtpRequest = mobile_whatsapp_otp_request"
| "login_action sc d now rq OtpVerify =
     with_tenant rq (\<lambda>tenant_id. with_body sc otp_verify_body rq (\<lambda>(identifier, code, channel).
       reply (on_site (otp_verify (sc_ext sc) (sc_front sc) now (dr_token d) tenant_id identifier code channel))))"
| "login_action sc d now rq LoginIdentity =
     with_body sc identity_login_body rq (\<lambda>(email, password).
       reply (on_site (login_identity_route (sc_ext sc) now (dr_token d) email password)))"
| "login_action sc d now rq SelectTenant =
     with_body sc select_tenant_body rq (\<lambda>tenant_id.
       reply (on_site (select_tenant_route (sc_ext sc) (sc_front sc) now (dr_token d) (rq_auth rq) tenant_id)))"

text \<open>An optional tenant header that is rejected counts as absent.\<close>

definition optional_tenant :: "request \<Rightarrow> string option" where
  "optional_tenant rq = (case tenant_from_parts (rq_tenant rq) of Inl _ \<Rightarrow> None | Inr tenant_id \<Rightarrow> Some tenant_id)"

fun oauth_action :: "service \<Rightarrow> draws \<Rightarrow> time \<Rightarrow> request \<Rightarrow> string list \<Rightarrow> oauth_endpoint \<Rightarrow> action" where
  "oauth_action sc d now rq vs OauthRedirect =
     with_tenant rq (\<lambda>tenant_id. with_text vs (\<lambda>provider.
       reply (on_site (bindE (oauth_redirect (sc_ext sc) (sc_oidc sc) (sc_endpoints sc) now (dr_oauth d) tenant_id provider)
         (\<lambda>(authorization_url, oauth_state).
            ret (200, JObj [(''authorizationUrl'', JStr authorization_url), (''state'', JStr oauth_state)]))))))"
| "oauth_action sc d now rq vs OauthCallback =
     with_text vs (\<lambda>provider. with_query oauth_callback_query_of rq (\<lambda>query.
       reply (on_keys (bindE (oauth_callback (sc_ext sc) (sc_oidc sc) (sc_endpoints sc) now (dr_token d) (dr_id d) (dr_id2 d)
         (optional_tenant rq) provider query) (\<lambda>r. ret (200, login_result_json (sc_front sc) r))))))"

subsection \<open>Endpoints of a session\<close>

fun mfa_action :: "service \<Rightarrow> draws \<Rightarrow> time \<Rightarrow> request \<Rightarrow> mfa_endpoint \<Rightarrow> action" where
  "mfa_action sc d now rq MfaStatus = reply (on_site (mfa_status_route (sc_ext sc) now (rq_auth rq)))"
| "mfa_action sc d now rq MfaEnable =
     reply (on_site (mfa_enable_route (sc_ext sc) now (dr_bytes d) (dr_nonce d) (rq_auth rq)))"
| "mfa_action sc d now rq MfaVerify =
     with_body sc code_body rq (\<lambda>code. reply (on_site (mfa_verify_route (sc_ext sc) now (dr_rnd d) (dr_ids d) (rq_auth rq) code)))"
| "mfa_action sc d now rq MfaValidate =
     with_body sc validate_body rq (\<lambda>(mfa_token, code).
       reply (on_site (mfa_validate_route (sc_ext sc) (sc_front sc) now (dr_token d) mfa_token code)))"
| "mfa_action sc d now rq MfaDisable =
     with_body sc code_body rq (\<lambda>code. reply (on_site (mfa_disable_route (sc_ext sc) now (rq_auth rq) code)))"
| "mfa_action sc d now rq MfaRegenerateBackupCodes =
     with_body sc code_body rq (\<lambda>code.
       reply (on_site (mfa_regenerate_route (sc_ext sc) now (dr_rnd d) (dr_ids d) (rq_auth rq) code)))"

fun session_action :: "service \<Rightarrow> draws \<Rightarrow> time \<Rightarrow> request \<Rightarrow> session_endpoint \<Rightarrow> action" where
  "session_action sc d now rq SessionValidate = reply (on_site (session_validate (sc_ext sc) (sc_front sc) now (rq_auth rq)))"
| "session_action sc d now rq SessionMe = reply (on_site (session_me (sc_ext sc) (sc_front sc) now (rq_auth rq)))"
| "session_action sc d now rq SessionTenants = reply (on_site (session_tenants (sc_ext sc) now (rq_auth rq)))"
| "session_action sc d now rq ChangePassword =
     with_body sc change_password_body rq (\<lambda>(current_password, new_password, retype_password).
       reply (on_site (change_password_route (sc_ext sc) now (dr_salt d) (rq_auth rq) current_password new_password retype_password)))"
| "session_action sc d now rq ForceChangePassword =
     with_body sc force_change_password_body rq (\<lambda>(change_token, new_password, retype_password).
       reply (on_site (force_change_password_route (sc_ext sc) (sc_front sc) now (dr_token d) (dr_salt d)
         change_token new_password retype_password)))"
| "session_action sc d now rq Logout = reply (on_site (logout (sc_ext sc) now (rq_auth rq)))"
| "session_action sc d now rq LogoutAll =
     with_tenant rq (\<lambda>tenant_id. reply (on_site (logout_all (sc_ext sc) now tenant_id (rq_auth rq))))"
| "session_action sc d now rq LogoutGlobal = reply (on_site (logout_global (sc_ext sc) now (rq_auth rq)))"
| "session_action sc d now rq SwitchTenant =
     with_body sc switch_tenant_body rq (\<lambda>tenant_id.
       reply (on_site (switch_tenant (sc_ext sc) (sc_front sc) now (dr_token d) (rq_auth rq) tenant_id)))"

fun platform_action :: "service \<Rightarrow> time \<Rightarrow> request \<Rightarrow> platform_endpoint \<Rightarrow> action" where
  "platform_action sc now rq ListTenants =
     reply (on_site (bindE (platform_list_tenants (sc_ext sc) now (sv_builder_tenant_id (sc_server sc))
         (sv_allowed_roles (sc_server sc)) (rq_auth rq)) (\<lambda>ts.
       ret (200, JObj [(''tenants'', JArr (map (\<lambda>t. JObj [(''id'', JStr (tn_id t)), (''name'', JStr (tn_name t)),
         (''status'', JStr (tn_status t)), (''createdAt'', JStr (fr_rfc3339 (sc_front sc) (tn_created_at t)))]) ts))]))))"

subsection \<open>Administration\<close>

fun user_action :: "service \<Rightarrow> draws \<Rightarrow> time \<Rightarrow> request \<Rightarrow> string list \<Rightarrow> user_endpoint \<Rightarrow> action" where
  "user_action sc d now rq vs AdminCreateUser =
     with_tenant rq (\<lambda>tenant_id. with_body sc admin_create_user_body rq
       (\<lambda>(first_name, last_name, email, username, mobile, country_code, password, retype_password).
          reply (on_site (admin_create_user_route (sc_ext sc) (sc_front sc) now (dr_salt d, dr_id d, dr_id2 d)
            tenant_id first_name last_name email username mobile country_code password retype_password))))"
| "user_action sc d now rq vs AdminListUsers =
     with_tenant rq (\<lambda>tenant_id. with_query list_users_query rq (\<lambda>(include_archived, ps).
       reply (on_site (admin_list_users (sc_front sc) (sc_users sc) tenant_id include_archived ps))))"
| "user_action sc d now rq vs AdminListUserRoles =
     with_tenant rq (\<lambda>tenant_id. with_id sc vs (\<lambda>user_id. reply (on_site (admin_list_user_roles tenant_id user_id))))"
| "user_action sc d now rq vs AdminAssignRoleToUser =
     with_tenant rq (\<lambda>tenant_id. with_id sc vs (\<lambda>user_id. with_body sc (assign_role_body (sc_formats sc)) rq (\<lambda>role_id.
       reply (on_site (admin_assign_role_to_user tenant_id user_id role_id)))))"
| "user_action sc d now rq vs AdminRemoveRoleFromUser =
     with_ids sc vs (\<lambda>user_id role_id. reply (on_site (admin_remove_role_from_user user_id role_id)))"
| "user_action sc d now rq vs AdminListUserGroups =
     with_tenant rq (\<lambda>tenant_id. with_id sc vs (\<lambda>user_id. reply (on_site (admin_list_user_groups tenant_id user_id))))"
| "user_action sc d now rq vs AdminArchiveUser =
     with_tenant rq (\<lambda>tenant_id. with_id sc vs (\<lambda>user_id. reply (on_site (admin_archive_user_route now tenant_id user_id))))"
| "user_action sc d now rq vs AdminResetPassword =
     with_tenant rq (\<lambda>tenant_id. with_id sc vs (\<lambda>user_id. with_body sc admin_reset_password_body rq
       (\<lambda>(new_password, retype_password, force).
          reply (on_site (admin_reset_password_route (sc_ext sc) now (dr_salt d) tenant_id user_id new_password retype_password force)))))"
| "user_action sc d now rq vs AdminSetAccessValidity =
     with_tenant rq (\<lambda>tenant_id. with_id sc vs (\<lambda>user_id.
       with_body sc (admin_set_access_validity_body (sc_formats sc)) rq (\<lambda>access_valid_until.
         reply (on_site (admin_set_access_validity now tenant_id user_id access_valid_until)))))"

fun role_action :: "service \<Rightarrow> draws \<Rightarrow> request \<Rightarrow> string list \<Rightarrow> role_endpoint \<Rightarrow> action" where
  "role_action sc d rq vs AdminCreateRole =
     with_tenant rq (\<lambda>tenant_id. with_body sc (admin_create_role_body (sc_formats sc)) rq (\<lambda>(name, parent_role_id).
       reply (on_site (admin_create_role (dr_id d) tenant_id name parent_role_id))))"
| "role_action sc d rq vs AdminListRoles =
     with_tenant rq (\<lambda>tenant_id. with_query list_query_of rq (\<lambda>ps. reply (on_site (admin_list_roles (sc_roles sc) tenant_id ps))))"
| "role_action sc d rq vs AdminDeleteRole =
     with_tenant rq (\<lambda>tenant_id. with_id sc vs (\<lambda>role_id.
       reply (on_app (bindE (admin_delete_role tenant_id role_id) (\<lambda>_. ret (200, message ''Role deleted''))))))"
| "role_action sc d rq vs AdminSetRoleParent =
     with_tenant rq (\<lambda>tenant_id. with_id sc vs (\<lambda>role_id.
       with_body sc (admin_set_role_parent_body (sc_formats sc)) rq (\<lambda>parent_role_id.
         reply (on_site (admin_set_role_parent tenant_id role_id parent_role_id)))))"
| "role_action sc d rq vs AdminGetRoleHierarchy =
     with_tenant rq (\<lambda>tenant_id. with_id sc vs (\<lambda>role_id. reply (on_site (admin_get_role_hierarchy tenant_id role_id))))"
| "role_action sc d rq vs AdminAttachPermissionToRole =
     with_tenant rq (\<lambda>tenant_id. with_id sc vs (\<lambda>role_id.
       with_body sc (attach_permission_body (sc_formats sc)) rq (\<lambda>permission_id.
         reply (on_app (bindE (admin_attach_permission_to_role tenant_id role_id permission_id)
           (\<lambda>_. ret (201, message ''Permission attached to role'')))))))"
| "role_action sc d rq vs AdminListRolePermissions =
     with_tenant rq (\<lambda>tenant_id. with_id sc vs (\<lambda>role_id.
       reply (on_site (admin_list_role_permissions (sc_cedar sc) tenant_id role_id))))"
| "role_action sc d rq vs AdminDetachPermissionFromRole =
     with_ids sc vs (\<lambda>role_id permission_id.
       reply (on_app (bindE (admin_detach_permission_from_role role_id permission_id)
         (\<lambda>_. ret (200, message ''Permission detached from role'')))))"

fun group_action :: "service \<Rightarrow> draws \<Rightarrow> request \<Rightarrow> string list \<Rightarrow> group_endpoint \<Rightarrow> action" where
  "group_action sc d rq vs AdminCreateGroup =
     with_tenant rq (\<lambda>tenant_id. with_body sc create_group_body rq (\<lambda>(name, description).
       reply (on_site (admin_create_group (dr_id d) tenant_id name description))))"
| "group_action sc d rq vs AdminListGroups =
     with_tenant rq (\<lambda>tenant_id. with_query list_query_of rq (\<lambda>ps. reply (on_site (admin_list_groups (sc_groups sc) tenant_id ps))))"
| "group_action sc d rq vs AdminGetGroup =
     with_tenant rq (\<lambda>tenant_id. with_id sc vs (\<lambda>gid. reply (on_site (admin_get_group tenant_id gid))))"
| "group_action sc d rq vs AdminUpdateGroup =
     with_tenant rq (\<lambda>tenant_id. with_id sc vs (\<lambda>gid. with_body sc update_group_body rq (\<lambda>(name, description).
       reply (on_site (admin_update_group tenant_id gid name description)))))"
| "group_action sc d rq vs AdminDeleteGroup =
     with_tenant rq (\<lambda>tenant_id. with_id sc vs (\<lambda>gid. reply (on_site (admin_delete_group tenant_id gid))))"
| "group_action sc d rq vs AdminAddUserToGroup =
     with_tenant rq (\<lambda>tenant_id. with_id sc vs (\<lambda>gid. with_body sc (add_user_to_group_body (sc_formats sc)) rq (\<lambda>user_id.
       reply (on_site (admin_add_user_to_group tenant_id gid user_id)))))"
| "group_action sc d rq vs AdminListGroupMembers =
     with_tenant rq (\<lambda>tenant_id. with_id sc vs (\<lambda>gid. with_query list_users_query rq (\<lambda>(_, ps).
       reply (on_site (admin_list_group_members (sc_front sc) (sc_users sc) tenant_id gid ps)))))"
| "group_action sc d rq vs AdminRemoveUserFromGroup =
     with_ids sc vs (\<lambda>gid user_id. reply (on_site (admin_remove_user_from_group gid user_id)))"
| "group_action sc d rq vs AdminAssignRoleToGroup =
     with_tenant rq (\<lambda>tenant_id. with_id sc vs (\<lambda>gid. with_body sc (assign_role_to_group_body (sc_formats sc)) rq (\<lambda>role_id.
       reply (on_site (admin_assign_role_to_group tenant_id gid role_id)))))"
| "group_action sc d rq vs AdminListGroupRoles =
     with_tenant rq (\<lambda>tenant_id. with_id sc vs (\<lambda>gid. reply (on_site (admin_list_group_roles tenant_id gid))))"
| "group_action sc d rq vs AdminRemoveRoleFromGroup =
     with_ids sc vs (\<lambda>gid role_id. reply (on_site (admin_remove_role_from_group gid role_id)))"

definition permission_value :: "uuid \<Rightarrow> string \<times> string option \<times> permission_document \<Rightarrow> json" where
  "permission_value pid = (\<lambda>(name, desc, doc). JObj [(''id'', uuid_value pid), (''name'', JStr name),
     (''description'', opt_value JStr desc), (''document'', ser_document doc)])"

fun check_value :: "service \<Rightarrow> check_response \<Rightarrow> json" where
  "check_value sc (OneAction resource action allowed) =
     JObj [(''resource'', JStr resource), (''action'', JStr action), (''allowed'', JBool allowed)]"
| "check_value sc (AllActions resource decisions) =
     JObj [(''resource'', JStr resource), (''decisions'', sc_decisions sc decisions)]"

fun permission_action :: "service \<Rightarrow> draws \<Rightarrow> request \<Rightarrow> string list \<Rightarrow> permission_endpoint \<Rightarrow> action" where
  "permission_action sc d rq vs AdminCreatePermission =
     with_tenant rq (\<lambda>tenant_id. with_body sc create_permission_body rq (\<lambda>(name, description, document, overwrite).
       reply (on_app (bindE (admin_create_permission (sc_cedar sc) (dr_id d) tenant_id name description document overwrite)
         (\<lambda>(pid, name). ret (201, JObj [(''id'', uuid_value pid), (''name'', JStr name)]))))))"
| "permission_action sc d rq vs AdminListPermissions =
     with_tenant rq (\<lambda>tenant_id. with_query list_query_of rq (\<lambda>ps.
       reply (on_app (bindE (admin_list_permissions (sc_cedar sc) (sc_permissions sc) tenant_id
           (lq_q ps) (lq_sort ps) (lq_limit ps) (lq_offset ps)) (\<lambda>perms.
         ret (200, JObj [(''permissions'', JArr (map (\<lambda>(pid, view). permission_value pid view) perms))]))))))"
| "permission_action sc d rq vs AdminCheckPermission =
     with_tenant rq (\<lambda>tenant_id. with_body sc (check_permission_body (sc_formats sc)) rq (\<lambda>(user_id, resource, action, context).
       reply (on_app (bindE (admin_check_permission (sc_cedar sc) tenant_id user_id resource action context)
         (\<lambda>r. ret (200, check_value sc r))))))"
| "permission_action sc d rq vs AdminGetPermission =
     with_tenant rq (\<lambda>tenant_id. with_id sc vs (\<lambda>pid.
       reply (on_app (bindE (admin_get_permission (sc_cedar sc) tenant_id pid) (\<lambda>view. ret (200, permission_value pid view))))))"
| "permission_action sc d rq vs AdminDeletePermission =
     with_tenant rq (\<lambda>tenant_id. with_id sc vs (\<lambda>pid.
       reply (on_app (bindE (admin_delete_permission tenant_id pid) (\<lambda>_. ret (200, message ''Permission deleted''))))))"

definition admin_kv_list :: action where
  "admin_kv_list = text_reply ''admin kv list placeholder''"

definition admin_kv_get :: action where
  "admin_kv_get = text_reply ''admin kv get placeholder''"

definition admin_kv_put :: action where
  "admin_kv_put = text_reply ''admin kv put placeholder''"

definition admin_kv_delete :: action where
  "admin_kv_delete = text_reply ''admin kv delete placeholder''"

fun kv_action :: "kv_endpoint \<Rightarrow> action" where
  "kv_action AdminKvList = admin_kv_list"
| "kv_action AdminKvGet = admin_kv_get"
| "kv_action AdminKvPut = admin_kv_put"
| "kv_action AdminKvDelete = admin_kv_delete"

fun package_action :: "service \<Rightarrow> request \<Rightarrow> package_endpoint \<Rightarrow> action" where
  "package_action sc rq SyncPackage =
     with_body sc sync_package_body rq (\<lambda>(package_id, tables, extensible_tables, custom_actions).
       reply (on_app (bindE (sync_package_route (sc_cedar sc) package_id tables extensible_tables custom_actions)
         (\<lambda>j. ret (200, j)))))"
| "package_action sc rq ListActions = reply (on_site (bindE list_actions_route (\<lambda>j. ret (200, j))))"

subsection \<open>The server\<close>

fun endpoint_action :: "service \<Rightarrow> draws \<Rightarrow> time \<Rightarrow> request \<Rightarrow> string list \<Rightarrow> endpoint \<Rightarrow> action" where
  "endpoint_action sc d now rq vs (Meta e) = meta_action sc e"
| "endpoint_action sc d now rq vs (Account e) = account_action sc d now rq e"
| "endpoint_action sc d now rq vs (Login e) = login_action sc d now rq e"
| "endpoint_action sc d now rq vs (Oauth e) = oauth_action sc d now rq vs e"
| "endpoint_action sc d now rq vs (Mfa e) = mfa_action sc d now rq e"
| "endpoint_action sc d now rq vs (Session e) = session_action sc d now rq e"
| "endpoint_action sc d now rq vs (Users e) = user_action sc d now rq vs e"
| "endpoint_action sc d now rq vs (Roles e) = role_action sc d rq vs e"
| "endpoint_action sc d now rq vs (Groups e) = group_action sc d rq vs e"
| "endpoint_action sc d now rq vs (Permissions e) = permission_action sc d rq vs e"
| "endpoint_action sc d now rq vs (KvStore e) = kv_action e"
| "endpoint_action sc d now rq vs (Packages e) = package_action sc rq e"
| "endpoint_action sc d now rq vs (Platform e) = platform_action sc now rq e"

definition serve ::
  "finder \<Rightarrow> service \<Rightarrow> draws \<Rightarrow> time \<Rightarrow> http_method \<Rightarrow> string \<Rightarrow> request \<Rightarrow> action" where
  "serve pick sc d now m path rq = (case dispatch pick router m path of
     NotRouted \<Rightarrow> refuse 404 LibraryBody
   | WrongMethod \<Rightarrow> refuse 405 LibraryBody
   | To e vs \<Rightarrow> endpoint_action sc d now rq vs e)"

end
