(* ===== verification/Http_Sound.thy ===== *)
theory Http_Sound
  imports Http Otp_Sound Oauth_Sound
begin

section \<open>What a request can do\<close>

text \<open>
  Facts about \<open>serve\<close>: which requests are refused before they reach the stores, what a request under
  \<^verbatim>\<open>/admin\<close> leaves alone, and that nothing on the way looks at the \<^verbatim>\<open>Authorization\<close> header of such a
  request.
\<close>

subsection \<open>Refused requests\<close>

text \<open>The handlers that start from the session of the bearer token.\<close>

fun needs_session :: "endpoint \<Rightarrow> bool" where
  "needs_session (Session e) \<longleftrightarrow> e \<noteq> ForceChangePassword \<and> e \<noteq> Logout"
| "needs_session (Mfa e) \<longleftrightarrow> e \<noteq> MfaValidate"
| "needs_session (Account e) \<longleftrightarrow> e = CheckEmailAvailability \<or> e = CheckUsernameAvailability \<or> e = CheckMobileAvailability"
| "needs_session (Platform e) \<longleftrightarrow> True"
| "needs_session _ \<longleftrightarrow> False"

text \<open>The request has no bearer token of a live session.\<close>

definition no_session :: "ext \<Rightarrow> time \<Rightarrow> string option \<Rightarrow> world \<Rightarrow> bool" where
  "no_session x now hdr w \<longleftrightarrow> (case bearer_token hdr of Inl _ \<Rightarrow> True | Inr tok \<Rightarrow> store_get x now tok w = (Inr None, w))"

text \<open>An answer with one of the statuses that changes nothing.\<close>

definition refuses :: "nat set \<Rightarrow> action \<Rightarrow> site \<Rightarrow> bool" where
  "refuses ns act s \<longleftrightarrow> fst (fst (act s)) \<in> ns \<and> snd (act s) = s"

named_theorems refuses_rules "requests refused during extraction or by the first guard"

lemma refuses_refuse [refuses_rules]: "n \<in> ns \<Longrightarrow> refuses ns (refuse n p) s"
  by (simp add: refuses_def refuse_def)

lemma refuses_with_tenant [refuses_rules]:
  "400 \<in> ns \<Longrightarrow> (\<And>t. refuses ns (k t) s) \<Longrightarrow> refuses ns (with_tenant rq k) s"
  by (auto simp: with_tenant_def tenant_from_parts_def Let_def split: option.split intro: refuses_rules)

lemma refuses_with_body [refuses_rules]:
  "400 \<in> ns \<Longrightarrow> 415 \<in> ns \<Longrightarrow> 422 \<in> ns \<Longrightarrow> (\<And>b. refuses ns (k b) s) \<Longrightarrow> refuses ns (with_body sc de rq k) s"
  by (auto simp: with_body_def split: option.split intro: refuses_rules)

lemma refuses_reply: "m (ap_world (si_app s)) = (Inl e, ap_world (si_app s)) \<Longrightarrow> fst (into_response e) \<in> ns \<Longrightarrow>
    refuses ns (reply (on_site m)) s"
  by (cases "into_response e") (simp add: refuses_def reply_def on_site_def on_app_def on_world_def)

lemma bearer_error: "bearer_token hdr = Inl e \<Longrightarrow> fst (into_response e) = 401"
  by (auto simp: bearer_token_def bind_res_def ok_or_def into_response_def split: option.splits)

lemma no_session_refused:
  assumes "no_session x now hdr w"
  shows "\<exists>e. fst (into_response e) = 401 \<and> bindE (lift (bearer_token hdr)) (\<lambda>tok. bindE (live_session x now tok) k) w = (Inl e, w)"
proof (cases "bearer_token hdr")
  case (Inl e)
  then show ?thesis using bearer_error by auto
next
  case (Inr tok)
  then show ?thesis using assms by (auto simp: no_session_def live_session_def get_or_def bindE_run into_response_def)
qed

lemma refuses_sessionless:
  "no_session x now hdr (ap_world (si_app s)) \<Longrightarrow> 401 \<in> ns \<Longrightarrow>
   refuses ns (reply (on_site (bindE (lift (bearer_token hdr)) (\<lambda>tok. bindE (live_session x now tok) k)))) s"
  using no_session_refused [of x now hdr "ap_world (si_app s)" k] by (auto intro: refuses_reply)

lemma bearer_session_first:
  "bindE (bearer_session x now hdr) k = bindE (lift (bearer_token hdr)) (\<lambda>tok. bindE (live_session x now tok) k)"
  by (simp add: bearer_session_def bindE_assoc)

lemmas refuses_session_first = refuses_sessionless [folded bearer_session_first]

lemma session_identity_first:
  "bindE (session_identity x now hdr) k = bindE (bearer_session x now hdr)
     (\<lambda>payload. bindE (get_or (Unauthorized ''Invalid or expired session'') (identities_get_by_id (sp_identity_id payload)))
        (\<lambda>i. k (payload, i)))"
  by (simp add: session_identity_def bindE_assoc)

lemma sessionless_refused:
  assumes "needs_session e" "no_session (sc_ext sc) now (rq_auth rq) (ap_world (si_app s))"
  shows "refuses {400, 401, 415, 422} (endpoint_action sc d now rq vs e) s"
proof -
  note first = refuses_sessionless [OF assms(2)] refuses_session_first [OF assms(2)]
  show ?thesis
  proof (cases e)
    case (Account a)
    then show ?thesis using assms(1)
      by (cases a) (auto simp: check_email_availability_def check_username_availability_def check_mobile_availability_def
          split: prod.split intro!: refuses_rules first)
  next
    case (Mfa a)
    then show ?thesis using assms(1)
      by (cases a) (auto simp: mfa_status_route_def mfa_enable_route_def mfa_verify_route_def mfa_disable_route_def
          mfa_regenerate_route_def session_identity_first intro!: refuses_rules first)
  next
    case (Session a)
    then show ?thesis using assms(1)
      by (cases a) (auto simp: session_validate_def session_me_def session_tenants_def change_password_route_def
          logout_all_def logout_global_def switch_tenant_def split: prod.split intro!: refuses_rules first)
  next
    case (Platform a)
    then show ?thesis
      by (cases a) (auto simp: platform_list_tenants_def bindE_assoc intro!: first)
  qed (use assms(1) in auto)
qed

text \<open>The handlers that take the tenant from the header.\<close>

fun takes_tenant :: "endpoint \<Rightarrow> bool" where
  "takes_tenant (Account e) \<longleftrightarrow> e \<noteq> VerifyMembership \<and> e \<noteq> IdentityTenants"
| "takes_tenant (Login e) \<longleftrightarrow>
     e = LoginEmailPassword \<or> e = LoginUsernamePassword \<or> e = EmailOtpRequest \<or> e = OtpVerify"
| "takes_tenant (Oauth e) \<longleftrightarrow> e = OauthRedirect"
| "takes_tenant (Session e) \<longleftrightarrow> e = LogoutAll"
| "takes_tenant (Users e) \<longleftrightarrow> e \<noteq> AdminRemoveRoleFromUser"
| "takes_tenant (Roles e) \<longleftrightarrow> e \<noteq> AdminDetachPermissionFromRole"
| "takes_tenant (Groups e) \<longleftrightarrow> e \<noteq> AdminRemoveUserFromGroup \<and> e \<noteq> AdminRemoveRoleFromGroup"
| "takes_tenant (Permissions e) \<longleftrightarrow> True"
| "takes_tenant _ \<longleftrightarrow> False"

lemma tenantless_refused:
  assumes "takes_tenant e" "tenant_from_parts (rq_tenant rq) = Inl (n, t)"
  shows "endpoint_action sc d now rq vs e s = ((400, TextBody t), s)"
proof -
  have n: "n = 400"
    using assms(2) by (auto simp: tenant_from_parts_def Let_def split: option.splits if_splits)
  have first: "with_tenant rq k = refuse 400 (TextBody t)" for k
    using assms(2) n by (simp add: with_tenant_def)
  show ?thesis
  proof (cases e)
    case (Account a) then show ?thesis using assms(1) by (cases a) (simp_all add: first refuse_def)
  next
    case (Login a) then show ?thesis using assms(1) by (cases a) (simp_all add: first refuse_def)
  next
    case (Oauth a) then show ?thesis using assms(1) by (cases a) (simp_all add: first refuse_def)
  next
    case (Session a) then show ?thesis using assms(1) by (cases a) (simp_all add: first refuse_def)
  next
    case (Users a) then show ?thesis using assms(1) by (cases a) (simp_all add: first refuse_def)
  next
    case (Roles a) then show ?thesis using assms(1) by (cases a) (simp_all add: first refuse_def)
  next
    case (Groups a) then show ?thesis using assms(1) by (cases a) (simp_all add: first refuse_def)
  next
    case (Permissions a) then show ?thesis using assms(1) by (cases a) (simp_all add: first refuse_def)
  qed (use assms(1) in auto)
qed

subsection \<open>The administration and the authorization header\<close>

fun administrative :: "endpoint \<Rightarrow> bool" where
  "administrative (Users _) \<longleftrightarrow> True"
| "administrative (Roles _) \<longleftrightarrow> True"
| "administrative (Groups _) \<longleftrightarrow> True"
| "administrative (Permissions _) \<longleftrightarrow> True"
| "administrative (KvStore _) \<longleftrightarrow> True"
| "administrative (Packages _) \<longleftrightarrow> True"
| "administrative _ \<longleftrightarrow> False"

text \<open>The routes under \<^verbatim>\<open>/admin\<close> are those of the administration.\<close>

lemma admin_routes: "list_all (\<lambda>(m, p, e). administrative e \<longleftrightarrow> starts_with ''/admin/'' p) router"
  by code_simp

lemma extraction_without_auth [simp]:
  "with_tenant (rq\<lparr>rq_auth := h\<rparr>) k = with_tenant rq k"
  "with_body sc de (rq\<lparr>rq_auth := h\<rparr>) k' = with_body sc de rq k'"
  "with_query de1 (rq\<lparr>rq_auth := h\<rparr>) k'' = with_query de1 rq k''"
  by (simp_all add: with_tenant_def with_body_def with_query_def)

lemma admin_without_auth:
  "administrative e \<Longrightarrow> endpoint_action sc d now (rq\<lparr>rq_auth := h\<rparr>) vs e = endpoint_action sc d now rq vs e"
proof (cases e)
  case (Users a) then show ?thesis by (cases a) simp_all
next
  case (Roles a) then show ?thesis by (cases a) simp_all
next
  case (Groups a) then show ?thesis by (cases a) simp_all
next
  case (Permissions a) then show ?thesis by (cases a) simp_all
next
  case (Packages a) then show ?thesis by (cases a) simp_all
qed auto


lemma first_literal: "list_all (\<lambda>(m, p, e). case pattern_segs p of Lit l # _ \<Rightarrow> l = ''admin'' \<longleftrightarrow> administrative e | _ \<Rightarrow> False) router"
  by code_simp

lemma admin_dispatch:
  assumes "finder_ok pick" "dispatch pick router m (''/admin/'' @ rest) = To e vs"
  shows "administrative e"
proof -
  obtain p where p: "(m, p, e) \<in> set router" "matches p (''/admin/'' @ rest) = Some vs"
    using dispatch_registered [OF assms(1) router_registers router_absolute assms(2)] by blast
  have "path_segs (''/admin/'' @ rest) = ''admin'' # split_on (CHR ''/'') rest"
    using split_on_append_sep [of "CHR ''/''" "''admin''" rest] by (simp add: path_segs_def)
  then have "match_segs (pattern_segs p) (''admin'' # split_on (CHR ''/'') rest) = Some vs"
    using p(2) by (simp add: matches_def starts_with_def)
  moreover have "case pattern_segs p of Lit l # _ \<Rightarrow> l = ''admin'' \<longleftrightarrow> administrative e | _ \<Rightarrow> False"
    using p(1) first_literal unfolding list_all_iff by fast
  ultimately show ?thesis
    by (cases "pattern_segs p"; cases "hd (pattern_segs p)") (simp_all split: if_splits)
qed

text \<open>
  Four handlers take no tenant at all, though the document declares the header as required for three of them: they
  remove a role, a member or a permission whatever tenant the rows belong to.
\<close>

lemma removals_ignore_tenant:
  assumes "e \<in> {Users AdminRemoveRoleFromUser, Groups AdminRemoveUserFromGroup, Groups AdminRemoveRoleFromGroup,
     Roles AdminDetachPermissionFromRole}"
  shows "endpoint_action sc d now (rq\<lparr>rq_tenant := h\<rparr>) vs e = endpoint_action sc d now rq vs e"
  using assms by auto

lemma removal_without_tenant:
  assumes "rq_tenant rq = None" "fm_uuid (sc_formats sc) v = Some u" "fm_uuid (sc_formats sc) w = Some r"
    "(u, r) \<in> set (t_user_roles (ap_world (si_app s)))"
  shows "fst (fst (endpoint_action sc d now rq [v, w] (Users AdminRemoveRoleFromUser) s)) = 200"
    "(u, r) \<notin> set (t_user_roles (ap_world (si_app (snd (endpoint_action sc d now rq [v, w] (Users AdminRemoveRoleFromUser) s)))))"
proof -
  have n: "0 < rows_affected (\<lambda>p. p = (u, r)) (t_user_roles (ap_world (si_app s)))"
    using assms(4) by (auto simp: rows_affected_def filter_empty_conv)
  show "fst (fst (endpoint_action sc d now rq [v, w] (Users AdminRemoveRoleFromUser) s)) = 200"
    "(u, r) \<notin> set (t_user_roles (ap_world (si_app (snd (endpoint_action sc d now rq [v, w] (Users AdminRemoveRoleFromUser) s)))))"
    using n by (simp_all add: with_ids_def assms(2,3) reply_def on_site_def on_app_def on_world_def admin_remove_role_from_user_def
      roles_remove_role_from_user_def bindE_run)
qed

text \<open>The database evaluates a list query without changing anything.\<close>

definition lists_readonly :: "service \<Rightarrow> bool" where
  "lists_readonly sc \<longleftrightarrow> (\<forall>q bs. readonly (sc_users sc q bs) \<and> readonly (sc_roles sc q bs) \<and>
     readonly (sc_groups sc q bs) \<and> readonly (sc_permissions sc q bs))"

subsection \<open>A small service\<close>

text \<open>Ids are written as decimal numbers and two bodies are understood: the service of the concrete examples.\<close>

definition service0 :: service where
  "service0 = \<lparr>sc_server = \<lparr>sv_ext = ext0, sv_front = front0, sv_builder_tenant_id = ''builder'', sv_allowed_roles = [''owner'']\<rparr>,
     sc_cedar = cedar0, sc_oidc = oidc0, sc_endpoints = default_endpoints,
     sc_formats = \<lparr>fm_uuid = parse_unsigned 128, fm_time = (\<lambda>t. map_option int (parse_unsigned 64 t))\<rparr>,
     sc_json = (\<lambda>b. if b = ''{}'' then Some (JObj []) else if b = ''email'' then Some (JObj [(''email'', JStr ''a@acme.org'')]) else None),
     sc_users = (\<lambda>_ _. ret []), sc_roles = (\<lambda>_ _. ret []), sc_groups = (\<lambda>_ _. ret []), sc_permissions = (\<lambda>_ _. ret []),
     sc_decisions = (\<lambda>_. JObj []), sc_document = (\<lambda>_. JNull), sc_version = ''0.1.11''\<rparr>"

lemma service0_readonly: "lists_readonly service0"
  by (simp add: lists_readonly_def service0_def)

definition draws0 :: draws where
  "draws0 = \<lparr>dr_token = ''tok'', dr_salt = ''salt'', dr_id = 1, dr_id2 = 2, dr_code = ''123456'', dr_bytes = ''bytes'',
     dr_nonce = ''nonce'', dr_oauth = (''st'', ''no'', ''ve''), dr_rnd = (\<lambda>i j. i + j), dr_ids = (\<lambda>i. i)\<rparr>"

definition site0 :: site where
  "site0 = \<lparr>si_app = \<lparr>ap_world = world0, ap_policy_cache = (\<lambda>_. None), ap_schema = []\<rparr>, si_jwks = (\<lambda>_. None), si_sent = []\<rparr>"

definition request0 :: request where
  "request0 = \<lparr>rq_query = [], rq_tenant = None, rq_auth = None, rq_is_json = True, rq_body = ''email''\<rparr>"

subsection \<open>Properties of serving\<close>

text \<open>C16. Refused requests change nothing: a request for a session's own data without a bearer token of a live session is
  answered with 401 (or with the rejection of its header or body), and a request without a well-formed
  tenant header to a handler that takes one is answered with 400; the state is afterwards the same.\<close>

theorem refused_requests:
  assumes "dispatch pick router m path = To e vs"
  shows "(needs_session e \<and> no_session (sc_ext sc) now (rq_auth rq) (ap_world (si_app s)) \<longrightarrow>
      refuses {400, 401, 415, 422} (serve pick sc d now m path rq) s) \<and>
    (takes_tenant e \<and> tenant_from_parts (rq_tenant rq) = Inl (n, t) \<longrightarrow>
      serve pick sc d now m path rq s = ((400, TextBody t), s))"
  using sessionless_refused [of e sc now rq s d vs] tenantless_refused [of e rq n t sc d now vs s] assms
  by (auto simp: serve_def)

theorem refused_requests_witness:
  "refuses {400, 401, 415, 422} (serve finder0 service0 draws0 0 POST ''/check-availability/email'' request0) site0 \<and>
   serve finder0 service0 draws0 0 POST ''/check-availability/email'' request0 site0
     = ((400, TextBody ''Missing X-Tenant-ID header''), site0)"
proof -
  have route: "dispatch finder0 router POST ''/check-availability/email'' = To (Account CheckEmailAvailability) []" by code_simp
  have "no_session (sc_ext service0) 0 (rq_auth request0) (ap_world (si_app site0))"
    by (simp add: no_session_def bearer_token_def ok_or_def bind_res_def request0_def)
  moreover have "tenant_from_parts (rq_tenant request0) = Inl (400, ''Missing X-Tenant-ID header'')"
    by (simp add: request0_def tenant_from_parts_def)
  ultimately show ?thesis
    using refused_requests [OF route, of service0 0 request0 site0 draws0 400 "''Missing X-Tenant-ID header''"] by simp
qed

text \<open>The administration asks for no credentials: what a request under \<^verbatim>\<open>/admin/\<close> does and how it is answered does not
  depend on its \<^verbatim>\<open>Authorization\<close> header, so that a request without any session is served like one of an
  administrator.\<close>

theorem admin_ignores_authorization:
  assumes "finder_ok pick"
  shows "serve pick sc d now m (''/admin/'' @ rest) (rq\<lparr>rq_auth := h\<rparr>) = serve pick sc d now m (''/admin/'' @ rest) rq"
  using admin_dispatch [OF assms] admin_without_auth by (auto simp: serve_def split: routed.split)

theorem admin_ignores_authorization_witness:
  "serve finder0 service0 draws0 0 POST ''/admin/users/7/archive'' (request0\<lparr>rq_auth := None\<rparr>) site0 =
   serve finder0 service0 draws0 0 POST ''/admin/users/7/archive'' (request0\<lparr>rq_auth := Some ''Bearer tok''\<rparr>) site0"
  using admin_ignores_authorization [OF finder0_ok, of service0 draws0 0 POST "''users/7/archive''" None request0]
    admin_ignores_authorization [OF finder0_ok, of service0 draws0 0 POST "''users/7/archive''" "Some ''Bearer tok''" request0]
  by simp

end
