(* ===== verification/Http_Tenants.thy ===== *)
theory Http_Tenants
  imports Http_Sound Permissions_Loadable
begin

section \<open>Administration stays in its tenant\<close>

text \<open>
  A request under \<^verbatim>\<open>/admin\<close> leaves what belongs to the other tenants as it is: their users, roles, groups and
  permissions, the identities that have no user in the tenant of the request, and the assignments among those rows. The
  ids of the rows are unique, as the primary keys demand, and a role's parent is in its tenant
  (\<open>Roles_Repo\<close>). Four handlers, which take no tenant, can remove assignments of any tenant.
\<close>

subsection \<open>The rows of other tenants\<close>

type_synonym rows = "membership list \<times> role list \<times> group list \<times> permission list"

definition rows_elsewhere :: "string \<Rightarrow> world \<Rightarrow> rows" where
  "rows_elsewhere t w =
     (filter (\<lambda>m. m_tenant_id m \<noteq> t) (t_users w),
      filter (\<lambda>r. r_tenant_id r \<noteq> t) (t_roles w),
      filter (\<lambda>g. g_tenant_id g \<noteq> t) (t_groups w),
      filter (\<lambda>p. p_tenant_id p \<noteq> t) (t_permissions w))"

text \<open>
  The assignments among them: roles of users, members of groups, roles of groups and permissions of roles.
\<close>

type_synonym links = "(uuid \<times> uuid) list \<times> (uuid \<times> uuid) list \<times> (uuid \<times> uuid) list \<times> (uuid \<times> uuid) list"

definition links_elsewhere :: "string \<Rightarrow> world \<Rightarrow> links" where
  "links_elsewhere t w = (case rows_elsewhere t w of (ms, rs, gs, ps) \<Rightarrow>
     (filter (\<lambda>(u, r). r \<in> r_id ` set rs) (t_user_roles w),
      filter (\<lambda>(u, g). g \<in> g_id ` set gs) (t_user_groups w),
      filter (\<lambda>(g, r). g \<in> g_id ` set gs \<and> r \<in> r_id ` set rs) (t_group_roles w),
      filter (\<lambda>(r, p). r \<in> r_id ` set rs \<and> p \<in> p_id ` set ps) (t_role_permissions w)))"

text \<open>An identity no user of the tenant stands for.\<close>

definition foreign_identity :: "string \<Rightarrow> world \<Rightarrow> identity \<Rightarrow> bool" where
  "foreign_identity t w i \<longleftrightarrow> i \<in> set (t_identities w) \<and> (\<forall>m \<in> set (t_users w). m_tenant_id m = t \<longrightarrow> m_identity_id m \<noteq> i_id i)"

text \<open>What most operations leave alone, what a removal does, and what the operations on identities do.\<close>

definition all_elsewhere :: "string \<Rightarrow> world \<Rightarrow> rows \<times> links \<times> identity list" where
  "all_elsewhere t w = (rows_elsewhere t w, links_elsewhere t w, t_identities w)"

definition but_links :: "string \<Rightarrow> world \<Rightarrow> rows \<times> identity list" where
  "but_links t w = (rows_elsewhere t w, t_identities w)"

definition but_identities :: "string \<Rightarrow> world \<Rightarrow> rows \<times> links" where
  "but_identities t w = (rows_elsewhere t w, links_elsewhere t w)"

lemmas elsewhere_defs = all_elsewhere_def but_links_def but_identities_def links_elsewhere_def

lemma filter_update_rows:
  "(\<And>r. P r \<Longrightarrow> \<not> Q r) \<Longrightarrow> (\<And>r. P r \<Longrightarrow> \<not> Q (f r)) \<Longrightarrow> filter Q (update_rows P f rows) = filter Q rows"
  by (induction rows) (auto simp: update_rows_def)

lemma filter_filter_id: "(\<And>r. Q r \<Longrightarrow> P r) \<Longrightarrow> filter Q (filter P rows) = filter Q rows"
  by (induction rows) auto

lemma leaves_change: "(\<And>s. f (upd (update_rows P g) s) = f s) \<Longrightarrow> leaves f (sql_update upd P g)"
  by (rule leavesI) auto

lemma leaves_append: "(\<And>s. f (upd (\<lambda>rows. rows @ [row]) s) = f s) \<Longrightarrow> leaves f (sql_insert upd viol row)"
  by (rule leavesI) (auto split: option.splits)

lemma leaves_remove: "(\<And>s. f (upd (filter (\<lambda>r. \<not> P r)) s) = f s) \<Longrightarrow> leaves f (sql_delete upd P)"
  by (rule leavesI) auto

text \<open>Tables that \<open>rows_elsewhere\<close> does not read.\<close>

lemma rows_elsewhere_other [simp]:
  "rows_elsewhere t (t_identities_update h w) = rows_elsewhere t w"
  "rows_elsewhere t (t_user_roles_update h' w) = rows_elsewhere t w"
  "rows_elsewhere t (t_user_groups_update h'' w) = rows_elsewhere t w"
  "rows_elsewhere t (t_group_roles_update h''' w) = rows_elsewhere t w"
  "rows_elsewhere t (t_role_permissions_update h1 w) = rows_elsewhere t w"
  "rows_elsewhere t (t_packages_update h2 w) = rows_elsewhere t w"
  "rows_elsewhere t (t_package_actions_update h3 w) = rows_elsewhere t w"
  "rows_elsewhere t (cfg_cache_update h4 w) = rows_elsewhere t w"
  by (simp_all add: rows_elsewhere_def)

lemma db_but_identities: "leaves db m \<Longrightarrow> leaves (but_identities t) m"
proof (rule leavesI)
  fix s r s' assume "leaves db m" "m s = (r, s')"
  then have "db s' = db s" by (rule leavesD)
  then show "but_identities t s' = but_identities t s" by (simp add: elsewhere_defs rows_elsewhere_def same_db [of s' s])
qed

subsection \<open>Users\<close>

lemma tenant_rows_elsewhere:
  assumes "\<And>m. P m \<Longrightarrow> m_tenant_id m = t" "\<And>m. P m \<Longrightarrow> m_tenant_id (f m) = t"
  shows "rows_elsewhere t (t_users_update (update_rows P f) w) = rows_elsewhere t w"
    using assms by (simp add: rows_elsewhere_def filter_update_rows)

lemma all_from_rows:
  "rows_elsewhere t (t_users_update h w) = rows_elsewhere t w \<Longrightarrow> all_elsewhere t (t_users_update h w) = all_elsewhere t w"
  by (simp add: elsewhere_defs)

lemma keeps_readonly: "readonly m \<Longrightarrow> keeps P m"
  by (rule keepsI) (auto dest: readonlyD)

lemma user_rows_kept [leaves_rules]:
  "leaves (but_identities t) (users_create now uid i t n)"
  "leaves (all_elsewhere t) (users_set_access_valid_until now t user_id v)"
  "leaves (all_elsewhere t) (users_archive now t user_id)"
proof -
  show "leaves (but_identities t) (users_create now uid i t n)"
    unfolding users_create_def Let_def
    by (intro leaves_rules leaves_append) (simp add: elsewhere_defs rows_elsewhere_def new_membership_def)
  show "leaves (all_elsewhere t) (users_set_access_valid_until now t user_id v)"
    unfolding users_set_access_valid_until_def by (intro leaves_change all_from_rows tenant_rows_elsewhere) auto
  show "leaves (all_elsewhere t) (users_archive now t user_id)"
    unfolding users_archive_def Let_def by (intro leaves_rules leaves_change all_from_rows tenant_rows_elsewhere) auto
qed

lemma identity_rows_kept [leaves_rules]:
  "leaves (but_identities t) (identities_create now iid e m c f l h)"
  "leaves (but_identities t) (identities_update_password now iid h')"
  "leaves (but_identities t) (identities_set_force_password_change now iid b)"
  unfolding identities_create_def identities_update_password_def identities_set_force_password_change_def Let_def
  by (intro leaves_rules leaves_change leaves_append; simp add: elsewhere_defs)+

lemma admin_user_rows_kept [leaves_rules]:
  "leaves (but_identities t) (admin_create_user x now salt iid uid t fn ln e un m c p r)"
  "leaves (but_identities t) (admin_reset_password x now salt t user_id p' r' force)"
  "leaves (all_elsewhere t) (admin_set_access_valid_until now t user_id v)"
  "leaves (all_elsewhere t) (admin_archive_user now t user_id)"
proof -
  have checks: "leaves (but_identities t) (new_password_checks x now t' p r)" for t' p r
    by (rule db_but_identities) (rule new_password_checks_leaves)
  have hashed: "leaves (but_identities t) (admin_password_hash x now salt t' p r)" for t' p r
    unfolding admin_password_hash_def by (cases p; cases r) (auto intro!: leaves_rules checks)
  have identity: "leaves (but_identities t) (resolve_or_create_identity now iid e m c f l h)" for e m c f l h
    unfolding resolve_or_create_identity_def by (intro leaves_rules)
  show "leaves (but_identities t) (admin_create_user x now salt iid uid t fn ln e un m c p r)"
    unfolding admin_create_user_def Let_def by (intro leaves_rules hashed identity)
  show "leaves (but_identities t) (admin_reset_password x now salt t user_id p' r' force)"
    unfolding admin_reset_password_def by (intro leaves_rules checks)
  show "leaves (all_elsewhere t) (admin_set_access_valid_until now t user_id v)"
    unfolding admin_set_access_valid_until_def by (intro leaves_rules)
  show "leaves (all_elsewhere t) (admin_archive_user now t user_id)"
    unfolding admin_archive_user_def by (intro leaves_rules)
qed

text \<open>The two operations that write identities leave the foreign ones.\<close>

lemma identity_kept [keeps_rules]:
  "keeps (\<lambda>w. i \<in> set (t_identities w)) (identities_create now iid e m c f l h)"
  "keeps (\<lambda>w. i \<in> set (t_identities w)) (users_create now uid j t n)"
  "keeps (\<lambda>w. i \<in> set (t_identities w)) (new_password_checks x now t p r)"
proof -
  show "keeps (\<lambda>w. i \<in> set (t_identities w)) (identities_create now iid e m c f l h)"
    unfolding identities_create_def Let_def
    by (intro keeps_bindE keeps_pure) (auto intro!: keepsI simp: sql_insert_run split: option.splits)
  show "keeps (\<lambda>w. i \<in> set (t_identities w)) (users_create now uid j t n)"
    unfolding users_create_def Let_def
    by (intro keeps_bindE keeps_pure) (auto intro!: keepsI simp: sql_insert_run split: option.splits)
  show "keeps (\<lambda>w. i \<in> set (t_identities w)) (new_password_checks x now t p r)"
    by (rule keepsI) (use leavesD [OF new_password_checks_leaves] same_db(2) in metis)
qed

lemma keeps_identity: "leaves t_identities m \<Longrightarrow> keeps (\<lambda>w. i \<in> set (t_identities w)) m"
  by (rule leaves_keeps)

lemma lookups_keep_identity [keeps_rules]:
  "keeps (\<lambda>w. i \<in> set (t_identities w)) (identities_get_by_email e)"
  "keeps (\<lambda>w. i \<in> set (t_identities w)) (identities_get_by_mobile c m)"
  "keeps (\<lambda>w. i \<in> set (t_identities w)) (users_get_memberships_for_identity iid)"
  "keeps (\<lambda>w. i \<in> set (t_identities w)) (users_get_by_email t e)"
  "keeps (\<lambda>w. i \<in> set (t_identities w)) (users_get_by_username t e)"
  by (intro keeps_identity leaves_rules)+

lemma created_user_identity: "keeps (\<lambda>w. i \<in> set (t_identities w)) (admin_create_user x now salt iid uid t fn ln e un m c p r)"
proof -
  have hashed: "keeps (\<lambda>w. i \<in> set (t_identities w)) (admin_password_hash x now salt t' p r)" for t' p r
    unfolding admin_password_hash_def by (cases p; cases r) (auto intro!: keeps_rules)
  have identity: "keeps (\<lambda>w. i \<in> set (t_identities w)) (resolve_or_create_identity now iid e m c f l h)" for e m c f l h
    unfolding resolve_or_create_identity_def by (intro keeps_rules)
  show ?thesis
    unfolding admin_create_user_def Let_def by (intro keeps_rules hashed identity)
qed

lemma reset_user_identity:
  assumes "foreign_identity t w i" "admin_reset_password x now salt t user_id p r force w = (q, w')"
  shows "i \<in> set (t_identities w')"
proof -
  have upd: "keeps (\<lambda>w. i \<in> set (t_identities w)) (identities_update_password now j h)"
    "keeps (\<lambda>w. i \<in> set (t_identities w)) (identities_set_force_password_change now j b)" if "j \<noteq> i_id i" for j h b
    using that unfolding identities_update_password_def identities_set_force_password_change_def
    by (auto intro!: keepsI simp: set_update_rows)
  obtain r1 w1 where c: "new_password_checks x now t p r w = (r1, w1)" by fastforce
  then have db: "db w1 = db w" by (rule leavesD [OF new_password_checks_leaves])
  have i: "i \<in> set (t_identities w1)" using assms(1) same_db(2) [OF db] by (simp add: foreign_identity_def)
  show ?thesis
  proof (cases "fst (new_password_checks x now t p r w) = Inr () \<and> (\<exists>u. users_get_by_id t user_id w1 = (Inr (Some u), w1))")
    case False
    obtain v where "users_get_by_id t user_id w1 = (Inr v, w1)"
      by (auto simp: users_get_by_id_def fetch_user_def)
    then have "users_get_by_id t user_id w1 = (Inr None, w1) \<or> (\<exists>u. users_get_by_id t user_id w1 = (Inr (Some u), w1))"
      by (cases v) auto
    then have "w' = w1" using False assms(2) c by (cases r1) (auto simp: admin_reset_password_def bindE_run get_or_def)
    then show ?thesis using i by simp
  next
    case True
    then obtain u where u: "users_get_by_id t user_id w1 = (Inr (Some u), w1)" "r1 = Inr ()" using c by auto
    then obtain m j where "m \<in> set (t_users w1)" "m_tenant_id m = t" "u = row_to_user m j"
      unfolding users_get_by_id_def using fetch_user_Some(2) by blast
    then have ne: "u_identity_id u \<noteq> i_id i"
      using assms(1) same_db(1) [OF db] by (auto simp: foreign_identity_def row_to_user_def)
    have "keeps (\<lambda>w. i \<in> set (t_identities w)) (bindE (users_get_memberships_for_identity (u_identity_id u)) (\<lambda>ms.
        if 1 < length ms then
          bindE (unless force (Forbidden multi_tenant_message)) (\<lambda>_.
            identities_set_force_password_change now (u_identity_id u) True)
        else
          bindE (lift (hash_password x salt p)) (\<lambda>password_hash.
          bindE (identities_update_password now (u_identity_id u) password_hash) (\<lambda>_.
            identities_set_force_password_change now (u_identity_id u) force))))"
      by (intro keeps_rules upd [OF ne])
    note kept = keepsD [where P = "\<lambda>w. i \<in> set (t_identities w)", OF this i]
    have found: "get_or (NotFound ''User not found'') (users_get_by_id t user_id) w1 = (Inr u, w1)"
      by (simp add: get_or_def bindE_run u)
    show ?thesis
      by (rule kept) (use assms(2) in \<open>simp only: admin_reset_password_def bindE_step(1) [where m = "new_password_checks x now t p r" and s = w, OF c [unfolded u(2)]] bindE_step(1) [where m = "get_or (NotFound ''User not found'') (users_get_by_id t user_id)" and s = w1, OF found]\<close>)
  qed
qed

subsection \<open>Roles and groups\<close>

lemma role_rows_kept [leaves_rules]:
  "leaves (all_elsewhere t) (roles_create fresh t name parent)"
  "leaves (all_elsewhere t) (roles_set_parent t rid parent)"
  "leaves (but_links t) (roles_remove_role_from_user user_id rid)"
proof -
  have parent: "leaves f (roles_validate_parent t p c)" for f :: "world \<Rightarrow> 'b" and p c
    unfolding roles_validate_parent_def by (intro leaves_rules)
  show "leaves (all_elsewhere t) (roles_create fresh t name parent)"
    unfolding roles_create_def roles_get_role_id_by_uid_def Let_def
    by (intro leaves_rules leaves_append parent) (simp add: elsewhere_defs rows_elsewhere_def)
  have "filter (\<lambda>r. r_tenant_id r \<noteq> t) (update_rows (in_tenant t rid) (\<lambda>r. r\<lparr>r_parent_role_id := parent\<rparr>) rows)
      = filter (\<lambda>r. r_tenant_id r \<noteq> t) rows" for rows
    by (rule filter_update_rows) (auto simp: in_tenant_def)
  then have "rows_elsewhere t (t_roles_update (update_rows (in_tenant t rid) (\<lambda>r. r\<lparr>r_parent_role_id := parent\<rparr>)) w) = rows_elsewhere t w" for w
    by (simp add: rows_elsewhere_def)
  then show "leaves (all_elsewhere t) (roles_set_parent t rid parent)"
    unfolding roles_set_parent_def by (intro leaves_rules leaves_change parent) (simp add: elsewhere_defs)
  show "leaves (but_links t) (roles_remove_role_from_user user_id rid)"
    unfolding roles_remove_role_from_user_def by (intro leaves_rules leaves_remove) (simp add: elsewhere_defs)
qed

lemma group_rows_kept [leaves_rules]:
  "leaves (all_elsewhere t) (groups_create fresh t name descr)"
  "leaves (all_elsewhere t) (groups_update t gid n d)"
  "leaves (but_links t) (groups_remove_user gid user_id)"
  "leaves (but_links t) (groups_remove_role gid rid)"
proof -
  show "leaves (all_elsewhere t) (groups_create fresh t name descr)"
    unfolding groups_create_def Let_def by (intro leaves_rules leaves_append) (simp add: elsewhere_defs rows_elsewhere_def)
  have "filter (\<lambda>g. g_tenant_id g \<noteq> t) (update_rows (group_in t gid) (\<lambda>g. g\<lparr>g_name := a g, g_description := b g\<rparr>) rows)
      = filter (\<lambda>g. g_tenant_id g \<noteq> t) rows" for rows a b
    by (rule filter_update_rows) (auto simp: group_in_def)
  then have "rows_elsewhere t (t_groups_update (update_rows (group_in t gid) (\<lambda>g. g\<lparr>g_name := a g, g_description := b g\<rparr>)) w) = rows_elsewhere t w" for w a b
    by (simp add: rows_elsewhere_def)
  then show "leaves (all_elsewhere t) (groups_update t gid n d)"
    unfolding groups_update_def Let_def by (intro leaves_rules leaves_change) (simp add: elsewhere_defs)
  show "leaves (but_links t) (groups_remove_user gid user_id)" "leaves (but_links t) (groups_remove_role gid rid)"
    unfolding groups_remove_user_def groups_remove_role_def by (intro leaves_rules leaves_remove; simp add: elsewhere_defs)+
qed

subsection \<open>Permissions\<close>

lemma permission_rows_kept [leaves_rules]:
  "leaves (all_elsewhere t) (permissions_create fresh t name descr doc)"
  "leaves (all_elsewhere t) (permissions_upsert fresh t name descr doc)"
  "leaves (but_links t) (permissions_detach_from_role rid pid)"
proof -
  show c: "leaves (all_elsewhere t) (permissions_create fresh t name descr doc)"
    unfolding permissions_create_def Let_def
    by (intro leaves_rules leaves_append) (simp add: elsewhere_defs rows_elsewhere_def permission_row_def)
  have "filter (\<lambda>p. p_tenant_id p \<noteq> t) (update_rows (\<lambda>p. p_tenant_id p = t \<and> p_name p = name)
      (\<lambda>p. p\<lparr>p_description := a, p_document := b\<rparr>) rows) = filter (\<lambda>p. p_tenant_id p \<noteq> t) rows" for rows a b
    by (rule filter_update_rows) auto
  then have "rows_elsewhere t (t_permissions_update (update_rows (\<lambda>p. p_tenant_id p = t \<and> p_name p = name) (\<lambda>p. p\<lparr>p_description := a, p_document := b\<rparr>)) w) = rows_elsewhere t w" for w a b
    by (simp add: rows_elsewhere_def)
  then show "leaves (all_elsewhere t) (permissions_upsert fresh t name descr doc)"
    unfolding permissions_upsert_def Let_def by (intro leaves_rules leaves_change c) (simp add: elsewhere_defs)
  show "leaves (but_links t) (permissions_detach_from_role rid pid)"
    unfolding permissions_detach_from_role_def by (intro leaves_rules leaves_remove) (simp add: elsewhere_defs)
qed

subsection \<open>Assignments and deletions\<close>

text \<open>With unique ids a row of the tenant is no row of another tenant.\<close>

definition unique_ids :: "world \<Rightarrow> bool" where
  "unique_ids w \<longleftrightarrow> distinct (map r_id (t_roles w)) \<and> distinct (map g_id (t_groups w)) \<and> distinct (map p_id (t_permissions w))"

lemma unique_row:
  "distinct (map f rows) \<Longrightarrow> x \<in> set rows \<Longrightarrow> y \<in> set rows \<Longrightarrow> f x = f y \<Longrightarrow> x = y"
  by (auto simp: distinct_map dest: inj_onD)

lemma own_id:
  assumes "distinct (map f rows)" "x \<in> set rows" "tn x = t" "f x = i"
  shows "i \<notin> f ` set (filter (\<lambda>r. tn r \<noteq> t) rows)"
  using unique_row [OF assms(1,2)] assms(3,4) by auto

lemma filter_other_id:
  assumes "distinct (map f rows)" "x \<in> set rows" "tn x = t" "f x = i"
  shows "filter (\<lambda>r. tn r \<noteq> t) (filter (\<lambda>r. f r \<noteq> i) rows) = filter (\<lambda>r. tn r \<noteq> t) rows"
proof -
  have "filter (\<lambda>r. tn r \<noteq> t \<and> f r \<noteq> i) rows = filter (\<lambda>r. tn r \<noteq> t) rows"
  proof (rule filter_cong)
    fix r assume "r \<in> set rows"
    then show "(tn r \<noteq> t \<and> f r \<noteq> i) = (tn r \<noteq> t)" using unique_row [OF assms(1,2)] assms(3,4) by metis
  qed simp
  then show ?thesis by (simp add: conj_commute)
qed

lemma own_rows:
  assumes "unique_ids w"
  shows "list_ex (in_tenant t i) (t_roles w) \<Longrightarrow> i \<notin> r_id ` set (filter (\<lambda>r. r_tenant_id r \<noteq> t) (t_roles w))"
    "list_ex (group_in t i) (t_groups w) \<Longrightarrow> i \<notin> g_id ` set (filter (\<lambda>g. g_tenant_id g \<noteq> t) (t_groups w))"
    "list_ex (permission_in t i) (t_permissions w) \<Longrightarrow> i \<notin> p_id ` set (filter (\<lambda>p. p_tenant_id p \<noteq> t) (t_permissions w))"
  using assms own_id [of r_id "t_roles w" _ r_tenant_id t i] own_id [of g_id "t_groups w" _ g_tenant_id t i]
    own_id [of p_id "t_permissions w" _ p_tenant_id t i]
  unfolding unique_ids_def list_ex_iff in_tenant_def group_in_def permission_in_def by blast+

lemma insert_pair_kept:
  "(cond w \<Longrightarrow> f (upd (\<lambda>rows. rows @ [p]) w) = f w) \<Longrightarrow> f (snd (insert_pair tab upd cond p w)) = f w"
  by (simp add: insert_pair_def bindE_run)

lemma links_kept:
  "rows_elsewhere t w' = rows_elsewhere t w \<Longrightarrow> t_identities w' = t_identities w \<Longrightarrow>
   links_elsewhere t w' = links_elsewhere t w \<Longrightarrow> all_elsewhere t w' = all_elsewhere t w"
  by (simp add: all_elsewhere_def)

lemma assigned_kept:
  assumes "unique_ids w"
  shows "all_elsewhere t (snd (roles_assign_role_to_user t user_id rid w)) = all_elsewhere t w"
    "all_elsewhere t (snd (groups_add_user t gid user_id w)) = all_elsewhere t w"
    "all_elsewhere t (snd (groups_assign_role t gid rid w)) = all_elsewhere t w"
    "all_elsewhere t (snd (permissions_attach_to_role t rid pid w)) = all_elsewhere t w"
proof -
  note own = own_rows [OF assms]
  show "all_elsewhere t (snd (roles_assign_role_to_user t user_id rid w)) = all_elsewhere t w"
    using own(1) [of t rid]
    by (auto simp: roles_assign_role_to_user_def bindE_run sql_insert_run elsewhere_defs rows_elsewhere_def split: option.split)
  have "all_elsewhere t (snd (insert_pair t_user_groups t_user_groups_update
         (\<lambda>w. list_ex (\<lambda>u. m_id u = user_id \<and> m_tenant_id u = t) (t_users w)
            \<and> list_ex (group_in t gid) (t_groups w)) (user_id, gid) w)) = all_elsewhere t w"
    by (rule insert_pair_kept) (use own(2) [of t gid] in \<open>auto simp: elsewhere_defs rows_elsewhere_def\<close>)
  then show "all_elsewhere t (snd (groups_add_user t gid user_id w)) = all_elsewhere t w"
    by (auto simp: groups_add_user_def bindE_run unless_def split: prod.split sum.split)
  have "all_elsewhere t (snd (insert_pair t_group_roles t_group_roles_update
         (\<lambda>w. list_ex (group_in t gid) (t_groups w)
            \<and> list_ex (in_tenant t rid) (t_roles w)) (gid, rid) w)) = all_elsewhere t w"
    by (rule insert_pair_kept) (use own(1) [of t rid] in \<open>auto simp: elsewhere_defs rows_elsewhere_def\<close>)
  then show "all_elsewhere t (snd (groups_assign_role t gid rid w)) = all_elsewhere t w"
    by (auto simp: groups_assign_role_def bindE_run unless_def split: prod.split sum.split)
  have "all_elsewhere t (snd (insert_pair t_role_permissions t_role_permissions_update (\<lambda>_. True) (rid, pid) w)) = all_elsewhere t w"
    if "list_ex (in_tenant t rid) (t_roles w)"
    by (rule insert_pair_kept) (use own(1) [OF that] in \<open>auto simp: elsewhere_defs rows_elsewhere_def\<close>)
  then show "all_elsewhere t (snd (permissions_attach_to_role t rid pid w)) = all_elsewhere t w"
    by (auto simp: permissions_attach_to_role_def bindE_run unless_def split: prod.split sum.split)
qed

lemma deleted_kept:
  assumes "unique_ids w" "parents_in_tenant (t_roles w)"
  shows "all_elsewhere t (snd (roles_delete t i w)) = all_elsewhere t w"
    "all_elsewhere t (snd (groups_delete t i w)) = all_elsewhere t w"
    "all_elsewhere t (snd (permissions_delete t i w)) = all_elsewhere t w"
proof -
  note own = own_rows [OF assms(1)] and ids = assms(1) [unfolded unique_ids_def]
  have gone: "all_elsewhere t (cascade_role i w) = all_elsewhere t w" if ex: "list_ex (in_tenant t i) (t_roles w)"
  proof -
    obtain x where x: "x \<in> set (t_roles w)" "r_tenant_id x = t" "r_id x = i"
      using ex by (auto simp: list_ex_iff in_tenant_def)
    have orphan: "r_parent_role_id r \<noteq> Some i" if r: "r \<in> set (t_roles w)" "r_tenant_id r \<noteq> t" for r
    proof
      assume "r_parent_role_id r = Some i"
      then obtain q where "q \<in> set (t_roles w)" "r_id q = i" "r_tenant_id q = r_tenant_id r"
        using assms(2) r(1) unfolding parents_in_tenant_def by blast
      then show False using unique_row [of r_id "t_roles w" x q] ids x r(2) by auto
    qed
    have "filter (\<lambda>r. r_tenant_id r \<noteq> t) (update_rows (\<lambda>r. r_parent_role_id r = Some i) (\<lambda>r. r\<lparr>r_parent_role_id := None\<rparr>) rows)
        = filter (\<lambda>r. r_tenant_id r \<noteq> t) rows" if "set rows \<subseteq> set (t_roles w)" for rows
      using that orphan by (induction rows) (auto simp: update_rows_def)
    then have "rows_elsewhere t (cascade_role i w) = rows_elsewhere t w"
      using filter_other_id [of r_id "t_roles w" x r_tenant_id t i] ids x by (auto simp: rows_elsewhere_def cascade_role_def)
    moreover from this have "links_elsewhere t (cascade_role i w) = links_elsewhere t w"
      using own(1) [OF ex] unfolding links_elsewhere_def
      by (auto simp: rows_elsewhere_def cascade_role_def intro!: filter_cong)
    ultimately show ?thesis by (intro links_kept) (simp_all add: cascade_role_def)
  qed
  then show "all_elsewhere t (snd (roles_delete t i w)) = all_elsewhere t w"
    by (simp add: roles_delete_def bindE_run)
  have "all_elsewhere t (cascade_group i w) = all_elsewhere t w" if ex: "list_ex (group_in t i) (t_groups w)"
  proof -
    obtain x where x: "x \<in> set (t_groups w)" "g_tenant_id x = t" "g_id x = i"
      using ex by (auto simp: list_ex_iff group_in_def)
    have "rows_elsewhere t (cascade_group i w) = rows_elsewhere t w"
      using filter_other_id [of g_id "t_groups w" x g_tenant_id t i] ids x by (auto simp: rows_elsewhere_def cascade_group_def)
    moreover from this have "links_elsewhere t (cascade_group i w) = links_elsewhere t w"
      using own(2) [OF ex] unfolding links_elsewhere_def
      by (auto simp: rows_elsewhere_def cascade_group_def intro!: filter_cong)
    ultimately show ?thesis by (intro links_kept) (simp_all add: cascade_group_def)
  qed
  then show "all_elsewhere t (snd (groups_delete t i w)) = all_elsewhere t w"
    by (simp add: groups_delete_def bindE_run)
  have "all_elsewhere t (cascade_permission i w) = all_elsewhere t w" if ex: "list_ex (permission_in t i) (t_permissions w)"
  proof -
    obtain x where x: "x \<in> set (t_permissions w)" "p_tenant_id x = t" "p_id x = i"
      using ex by (auto simp: list_ex_iff permission_in_def)
    have "rows_elsewhere t (cascade_permission i w) = rows_elsewhere t w"
      using filter_other_id [of p_id "t_permissions w" x p_tenant_id t i] ids x by (auto simp: rows_elsewhere_def cascade_permission_def)
    moreover from this have "links_elsewhere t (cascade_permission i w) = links_elsewhere t w"
      using own(3) [OF ex] unfolding links_elsewhere_def
      by (auto simp: rows_elsewhere_def cascade_permission_def intro!: filter_cong)
    ultimately show ?thesis by (intro links_kept) (simp_all add: cascade_permission_def)
  qed
  then show "all_elsewhere t (snd (permissions_delete t i w)) = all_elsewhere t w"
    by (simp add: permissions_delete_def bindE_run)
qed

subsection \<open>Requests\<close>

text \<open>The four handlers that take no tenant.\<close>

fun unscoped :: "endpoint \<Rightarrow> bool" where
  "unscoped (Users AdminRemoveRoleFromUser) \<longleftrightarrow> True"
| "unscoped (Groups AdminRemoveUserFromGroup) \<longleftrightarrow> True"
| "unscoped (Groups AdminRemoveRoleFromGroup) \<longleftrightarrow> True"
| "unscoped (Roles AdminDetachPermissionFromRole) \<longleftrightarrow> True"
| "unscoped _ \<longleftrightarrow> False"

text \<open>The two that write identities.\<close>

fun writes_identities :: "endpoint \<Rightarrow> bool" where
  "writes_identities (Users AdminCreateUser) \<longleftrightarrow> True"
| "writes_identities (Users AdminResetPassword) \<longleftrightarrow> True"
| "writes_identities _ \<longleftrightarrow> False"

definition spares :: "(world \<Rightarrow> 'v) \<Rightarrow> action \<Rightarrow> site \<Rightarrow> bool" where
  "spares f act s \<longleftrightarrow> f (ap_world (si_app (snd (act s)))) = f (ap_world (si_app s))"

named_theorems spares_rules "requests that leave a part of the tables alone"

lemma spares_refuse [spares_rules]: "spares f (refuse n p) s" "spares f (text_reply txt) s"
  by (simp_all add: spares_def refuse_def text_reply_def)

lemma spares_with_tenant [spares_rules]:
  "(tenant_from_parts (rq_tenant rq) = Inr t \<Longrightarrow> spares f (k t) s) \<Longrightarrow>
   tenant_from_parts (rq_tenant rq) = Inr t \<Longrightarrow> spares f (with_tenant rq k) s"
  by (simp add: with_tenant_def)

lemma spares_with_body [spares_rules]: "(\<And>b. spares f (k b) s) \<Longrightarrow> spares f (with_body sc de rq k) s"
  by (auto simp: with_body_def split: option.split intro: spares_rules)

lemma spares_with_query [spares_rules]: "(\<And>b. spares f (k b) s) \<Longrightarrow> spares f (with_query de rq k) s"
  by (auto simp: with_query_def split: option.split intro: spares_rules)

lemma spares_with_id [spares_rules]:
  "(\<And>i. spares f (k i) s) \<Longrightarrow> spares f (with_id sc vs k) s"
  "(\<And>i j. spares f (k' i j) s) \<Longrightarrow> spares f (with_ids sc vs k') s"
  by (auto simp: with_id_def with_ids_def split: option.split list.split intro: spares_rules)

lemma reply_state: "snd (reply m s) = snd (m s)"
  by (simp add: reply_def split: prod.split sum.split)

lemma spares_app:
  "f (ap_world (snd (m (si_app s)))) = f (ap_world (si_app s)) \<Longrightarrow> spares f (reply (on_app m)) s"
  by (cases "m (si_app s)") (simp add: spares_def reply_state on_app_def)

lemma spares_on_app: "leaves (\<lambda>a. f (ap_world a)) m \<Longrightarrow> spares f (reply (on_app m)) s"
  by (rule spares_app) (metis leavesD prod.collapse)

lemma spares_on_site: "leaves f m \<Longrightarrow> spares f (reply (on_site m)) s"
  unfolding on_site_def by (rule spares_on_app) (rule leaves_on_world)

lemmas spares_writes = spares_on_app spares_on_site

lemma on_world_state: "ap_world (snd (on_world m a)) = snd (m (ap_world a))"
  by (simp add: on_world_def split: prod.split)

lemma spares_site:
  "f (snd (m (ap_world (si_app s)))) = f (ap_world (si_app s)) \<Longrightarrow> spares f (reply (on_site m)) s"
  unfolding on_site_def by (rule spares_app) (simp add: on_world_state)

lemma spares_prod [spares_rules]: "(\<And>a b. spares f (k a b) s) \<Longrightarrow> spares f (case v of (a, b) \<Rightarrow> k a b) s"
  by (cases v) simp

lemma readonly_rows [leaves_rules]:
  "leaves f (roles_get_user_roles_detail t u)" "leaves f (roles_get_role_ancestors t u)" "leaves f (groups_get t u)"
  "leaves f (groups_get_user_groups t u)" "leaves f (groups_list_group_roles t u)" "leaves f (permissions_list_for_role ce t u)"
  "leaves f (permissions_get ce t u)" "leaves f (check_roles t u)"
proof -
  show "leaves f (roles_get_user_roles_detail t u)" "leaves f (roles_get_role_ancestors t u)" "leaves f (groups_get t u)"
    "leaves f (groups_get_user_groups t u)" "leaves f (groups_list_group_roles t u)"
    by (intro leaves_readonly; simp)+
  show "leaves f (permissions_list_for_role ce t u)" "leaves f (permissions_get ce t u)"
    unfolding permissions_list_for_role_def permissions_get_def by (intro leaves_rules)+
  show "leaves f (check_roles t u)"
    unfolding check_roles_def by (intro leaves_rules leaves_readonly; simp)
qed

text \<open>What a handler does after the write: it only answers, or only evicts from the cache.\<close>

lemma answered: "snd (bindE m (\<lambda>x. ret (g x)) w) = snd (m w)"
  by (simp add: bindE_run split: prod.split sum.split)

lemma after_write:
  assumes "\<And>x. leaves ap_world (k x)"
  shows "ap_world (snd (bindE m k a)) = ap_world (snd (m a))"
  using leavesD [OF assms] by (simp add: bindE_run split: prod.split sum.split) (metis prod.collapse)

lemma evict_world: "leaves ap_world (permissions_evict u)"
  using leaves_evict(1) [where f = "\<lambda>w. w"] by simp

lemma assign_requests_spare:
  assumes "unique_ids (ap_world (si_app s))"
  shows "spares (all_elsewhere t) (reply (on_site (admin_assign_role_to_user t u rid))) s"
    "spares (all_elsewhere t) (reply (on_site (admin_add_user_to_group t gid u))) s"
    "spares (all_elsewhere t) (reply (on_site (admin_assign_role_to_group t gid rid))) s"
    "spares (all_elsewhere t) (reply (on_app (bindE (admin_attach_permission_to_role t rid pid) (\<lambda>_. ret r)))) s"
proof -
  note kept = assigned_kept [OF assms]
  show "spares (all_elsewhere t) (reply (on_site (admin_assign_role_to_user t u rid))) s"
    by (rule spares_site) (simp add: admin_assign_role_to_user_def answered kept)
  show "spares (all_elsewhere t) (reply (on_site (admin_add_user_to_group t gid u))) s"
    by (rule spares_site) (simp add: admin_add_user_to_group_def answered kept)
  show "spares (all_elsewhere t) (reply (on_site (admin_assign_role_to_group t gid rid))) s"
    by (rule spares_site) (simp add: admin_assign_role_to_group_def answered kept)
  show "spares (all_elsewhere t) (reply (on_app (bindE (admin_attach_permission_to_role t rid pid) (\<lambda>_. ret r)))) s"
    unfolding admin_attach_permission_to_role_def bindE_assoc
    by (rule spares_app) (simp only: after_write leaves_rules evict_world on_world_state kept)
qed

lemma delete_requests_spare:
  assumes "unique_ids (ap_world (si_app s))" "parents_in_tenant (t_roles (ap_world (si_app s)))"
  shows "spares (all_elsewhere t) (reply (on_app (bindE (admin_delete_role t i) (\<lambda>_. ret r)))) s"
    "spares (all_elsewhere t) (reply (on_app (bindE (admin_delete_permission t i) (\<lambda>_. ret r)))) s"
    "spares (all_elsewhere t) (reply (on_site (admin_delete_group t i))) s"
proof -
  note kept = deleted_kept [OF assms]
  show "spares (all_elsewhere t) (reply (on_app (bindE (admin_delete_role t i) (\<lambda>_. ret r)))) s"
    unfolding admin_delete_role_def bindE_assoc
    by (rule spares_app) (simp only: after_write leaves_rules evict_world on_world_state kept)
  show "spares (all_elsewhere t) (reply (on_app (bindE (admin_delete_permission t i) (\<lambda>_. ret r)))) s"
    unfolding admin_delete_permission_def bindE_assoc
    by (rule spares_app) (simp only: after_write leaves_rules evict_world on_world_state kept)
  have "snd (admin_delete_group t i w) = snd (groups_delete t i w)" for w
    by (simp add: admin_delete_group_def bindE_run split: prod.split sum.split)
  then show "spares (all_elsewhere t) (reply (on_site (admin_delete_group t i))) s"
    by (intro spares_site) (simp add: kept)
qed

subsubsection \<open>The handlers with a tenant\<close>

lemma user_requests_spare:
  assumes "tenant_from_parts (rq_tenant rq) = Inr t" "lists_readonly sc" "unique_ids (ap_world (si_app s))"
    "\<not> unscoped (Users e)" "\<not> writes_identities (Users e)"
  shows "spares (all_elsewhere t) (user_action sc d now rq vs e) s"
proof -
  have pg: "leaves f (sc_users sc q bs)" for f :: "world \<Rightarrow> 'b" and q bs
    using assms(2) by (intro leaves_readonly) (simp add: lists_readonly_def)
  show ?thesis
  proof (cases e)
    case AdminAssignRoleToUser
    then show ?thesis by (auto intro!: spares_rules assms(1) assign_requests_spare [OF assms(3)])
  qed (use assms(4,5) in \<open>auto simp: admin_list_users_def users_list_def admin_archive_user_route_def
      admin_set_access_validity_def admin_list_user_roles_def admin_list_user_groups_def
      intro!: spares_rules spares_writes assms(1) leaves_rules pg\<close>)
qed

lemma role_requests_spare:
  assumes "tenant_from_parts (rq_tenant rq) = Inr t" "lists_readonly sc" "unique_ids (ap_world (si_app s))"
    "parents_in_tenant (t_roles (ap_world (si_app s)))" "\<not> unscoped (Roles e)"
  shows "spares (all_elsewhere t) (role_action sc d rq vs e) s"
proof -
  have pg: "leaves f (sc_roles sc q bs)" for f :: "world \<Rightarrow> 'b" and q bs
    using assms(2) by (intro leaves_readonly) (simp add: lists_readonly_def)
  show ?thesis
  proof (cases e)
    case AdminDeleteRole
    then show ?thesis by (auto intro!: spares_rules assms(1) delete_requests_spare [OF assms(3,4)])
  next
    case AdminAttachPermissionToRole
    then show ?thesis by (auto intro!: spares_rules assms(1) assign_requests_spare [OF assms(3)])
  qed (use assms(5) in \<open>auto simp: admin_create_role_def admin_list_roles_def list_roles_def admin_set_role_parent_def
      admin_get_role_hierarchy_def admin_list_role_permissions_def
      intro!: spares_rules spares_writes assms(1) leaves_rules leaves_on_world pg\<close>)
qed

lemma group_requests_spare:
  assumes "tenant_from_parts (rq_tenant rq) = Inr t" "lists_readonly sc" "unique_ids (ap_world (si_app s))"
    "parents_in_tenant (t_roles (ap_world (si_app s)))" "\<not> unscoped (Groups e)"
  shows "spares (all_elsewhere t) (group_action sc d rq vs e) s"
proof -
  have pg: "leaves f (sc_users sc q bs)" "leaves f (sc_groups sc q bs)" for f :: "world \<Rightarrow> 'b" and q bs
    using assms(2) by (intro leaves_readonly; simp add: lists_readonly_def)+
  show ?thesis
  proof (cases e)
    case AdminDeleteGroup
    then show ?thesis by (auto intro!: spares_rules assms(1) delete_requests_spare [OF assms(3,4)])
  next
    case AdminAddUserToGroup
    then show ?thesis by (auto intro!: spares_rules assms(1) assign_requests_spare [OF assms(3)])
  next
    case AdminAssignRoleToGroup
    then show ?thesis by (auto intro!: spares_rules assms(1) assign_requests_spare [OF assms(3)])
  qed (use assms(5) in \<open>auto simp: admin_create_group_def admin_list_groups_def groups_list_def admin_get_group_def
      admin_update_group_def admin_list_group_members_def users_list_by_group_def admin_list_group_roles_def
      intro!: spares_rules spares_writes assms(1) leaves_rules pg\<close>)
qed

lemma actions_readonly: "leaves f (get_actions_for_resource r)"
  unfolding get_actions_for_resource_def packages_list_tables_def packages_list_custom_actions_def Let_def
  by (intro leaves_rules)

lemma permission_requests_spare:
  assumes "tenant_from_parts (rq_tenant rq) = Inr t" "lists_readonly sc" "unique_ids (ap_world (si_app s))"
    "parents_in_tenant (t_roles (ap_world (si_app s)))"
  shows "spares (all_elsewhere t) (permission_action sc d rq vs e) s"
proof -
  have pg: "leaves f (sc_permissions sc q bs)" for f :: "world \<Rightarrow> 'b" and q bs
    using assms(2) by (intro leaves_readonly) (simp add: lists_readonly_def)
  show ?thesis
  proof (cases e)
    case AdminDeletePermission
    then show ?thesis by (auto intro!: spares_rules assms(1) delete_requests_spare [OF assms(3,4)])
  qed (auto simp: admin_create_permission_def admin_list_permissions_def permissions_list_def admin_check_permission_def
      admin_get_permission_def get_policy_set_for_roles_def permissions_get_for_roles_def Let_def
      intro!: spares_rules spares_writes assms(1) leaves_rules leaves_on_world pg
        leaves_readonly [OF resolve_readonly] actions_readonly)
qed

lemma insert_pair_leaves: "(\<And>h s. f (upd h s) = f s) \<Longrightarrow> leaves f (insert_pair tab upd cond p)"
  unfolding insert_pair_def by (intro leaves_rules leaves_modify leaves_insert; simp)

lemma package_requests_spare: "spares (all_elsewhere t) (package_action sc rq e) s"
proof -
  have "leaves (\<lambda>a. all_elsewhere t (ap_world a)) (rebuild_schema ce)" for ce
    unfolding rebuild_schema_def packages_list_tables_def packages_list_custom_actions_def Let_def
    by (intro leaves_rules leaves_on_world leaves_modify) simp
  moreover have "leaves (all_elsewhere t) (packages_sync_package p ts as)" for p ts as
    unfolding packages_sync_package_def insert_new_def
    by (intro leaves_rules leaves_remove insert_pair_leaves; simp add: elsewhere_defs)
  ultimately show ?thesis
    by (cases e) (auto simp: sync_package_route_def packages_sync_def list_actions_route_def packages_list_tables_def
      packages_list_custom_actions_def Let_def intro!: spares_rules spares_writes leaves_rules leaves_on_world)
qed

lemma scoped_requests_spare:
  assumes "administrative e" "tenant_from_parts (rq_tenant rq) = Inr t" "lists_readonly sc" "unique_ids (ap_world (si_app s))"
    "parents_in_tenant (t_roles (ap_world (si_app s)))" "\<not> unscoped e" "\<not> writes_identities e"
  shows "spares (all_elsewhere t) (endpoint_action sc d now rq vs e) s"
proof (cases e)
  case (KvStore k)
  then show ?thesis by (cases k) (simp_all add: spares_rules spares_writes leaves_rules admin_kv_list_def admin_kv_get_def admin_kv_put_def admin_kv_delete_def)
qed (use assms in \<open>auto intro: user_requests_spare role_requests_spare group_requests_spare permission_requests_spare
    package_requests_spare\<close>)

subsubsection \<open>The others\<close>

lemma unscoped_requests_spare:
  assumes "unscoped e"
  shows "spares (but_links t) (endpoint_action sc d now rq vs e) s"
  using assms
  by (cases e rule: unscoped.cases) (auto simp: admin_remove_role_from_user_def admin_remove_user_from_group_def
    admin_remove_role_from_group_def admin_detach_permission_from_role_def intro!: spares_rules spares_writes leaves_rules leaves_on_world)

lemma identity_requests_spare:
  assumes "writes_identities e" "tenant_from_parts (rq_tenant rq) = Inr t"
  shows "spares (but_identities t) (endpoint_action sc d now rq vs e) s"
  using assms
  by (cases e rule: writes_identities.cases) (auto simp: admin_create_user_route_def admin_reset_password_route_def
    intro!: spares_rules spares_writes leaves_rules)

lemma identity_requests_spare_foreign:
  assumes "writes_identities e" "tenant_from_parts (rq_tenant rq) = Inr t" "foreign_identity t (ap_world (si_app s)) i"
  shows "spares (\<lambda>w. i \<in> set (t_identities w)) (endpoint_action sc d now rq vs e) s"
proof -
  let ?kept = "spares (\<lambda>w. i \<in> set (t_identities w))"
  have i: "i \<in> set (t_identities (ap_world (si_app s)))" using assms(3) by (simp add: foreign_identity_def)
  have created: "?kept (reply (on_site (admin_create_user_route x fr now dr t fn ln em un mo cc pw re))) s"
    for x fr dr fn ln em un mo cc pw re
    by (rule spares_site) (use i created_user_identity in
      \<open>auto simp: admin_create_user_route_def answered keeps_def split: prod.split\<close>)
  have reset: "?kept (reply (on_site (admin_reset_password_route x now salt t u p r force))) s" for x salt u p r force
    by (rule spares_site) (use i reset_user_identity [OF assms(3) prod.collapse [symmetric]] in
      \<open>simp add: admin_reset_password_route_def answered\<close>)
  show ?thesis
    using assms(1,2)
    by (cases e rule: writes_identities.cases) (auto intro!: spares_rules created reset)
qed

text \<open>The three together, as \<open>serve\<close> runs them.\<close>

lemma unscoped_or_identities: "unscoped e \<Longrightarrow> \<not> writes_identities e"
  by (cases e rule: unscoped.cases) simp_all

lemma spares_parts:
  assumes "spares (all_elsewhere t) act s"
  shows "spares (rows_elsewhere t) act s" "spares (links_elsewhere t) act s" "spares t_identities act s"
  using assms by (auto simp: spares_def all_elsewhere_def)

lemma admin_requests_spare:
  assumes "administrative e" "tenant_from_parts (rq_tenant rq) = Inr t" "lists_readonly sc" "unique_ids (ap_world (si_app s))"
    "parents_in_tenant (t_roles (ap_world (si_app s)))"
  shows "spares (rows_elsewhere t) (endpoint_action sc d now rq vs e) s"
    "\<not> unscoped e \<Longrightarrow> spares (links_elsewhere t) (endpoint_action sc d now rq vs e) s"
    "foreign_identity t (ap_world (si_app s)) i \<Longrightarrow> spares (\<lambda>w. i \<in> set (t_identities w)) (endpoint_action sc d now rq vs e) s"
proof -
  note scoped = spares_parts [OF scoped_requests_spare [OF assms]]
  note removal = unscoped_requests_spare [where t = t and sc = sc and d = d and now = now and rq = rq and vs = vs and s = s]
  note written = identity_requests_spare [OF _ assms(2), where sc = sc and d = d and now = now and vs = vs and s = s]
  show "spares (rows_elsewhere t) (endpoint_action sc d now rq vs e) s"
    using scoped(1) removal [of e] written [of e] by (auto simp: spares_def but_links_def but_identities_def)
  show "spares (links_elsewhere t) (endpoint_action sc d now rq vs e) s" if "\<not> unscoped e"
    using scoped(2) written [of e] that by (auto simp: spares_def but_identities_def)
  show "spares (\<lambda>w. i \<in> set (t_identities w)) (endpoint_action sc d now rq vs e) s" if "foreign_identity t (ap_world (si_app s)) i"
    using scoped(3) removal [of e] identity_requests_spare_foreign [OF _ assms(2) that] unscoped_or_identities [of e]
    by (cases "writes_identities e"; cases "unscoped e") (auto simp: spares_def but_links_def)
qed

text \<open>C9. An administrator's request stays in its tenant. Whatever is sent to a path under \<^verbatim>\<open>/admin/\<close> with the tenant \<open>t\<close>
  in the header, also when the request fails: (1) the users, roles with their parents, groups and permissions of all
  other tenants are afterwards what they were; (2) so is every identity that no user of the tenant stands for; (3) so are
  the assignments among rows of other tenants (a role of another tenant to any user, a member of another tenant's group, a
  role of another tenant to another tenant's group, a permission of another tenant to another tenant's role), unless the
  path is one of the four removals that take no tenant (a user's role, a group's member, a group's role, a role's
  permission), which delete by the ids alone.\<close>

theorem admin_requests_isolated:
  assumes "finder_ok pick" "lists_readonly sc" "unique_ids (ap_world (si_app s))"
    and "parents_in_tenant (t_roles (ap_world (si_app s)))" "tenant_from_parts (rq_tenant rq) = Inr t"
    and "serve pick sc d now m (''/admin/'' @ rest) rq s = (a, s')"
  shows "rows_elsewhere t (ap_world (si_app s')) = rows_elsewhere t (ap_world (si_app s))
    \<and> (\<forall>i. foreign_identity t (ap_world (si_app s)) i \<longrightarrow> i \<in> set (t_identities (ap_world (si_app s'))))
    \<and> ((\<forall>e vs. dispatch pick router m (''/admin/'' @ rest) = To e vs \<longrightarrow> \<not> unscoped e) \<longrightarrow>
        links_elsewhere t (ap_world (si_app s')) = links_elsewhere t (ap_world (si_app s)))"
proof -
  let ?act = "serve pick sc d now m (''/admin/'' @ rest) rq"
  note spare = admin_requests_spare [OF _ assms(5,2,3,4)] and to_admin = admin_dispatch [OF assms(1)]
  have "spares (rows_elsewhere t) ?act s"
    using to_admin spare(1) by (auto simp: serve_def split: routed.split intro: spares_rules)
  moreover have "spares (\<lambda>w. i \<in> set (t_identities w)) ?act s" if "foreign_identity t (ap_world (si_app s)) i" for i
    using to_admin spare(3) [OF _ that] by (auto simp: serve_def split: routed.split intro: spares_rules)
  moreover have "spares (links_elsewhere t) ?act s"
    if "\<forall>e vs. dispatch pick router m (''/admin/'' @ rest) = To e vs \<longrightarrow> \<not> unscoped e"
    using to_admin spare(2) that by (auto simp: serve_def split: routed.split intro: spares_rules)
  ultimately show ?thesis using assms(6) by (simp add: spares_def foreign_identity_def)
qed

definition two_tenants :: site where
  "two_tenants = site0\<lparr>si_app := (si_app site0)\<lparr>ap_world := world0\<lparr>
     t_identities := [mfa_identity],
     t_groups :=
       [\<lparr>g_id = 7, g_tenant_id = ''acme'', g_name = ''Staff'', g_uid = ''staff'', g_description = None\<rparr>,
        \<lparr>g_id = 8, g_tenant_id = ''umbrella'', g_name = ''Staff'', g_uid = ''staff'', g_description = None\<rparr>],
     t_user_groups := [(3, 8)]\<rparr>\<rparr>\<rparr>"

theorem admin_requests_isolated_witness:
  "rows_elsewhere ''acme'' (ap_world (si_app (snd (serve finder0 service0 draws0 0 DELETE ''/admin/groups/8''
     (request0\<lparr>rq_tenant := Some ''acme''\<rparr>) two_tenants)))) = rows_elsewhere ''acme'' (ap_world (si_app two_tenants))
   \<and> mfa_identity \<in> set (t_identities (ap_world (si_app (snd (serve finder0 service0 draws0 0 DELETE ''/admin/groups/8''
     (request0\<lparr>rq_tenant := Some ''acme''\<rparr>) two_tenants)))))
   \<and> links_elsewhere ''acme'' (ap_world (si_app (snd (serve finder0 service0 draws0 0 DELETE ''/admin/groups/8''
     (request0\<lparr>rq_tenant := Some ''acme''\<rparr>) two_tenants)))) = ([], [(3, 8)], [], [])"
proof -
  let ?rq = "request0\<lparr>rq_tenant := Some ''acme''\<rparr>"
  let ?r = "serve finder0 service0 draws0 0 DELETE (''/admin/'' @ ''groups/8'') ?rq two_tenants"
  have tenant: "tenant_from_parts (rq_tenant ?rq) = Inr ''acme''" by code_simp
  have ok: "unique_ids (ap_world (si_app two_tenants))" "parents_in_tenant (t_roles (ap_world (si_app two_tenants)))"
    "foreign_identity ''acme'' (ap_world (si_app two_tenants)) mfa_identity"
    "links_elsewhere ''acme'' (ap_world (si_app two_tenants)) = ([], [(3, 8)], [], [])"
    by (simp_all add: two_tenants_def unique_ids_def parents_in_tenant_def foreign_identity_def elsewhere_defs rows_elsewhere_def
      world0_def site0_def)
  have path: "case dispatch finder0 router DELETE (''/admin/'' @ ''groups/8'') of To e vs \<Rightarrow> \<not> unscoped e | _ \<Rightarrow> True"
    by code_simp
  then have scoped: "\<forall>e vs. dispatch finder0 router DELETE (''/admin/'' @ ''groups/8'') = To e vs \<longrightarrow> \<not> unscoped e"
    by auto
  show ?thesis
    using admin_requests_isolated [OF finder0_ok service0_readonly ok(1,2) tenant, of draws0 0 DELETE "''groups/8''" "fst ?r" "snd ?r"]
      scoped ok(3,4) by simp
qed

end
