(* ===== verification/Http_Documented.thy ===== *)
theory Http_Documented
  imports Http_Sound
begin

section \<open>Documented bodies\<close>

text \<open>
  The bodies the API document describes against those the handlers decode: the fields documented as required
  are exactly the fields of the struct that must be present, for every documented body; what a request
  without one of them gets; and which operations take a body though the document describes none.
\<close>

subsection \<open>The body of each handler\<close>

fun body_of :: "endpoint \<Rightarrow> body_struct option" where
  "body_of (Account Signup) = Some signup_body_fields"
| "body_of (Account VerifyMembership) = Some verify_membership_body_fields"
| "body_of (Account ForgotPassword) = Some forgot_password_body_fields"
| "body_of (Account ResetPassword) = Some reset_password_body_fields"
| "body_of (Account CheckEmailAvailability) = Some check_email_body_fields"
| "body_of (Account CheckUsernameAvailability) = Some check_username_body_fields"
| "body_of (Account CheckMobileAvailability) = Some check_mobile_body_fields"
| "body_of (Login LoginEmailPassword) = Some email_password_body_fields"
| "body_of (Login LoginUsernamePassword) = Some username_password_body_fields"
| "body_of (Login EmailOtpRequest) = Some email_otp_request_body_fields"
| "body_of (Login OtpVerify) = Some otp_verify_body_fields"
| "body_of (Login LoginIdentity) = Some identity_login_body_fields"
| "body_of (Login SelectTenant) = Some select_tenant_body_fields"
| "body_of (Mfa MfaVerify) = Some code_body_fields"
| "body_of (Mfa MfaValidate) = Some validate_body_fields"
| "body_of (Mfa MfaDisable) = Some code_body_fields"
| "body_of (Mfa MfaRegenerateBackupCodes) = Some code_body_fields"
| "body_of (Session ChangePassword) = Some change_password_body_fields"
| "body_of (Session ForceChangePassword) = Some force_change_password_body_fields"
| "body_of (Session SwitchTenant) = Some switch_tenant_body_fields"
| "body_of (Users AdminCreateUser) = Some admin_create_user_body_fields"
| "body_of (Users AdminAssignRoleToUser) = Some assign_role_body_fields"
| "body_of (Users AdminResetPassword) = Some admin_reset_password_body_fields"
| "body_of (Users AdminSetAccessValidity) = Some admin_set_access_validity_body_fields"
| "body_of (Roles AdminCreateRole) = Some admin_create_role_body_fields"
| "body_of (Roles AdminSetRoleParent) = Some admin_set_role_parent_body_fields"
| "body_of (Roles AdminAttachPermissionToRole) = Some attach_permission_body_fields"
| "body_of (Groups AdminCreateGroup) = Some create_group_body_fields"
| "body_of (Groups AdminUpdateGroup) = Some update_group_body_fields"
| "body_of (Groups AdminAddUserToGroup) = Some add_user_to_group_body_fields"
| "body_of (Groups AdminAssignRoleToGroup) = Some assign_role_to_group_body_fields"
| "body_of (Permissions AdminCreatePermission) = Some create_permission_body_fields"
| "body_of (Permissions AdminCheckPermission) = Some check_permission_body_fields"
| "body_of (Packages SyncPackage) = Some sync_package_body_fields"
| "body_of _ = None"

lemmas body_defs = signup_body_def verify_membership_body_def forgot_password_body_def reset_password_body_def check_email_body_def check_username_body_def check_mobile_body_def email_password_body_def username_password_body_def email_otp_request_body_def otp_verify_body_def identity_login_body_def select_tenant_body_def code_body_def validate_body_def change_password_body_def force_change_password_body_def switch_tenant_body_def admin_create_user_body_def assign_role_body_def admin_reset_password_body_def admin_set_access_validity_body_def admin_create_role_body_def admin_set_role_parent_body_def attach_permission_body_def create_group_body_def update_group_body_def add_user_to_group_body_def assign_role_to_group_body_def create_permission_body_def check_permission_body_def sync_package_body_def

text \<open>How many parameters of the path a handler extracts.\<close>

fun arity :: "endpoint \<Rightarrow> nat option" where
  "arity (Oauth OauthRedirect) = Some 1"
| "arity (Oauth OauthCallback) = Some 1"
| "arity (Users AdminListUserRoles) = Some 1"
| "arity (Users AdminAssignRoleToUser) = Some 1"
| "arity (Users AdminRemoveRoleFromUser) = Some 2"
| "arity (Users AdminListUserGroups) = Some 1"
| "arity (Users AdminArchiveUser) = Some 1"
| "arity (Users AdminResetPassword) = Some 1"
| "arity (Users AdminSetAccessValidity) = Some 1"
| "arity (Roles AdminDeleteRole) = Some 1"
| "arity (Roles AdminSetRoleParent) = Some 1"
| "arity (Roles AdminGetRoleHierarchy) = Some 1"
| "arity (Roles AdminAttachPermissionToRole) = Some 1"
| "arity (Roles AdminListRolePermissions) = Some 1"
| "arity (Roles AdminDetachPermissionFromRole) = Some 2"
| "arity (Groups AdminGetGroup) = Some 1"
| "arity (Groups AdminUpdateGroup) = Some 1"
| "arity (Groups AdminDeleteGroup) = Some 1"
| "arity (Groups AdminAddUserToGroup) = Some 1"
| "arity (Groups AdminListGroupMembers) = Some 1"
| "arity (Groups AdminRemoveUserFromGroup) = Some 2"
| "arity (Groups AdminAssignRoleToGroup) = Some 1"
| "arity (Groups AdminListGroupRoles) = Some 1"
| "arity (Groups AdminRemoveRoleFromGroup) = Some 2"
| "arity (Permissions AdminGetPermission) = Some 1"
| "arity (Permissions AdminDeletePermission) = Some 1"
| "arity _ = None"

lemma open_struct_missing:
  "n \<in> set (required_names fs) \<Longrightarrow> n \<notin> fst ` set kvs \<Longrightarrow> open_struct fs (JObj kvs) = None"
  using open_struct_object [of fs kvs] by (cases "open_struct fs (JObj kvs)") auto

lemma refuses_undecoded [refuses_rules]:
  "415 \<in> ns \<Longrightarrow> 422 \<in> ns \<Longrightarrow> sc_json sc (rq_body rq) = Some j \<Longrightarrow> de j = None \<Longrightarrow> refuses ns (with_body sc de rq k) s"
  by (auto simp: with_body_def intro: refuses_rules)

lemma refuses_with_id:
  "400 \<in> ns \<Longrightarrow> length vs = 1 \<Longrightarrow> (\<And>i. refuses ns (k i) s) \<Longrightarrow> refuses ns (with_id sc vs k) s"
  by (auto simp: with_id_def length_Suc_conv split: option.split intro: refuses_rules)

lemma missing_field_refused:
  assumes "body_of e = Some fs" "n \<in> set (required_names fs)" "sc_json sc (rq_body rq) = Some (JObj kvs)" "n \<notin> fst ` set kvs"
    and "arity e = None \<or> arity e = Some (length vs)"
  shows "refuses {400, 415, 422} (endpoint_action sc d now rq vs e) s"
proof -
  note rules = refuses_rules refuses_undecoded [OF _ _ assms(3)] refuses_with_id
  note gone = open_struct_missing [OF _ assms(4)] body_defs
  show ?thesis
  proof (cases e)
    case (Account a) then show ?thesis using assms(1,2) by (cases a) (auto simp: gone intro!: rules)
  next
    case (Login a) then show ?thesis using assms(1,2) by (cases a) (auto simp: gone intro!: rules)
  next
    case (Mfa a) then show ?thesis using assms(1,2) by (cases a) (auto simp: gone intro!: rules)
  next
    case (Session a) then show ?thesis using assms(1,2) by (cases a) (auto simp: gone intro!: rules)
  next
    case (Users a) then show ?thesis using assms(1,2,5) by (cases a) (auto simp: gone intro!: rules)
  next
    case (Roles a) then show ?thesis using assms(1,2,5) by (cases a) (auto simp: gone intro!: rules)
  next
    case (Groups a) then show ?thesis using assms(1,2,5) by (cases a) (auto simp: gone intro!: rules)
  next
    case (Permissions a) then show ?thesis using assms(1,2) by (cases a) (auto simp: gone intro!: rules)
  next
    case (Packages a) then show ?thesis using assms(1,2) by (cases a) (auto simp: gone intro!: rules)
  qed (use assms(1) in auto)
qed

text \<open>The other handlers do not look at the body.\<close>

lemma extraction_without_body [simp]:
  "with_tenant (rq\<lparr>rq_is_json := j, rq_body := b\<rparr>) k = with_tenant rq k"
  "with_query de1 (rq\<lparr>rq_is_json := j, rq_body := b\<rparr>) k' = with_query de1 rq k'"
  "optional_tenant (rq\<lparr>rq_is_json := j, rq_body := b\<rparr>) = optional_tenant rq"
  by (simp_all add: with_tenant_def with_query_def optional_tenant_def)

lemma bodyless_handler:
  "body_of e = None \<Longrightarrow> endpoint_action sc d now (rq\<lparr>rq_is_json := j, rq_body := b\<rparr>) vs e = endpoint_action sc d now rq vs e"
proof (cases e)
  case (Account a) then show "body_of e = None \<Longrightarrow> ?thesis" by (cases a) simp_all
next
  case (Login a) then show "body_of e = None \<Longrightarrow> ?thesis" by (cases a) simp_all
next
  case (Oauth a) then show "body_of e = None \<Longrightarrow> ?thesis" by (cases a) simp_all
next
  case (Mfa a) then show "body_of e = None \<Longrightarrow> ?thesis" by (cases a) simp_all
next
  case (Session a) then show "body_of e = None \<Longrightarrow> ?thesis" by (cases a) simp_all
next
  case (Users a) then show "body_of e = None \<Longrightarrow> ?thesis" by (cases a) simp_all
next
  case (Roles a) then show "body_of e = None \<Longrightarrow> ?thesis" by (cases a) simp_all
next
  case (Groups a) then show "body_of e = None \<Longrightarrow> ?thesis" by (cases a) simp_all
next
  case (Permissions a) then show "body_of e = None \<Longrightarrow> ?thesis" by (cases a) simp_all
next
  case (Packages a) then show "body_of e = None \<Longrightarrow> ?thesis" by (cases a) simp_all
next
  case (Platform a) then show "body_of e = None \<Longrightarrow> ?thesis" by (cases a) simp_all
qed auto

lemma router_arity: "list_all (\<lambda>(m, p, e). case arity e of None \<Rightarrow> True | Some k \<Rightarrow> k = holes (pattern_segs p)) router"
  by code_simp

lemma match_length: "match_segs ps ss = Some vs \<Longrightarrow> length vs = holes ps"
  by (induction ps ss arbitrary: vs rule: match_segs.induct) (auto simp: holes_def split: if_splits)

lemma dispatch_arity:
  assumes "finder_ok pick" "dispatch pick router m path = To e vs"
  shows "arity e = None \<or> arity e = Some (length vs)"
proof -
  obtain p where p: "(m, p, e) \<in> set router" "matches p path = Some vs"
    using dispatch_registered [OF assms(1) router_registers router_absolute assms(2)] by blast
  have "length vs = holes (pattern_segs p)"
    using p(2) by (auto simp: matches_def split: if_splits dest: match_length)
  moreover have "case arity e of None \<Rightarrow> True | Some k \<Rightarrow> k = holes (pattern_segs p)"
    using p(1) router_arity unfolding list_all_iff by fast
  ultimately show ?thesis by (cases "arity e") auto
qed

subsection \<open>The documented bodies\<close>

definition item_required :: "path_item \<Rightarrow> string list option" where
  "item_required i = map_option rb_required (op_body (snd (snd i)))"

lemma item_required_simps:
  "item_required (p, m, operation_of a b ps c) = map_option rb_required c"
  "item_required (p, m, add_list_params d) = item_required (p, m, d)"
  "map_option rb_required (json_body fs ns) = Some ns"
  by (simp_all add: item_required_def operation_of_def add_list_params_def json_body_def)

lemma spec_meta_required: "map item_required spec_meta = [None, None, None]"
  by (simp add: spec_meta_def item_required_simps)

lemma spec_account_required: "map item_required spec_account = [Some [''firstName'', ''lastName'', ''email'', ''password'', ''retypePassword''], Some [''email''], Some [''token'', ''newPassword'', ''retypePassword'']]"
  by (simp add: spec_account_def item_required_simps)

lemma spec_login_required: "map item_required spec_login = [Some [''email'', ''password''], Some [''username'', ''password''], Some [''email''], None, None, Some [''identifier'', ''code'', ''channel'']]"
  by (simp add: spec_login_def item_required_simps)

lemma spec_oauth_required: "map item_required spec_oauth = [None, None]"
  by (simp add: spec_oauth_def item_required_simps)

lemma spec_mfa_required: "map item_required spec_mfa = [None, None, Some [''code''], Some [''mfaToken'', ''code''], Some [''code''], Some [''code'']]"
  by (simp add: spec_mfa_def item_required_simps)

lemma spec_session_required: "map item_required spec_session = [None, None, Some [''currentPassword'', ''newPassword'', ''retypePassword''], None, None]"
  by (simp add: spec_session_def item_required_simps)

lemma spec_admin_users_required: "map item_required spec_admin_users = [None, None, None, Some [''roleId''], None, Some [''newPassword'', ''retypePassword'']]"
  by (simp add: spec_admin_users_def item_required_simps)

lemma spec_admin_roles_required: "map item_required spec_admin_roles = [None, None, None, None]"
  by (simp add: spec_admin_roles_def item_required_simps)

lemma spec_groups_required: "map item_required spec_groups = [None, Some [''name''], None, None, Some [], None]"
  by (simp add: spec_groups_def item_required_simps)

lemma spec_group_members_required: "map item_required spec_group_members = [Some [''userId''], None, None, Some [''roleId''], None, None]"
  by (simp add: spec_group_members_def item_required_simps)

lemma spec_kv_store_required: "map item_required spec_kv_store = [None, None, Some [], None]"
  by (simp add: spec_kv_store_def item_required_simps)

lemma spec_identity_required: "map item_required spec_identity = [Some [''token''], Some [''email'', ''password''], Some [''tenantId''], None, Some [''email''], Some [''username''], Some [''mobile'', ''countryCode'']]"
  by (simp add: spec_identity_def item_required_simps)

lemma spec_session_identity_required: "map item_required spec_session_identity = [None, Some [''changeToken'', ''newPassword'', ''retypePassword''], None, Some [''tenantId'']]"
  by (simp add: spec_session_identity_def item_required_simps)

lemma spec_user_lifecycle_required: "map item_required spec_user_lifecycle = [None, Some []]"
  by (simp add: spec_user_lifecycle_def item_required_simps)

lemma spec_role_tree_required: "map item_required spec_role_tree = [None, Some [], None, Some [''permissionId''], None, None]"
  by (simp add: spec_role_tree_def item_required_simps)

lemma spec_permissions_required: "map item_required spec_permissions = [Some [''userId'', ''resource''], None, None]"
  by (simp add: spec_permissions_def item_required_simps)

lemma spec_packages_required: "map item_required spec_packages = [Some [''packageId'', ''tables''], None]"
  by (simp add: spec_packages_def item_required_simps)

lemma spec_platform_required: "map item_required spec_platform = [None]"
  by (simp add: spec_platform_def item_required_simps)

lemmas spec_group_required = spec_meta_required spec_account_required spec_login_required spec_oauth_required spec_mfa_required spec_session_required spec_admin_users_required spec_admin_roles_required spec_groups_required spec_group_members_required spec_kv_store_required spec_identity_required spec_session_identity_required spec_user_lifecycle_required spec_role_tree_required spec_permissions_required spec_packages_required spec_platform_required

definition required_of :: "endpoint \<Rightarrow> string list" where
  "required_of e = (case body_of e of None \<Rightarrow> [] | Some fs \<Rightarrow> required_names fs)"

text \<open>The operations that take a body of which the document says nothing.\<close>

definition undocumented_bodies :: "endpoint list" where
  "undocumented_bodies = [Users AdminCreateUser, Roles AdminCreateRole, Permissions AdminCreatePermission]"

definition body_documented :: "string list option \<Rightarrow> endpoint \<Rightarrow> bool" where
  "body_documented r e \<longleftrightarrow> (case r of None \<Rightarrow> body_of e = None \<longleftrightarrow> e \<notin> set undocumented_bodies | Some ns \<Rightarrow> ns = required_of e)"

lemma documented_required:
  "list_all2 (\<lambda>r i. body_documented r (snd (snd (router ! i)))) (map item_required spec_paths) doc_order"
  unfolding spec_paths_def map_append spec_group_required by code_simp

lemma documented_body:
  assumes "(template p, m, d) \<in> set spec_paths" "(m, p, e) \<in> set router"
  shows "body_documented (map_option rb_required (op_body d)) e"
proof -
  obtain k where k: "k < length spec_paths" "spec_paths ! k = (template p, m, d)"
    using assms(1) by (auto simp: in_set_conv_nth)
  have lengths: "length spec_paths = length doc_order" using arg_cong [OF spec_keys, of length] by simp
  then have "map item_key spec_paths ! k = map route_key router ! (doc_order ! k)"
    unfolding spec_keys using k(1) by simp
  moreover have i: "doc_order ! k < length router"
  proof -
    have "set doc_order = {..<length router}"
      using arg_cong [OF doc_order_perm, of set_mset] by (simp only: set_mset_mset set_upt lessThan_atLeast0)
    then show ?thesis using k(1) lengths nth_mem by fastforce
  qed
  ultimately have key: "route_key (router ! (doc_order ! k)) = (template p, m, path_params d)"
    using k by (simp add: item_key_def)
  obtain m' q e' where r: "router ! (doc_order ! k) = (m', q, e')" by (cases "router ! (doc_order ! k)") auto
  then have "template q = template p" "m' = m" using key by (auto simp: route_key_def)
  moreover have "(m', q, e') \<in> set router" using i nth_mem r by metis
  ultimately have "(m', q, e') = (m, p, e)"
    using routed_once assms(2) unfolding distinct_map inj_on_def by fastforce
  then show ?thesis
    using list_all2_nthD [OF documented_required, of k] k r by (simp add: item_required_def)
qed

text \<open>C27. What the document says of bodies, against the handlers. Where it describes a body, the fields it marks as required
  are exactly those the handler requires, and a request whose JSON object lacks one of them is answered with
  415, 400 or 422 and changes nothing. Where it describes none, the handler does not look at the body, but for three
  operations that do need one: creating users, roles and permissions, which the document still describes as placeholders.\<close>

theorem documented_fields_required:
  assumes "finder_ok pick" "dispatch pick router m path = To e vs" "(m, p, e) \<in> set router"
    and "(template p, m, d) \<in> set (oa_paths (api_spec v))"
  shows "case op_body d of
      Some b \<Rightarrow> set (rb_required b) = set (required_of e) \<and>
        (\<forall>kvs. sc_json sc (rq_body rq) = Some (JObj kvs) \<longrightarrow> \<not> set (rb_required b) \<subseteq> fst ` set kvs \<longrightarrow>
          refuses {400, 415, 422} (serve pick sc dr now m path rq) s)
    | None \<Rightarrow> if e \<in> {Users AdminCreateUser, Roles AdminCreateRole, Permissions AdminCreatePermission} then body_of e \<noteq> None
        else \<forall>j b. serve pick sc dr now m path (rq\<lparr>rq_is_json := j, rq_body := b\<rparr>) = serve pick sc dr now m path rq"
proof -
  have doc: "body_documented (map_option rb_required (op_body d)) e"
    using documented_body assms(3,4) by (simp add: api_spec_def)
  show ?thesis
  proof (cases "op_body d")
    case None
    then show ?thesis
      using doc bodyless_handler assms(2) by (auto simp: body_documented_def undocumented_bodies_def serve_def)
  next
    case (Some b)
    then have req: "rb_required b = required_of e" using doc by (simp add: body_documented_def)
    moreover have "refuses {400, 415, 422} (endpoint_action sc dr now rq vs e) s"
      if "n \<in> set (required_of e)" "sc_json sc (rq_body rq) = Some (JObj kvs)" "n \<notin> fst ` set kvs" for n kvs
      using that(1) missing_field_refused [OF _ _ that(2,3) dispatch_arity [OF assms(1,2)]]
      by (cases "body_of e") (auto simp: required_of_def)
    ultimately show ?thesis using assms(2) Some by (auto simp: serve_def)
  qed
qed

theorem documented_fields_required_witness:
  "refuses {400, 415, 422} (serve finder0 service0 draws0 0 POST ''/mfa/verify'' (request0\<lparr>rq_body := ''{}''\<rparr>)) site0"
proof -
  let ?d = "operation_of ''Confirm authenticator enrollment''
       (''Requires Bearer session. Body: { code } '' @ [CHR 0xE2, CHR 0x80, CHR 0x94] @ '' the current 6-digit code from the app. Enables MFA and returns { enabled: true, backupCodes: [...] } (10 single-use codes, shown only once).'')
       [] (json_body [(''code'', str_schema)] [''code''])"
  have route: "dispatch finder0 router POST ''/mfa/verify'' = To (Mfa MfaVerify) []" by code_simp
  have router: "(POST, ''/mfa/verify'', Mfa MfaVerify) \<in> set router" by code_simp
  have "template ''/mfa/verify'' = ''/mfa/verify''" by code_simp
  then have doc: "(template ''/mfa/verify'', POST, ?d) \<in> set (oa_paths (api_spec v))" for v
    by (simp add: api_spec_def spec_paths_def spec_mfa_def)
  show ?thesis
    using documented_fields_required [OF finder0_ok route router doc, of service0 draws0 0 "request0\<lparr>rq_body := ''{}''\<rparr>" site0]
    by (simp add: operation_of_def json_body_def service0_def)
qed

end
