(* ===== verification/Http_Login.thy ===== *)
theory Http_Login
  imports Http_Sound
begin

section \<open>Signing in over HTTP\<close>

text \<open>
  A login and the use of its session as two requests: what the first answer implies, and that the
  token in it is honoured by the second, with the sessions kept in PostgreSQL.
\<close>

subsection \<open>Paths without parameters\<close>

lemma dispatch_plain:
  assumes "finder_ok pick" "(m, p, e) \<in> set router" "holes (pattern_segs p) = 0" "fill p [] = p"
  shows "dispatch pick router m p = To e []"
  using dispatch_fill [OF assms(1) router_registers router_absolute assms(2), of "[]"] assms(3,4) by simp

lemma serve_login: "finder_ok pick \<Longrightarrow> serve pick sc d now POST ''/login/email-password'' rq = login_action sc d now rq LoginEmailPassword"
proof -
  assume pick: "finder_ok pick"
  have "(POST, ''/login/email-password'', Login LoginEmailPassword) \<in> set router" by code_simp
  moreover have "holes (pattern_segs ''/login/email-password'') = 0" "fill ''/login/email-password'' [] = ''/login/email-password''"
    by code_simp+
  ultimately show ?thesis using dispatch_plain [OF pick] by (simp add: serve_def)
qed

lemma serve_validate: "finder_ok pick \<Longrightarrow> serve pick sc d now GET ''/session/validate'' rq = session_action sc d now rq SessionValidate"
proof -
  assume pick: "finder_ok pick"
  have "(GET, ''/session/validate'', Session SessionValidate) \<in> set router" by code_simp
  moreover have "holes (pattern_segs ''/session/validate'') = 0" "fill ''/session/validate'' [] = ''/session/validate''" by code_simp+
  ultimately show ?thesis using dispatch_plain [OF pick] by (simp add: serve_def)
qed

subsection \<open>The session that is left behind\<close>

lemma sint_positive: "0 < sint (v :: 64 word) \<Longrightarrow> sint v = uint v"
proof -
  assume pos: "0 < sint v"
  have s: "sint v = (uint v + 2 ^ 63) mod 2 ^ 64 - 2 ^ 63"
    by (simp add: sint_uint signed_take_bit_eq_take_bit_shift take_bit_eq_mod)
  have b: "0 \<le> uint v" "uint v < 2 ^ 64" using uint_lt2p [of v] by simp_all
  show ?thesis
  proof (cases "uint v < 2 ^ 63")
    case True
    then show ?thesis using s b by (simp add: mod_pos_pos_trivial)
  next
    case False
    have "(uint v + 2 ^ 63) mod 2 ^ 64 = (uint v + 2 ^ 63 - 2 ^ 64) mod 2 ^ 64" by (simp only: minus_mod_self2)
    also have "\<dots> = uint v - 2 ^ 63" using False b by (simp add: mod_pos_pos_trivial)
    finally show ?thesis using s b pos by simp
  qed
qed

lemma created_session_stands:
  assumes "do_create_session x now tok tid u c w = (Inr (LoginSuccess t e), w')" "\<not> c_uses_redis x" "pg_ok x now w"
    and "p = session_payload_of w tid u c e" "payload_storable x p" "now \<le> now'" "now' < e"
  shows "t = tok \<and> store_get x now' tok w' = (Inr (Some p), w')"
proof -
  obtain pol w1 w2 where pol: "get_session_policy x now tid w = (Inr pol, w1)"
    and e: "e = now + secs (sint (session_ttl x pol))" and t: "t = tok"
    and set: "store_set x now tok (session_payload_of w tid u c e) (session_ttl x pol) w1 = (Inr (), w2)"
    and audit: "(if writes_audit_row x then ret () else create_audit x tok tid (u_id u) (fst c) (snd c) e
        (Some (x_payload_ser x (session_payload_of w tid u c e)))) w2 = (Inr (), w')"
    using assms(1) by (auto simp: do_create_session_run bindE_Inr_iff Let_def cong: if_cong)
  have w1: "db w1 = db w" by (rule leavesD [OF config_views_leave(3) pol])
  have w': "w' = w2" using audit assms(2) by (simp add: writes_audit_row_def)
  have "0 < sint (session_ttl x pol)"
    using assms(6,7) e by (auto simp: secs_def)
  then have ttl: "sint (session_ttl x pol) = uint (session_ttl x pol)"
    by (rule sint_positive)
  have ok: "store_ok x t' v = pg_ok x t' v" "store_fits x ttl' t' q tok v" for ttl' t' q v
    using assms(2) by (simp_all add: store_ok_def store_fits_def)
  have "store_ok x now w1"
    using assms(3) store_ok_db [OF w1] by (simp add: ok)
  from store_refines(2) [OF this, of p "session_ttl x pol" tok w2 now'] set assms(4,5) e ttl
  have "store_ok x now w2" "valid_sessions x now' w2 tok = Some p"
    using assms(7) by (simp_all add: session_payload_of_def ok)
  then show ?thesis using store_refines(1) t w' by metis
qed

text \<open>The claims of a session are read from the tables of roles, groups and permissions only.\<close>

lemma payload_frame:
  assumes "db w' = db w"
  shows "session_payload_of (snd (identities_clear_failed_attempts now iid w')) tid u c e = session_payload_of w tid u c e"
proof -
  have "session_payload_of (snd (identities_clear_failed_attempts now iid w')) tid u c e = session_payload_of w' tid u c e"
    by (simp add: identities_clear_failed_attempts_def session_payload_of_def payload_reads effective_roles_def direct_roles_def
        effective_group_roles_def direct_group_roles_def permissions_of_roles_def groups_of_user_def)
  also have "\<dots> = session_payload_of w tid u c e"
    by (simp add: session_payload_of_def payload_reads effective_roles_def direct_roles_def effective_group_roles_def
        direct_group_roles_def permissions_of_roles_def groups_of_user_def same_db [OF assms])
  finally show ?thesis .
qed

subsection \<open>Who signed in\<close>

lemma email_login_holder:
  assumes "accounts_ok w" "login_email_password x now tok tid name pw c w = (Inr (LoginSuccess t e), w')"
  obtains m i h w3 where "m \<in> set (t_users w)" "i \<in> set (t_identities w)" "m_tenant_id m = tid" "i_email i = Some name"
    "admissible now m i" "i_password_hash i = Some h" "x_argon2_verify x h pw = Inr True" "\<not> i_mfa_enabled i" "i_id i = m_identity_id m"
    "t_sessions w3 = t_sessions w" "\<And>u. session_payload_of w3 tid u c e = session_payload_of w tid u c e"
    "do_create_session x now tok tid (row_to_user m i) c w3 = (Inr (LoginSuccess t e), w')"
proof -
  from assms(2) obtain v u where v: "ensure_email_domain_allowed x now tid name w = (Inr (), v)"
    "users_get_by_email tid name v = (Inr (Some u), v)"
    "do_password_login x now tok tid u pw c LOGIN_METHOD_EMAIL_PASSWORD v = (Inr (LoginSuccess t e), w')"
    by (auto simp: login_email_password_def bindE_Inr_iff users_get_by_email_def fetch_user_def split: option.splits)
  have db: "db v = db w" by (rule leavesD [OF ensure_email_domain_leaves v(1)])
  then have ok: "accounts_ok v" using assms(1) by (simp add: same_db(1,2) [of v w] accounts_ok_def)
  from fetch_user_Some(2) [of "\<lambda>m i. m_tenant_id m = tid \<and> i_email i = Some name" v u v] v(2)
  obtain m i where mi: "m \<in> set (t_users v)" "i \<in> set (t_identities v)" "i_id i = m_identity_id m"
    "m_tenant_id m = tid" "i_email i = Some name" "u = row_to_user m i"
    by (auto simp: users_get_by_email_def)
  from v(3) obtain j h eff w1 where j: "load_identity (u_identity_id u) v = (Inr j, v)" "check_gates now u j = Inr ()"
    "db w1 = db v" "i_password_hash j = Some h" "x_argon2_verify x h pw = Inr True"
    "finalize_login x now tok tid u j c (snd (identities_clear_failed_attempts now (i_id j) w1)) = (Inr (LoginSuccess t e), w')"
    by (rule do_password_login_Inr)
  have ji: "j = i" using load_identity_member [OF ok mi(2)] j(1) mi by simp
  have sess: "t_sessions (snd (identities_clear_failed_attempts now (i_id j) w1)) = t_sessions w"
    using same_db(6) [OF j(3)] same_db(6) [OF db] by (simp add: identities_clear_failed_attempts_def)
  have payload: "session_payload_of (snd (identities_clear_failed_attempts now (i_id j) w1)) tid u' c e
      = session_payload_of w tid u' c e" for u'
    by (rule payload_frame) (simp add: j(3) db)
  show thesis
    using that [OF _ _ mi(4,5) _ _ _ _ _ sess payload] j(2,4-6) mi gates_admissible [of now m i j] same_db(1,2) [OF db]
    by (auto simp: ji finalize_login_success)
qed

definition validated_session :: "front \<Rightarrow> session_payload \<Rightarrow> json" where
  "validated_session fr p = JObj [(''tenantId'', JStr (sp_tenant_id p)), (''userId'', uuid_value (sp_user_id p)),
     (''identityId'', uuid_value (sp_identity_id p)), (''roles'', strs_value (sp_roles p)),
     (''permissions'', strs_value (sp_permissions p)), (''expiresAt'', JStr (fr_rfc3339 fr (sp_expires_at p)))]"

lemma validate_live:
  assumes "store_get (sc_ext sc) now tok (ap_world (si_app s)) = (Inr (Some p), ap_world (si_app s))"
    "rq_auth rq = Some (''Bearer '' @ tok)"
  shows "session_action sc d now rq SessionValidate s = ((200, JsonBody (validated_session (sc_front sc) p)), s)"
proof -
  have "bearer_token (rq_auth rq) = Inr tok" by (simp only: bearer_token_def assms(2) ok_or_def bind_res_def strip_prefix_append option.case sum.case)
  then show ?thesis
    by (simp add: session_validate_def bearer_session_def live_session_def get_or_def bindE_run assms(1) reply_def on_site_def
        on_app_def on_world_def validated_session_def)
qed

text \<open>What an answer with a session token to a login by e-mail says about the request.\<close>

lemma login_answered:
  assumes "login_action sc d now rq LoginEmailPassword s = ((200, JsonBody (JObj [(''sessionToken'', JStr tok), (''expiresAt'', ex)])), s')"
  obtains t email pw e w' where "tenant_from_parts (rq_tenant rq) = Inr t"
    "Option.bind (sc_json sc (rq_body rq)) email_password_body = Some (email, pw)"
    "login_email_password (sc_ext sc) now (dr_token d) t email pw (None, None) (ap_world (si_app s)) = (Inr (LoginSuccess tok e), w')"
    "ap_world (si_app s') = w'" "ex = JStr (fr_rfc3339 (sc_front sc) e)"
proof -
  have "\<exists>t email pw e w'. tenant_from_parts (rq_tenant rq) = Inr t \<and>
    Option.bind (sc_json sc (rq_body rq)) email_password_body = Some (email, pw) \<and>
    login_email_password (sc_ext sc) now (dr_token d) t email pw (None, None) (ap_world (si_app s)) = (Inr (LoginSuccess tok e), w') \<and>
    ap_world (si_app s') = w' \<and> ex = JStr (fr_rfc3339 (sc_front sc) e)"
    using assms
    by (auto simp: with_tenant_def with_body_def refuse_def reply_def on_site_def on_app_def on_world_def email_password_route_def
        bindE_run error_value_def into_response_def split: sum.splits option.splits prod.splits if_splits login_result.splits
        elim!: login_result_json.elims)
  then show thesis using that by blast
qed

text \<open>A session handed out for the token \<^term>\<open>tok\<close> is what a later validation of the token reports.\<close>

definition honoured :: "finder \<Rightarrow> service \<Rightarrow> time \<Rightarrow> string \<Rightarrow> session_payload \<Rightarrow> site \<Rightarrow> bool" where
  "honoured pick sc now tok p s \<longleftrightarrow> (\<forall>now' d rq. now \<le> now' \<longrightarrow> now' < sp_expires_at p \<longrightarrow> rq_auth rq = Some (''Bearer '' @ tok) \<longrightarrow>
     serve pick sc d now' GET ''/session/validate'' rq s = ((200, JsonBody (validated_session (sc_front sc) p)), s))"

lemma created_session_honoured:
  assumes "finder_ok pick" "do_create_session (sc_ext sc) now tok' tid u c w = (Inr (LoginSuccess tok e), w')"
    and "\<not> c_uses_redis (sc_ext sc)" "pg_ok (sc_ext sc) now w" "payload_storable (sc_ext sc) p"
    and "p = session_payload_of w tid u c e" "ap_world (si_app s) = w'"
  shows "honoured pick sc now tok p s"
proof -
  have e: "sp_expires_at p = e" using assms(6) by (simp add: session_payload_of_def)
  show ?thesis
    unfolding honoured_def serve_validate [OF assms(1)] e
  proof (intro allI impI)
    fix now' :: time and d :: draws and rq :: request
    assume t: "now \<le> now'" "now' < e" and rq: "rq_auth rq = Some (''Bearer '' @ tok)"
    have "store_get (sc_ext sc) now' tok w' = (Inr (Some p), w')"
      using created_session_stands [OF assms(2-4,6,5) t] by simp
    then show "session_action sc d now' rq SessionValidate s = ((200, JsonBody (validated_session (sc_front sc) p)), s)"
      using validate_live [of sc now' tok s p rq d] rq assms(7) by simp
  qed
qed

subsection \<open>The property\<close>

text \<open>C5. Signing in over HTTP: with the sessions in PostgreSQL, a login by e-mail that is answered with a session token was made
  with the tenant header and the body of an account of that tenant whose password it has, which is active, not locked
  and without a second factor, and the token is that account's: until the time in the answer, every later request to
  validate it is answered with that tenant, user and identity and with the roles and permissions that the tables held at
  the login.\<close>

theorem email_login_over_http:
  assumes "finder_ok pick" "accounts_ok (ap_world (si_app s))"
    and "\<not> c_uses_redis (sc_ext sc)" "pg_ok (sc_ext sc) now (ap_world (si_app s))"
    and "serve pick sc d now POST ''/login/email-password'' rq s
      = ((200, JsonBody (JObj [(''sessionToken'', JStr tok), (''expiresAt'', ex)])), s')"
  shows "\<exists>t email pw m i h e p. tenant_from_parts (rq_tenant rq) = Inr t \<and>
    Option.bind (sc_json sc (rq_body rq)) email_password_body = Some (email, pw) \<and>
    m \<in> set (t_users (ap_world (si_app s))) \<and> i \<in> set (t_identities (ap_world (si_app s))) \<and>
    m_tenant_id m = t \<and> m_identity_id m = i_id i \<and> i_email i = Some email \<and> admissible now m i \<and>
    i_password_hash i = Some h \<and> x_argon2_verify (sc_ext sc) h pw = Inr True \<and> \<not> i_mfa_enabled i \<and>
    ex = JStr (fr_rfc3339 (sc_front sc) e) \<and>
    p = session_payload_of (ap_world (si_app s)) t (row_to_user m i) (None, None) e \<and>
    (payload_storable (sc_ext sc) p \<longrightarrow> honoured pick sc now tok p s')"
proof -
  let ?w = "ap_world (si_app s)"
  obtain t email pw e w' where req: "tenant_from_parts (rq_tenant rq) = Inr t"
      "Option.bind (sc_json sc (rq_body rq)) email_password_body = Some (email, pw)"
    and login: "login_email_password (sc_ext sc) now (dr_token d) t email pw (None, None) ?w = (Inr (LoginSuccess tok e), w')"
    and s': "ap_world (si_app s') = w'" and ex: "ex = JStr (fr_rfc3339 (sc_front sc) e)"
    using login_answered [OF assms(5) [unfolded serve_login [OF assms(1)]]] .
  obtain m i h w3 where acc: "m \<in> set (t_users ?w)" "i \<in> set (t_identities ?w)" "m_tenant_id m = t" "m_identity_id m = i_id i"
      "i_email i = Some email" "admissible now m i" "i_password_hash i = Some h" "x_argon2_verify (sc_ext sc) h pw = Inr True"
      "\<not> i_mfa_enabled i"
    and w3: "t_sessions w3 = t_sessions ?w"
      "\<And>u. session_payload_of w3 t u (None, None) e = session_payload_of ?w t u (None, None) e"
    and made: "do_create_session (sc_ext sc) now (dr_token d) t (row_to_user m i) (None, None) w3 = (Inr (LoginSuccess tok e), w')"
    using email_login_holder [OF assms(2) login] by metis
  have "pg_ok (sc_ext sc) now w3" using assms(4) w3(1) by (simp add: pg_ok_def)
  then show ?thesis
    using created_session_honoured [OF assms(1) made assms(3) _ _ w3(2) [symmetric] s'] req acc ex by blast
qed

text \<open>Ann of acme signs in.\<close>

definition login_service :: service where
  "login_service = service0\<lparr>sc_server := (sc_server service0)\<lparr>sv_ext := login_ext,
       sv_front := front0\<lparr>fr_rfc3339 := (\<lambda>t. if t = secs 86400 then ''tomorrow'' else ''-'')\<rparr>\<rparr>,
     sc_json := (\<lambda>b. Some (JObj [(''email'', JStr ''ann@acme.io''), (''password'', JStr b)]))\<rparr>"

definition login_site :: site where
  "login_site = site0\<lparr>si_app := (si_app site0)\<lparr>ap_world := login_world (login_identity0 0 None 0)\<rparr>\<rparr>"

definition login_request :: request where
  "login_request = \<lparr>rq_query = [], rq_tenant = Some ''acme'', rq_auth = None, rq_is_json = True, rq_body = ''pw''\<rparr>"

lemma login_site_world: "ap_world (si_app login_site) = login_world (login_identity0 0 None 0)"
  by (simp add: login_site_def)

lemma login_service_ext: "sc_ext login_service = login_ext" "sc_front login_service = front0\<lparr>fr_rfc3339 := (\<lambda>t. if t = secs 86400 then ''tomorrow'' else ''-'')\<rparr>"
  by (simp_all add: login_service_def)

lemma login_claims:
  "m \<in> set (t_users (ap_world (si_app login_site))) \<Longrightarrow> i \<in> set (t_identities (ap_world (si_app login_site))) \<Longrightarrow>
   session_payload_of (ap_world (si_app login_site)) ''acme'' (row_to_user m i) (None, None) (secs 86400) = login_payload"
proof -
  assume "m \<in> set (t_users (ap_world (si_app login_site)))" "i \<in> set (t_identities (ap_world (si_app login_site)))"
  then have "row_to_user m i = login_user" by (simp add: login_site_world login_world_def login_user_def)
  moreover have "session_payload_of (login_world (login_identity0 0 None 0)) ''acme'' login_user (None, None) (secs 86400)
      = login_payload" by code_simp
  ultimately show ?thesis by (simp add: login_site_world)
qed

theorem email_login_over_http_witness:
  "\<exists>s'. serve finder0 login_service draws0 0 POST ''/login/email-password'' login_request login_site
      = ((200, JsonBody (JObj [(''sessionToken'', JStr ''tok''), (''expiresAt'', JStr ''tomorrow'')])), s') \<and>
    honoured finder0 login_service 0 ''tok'' login_payload s'"
proof -
  let ?r = "serve finder0 login_service draws0 0 POST ''/login/email-password'' login_request login_site"
  have "fst ?r = (200, JsonBody (JObj [(''sessionToken'', JStr ''tok''), (''expiresAt'', JStr ''tomorrow'')]))"
    unfolding serve_login [OF finder0_ok] by code_simp
  then have r: "?r = ((200, JsonBody (JObj [(''sessionToken'', JStr ''tok''), (''expiresAt'', JStr ''tomorrow'')])), snd ?r)"
    by (metis prod.collapse)
  have ok: "accounts_ok (ap_world (si_app login_site))"
    by (simp only: login_site_world, rule login_world_ok) (simp_all add: login_identity0_def mobile_pair_def)
  have st: "\<not> c_uses_redis (sc_ext login_service)" "pg_ok (sc_ext login_service) 0 (ap_world (si_app login_site))"
    by (simp_all add: login_service_ext login_ext_def ext0_def login_site_world login_world_def world0_def pg_ok_def unique_on_def)
  have t: "tenant_from_parts (rq_tenant login_request) = Inr ''acme''" by code_simp
  have expiry: "e = secs 86400" if "JStr ''tomorrow'' = JStr (fr_rfc3339 (sc_front login_service) e)" for e
    using that by (simp add: login_service_ext split: if_splits)
  have "payload_storable (sc_ext login_service) login_payload"
    by (simp add: login_service_ext payload_storable_def login_ext_def ext0_def login_payload_def valid_uuid_def)
  then have "honoured finder0 login_service 0 ''tok'' login_payload (snd ?r)"
    using email_login_over_http [OF finder0_ok ok st r] t login_claims expiry by fastforce
  then show ?thesis using r by blast
qed

end
