(* ===== verification/Spec2Isabelle.thy ===== *)
theory Spec2Isabelle
  imports Rsql_Filter Rate_Limit Auth_Passwords Access_Sound Oauth_Sound Routes_Admin Routes_Sound Login_Errors Http_Tenants Http_Documented Http_Login
begin

text \<open>
  A verification development for \<^verbatim>\<open>authrs\<close>, a multi-tenant authentication and authorisation service
  written in Rust (axum handlers, sqlx on PostgreSQL, optionally Redis, the Cedar policy library).

  \<^bold>\<open>The program.\<close> An \<^emph>\<open>identity\<close> (e-mail, mobile, password hash, second factor) is global; a
  \<^emph>\<open>user\<close> is its membership in one tenant. Logins (password, e-mail code, OAuth, identity first with a choice
  of tenant, second factor, forced password change) go through \<^verbatim>\<open>services/auth.rs\<close>, which reads the tenant's
  settings, the repositories and the token tables and, on success, writes a session with the roles, permissions
  and groups the user holds. Requests are authorised by \<^verbatim>\<open>middleware/rbac.rs\<close>: the documents attached to the
  session's roles are compiled to Cedar policies and evaluated. Lists in the administration are filtered by
  a query language (RSQL) that is translated to SQL.

  \<^bold>\<open>How the model is built.\<close> A handler is a function of type \<open>('s, 'a) io\<close> (theory \<open>Errors\<close>): from a
  state to an \<open>app_error\<close> or a result, and the state afterwards; an error does not undo what was written before
  it, except within \<open>in_tx\<close>. The tables of the migrations are the fields of the record \<open>world\<close> (theory
  \<open>Domain\<close>), lists of rows in insertion order; it also has the settings cache and Redis. Statements are
  \<open>sql_fetch\<close>, \<open>sql_select\<close>, \<open>sql_insert\<close>, \<open>sql_update\<close> and \<open>sql_delete\<close> over these lists, and an insert fails
  as the constraints of its table demand (CHECK, then UNIQUE, then foreign keys). The larger states of
  some components contain a \<open>world\<close>: \<open>app\<close> (policy cache and schema), \<open>oauth_app\<close> (signing-key cache) and
  \<open>post_app\<close> (mails handed to the relay); \<open>site\<close> has all of it. The time, fresh ids, tokens, salts and nonces are
  arguments. A request goes through \<open>serve\<close> (theory \<open>Http\<close>): the route tables choose the handler, its
  arguments are extracted, and what it returns or fails with becomes the response.

  Code that is not in the repository is a parameter: \<open>ext\<close> (hashing, encryption, encodings, TOTP, JSON texts,
  and the four settings the services hold), \<open>cedar\<close> (the policy library), \<open>oidc\<close> (HTTP and
  JWT for OAuth), \<open>front\<close> (mail relay, date texts), \<open>lettre\<close> (mail) and \<open>pg\<close> (evaluation of a list query). What
  the theorems need of it is a named hypothesis (such as \<open>b64_correct\<close> or \<open>aead_correct\<close>), and
  \<open>ext0\<close> is the concrete instance of the examples.

  \<^bold>\<open>The theories.\<close>
    \<^item> \<open>Prelude\<close>: operations of the Rust standard library on texts, characters and vectors. \<open>Errors\<close>:
      \<^verbatim>\<open>error.rs\<close>, the effect combinators and the collections \<open>keeps_rules\<close>, \<open>readonly_rules\<close>, \<open>fails_rules\<close>.
    \<^item> \<open>Rsql\<close>, \<open>Rsql_Filter\<close>: \<^verbatim>\<open>query/rsql.rs\<close>, \<^verbatim>\<open>query/filter.rs\<close>, \<^verbatim>\<open>query/mod.rs\<close>. The parser inverts printing; the SQL
      text of a filter contains no value of the user, has no top-level OR, numbers its placeholders in step with
      the bound values, and a filter is accepted exactly when its fields and operators are allowed.
    \<^item> \<open>Domain\<close>, \<open>Crypto\<close>, \<open>Identities_Repo\<close>, \<open>Users_Repo\<close>, \<open>Token_Repos\<close>, \<open>Roles_Repo\<close>, \<open>Groups_Repo\<close>: \<^verbatim>\<open>domain\<close>,
      \<^verbatim>\<open>crypto.rs\<close> and \<^verbatim>\<open>repo\<close>. \<open>Token_Repos\<close> states the life cycle of a token once, in the locale \<open>token_repo\<close>,
      and interprets it for the four kinds. The role hierarchy stays acyclic within a tenant, the walk to
      the ancestors returns all of them, and a user holds what the roles and their ancestors hold.
    \<^item> \<open>Session_Store\<close>, \<open>Rate_Limit\<close>: the two session stores and the two rate limiters behind their traits,
      each trait a locale (\<open>session_store\<close>, \<open>rate_limiter\<close>) with both implementations as interpretations. The lifetimes of
      sessions are free; what Redis needs of a new session, since its code cuts the set of a user's tokens
      short, is the condition \<open>store_fits\<close>.
    \<^item> \<open>Tenant_Config\<close>: \<^verbatim>\<open>repo/kv_store.rs\<close> and \<^verbatim>\<open>services/tenant_config.rs\<close>, with the bound on stale settings.
    \<^item> \<open>Mfa\<close>: \<^verbatim>\<open>repo/mfa.rs\<close>, \<^verbatim>\<open>services/mfa.rs\<close>: no backup code is accepted twice, and no TOTP
      step until the second factor is turned off.
    \<^item> \<open>Auth_Service\<close>: the operations of \<^verbatim>\<open>services/auth.rs\<close>. On it: \<open>Auth_Logins\<close> (lockout: the spacing of wrong guesses
      until a successful login clears the counter), \<open>Auth_Sound\<close> (what a
      login with a password or a second factor implies, what its session denotes), \<open>Auth_Accounts\<close> (the
      invariant of accounts under every operation), \<open>Auth_Doors\<close> (the gates, archived users, OAuth),
      \<open>Auth_Passwords\<close> (resets), \<open>Login_Frames\<close>, \<open>Lock_Expiry\<close> and \<open>Login_Errors\<close> (what a login leaves alone, that a
      lock ends, what a refused login leaves behind).
    \<^item> \<open>Policy_Resource\<close>, \<open>Policy_Engine\<close>, \<open>Permissions\<close>, \<open>Packages\<close>, \<open>Access\<close>: \<^verbatim>\<open>policy\<close>, the permission and package
      repositories and services, the guards of \<^verbatim>\<open>api\<close> and \<^verbatim>\<open>middleware\<close> and the permission handlers.
      \<open>Permissions_Loadable\<close> shows that every stored document loads, \<open>Access_Sound\<close> that a request is allowed exactly
      when a document attached to a held role allows it and none forbids it.
    \<^item> \<open>Oauth\<close>, \<open>Oauth_Sound\<close>: \<^verbatim>\<open>services/oauth.rs\<close> and the OAuth handlers.
    \<^item> \<open>Routes_Auth\<close>, \<open>Routes_Session\<close>, \<open>Routes_Admin\<close>: the handlers of \<^verbatim>\<open>routes\<close> with their responses. \<open>Otp_Sound\<close>,
      \<open>Session_Sound\<close> and \<open>Routes_Sound\<close>: one-time passwords, logging out, and what a reset request reveals.
    \<^item> \<open>Startup\<close>, \<open>Server\<close>: \<^verbatim>\<open>config.rs\<close>, \<^verbatim>\<open>seed.rs\<close>, \<^verbatim>\<open>email.rs\<close>, \<^verbatim>\<open>api/state.rs\<close> and the start of \<^verbatim>\<open>main.rs\<close>.
    \<^item> \<open>Http_Routes\<close>: the routers of \<^verbatim>\<open>routes\<close> and dispatch; every registered route is reached and none conflicts.
      \<open>Api_Doc\<close>: the document of \<^verbatim>\<open>openapi.rs\<close>, which describes exactly these routes.
    \<^item> \<open>Http_Bodies\<close>, \<open>Http\<close>: the structs of bodies and queries with their decoding, the extraction of the arguments
      of each handler and \<open>serve\<close>. On it: \<open>Http_Sound\<close> (refused requests change nothing; the administration does not
      look at the \<^verbatim>\<open>Authorization\<close> header), \<open>Http_Tenants\<close> (administration leaves the rows, the
      identities and, but for four removals that take no tenant, the assignments of other tenants alone),
      \<open>Http_Documented\<close> (a body without a documented required field is refused, and which bodies are not
      documented) and \<open>Http_Login\<close> (a login and the
      later use of its session, as two requests).

  \<^bold>\<open>Order of operations.\<close> Claims about all histories are rule inductions over step relations:
  \<open>open_step\<close> and \<open>account_step\<close> (the operations of the authentication service), \<open>wrong_guess\<close>, \<open>guess_run\<close>
  and \<open>guess_history\<close> (lockout, with the steps that clear the counter), \<open>mfa_run\<close> (every operation on a second factor), \<open>otp_run\<close>, \<open>oauth_run\<close>, \<open>roles_run\<close>, \<open>config_run\<close>, \<open>permission_step\<close> and \<open>permission_change\<close>.
  Each step is one whole handler at one instant, also where the handler reads the clock several times.

  \<^bold>\<open>Bounds and termination.\<close> The parser of RSQL and the recursive query for inherited permissions are total
  functions with their termination proofs. The recursive query for the ancestors of a role is run with fuel
  \<open>chain_fuel\<close>, and running out is a value of its own: on an acyclic hierarchy, which the operations
  keep, the fuel is enough. Session lifetimes are 64-bit words as in the code; the
  clock is an integer number of microseconds.

  \<^bold>\<open>Not modelled.\<close> Failing connections (of the database, Redis or HTTP, beyond the errors the parameters
  return), interleaving of two handlers between their statements, lengths of VARCHAR columns, overflow
  of chrono's durations and of the counters of failed attempts (32 bits in the tables, \<open>int\<close> here), and texts outside ASCII. A JSONB column returns the value as it was stored.
  How axum finds the pattern of a path, percent-encoding in paths, its answers to \<^verbatim>\<open>HEAD\<close> and \<^verbatim>\<open>OPTIONS\<close> and the
  texts of its rejections, how serde reads the text of a body, and how utoipa writes the document are the
  libraries'; so are the limit on the length of a body and the CORS headers. The logger, the migrations (their
  tables and constraints are the world), the creation of the database, the process entries and the list of
  modules (\<^verbatim>\<open>logging.rs\<close>, \<^verbatim>\<open>db.rs\<close>, \<^verbatim>\<open>bin/seed.rs\<close>, \<^verbatim>\<open>lib.rs\<close>) hold no logic of the service, and the in-crate tests are
  not part of it.
\<close>

end
